(* ===== verification/Prelude.thy ===== *)
theory Prelude
  imports Main "HOL-Library.Char_ord" "HOL-Library.List_Lexorder" "HOL-Library.Product_Lexorder"
    "HOL-Library.Sublist"
begin

text \<open>
  Shared ground of the development: the result type of fallible Go functions, Go's 64-bit
  \<open>int\<close>, the two row operations every SQL statement of the store comes down to (update the rows
  that satisfy a condition, delete the rows that satisfy it) and the list lemmas about them, and
  the named collections the component proofs rewrite with.
\<close>

named_theorems go_simps \<open>equations of the modelled Go library functions\<close>
named_theorems row_simps \<open>rewriting of row-wise table operations\<close>

subsection \<open>Results and errors\<close>

type_synonym ('e, 'a) res = "'e + 'a"

abbreviation Err :: "'e \<Rightarrow> ('e, 'a) res" where
  "Err e \<equiv> Inl e"

abbreviation Ok :: "'a \<Rightarrow> ('e, 'a) res" where
  "Ok a \<equiv> Inr a"

definition is_ok :: "('e, 'a) res \<Rightarrow> bool" where
  "is_ok r = (case r of Inl _ \<Rightarrow> False | Inr _ \<Rightarrow> True)"

lemma is_ok_simps [simp]: "is_ok (Ok a)" "\<not> is_ok (Err e)"
  by (simp_all add: is_ok_def)

lemma is_ok_iff: "is_ok r \<longleftrightarrow> (\<exists>a. r = Ok a)"
  by (cases r) auto

subsection \<open>Go's 64-bit int\<close>

text \<open>Every \<open>int\<close> of the source is 64 bits wide; \<open>wrap64\<close> is the two's complement wrap-around.\<close>

definition wrap64 :: "int \<Rightarrow> int" where
  "wrap64 x = (x + 2 ^ 63) mod 2 ^ 64 - 2 ^ 63"

definition max_int64 :: int where "max_int64 = 2 ^ 63 - 1"
definition min_int64 :: int where "min_int64 = - (2 ^ 63)"

definition int64_range :: "int \<Rightarrow> bool" where
  "int64_range x \<longleftrightarrow> min_int64 \<le> x \<and> x \<le> max_int64"

lemma wrap64_id: "int64_range x \<Longrightarrow> wrap64 x = x"
  by (simp add: wrap64_def int64_range_def min_int64_def max_int64_def)

lemma wrap64_range: "int64_range (wrap64 x)"
proof -
  define m where "m = (x + 2 ^ 63) mod (2 ^ 64 :: int)"
  have "0 \<le> m" and "m < 2 ^ 64" by (simp_all add: m_def)
  then have "- (2 ^ 63) \<le> m - 2 ^ 63 \<and> m - 2 ^ 63 \<le> 2 ^ 63 - 1" by simp
  then show ?thesis
    by (simp only: wrap64_def int64_range_def min_int64_def max_int64_def m_def)
qed

text \<open>Go's integer division truncates towards zero.\<close>

definition quot :: "int \<Rightarrow> int \<Rightarrow> int" where
  "quot a b = sgn a * sgn b * (\<bar>a\<bar> div \<bar>b\<bar>)"

subsection \<open>Row-wise updates\<close>

definition upd_where :: "('r \<Rightarrow> bool) \<Rightarrow> ('r \<Rightarrow> 'r) \<Rightarrow> 'r list \<Rightarrow> 'r list" where
  "upd_where p f rs = map (\<lambda>r. if p r then f r else r) rs"

definition del_where :: "('r \<Rightarrow> bool) \<Rightarrow> 'r list \<Rightarrow> 'r list" where
  "del_where p rs = filter (\<lambda>r. \<not> p r) rs"

definition count_where :: "('r \<Rightarrow> bool) \<Rightarrow> 'r list \<Rightarrow> nat" where
  "count_where p rs = length (filter p rs)"

lemma upd_where_Nil [simp]: "upd_where p f [] = []"
  by (simp add: upd_where_def)

lemma upd_where_Cons [simp]:
  "upd_where p f (r # rs) = (if p r then f r else r) # upd_where p f rs"
  by (simp add: upd_where_def)

lemma length_upd_where [simp]: "length (upd_where p f rs) = length rs"
  by (simp add: upd_where_def)

lemma set_upd_where [row_simps]: "set (upd_where p f rs) = (\<lambda>r. if p r then f r else r) ` set rs"
  by (simp add: upd_where_def)

lemma set_del_where [row_simps, simp]: "set (del_where p rs) = {r \<in> set rs. \<not> p r}"
  by (simp add: del_where_def)

lemma map_upd_where [row_simps]:
  "(\<And>r. r \<in> set rs \<Longrightarrow> p r \<Longrightarrow> k (f r) = k r) \<Longrightarrow> map k (upd_where p f rs) = map k rs"
  by (simp add: upd_where_def)

lemma upd_where_none: "(\<And>r. r \<in> set rs \<Longrightarrow> \<not> p r) \<Longrightarrow> upd_where p f rs = rs"
  by (induction rs) auto

lemma del_where_none: "(\<And>r. r \<in> set rs \<Longrightarrow> \<not> p r) \<Longrightarrow> del_where p rs = rs"
  by (simp add: del_where_def)

lemma distinct_map_del_where: "distinct (map k rs) \<Longrightarrow> distinct (map k (del_where p rs))"
  by (simp add: del_where_def distinct_map_filter)

lemma filter_upd_where:
  "(\<And>r. r \<in> set rs \<Longrightarrow> p r \<Longrightarrow> q (f r) = q r) \<Longrightarrow>
   filter q (upd_where p f rs) = upd_where p f (filter q rs)"
  by (induction rs) auto

subsection \<open>Unique keys\<close>

text \<open>A list of rows with distinct keys is a finite map; \<open>find\<close> is its lookup.\<close>

lemma find_key_eq:
  assumes "distinct (map k rs)" and "r \<in> set rs"
  shows "find (\<lambda>x. k x = k r) rs = Some r"
  using assms by (induction rs) (auto simp: rev_image_eqI)

lemma distinct_map_inj:
  "distinct (map k rs) \<Longrightarrow> r \<in> set rs \<Longrightarrow> r' \<in> set rs \<Longrightarrow> k r = k r' \<Longrightarrow> r = r'"
  by (simp add: distinct_map inj_on_def)

lemma find_Some_iff': "find p rs = Some r \<Longrightarrow> r \<in> set rs \<and> p r"
  by (induction rs) (auto split: if_splits)

lemma find_None_iff': "find p rs = None \<longleftrightarrow> (\<forall>r \<in> set rs. \<not> p r)"
  by (induction rs) auto

lemma find_upd_where_key:
  assumes "\<And>r. k (f r) = k r"
  shows "find (\<lambda>r. k r = x) (upd_where p f rs) =
    map_option (\<lambda>r. if p r then f r else r) (find (\<lambda>r. k r = x) rs)"
  using assms by (induction rs) auto

text \<open>Updating the row with key \<open>x\<close>: afterwards it is the updated row, every other row is as it was.\<close>

lemma upd_where_at_key:
  assumes "distinct (map k rs)" and b: "b \<in> set rs" "k b = x" "k (f b) = x"
  shows "{r \<in> set (upd_where (\<lambda>r. k r = x) f rs). k r = x} = {f b}"
proof (intro equalityI subsetI)
  fix r assume r: "r \<in> {r \<in> set (upd_where (\<lambda>r. k r = x) f rs). k r = x}"
  then obtain s where s: "s \<in> set rs" "r = (if k s = x then f s else s)" "k r = x"
    unfolding set_upd_where by blast
  then have "k s = x" by (simp split: if_splits)
  with s b have "s = b" by (intro distinct_map_inj [OF assms(1)]) simp_all
  with s b show "r \<in> {f b}" by simp
next
  fix r assume "r \<in> {f b}"
  moreover have "(if k b = x then f b else b) \<in> (\<lambda>r. if k r = x then f r else r) ` set rs"
    using b(1) by (rule imageI)
  ultimately show "r \<in> {r \<in> set (upd_where (\<lambda>r. k r = x) f rs). k r = x}"
    unfolding set_upd_where using b(2,3) by simp
qed

lemma upd_where_off_key:
  assumes "\<And>r. k r = x \<Longrightarrow> k (f r) = x"
  shows "{r \<in> set (upd_where (\<lambda>r. k r = x) f rs). k r \<noteq> x} = {r \<in> set rs. k r \<noteq> x}"
  using assms by (induction rs) auto

lemma distinct_key_count:
  "distinct (map k rs) \<Longrightarrow> count_where (\<lambda>r. k r = x) rs \<le> 1"
proof (induction rs)
  case Nil
  then show ?case by (simp add: count_where_def)
next
  case (Cons r rs)
  show ?case
  proof (cases "k r = x")
    case True
    with Cons.prems have "\<And>s. s \<in> set rs \<Longrightarrow> k s \<noteq> x" by (auto simp: image_iff)
    then have "filter (\<lambda>r. k r = x) rs = []" by (simp add: filter_empty_conv)
    then show ?thesis by (simp add: count_where_def)
  next
    case False
    with Cons show ?thesis by (simp add: count_where_def)
  qed
qed

subsection \<open>Prefixes\<close>

lemma prefix_take_iff: "prefix p m \<longleftrightarrow> take (length p) m = p"
proof
  assume "take (length p) m = p"
  then show "prefix p m" using take_is_prefix [of "length p" m] by simp
qed (auto simp: prefix_def)

subsection \<open>Splitting at a separator\<close>

lemma split_at_first:
  "s @ c # t = s' @ c # t' \<Longrightarrow> c \<notin> set s \<Longrightarrow> c \<notin> set s' \<Longrightarrow> s = s' \<and> t = t'"
proof (induction s arbitrary: s')
  case Nil
  then show ?case by (cases s') auto
next
  case (Cons a s)
  then show ?case by (cases s') auto
qed

lemma split_at_last:
  assumes "s @ c # t = s' @ c # t'" and "c \<notin> set t" and "c \<notin> set t'"
  shows "s = s' \<and> t = t'"
proof -
  have "rev t @ c # rev s = rev t' @ c # rev s'"
    using arg_cong [OF assms(1), of rev] by simp
  from split_at_first [OF this] assms(2,3) show ?thesis by simp
qed

subsection \<open>Pages of a list\<close>

lemma take_drop_pages: "concat (map (\<lambda>i. take l (drop (i * l) xs)) [0..<n]) = take (n * l) xs"
proof (induction n)
  case 0
  then show ?case by simp
next
  case (Suc n)
  have "take (n * l) xs @ take l (drop (n * l) xs) = take (n * l + l) xs"
    by (simp add: take_add)
  with Suc show ?case by (simp add: add.commute)
qed

end
