(* ===== verification/GoStrings.thy ===== *)
theory GoStrings
  imports Prelude
begin

text \<open>
  The part of Go's \<open>strings\<close> and \<open>strconv\<close> packages the program uses. A Go string is a list of
  bytes, which is what HOL's \<open>string\<close> is. White space is Go's: the ASCII characters and the
  UTF-8 encodings of the Unicode \<open>White_Space\<close> characters. Case mapping outside ASCII needs the
  Unicode tables, which are not part of the program: they are the parameter \<open>uni\<close>.
\<close>

subsection \<open>Bytes and white space\<close>

abbreviation byte :: "nat \<Rightarrow> char" where
  "byte n \<equiv> char_of n"

abbreviation code :: "char \<Rightarrow> nat" where
  "code c \<equiv> of_char c"

definition is_digit :: "char \<Rightarrow> bool" where
  "is_digit c \<longleftrightarrow> 48 \<le> code c \<and> code c \<le> 57"

definition is_upper :: "char \<Rightarrow> bool" where
  "is_upper c \<longleftrightarrow> 65 \<le> code c \<and> code c \<le> 90"

definition is_lower :: "char \<Rightarrow> bool" where
  "is_lower c \<longleftrightarrow> 97 \<le> code c \<and> code c \<le> 122"

definition ascii_space :: "char \<Rightarrow> bool" where
  "ascii_space c \<longleftrightarrow> code c = 32 \<or> (9 \<le> code c \<and> code c \<le> 13)"

definition wide_spaces :: "string list" where
  "wide_spaces = map (map byte)
    ([[194, 133], [194, 160], [225, 154, 128]] @ map (\<lambda>i. [226, 128, i]) [128..<139] @
     [[226, 128, 168], [226, 128, 169], [226, 128, 175], [226, 129, 159], [227, 128, 128]])"

text \<open>Length of the white space character a string begins (ends) with, 0 if there is none.\<close>

definition space_at_front :: "string \<Rightarrow> nat" where
  "space_at_front s = (case s of [] \<Rightarrow> 0
     | c # _ \<Rightarrow> if ascii_space c then 1
               else (case find (\<lambda>w. prefix w s) wide_spaces of None \<Rightarrow> 0 | Some w \<Rightarrow> length w))"

definition space_at_back :: "string \<Rightarrow> nat" where
  "space_at_back s = (if s = [] then 0
     else if ascii_space (last s) then 1
     else (case find (\<lambda>w. suffix w s) wide_spaces of None \<Rightarrow> 0 | Some w \<Rightarrow> length w))"

lemma space_at_front_Nil [simp]: "space_at_front [] = 0"
  by (simp add: space_at_front_def)

lemma space_at_back_Nil [simp]: "space_at_back [] = 0"
  by (simp add: space_at_back_def)

function trim_left :: "string \<Rightarrow> string" where
  "trim_left s = (if space_at_front s = 0 then s else trim_left (drop (space_at_front s) s))"
  by pat_completeness auto
termination
proof (relation "measure length")
  fix s assume h: "space_at_front s \<noteq> 0"
  then have "s \<noteq> []" by auto
  with h show "(drop (space_at_front s) s, s) \<in> measure length" by (cases s) auto
qed simp

function trim_right :: "string \<Rightarrow> string" where
  "trim_right s = (if space_at_back s = 0 then s
     else trim_right (take (length s - space_at_back s) s))"
  by pat_completeness auto
termination
proof (relation "measure length")
  fix s assume h: "space_at_back s \<noteq> 0"
  then have "s \<noteq> []" by auto
  with h show "(take (length s - space_at_back s) s, s) \<in> measure length" by (cases s) auto
qed simp

declare trim_left.simps [simp del] trim_right.simps [simp del]

definition TrimSpace :: "string \<Rightarrow> string" where
  "TrimSpace s = trim_right (trim_left s)"

lemma trim_left_done: "space_at_front (trim_left s) = 0"
proof (induction s rule: trim_left.induct)
  case (1 s)
  then show ?case by (cases "space_at_front s = 0") (simp_all add: trim_left.simps [of s])
qed

lemma trim_right_done: "space_at_back (trim_right s) = 0"
proof (induction s rule: trim_right.induct)
  case (1 s)
  then show ?case by (cases "space_at_back s = 0") (simp_all add: trim_right.simps [of s])
qed

lemma trim_right_prefix: "prefix (trim_right s) s"
proof (induction s rule: trim_right.induct)
  case (1 s)
  show ?case
  proof (cases "space_at_back s = 0")
    case True
    then show ?thesis by (simp add: trim_right.simps [of s])
  next
    case False
    with 1 have "prefix (trim_right s) (take (length s - space_at_back s) s)"
      by (simp add: trim_right.simps [of s])
    then show ?thesis using take_is_prefix prefix_order.trans by blast
  qed
qed

lemma trim_left_suffix: "suffix (trim_left s) s"
proof (induction s rule: trim_left.induct)
  case (1 s)
  show ?case
  proof (cases "space_at_front s = 0")
    case True
    then show ?thesis by (simp add: trim_left.simps [of s])
  next
    case False
    with 1 have "suffix (trim_left s) (drop (space_at_front s) s)"
      by (simp add: trim_left.simps [of s])
    then show ?thesis using suffix_drop suffix_order.trans by blast
  qed
qed

lemma space_at_front_prefix:
  assumes "space_at_front s = 0" and "prefix p s"
  shows "space_at_front p = 0"
proof (cases p)
  case Nil
  then show ?thesis by simp
next
  case (Cons c p')
  with assms(2) obtain s' where s: "s = c # s'" by (auto simp: prefix_def)
  with assms(1) have c: "\<not> ascii_space c"
    and none: "\<And>w. find (\<lambda>w. prefix w s) wide_spaces = Some w \<Longrightarrow> w = []"
    by (auto simp: space_at_front_def split: if_splits option.splits)
  have ne: "\<And>w. w \<in> set wide_spaces \<Longrightarrow> w \<noteq> []" by (auto simp: wide_spaces_def)
  have "find (\<lambda>w. prefix w s) wide_spaces = None"
    using none ne find_Some_iff' by (metis not_None_eq)
  then have "find (\<lambda>w. prefix w p) wide_spaces = None"
    using assms(2) by (auto simp: find_None_iff' dest: prefix_order.trans)
  with c Cons show ?thesis by (simp add: space_at_front_def)
qed

theorem TrimSpace_idem: "TrimSpace (TrimSpace s) = TrimSpace s"
proof -
  let ?t = "TrimSpace s"
  have "space_at_front ?t = 0"
    unfolding TrimSpace_def using trim_left_done trim_right_prefix by (rule space_at_front_prefix)
  moreover have "space_at_back ?t = 0" by (simp add: TrimSpace_def trim_right_done)
  ultimately show ?thesis
    by (simp add: TrimSpace_def [of ?t] trim_left.simps [of ?t] trim_right.simps [of ?t])
qed

lemma TrimSpace_sublist: "sublist (TrimSpace s) s"
  unfolding TrimSpace_def
  using trim_right_prefix [of "trim_left s"] trim_left_suffix [of s]
  by (meson prefix_imp_sublist suffix_imp_sublist sublist_order.order.trans)

lemma TrimSpace_set: "set (TrimSpace s) \<subseteq> set s"
  using TrimSpace_sublist by (rule set_mono_sublist)

lemma TrimSpace_Nil [simp]: "TrimSpace [] = []"
  by (simp add: TrimSpace_def trim_left.simps [of "[]"] trim_right.simps [of "[]"])

text \<open>A string with ordinary ASCII characters at both ends is not changed by trimming.\<close>

lemma wide_spaces_high: "w \<in> set wide_spaces \<Longrightarrow> w \<noteq> [] \<and> (\<forall>x \<in> set w. 128 \<le> (code x :: nat))"
  by (auto simp: wide_spaces_def)

lemma space_at_front_ascii:
  assumes "code c < (128::nat)" and "\<not> ascii_space c"
  shows "space_at_front (c # s) = 0"
proof -
  have "\<not> prefix w (c # s)" if "w \<in> set wide_spaces" for w
    using wide_spaces_high [OF that] assms(1) by (cases w) auto
  then have "find (\<lambda>w. prefix w (c # s)) wide_spaces = None" by (simp add: find_None_iff')
  with assms(2) show ?thesis by (simp add: space_at_front_def)
qed

lemma space_at_back_ascii:
  assumes "code c < (128::nat)" and "\<not> ascii_space c"
  shows "space_at_back (s @ [c]) = 0"
proof -
  have "\<not> suffix w (s @ [c])" if "w \<in> set wide_spaces" for w
    using wide_spaces_high [OF that] assms(1) by (cases w rule: rev_cases) (auto simp: suffix_def)
  then have "find (\<lambda>w. suffix w (s @ [c])) wide_spaces = None" by (simp add: find_None_iff')
  with assms(2) show ?thesis by (simp add: space_at_back_def)
qed

definition plain :: "char \<Rightarrow> bool" where
  "plain c \<longleftrightarrow> code c < (128::nat) \<and> \<not> ascii_space c"

lemma TrimSpace_plain:
  assumes "s \<noteq> []" and "plain (hd s)" and "plain (last s)"
  shows "TrimSpace s = s"
proof -
  have "space_at_front s = 0"
    using assms space_at_front_ascii [of "hd s" "tl s"] by (simp add: plain_def)
  moreover have "space_at_back s = 0"
    using assms space_at_back_ascii [of "last s" "butlast s"] by (simp add: plain_def)
  ultimately show ?thesis
    by (simp add: TrimSpace_def trim_left.simps [of s] trim_right.simps [of s])
qed

subsection \<open>Case\<close>

record uni =
  u_lower :: "string \<Rightarrow> string" \<comment> \<open>\<open>unicode.ToLower\<close> over a string with a byte above 127\<close>
  u_fold :: "string \<Rightarrow> string \<Rightarrow> bool" \<comment> \<open>\<open>EqualFold\<close> where one side has a byte above 127\<close>

definition is_ascii :: "string \<Rightarrow> bool" where
  "is_ascii s = list_all (\<lambda>c. code c < 128) s"

definition lower_byte :: "char \<Rightarrow> char" where
  "lower_byte c = (if is_upper c then byte (code c + 32) else c)"

definition upper_byte :: "char \<Rightarrow> char" where
  "upper_byte c = (if is_lower c then byte (code c - 32) else c)"

definition ToLower :: "uni \<Rightarrow> string \<Rightarrow> string" where
  "ToLower u s = (if is_ascii s then map lower_byte s else u_lower u s)"

definition EqualFold :: "uni \<Rightarrow> string \<Rightarrow> string \<Rightarrow> bool" where
  "EqualFold u s t = (if is_ascii s \<and> is_ascii t then map lower_byte s = map lower_byte t
     else u_fold u s t)"

subsection \<open>Searching, splitting, joining\<close>

abbreviation HasPrefix :: "string \<Rightarrow> string \<Rightarrow> bool" where
  "HasPrefix s p \<equiv> prefix p s"

abbreviation HasSuffix :: "string \<Rightarrow> string \<Rightarrow> bool" where
  "HasSuffix s p \<equiv> suffix p s"

definition TrimPrefix :: "string \<Rightarrow> string \<Rightarrow> string" where
  "TrimPrefix s p = (if prefix p s then drop (length p) s else s)"

definition TrimSuffix :: "string \<Rightarrow> string \<Rightarrow> string" where
  "TrimSuffix s p = (if suffix p s then take (length s - length p) s else s)"

fun Contains :: "string \<Rightarrow> string \<Rightarrow> bool" where
  "Contains [] t = (t = [])"
| "Contains (c # s) t = (prefix t (c # s) \<or> Contains s t)"

lemma Contains_iff: "Contains s t \<longleftrightarrow> sublist t s"
  by (induction s t rule: Contains.induct) (auto simp: sublist_Cons_right)

fun IndexByte :: "string \<Rightarrow> char \<Rightarrow> nat option" where
  "IndexByte [] c = None"
| "IndexByte (x # s) c = (if x = c then Some 0 else map_option Suc (IndexByte s c))"

text \<open>\<open>strings.Split\<close> by one byte: always at least one piece.\<close>

fun Split :: "string \<Rightarrow> char \<Rightarrow> string list" where
  "Split [] c = [[]]"
| "Split (x # s) c = (if x = c then [] # Split s c
     else (case Split s c of [] \<Rightarrow> [[x]] | p # ps \<Rightarrow> (x # p) # ps))"

fun Join :: "string list \<Rightarrow> string \<Rightarrow> string" where
  "Join [] sep = []"
| "Join [s] sep = s"
| "Join (s # t # ss) sep = s @ sep @ Join (t # ss) sep"

definition ReplaceByte :: "string \<Rightarrow> char \<Rightarrow> char \<Rightarrow> string" where
  "ReplaceByte s a b = map (\<lambda>c. if c = a then b else c) s"

definition RemoveByte :: "string \<Rightarrow> char \<Rightarrow> string" where
  "RemoveByte s a = filter (\<lambda>c. c \<noteq> a) s"

function fields_from :: "string \<Rightarrow> string \<Rightarrow> string list" where
  "fields_from acc s = (case s of
     [] \<Rightarrow> if acc = [] then [] else [rev acc]
   | c # s' \<Rightarrow> if space_at_front s = 0 then fields_from (c # acc) s'
       else (if acc = [] then [] else [rev acc]) @ fields_from [] (drop (space_at_front s) s))"
  by pat_completeness auto
termination
  by (relation "measure (\<lambda>(acc, s). length s)") auto

declare fields_from.simps [simp del]

definition Fields :: "string \<Rightarrow> string list" where
  "Fields s = fields_from [] s"

lemma Split_nonempty [simp]: "Split s c \<noteq> []"
  by (induction s) (auto split: list.splits)

lemma Split_set: "p \<in> set (Split s c) \<Longrightarrow> c \<notin> set p \<and> set p \<subseteq> set s"
proof (induction s arbitrary: p)
  case Nil
  then show ?case by simp
next
  case (Cons x s)
  then show ?case by (cases "Split s c") (fastforce split: if_splits)+
qed

lemma Join_Split: "Join (Split s c) [c] = s"
proof (induction s)
  case Nil
  then show ?case by simp
next
  case (Cons x s)
  obtain p ps where ps: "Split s c = p # ps" by (cases "Split s c") auto
  with Cons show ?case by (cases ps) auto
qed

lemma Split_append_sep: "c \<notin> set s \<Longrightarrow> Split (s @ c # t) c = s # Split t c"
  by (induction s) auto

lemma Split_no_sep: "c \<notin> set s \<Longrightarrow> Split s c = [s]"
  by (induction s) auto

lemma IndexByte_None: "IndexByte s c = None \<longleftrightarrow> c \<notin> set s"
  by (induction s) auto

lemma IndexByte_Some:
  "IndexByte s c = Some i \<Longrightarrow> i < length s \<and> s ! i = c \<and> c \<notin> set (take i s)"
proof (induction s arbitrary: i)
  case Nil
  then show ?case by simp
next
  case (Cons x s)
  then show ?case by (cases "x = c") auto
qed

lemma IndexByte_append: "c \<notin> set s \<Longrightarrow> IndexByte (s @ c # t) c = Some (length s)"
  by (induction s) auto

subsection \<open>Decimal numbers\<close>

definition digit :: "nat \<Rightarrow> char" where
  "digit d = byte (48 + d)"

definition digit_val :: "char \<Rightarrow> nat" where
  "digit_val c = code c - 48"

fun nat_digits :: "nat \<Rightarrow> string" where
  "nat_digits n = (if n < 10 then [digit n] else nat_digits (n div 10) @ [digit (n mod 10)])"

declare nat_digits.simps [simp del]

definition Itoa :: "int \<Rightarrow> string" where
  "Itoa n = (if n < 0 then CHR ''-'' # nat_digits (nat (- n)) else nat_digits (nat n))"

definition max_uint64 :: nat where "max_uint64 = 2 ^ 64 - 1"

text \<open>
  \<open>ParseUint\<close> base 10: stops with the saturated value as soon as it overflows, without looking
  at the rest; \<open>None\<close> is a syntax error.
\<close>

fun parse_uint :: "nat \<Rightarrow> string \<Rightarrow> nat option" where
  "parse_uint n [] = Some n"
| "parse_uint n (c # s) = (if \<not> is_digit c then None
     else let m = n * 10 + digit_val c in
       if m > max_uint64 then Some max_uint64 else parse_uint m s)"

text \<open>
  \<open>strconv.Atoi\<close> (and \<open>ParseInt(s, 10, 64)\<close>): the value and whether the error is nil. An
  out-of-range number has the nearest bound as its value and an error.
\<close>

definition Atoi :: "string \<Rightarrow> int \<times> bool" where
  "Atoi s =
    (let neg = (case s of [] \<Rightarrow> False | c # _ \<Rightarrow> c = CHR ''-'');
         t = (case s of [] \<Rightarrow> [] | c # r \<Rightarrow> if c = CHR ''-'' \<or> c = CHR ''+'' then r else s)
     in if t = [] then (0, False)
        else case parse_uint 0 t of
          None \<Rightarrow> (0, False)
        | Some un \<Rightarrow>
            if \<not> neg \<and> un \<ge> 2 ^ 63 then (max_int64, False)
            else if neg \<and> un > 2 ^ 63 then (min_int64, False)
            else (if neg then - int un else int un, True))"

lemma code_byte: "n < 256 \<Longrightarrow> code (byte n) = n"
  by simp

lemma digit_is_digit [simp]: "d < 10 \<Longrightarrow> is_digit (digit d)"
  by (simp add: is_digit_def digit_def)

lemma digit_val_digit [simp]: "d < 10 \<Longrightarrow> digit_val (digit d) = d"
  by (simp add: digit_val_def digit_def)

lemma nat_digits_nonempty [simp]: "nat_digits n \<noteq> []"
  by (simp add: nat_digits.simps [of n])

lemma nat_digits_digits: "c \<in> set (nat_digits n) \<Longrightarrow> is_digit c"
proof (induction n rule: nat_digits.induct)
  case (1 n)
  then show ?case by (cases "n < 10") (auto simp: nat_digits.simps [of n])
qed

lemma parse_uint_snoc:
  "is_digit c \<Longrightarrow> parse_uint m (s @ [c]) = map_option
     (\<lambda>k. if k * 10 + digit_val c > max_uint64 then max_uint64 else k * 10 + digit_val c)
     (parse_uint m s)"
proof (induction s arbitrary: m)
  case Nil
  then show ?case by (simp add: Let_def)
next
  case (Cons x s)
  then show ?case by (auto simp: Let_def max_uint64_def)
qed

lemma parse_uint_digits: "n \<le> max_uint64 \<Longrightarrow> parse_uint 0 (nat_digits n) = Some n"
proof (induction n rule: nat_digits.induct)
  case (1 n)
  show ?case
  proof (cases "n < 10")
    case True
    with 1 show ?thesis by (simp add: nat_digits.simps [of n] Let_def max_uint64_def)
  next
    case False
    with 1 have "parse_uint 0 (nat_digits (n div 10)) = Some (n div 10)"
      by (simp add: max_uint64_def)
    moreover have "n div 10 * 10 + n mod 10 = n" by simp
    ultimately show ?thesis using False 1(2)
      by (simp add: nat_digits.simps [of n] parse_uint_snoc)
  qed
qed

lemma nat_digits_head:
  obtains c r where "nat_digits n = c # r" and "is_digit c"
  using nat_digits_digits [of _ n] by (cases "nat_digits n") auto

theorem Atoi_Itoa: "int64_range n \<Longrightarrow> Atoi (Itoa n) = (n, True)"
proof -
  assume r: "int64_range n"
  define m where "m = nat \<bar>n\<bar>"
  have m: "\<not> m > 2 ^ 63" "\<not> n < 0 \<Longrightarrow> \<not> m \<ge> 2 ^ 63"
    using r by (auto simp: int64_range_def min_int64_def max_int64_def m_def)
  then have p: "parse_uint 0 (nat_digits m) = Some m"
    by (intro parse_uint_digits) (simp add: max_uint64_def)
  obtain c s where cs: "nat_digits m = c # s" and c: "is_digit c" by (rule nat_digits_head)
  from c have c': "c \<noteq> CHR ''-''" "c \<noteq> CHR ''+''" by (auto simp: is_digit_def)
  show ?thesis
  proof (cases "n < 0")
    case True
    then have I: "Itoa n = CHR ''-'' # c # s" and "n = - int m"
      using cs by (simp_all add: Itoa_def m_def)
    then show ?thesis using p m(1) cs by (simp add: Atoi_def Let_def)
  next
    case False
    then have I: "Itoa n = c # s" and "n = int m"
      using cs by (simp_all add: Itoa_def m_def)
    then show ?thesis using p m(2) [OF False] cs c' by (simp add: Atoi_def Let_def)
  qed
qed

lemma parse_uint_bound: "n \<le> max_uint64 \<Longrightarrow> parse_uint n s = Some k \<Longrightarrow> k \<le> max_uint64"
  by (induction n s rule: parse_uint.induct) (auto simp: Let_def split: if_splits)

lemma Atoi_range: "int64_range (fst (Atoi s))"
proof -
  define t where "t = (case s of [] \<Rightarrow> [] | c # r \<Rightarrow> if c = CHR ''-'' \<or> c = CHR ''+'' then r else s)"
  define neg where "neg = (case s of [] \<Rightarrow> False | c # _ \<Rightarrow> c = CHR ''-'')"
  show ?thesis
  proof (cases "t = [] \<or> parse_uint 0 t = None")
    case True
    then show ?thesis
      by (auto simp: Atoi_def Let_def t_def [symmetric] int64_range_def min_int64_def max_int64_def
          split: option.splits)
  next
    case False
    then obtain un where un: "parse_uint 0 t = Some un" by auto
    have "\<not> neg \<Longrightarrow> \<not> un \<ge> 2 ^ 63 \<Longrightarrow> int un \<le> 2 ^ 63 - 1"
      and "neg \<Longrightarrow> \<not> un > 2 ^ 63 \<Longrightarrow> int un \<le> 2 ^ 63" by auto
    with False un show ?thesis
      by (auto simp: Atoi_def Let_def t_def [symmetric] neg_def [symmetric] int64_range_def
          min_int64_def max_int64_def)
  qed
qed

end
