(* ===== verification/GoJson.thy ===== *)
theory GoJson
  imports GoStrings
begin

text \<open>
  JSON values as the program uses them: what \<open>encoding/json\<close> writes for a Go value, how it decodes
  an object into a struct, and what Postgres accepts as \<open>JSONB\<close>. Documents are values, not text:
  numbers are integers or other literals, members keep their order. A struct field matches a member
  with the same name up to ASCII case; \<open>null\<close> leaves a field as it is; a member of the wrong type is
  an error.
\<close>

datatype json =
    JNull | JBool bool | JNum int | JFloat string | JStr string | JArr "json list"
  | JObj "(string \<times> json) list"

subsection \<open>Strings\<close>

definition cont_byte :: "char \<Rightarrow> bool" where
  "cont_byte c \<longleftrightarrow> 128 \<le> code c \<and> code c < (192::nat)"

definition byte_in :: "char \<Rightarrow> nat \<Rightarrow> nat \<Rightarrow> bool" where
  "byte_in c lo hi \<longleftrightarrow> lo \<le> code c \<and> code c \<le> hi"

text \<open>Length of the valid UTF-8 character at the front, 0 if there is none.\<close>

definition utf8_front :: "string \<Rightarrow> nat" where
  "utf8_front s = (case s of
      [] \<Rightarrow> 0
    | a # r \<Rightarrow>
        if byte_in a 0 127 then 1
        else (case r of [] \<Rightarrow> 0
          | b # r \<Rightarrow>
            if byte_in a 194 223 \<and> cont_byte b then 2
            else (case r of [] \<Rightarrow> 0
              | c # r \<Rightarrow>
                if cont_byte c \<and> (a = byte 224 \<and> byte_in b 160 191 \<or> byte_in a 225 236 \<and> cont_byte b
                     \<or> a = byte 237 \<and> byte_in b 128 159 \<or> byte_in a 238 239 \<and> cont_byte b) then 3
                else (case r of [] \<Rightarrow> 0
                  | d # r \<Rightarrow>
                    if cont_byte c \<and> cont_byte d \<and> (a = byte 240 \<and> byte_in b 144 191
                         \<or> byte_in a 241 243 \<and> cont_byte b \<or> a = byte 244 \<and> byte_in b 128 143) then 4
                    else 0))))"

function utf8_valid :: "string \<Rightarrow> bool" where
  "utf8_valid s = (if s = [] then True
     else if utf8_front s = 0 then False else utf8_valid (drop (utf8_front s) s))"
  by pat_completeness auto
termination
  by (relation "measure length") (auto simp: neq_Nil_conv)

declare utf8_valid.simps [simp del]

lemma utf8_valid_ascii: "is_ascii s \<Longrightarrow> utf8_valid s"
proof (induction s)
  case Nil
  then show ?case by (simp add: utf8_valid.simps)
next
  case (Cons c s)
  then have "utf8_front (c # s) = 1" by (simp add: is_ascii_def utf8_front_def byte_in_def)
  with Cons show ?case by (simp add: utf8_valid.simps [of "c # s"] is_ascii_def)
qed

lemma utf8_valid_ascii_app: "is_ascii s \<Longrightarrow> utf8_valid (s @ t) = utf8_valid t"
proof (induction s)
  case (Cons c s)
  then have "utf8_front (c # s @ t) = 1" by (simp add: is_ascii_def utf8_front_def byte_in_def)
  with Cons show ?case by (simp add: utf8_valid.simps [of "c # s @ t"] is_ascii_def)
qed simp

text \<open>Marshalling replaces every byte that starts no character by U+FFFD.\<close>

function coerce_utf8 :: "string \<Rightarrow> string" where
  "coerce_utf8 s = (if s = [] then []
     else if utf8_front s = 0 then [byte 239, byte 191, byte 189] @ coerce_utf8 (drop 1 s)
     else take (utf8_front s) s @ coerce_utf8 (drop (utf8_front s) s))"
  by pat_completeness auto
termination
  by (relation "measure length") (auto simp: neq_Nil_conv)

declare coerce_utf8.simps [simp del]

lemma coerce_utf8_valid: "utf8_valid s \<Longrightarrow> coerce_utf8 s = s"
proof (induction s rule: utf8_valid.induct)
  case (1 s)
  show ?case
  proof (cases "s = [] \<or> utf8_front s = 0")
    case True
    with 1(2) show ?thesis by (auto simp: utf8_valid.simps [of s] coerce_utf8.simps [of s])
  next
    case False
    with 1 show ?thesis by (simp add: utf8_valid.simps [of s] coerce_utf8.simps [of s])
  qed
qed

lemma coerce_utf8_empty [simp]: "coerce_utf8 [] = []"
  by (simp add: coerce_utf8.simps)

lemma coerce_utf8_Nil [simp]: "coerce_utf8 s = [] \<longleftrightarrow> s = []"
proof (cases "s = [] \<or> utf8_front s = 0")
  case False
  then have "take (utf8_front s) s \<noteq> []" by simp
  with False show ?thesis by (simp add: coerce_utf8.simps [of s])
qed (auto simp: coerce_utf8.simps [of s])

lemma utf8_front_take: "utf8_front s \<noteq> 0 \<Longrightarrow> utf8_front (take (utf8_front s) s @ t) = utf8_front s"
  by (cases s; cases "tl s"; cases "tl (tl s)"; cases "tl (tl (tl s))") (auto simp: utf8_front_def split: if_splits)

lemma utf8_front_le: "utf8_front s \<le> length s"
  by (cases s; cases "tl s"; cases "tl (tl s)"; cases "tl (tl (tl s))") (auto simp: utf8_front_def split: if_splits)

lemma utf8_valid_replacement: "utf8_valid ([byte 239, byte 191, byte 189] @ t) = utf8_valid t"
  by (simp add: utf8_valid.simps [of "byte 239 # _"] utf8_front_def byte_in_def cont_byte_def code_byte)

lemma utf8_valid_coerce: "utf8_valid (coerce_utf8 s)"
proof (induction s rule: coerce_utf8.induct)
  case (1 s)
  let ?n = "utf8_front s"
  consider "s = []" | "s \<noteq> []" "?n = 0" | "s \<noteq> []" "?n \<noteq> 0" by blast
  then show ?case
  proof cases
    case 3
    let ?t = "take ?n s @ coerce_utf8 (drop ?n s)"
    have "utf8_front ?t = ?n" using 3 by (simp add: utf8_front_take)
    moreover have "drop ?n ?t = coerce_utf8 (drop ?n s)" "?t \<noteq> []" using 3 utf8_front_le [of s] by simp_all
    ultimately show ?thesis using 3 1(2) by (simp add: coerce_utf8.simps [of s] utf8_valid.simps [of ?t])
  qed (use 1 in \<open>simp_all add: coerce_utf8.simps [of s] utf8_valid.simps [of "[]"] utf8_valid_replacement del: append_Cons\<close>)
qed

lemma coerce_utf8_idem [simp]: "coerce_utf8 (coerce_utf8 s) = coerce_utf8 s"
  by (simp add: coerce_utf8_valid utf8_valid_coerce)

subsection \<open>What \<open>JSONB\<close> accepts\<close>

definition no_nul :: "string \<Rightarrow> bool" where
  "no_nul s \<longleftrightarrow> list_all (\<lambda>c. code c \<noteq> (0::nat)) s"

fun jsonb_ok :: "json \<Rightarrow> bool" where
  "jsonb_ok (JStr s) = no_nul s"
| "jsonb_ok (JArr vs) = list_all jsonb_ok vs"
| "jsonb_ok (JObj ms) = list_all (\<lambda>m. no_nul (fst m) \<and> jsonb_ok (snd m)) ms"
| "jsonb_ok _ = True"

subsection \<open>Encoding\<close>

definition enc_str :: "string \<Rightarrow> json" where "enc_str s = JStr (coerce_utf8 s)"

definition enc_strs :: "string list \<Rightarrow> json" where "enc_strs ss = JArr (map enc_str ss)"

text \<open>\<open>omitempty\<close> members.\<close>

definition omit_str :: "string \<Rightarrow> string \<Rightarrow> (string \<times> json) list" where
  "omit_str k s = (if s = [] then [] else [(k, enc_str s)])"

definition omit_strs :: "string \<Rightarrow> string list \<Rightarrow> (string \<times> json) list" where
  "omit_strs k ss = (if ss = [] then [] else [(k, enc_strs ss)])"

definition omit_int :: "string \<Rightarrow> int \<Rightarrow> (string \<times> json) list" where
  "omit_int k n = (if n = 0 then [] else [(k, JNum n)])"

subsection \<open>Decoding into a struct\<close>

definition dec_str :: "string \<Rightarrow> json \<Rightarrow> string option" where
  "dec_str old v = (case v of JStr s \<Rightarrow> Some s | JNull \<Rightarrow> Some old | _ \<Rightarrow> None)"

definition dec_int :: "int \<Rightarrow> json \<Rightarrow> int option" where
  "dec_int old v = (case v of JNum n \<Rightarrow> if int64_range n then Some n else None
     | JNull \<Rightarrow> Some old | _ \<Rightarrow> None)"

definition dec_bool :: "bool \<Rightarrow> json \<Rightarrow> bool option" where
  "dec_bool old v = (case v of JBool b \<Rightarrow> Some b | JNull \<Rightarrow> Some old | _ \<Rightarrow> None)"

fun sequence :: "'a option list \<Rightarrow> 'a list option" where
  "sequence [] = Some []"
| "sequence (x # xs) = Option.bind x (\<lambda>a. map_option (Cons a) (sequence xs))"

definition dec_strs :: "json \<Rightarrow> string list option" where
  "dec_strs v = (case v of JArr vs \<Rightarrow> sequence (map (dec_str []) vs) | JNull \<Rightarrow> Some [] | _ \<Rightarrow> None)"

type_synonym 'r fields = "(string \<times> (json \<Rightarrow> 'r \<Rightarrow> 'r option)) list"

definition find_field :: "'r fields \<Rightarrow> string \<Rightarrow> (json \<Rightarrow> 'r \<Rightarrow> 'r option) option" where
  "find_field fs k = (case map_of fs k of Some f \<Rightarrow> Some f
     | None \<Rightarrow> map_option snd (find (\<lambda>f. map lower_byte (fst f) = map lower_byte k) fs))"

fun dec_members :: "'r fields \<Rightarrow> (string \<times> json) list \<Rightarrow> 'r \<Rightarrow> 'r option" where
  "dec_members fs [] r = Some r"
| "dec_members fs ((k, v) # ms) r = (case find_field fs k of
     None \<Rightarrow> dec_members fs ms r
   | Some f \<Rightarrow> Option.bind (f v r) (dec_members fs ms))"

definition dec_struct :: "'r fields \<Rightarrow> json \<Rightarrow> 'r \<Rightarrow> 'r option" where
  "dec_struct fs v r = (case v of JObj ms \<Rightarrow> dec_members fs ms r | JNull \<Rightarrow> Some r | _ \<Rightarrow> None)"

lemma dec_str_enc [simp]: "dec_str old (enc_str s) = Some (coerce_utf8 s)"
  by (simp add: dec_str_def enc_str_def)

lemma dec_int_num [simp]: "int64_range n \<Longrightarrow> dec_int old (JNum n) = Some n"
  by (simp add: dec_int_def)

lemma dec_bool_bool [simp]: "dec_bool old (JBool b) = Some b"
  by (simp add: dec_bool_def)

lemma dec_strs_enc [simp]: "dec_strs (enc_strs ss) = Some (map coerce_utf8 ss)"
proof -
  have "sequence (map (dec_str []) (map enc_str ss)) = Some (map coerce_utf8 ss)"
    by (induction ss) simp_all
  then show ?thesis by (simp add: dec_strs_def enc_strs_def)
qed

lemma dec_members_append:
  "dec_members fs (xs @ ys) r = Option.bind (dec_members fs xs r) (dec_members fs ys)"
proof (induction fs xs r rule: dec_members.induct)
  case (2 fs k v ms r)
  show ?case
  proof (cases "find_field fs k")
    case None
    with 2 show ?thesis by simp
  next
    case (Some f)
    with 2 show ?thesis by (cases "f v r") simp_all
  qed
qed simp

lemma find_field_exact: "map_of fs k = Some f \<Longrightarrow> find_field fs k = Some f"
  by (simp add: find_field_def)

text \<open>Decoding keeps what every field keeps.\<close>

lemma find_field_in: "find_field fs k = Some f \<Longrightarrow> f \<in> snd ` set fs"
  by (auto simp: find_field_def dest!: map_of_SomeD find_Some_iff' split: option.splits) force+

lemma dec_members_inv:
  assumes "\<And>f v r r'. f \<in> snd ` set fs \<Longrightarrow> f v r = Some r' \<Longrightarrow> P r \<Longrightarrow> P r'"
  shows "dec_members fs ms r = Some r' \<Longrightarrow> P r \<Longrightarrow> P r'"
proof (induction ms arbitrary: r)
  case (Cons m ms)
  then show ?case
    by (cases m) (auto split: option.splits dest!: find_field_in simp: bind_eq_Some_conv intro: assms)
qed simp

lemma dec_int_range: "dec_int old v = Some n \<Longrightarrow> int64_range old \<Longrightarrow> int64_range n"
  by (auto simp: dec_int_def split: json.splits if_splits)

text \<open>One member of a struct that the encoder wrote, and one it may have omitted.\<close>

lemma dec_members_one:
  "map_of fs k = Some f \<Longrightarrow> dec_members fs [(k, v)] r = f v r"
  by (cases "f v r") (simp_all add: find_field_exact)

lemma dec_omit_str:
  assumes "map_of fs k = Some f" and "f (enc_str s) r = Some (g r)" and "s = [] \<Longrightarrow> g r = r"
  shows "dec_members fs (omit_str k s) r = Some (g r)"
  using assms by (auto simp: omit_str_def find_field_exact)

lemma dec_omit_strs:
  assumes "map_of fs k = Some f" and "f (enc_strs ss) r = Some (g r)" and "ss = [] \<Longrightarrow> g r = r"
  shows "dec_members fs (omit_strs k ss) r = Some (g r)"
  using assms by (auto simp: omit_strs_def find_field_exact)

lemma dec_omit_int:
  assumes "map_of fs k = Some f" and "f (JNum n) r = Some (g r)" and "n = 0 \<Longrightarrow> g r = r"
  shows "dec_members fs (omit_int k n) r = Some (g r)"
  using assms by (auto simp: omit_int_def find_field_exact)

subsection \<open>Raw messages\<close>

text \<open>A \<open>json.RawMessage\<close>: nothing, a document, or bytes that are no JSON document, which make
  marshalling fail.\<close>

datatype raw_message = RawEmpty | RawValid json | RawInvalid string

definition enc_raw :: "string \<Rightarrow> raw_message \<Rightarrow> (string \<times> json) list option" where
  "enc_raw k r = (case r of RawEmpty \<Rightarrow> Some [] | RawValid v \<Rightarrow> Some [(k, v)] | RawInvalid s \<Rightarrow> None)"

end
