(* ===== verification/StoreDb.thy ===== *)
theory StoreDb
  imports GoJson
begin

text \<open>
  The Postgres schema (\<open>internal/migrate/files\<close>), as far as the program's statements use it, with
  its integrity constraints, and the statements of \<open>internal/store/library.go\<close>. A statement is a
  function on the database that returns the new database and a result; an error is a violated
  constraint or a value the server refuses. A failing statement leaves every table as it was; only
  the sequences behind the \<open>BIGSERIAL\<close> keys advance, as in Postgres.

  Text parameters must be valid UTF-8 without NUL and \<open>INTEGER\<close> parameters must fit 32 bits, or the
  server refuses the statement. The order of an \<open>ORDER BY\<close> over text is the collation of the
  database, the parameter \<open>coll\<close> that maps a text to its sort key.
\<close>

subsection \<open>What the server accepts\<close>

definition pg_text :: "string \<Rightarrow> bool" where
  "pg_text s \<longleftrightarrow> utf8_valid s \<and> list_all (\<lambda>c. code c \<noteq> (0::nat)) s"

lemma pg_text_ascii: "list_all (\<lambda>c. 0 < (code c :: nat) \<and> code c < (128 :: nat)) s \<Longrightarrow> pg_text s"
  by (induction s)
    (simp_all add: pg_text_def utf8_valid_ascii is_ascii_def list.pred_set)

definition int4_ok :: "int \<Rightarrow> bool" where
  "int4_ok n \<longleftrightarrow> - (2 ^ 31) \<le> n \<and> n < 2 ^ 31"

datatype db_error =
    ErrConn | ErrCanceled | ErrEncoding | ErrUnique | ErrForeignKey | ErrCheck
  | ErrOffset | ErrNoRows | ErrNotFound | ErrDuplicatePath | ErrQueueEmpty | ErrCacheMiss | ErrJSON | ErrInvalid string

subsection \<open>Tables\<close>

record lib_row =
  lp_id :: int
  lp_path :: string
  lp_name :: string
  lp_media_type :: string
  lp_enabled :: bool
  lp_last_scanned_at :: "int option"
  lp_created_at :: int
  lp_updated_at :: int

record book_row =
  eb_id :: string
  eb_lib :: int
  eb_path :: string
  eb_format :: string
  eb_file_size :: int
  eb_mtime :: int
  eb_title :: string
  eb_author :: string
  eb_publisher :: string
  eb_year :: string
  eb_language :: string
  eb_genre :: string
  eb_isbn :: string
  eb_asin :: string
  eb_description :: string
  eb_page_count :: int
  eb_series :: string
  eb_series_pos :: string
  eb_deleted :: bool
  eb_deleted_at :: "int option"
  eb_content_sig :: string
  eb_scanned_at :: int
  eb_updated_at :: int

record cover_row =
  cr_ebook :: string
  cr_type :: string
  cr_bytes :: string
  cr_source :: string

record event_row =
  ev_id :: int
  ev_lib :: "int option"
  ev_started_at :: int
  ev_finished_at :: "int option"
  ev_added :: int
  ev_changed :: int
  ev_deleted :: int
  ev_error_text :: "string option"

datatype job_status = Pending | Completed | Failed

record job_row =
  jb_id :: string
  jb_status :: job_status
  jb_attempts :: int
  jb_run_after :: int
  jb_last_error :: string
  jb_finished_at :: "int option"

record cache_row =
  mc_key :: string
  mc_source :: string
  mc_region :: string
  mc_response :: json
  mc_not_found :: bool
  mc_fetched_at :: int

text \<open>Times are microseconds; \<open>d_now\<close> is what \<open>now()\<close> returns.\<close>

record db =
  d_libs :: "lib_row list"
  d_books :: "book_row list"
  d_covers :: "cover_row list"
  d_events :: "event_row list"
  d_jobs :: "job_row list"
  d_cache :: "cache_row list"
  d_app_config :: "json option"
  d_next_lib :: int
  d_next_event :: int
  d_now :: int

definition empty_db :: db where
  "empty_db = \<lparr>d_libs = [], d_books = [], d_covers = [], d_events = [], d_jobs = [], d_cache = [],
     d_app_config = None, d_next_lib = 1, d_next_event = 1, d_now = 0\<rparr>"

type_synonym 'a stmt = "db \<Rightarrow> db \<times> (db_error, 'a) res"

subsection \<open>Integrity\<close>

definition book_key :: "book_row \<Rightarrow> int \<times> string" where
  "book_key b = (eb_lib b, eb_path b)"

definition libs_ok :: "db \<Rightarrow> bool" where
  "libs_ok d \<longleftrightarrow> distinct (map lp_id (d_libs d)) \<and> distinct (map lp_path (d_libs d)) \<and>
     (\<forall>l \<in> set (d_libs d). lp_id l < d_next_lib d)"

definition books_ok :: "db \<Rightarrow> bool" where
  "books_ok d \<longleftrightarrow> distinct (map eb_id (d_books d)) \<and> distinct (map book_key (d_books d)) \<and>
     (\<forall>b \<in> set (d_books d). eb_lib b \<in> lp_id ` set (d_libs d) \<and> pg_text (eb_id b))"

definition covers_ok :: "db \<Rightarrow> bool" where
  "covers_ok d \<longleftrightarrow> distinct (map cr_ebook (d_covers d)) \<and>
     (\<forall>c \<in> set (d_covers d). cr_ebook c \<in> eb_id ` set (d_books d) \<and>
        cr_source c \<in> {''embedded'', ''sidecar''})"

definition events_ok :: "db \<Rightarrow> bool" where
  "events_ok d \<longleftrightarrow> distinct (map ev_id (d_events d)) \<and>
     (\<forall>e \<in> set (d_events d). ev_id e < d_next_event d \<and>
        (\<forall>l. ev_lib e = Some l \<longrightarrow> l \<in> lp_id ` set (d_libs d)))"

definition job_row_ok :: "job_row \<Rightarrow> bool" where
  "job_row_ok j \<longleftrightarrow> 0 \<le> jb_attempts j \<and> (jb_finished_at j = None \<longleftrightarrow> jb_status j = Pending)"

definition jobs_ok :: "db \<Rightarrow> bool" where
  "jobs_ok d \<longleftrightarrow> distinct (map jb_id (d_jobs d)) \<and>
     (\<forall>j \<in> set (d_jobs d). jb_id j \<in> eb_id ` set (d_books d) \<and> job_row_ok j)"

definition cache_ok :: "db \<Rightarrow> bool" where
  "cache_ok d \<longleftrightarrow> distinct (map mc_key (d_cache d))"

definition db_ok :: "db \<Rightarrow> bool" where
  "db_ok d \<longleftrightarrow> libs_ok d \<and> books_ok d \<and> covers_ok d \<and> events_ok d \<and> jobs_ok d \<and> cache_ok d"

lemmas db_ok_defs = db_ok_def libs_ok_def books_ok_def covers_ok_def events_ok_def jobs_ok_def
  cache_ok_def

lemma empty_db_ok: "db_ok empty_db"
  by (simp add: db_ok_defs empty_db_def)

subsection \<open>Libraries\<close>

definition coalesce_empty :: "string \<Rightarrow> string \<Rightarrow> string" where
  "coalesce_empty new old = (if new = [] then old else new)"

definition find_lib :: "db \<Rightarrow> int \<Rightarrow> lib_row option" where
  "find_lib d i = find (\<lambda>l. lp_id l = i) (d_libs d)"

definition find_lib_path :: "db \<Rightarrow> string \<Rightarrow> lib_row option" where
  "find_lib_path d p = find (\<lambda>l. lp_path l = p) (d_libs d)"

definition new_lib :: "db \<Rightarrow> string \<Rightarrow> string \<Rightarrow> string \<Rightarrow> bool \<Rightarrow> lib_row" where
  "new_lib d path name mt enabled = \<lparr>lp_id = d_next_lib d, lp_path = path, lp_name = name,
     lp_media_type = mt, lp_enabled = enabled, lp_last_scanned_at = None,
     lp_created_at = d_now d, lp_updated_at = d_now d\<rparr>"

definition insert_lib :: "lib_row \<Rightarrow> db \<Rightarrow> db" where
  "insert_lib l d = d\<lparr>d_libs := d_libs d @ [l], d_next_lib := d_next_lib d + 1\<rparr>"

record lib_config =
  lc_path :: string
  lc_name :: string
  lc_media_type :: string

definition UpsertLibraryPathConfig :: "lib_config \<Rightarrow> int stmt" where
  "UpsertLibraryPathConfig cfg d =
    (if \<not> list_all pg_text [lc_path cfg, lc_name cfg, lc_media_type cfg] then (d, Err ErrEncoding)
     else case find_lib_path d (lc_path cfg) of
       None \<Rightarrow> (insert_lib (new_lib d (lc_path cfg) (coalesce_empty (lc_name cfg) (lc_path cfg))
                   (coalesce_empty (lc_media_type cfg) ''book'') True) d, Ok (d_next_lib d))
     | Some l \<Rightarrow> (d\<lparr>d_libs := upd_where (\<lambda>r. lp_path r = lc_path cfg)
           (\<lambda>r. r\<lparr>lp_name := coalesce_empty (coalesce_empty (lc_name cfg) (lc_path cfg)) (lp_name r),
                   lp_media_type := coalesce_empty (coalesce_empty (lc_media_type cfg) ''book'')
                     (lp_media_type r),
                   lp_enabled := True\<rparr>) (d_libs d),
           d_next_lib := d_next_lib d + 1\<rparr>, Ok (lp_id l)))"

definition UpsertLibraryPath :: "string \<Rightarrow> int stmt" where
  "UpsertLibraryPath path = UpsertLibraryPathConfig \<lparr>lc_path = path, lc_name = [], lc_media_type = []\<rparr>"

definition ListLibraryPaths :: "(string \<Rightarrow> string) \<Rightarrow> lib_row list stmt" where
  "ListLibraryPaths coll d = (d, Ok (sort_key (\<lambda>l. (coll (lp_name l), lp_id l)) (d_libs d)))"

definition SeedLibraryPath :: "lib_config \<Rightarrow> unit stmt" where
  "SeedLibraryPath cfg d =
    (let name = (if lc_name cfg = [] then lc_path cfg else lc_name cfg);
         mt = (if lc_media_type cfg = [] then ''book'' else lc_media_type cfg)
     in if \<not> list_all pg_text [lc_path cfg, name, mt] then (d, Err ErrEncoding)
        else case find_lib_path d (lc_path cfg) of
          None \<Rightarrow> (insert_lib (new_lib d (lc_path cfg) name mt True) d, Ok ())
        | Some l \<Rightarrow> (d\<lparr>d_next_lib := d_next_lib d + 1\<rparr>, Ok ()))"

record lib_input =
  li_path :: string
  li_name :: string
  li_media_type :: string
  li_enabled :: bool

definition CreateLibrary :: "lib_input \<Rightarrow> int stmt" where
  "CreateLibrary inp d =
    (let name = (if li_name inp = [] then li_path inp else li_name inp)
     in if \<not> list_all pg_text [li_path inp, name, li_media_type inp] then (d, Err ErrEncoding)
        else case find_lib_path d (li_path inp) of
          None \<Rightarrow> (insert_lib (new_lib d (li_path inp) name (li_media_type inp) (li_enabled inp)) d,
                   Ok (d_next_lib d))
        | Some l \<Rightarrow> (d\<lparr>d_next_lib := d_next_lib d + 1\<rparr>, Err ErrDuplicatePath))"

record lib_update =
  lu_name :: string
  lu_media_type :: string
  lu_enabled :: bool

definition UpdateLibrary :: "int \<Rightarrow> lib_update \<Rightarrow> unit stmt" where
  "UpdateLibrary i u d =
    (if \<not> list_all pg_text [lu_name u, lu_media_type u] then (d, Err ErrEncoding)
     else if find_lib d i = None then (d, Err ErrNotFound)
     else (d\<lparr>d_libs := upd_where (\<lambda>r. lp_id r = i)
        (\<lambda>r. r\<lparr>lp_name := lu_name u, lp_media_type := lu_media_type u, lp_enabled := lu_enabled u,
                lp_updated_at := d_now d\<rparr>) (d_libs d)\<rparr>, Ok ()))"

definition books_of :: "db \<Rightarrow> int \<Rightarrow> string set" where
  "books_of d i = eb_id ` {b \<in> set (d_books d). eb_lib b = i}"

definition books_of_list :: "db \<Rightarrow> int \<Rightarrow> string list" where
  "books_of_list d i = map eb_id (filter (\<lambda>b. eb_lib b = i) (d_books d))"

text \<open>The transaction rolls back when no library row was deleted.\<close>

definition DeleteLibrary :: "int \<Rightarrow> unit stmt" where
  "DeleteLibrary i d =
    (let ids = books_of_list d i;
         d1 = d\<lparr>d_jobs := del_where (\<lambda>j. jb_id j \<in> set ids) (d_jobs d)\<rparr>;
         d2 = d1\<lparr>d_covers := del_where (\<lambda>c. cr_ebook c \<in> set ids) (d_covers d1)\<rparr>;
         d3 = d2\<lparr>d_books := del_where (\<lambda>b. eb_lib b = i) (d_books d2)\<rparr>;
         d4 = d3\<lparr>d_libs := del_where (\<lambda>l. lp_id l = i) (d_libs d3),
                 d_events := upd_where (\<lambda>e. ev_lib e = Some i) (\<lambda>e. e\<lparr>ev_lib := None\<rparr>) (d_events d3)\<rparr>
     in if find_lib d i = None then (d, Err ErrNotFound) else (d4, Ok ()))"

definition MarkLibraryScanned :: "int \<Rightarrow> unit stmt" where
  "MarkLibraryScanned i d = (d\<lparr>d_libs := upd_where (\<lambda>r. lp_id r = i)
     (\<lambda>r. r\<lparr>lp_last_scanned_at := Some (d_now d)\<rparr>) (d_libs d)\<rparr>, Ok ())"

subsection \<open>Scan events\<close>

definition InsertScanEvent :: "int option \<Rightarrow> int stmt" where
  "InsertScanEvent lib d =
    (case lib of
       Some l \<Rightarrow> if find_lib d l = None
         then (d\<lparr>d_next_event := d_next_event d + 1\<rparr>, Err ErrForeignKey)
         else (d\<lparr>d_events := d_events d @ [\<lparr>ev_id = d_next_event d, ev_lib = lib,
                 ev_started_at = d_now d, ev_finished_at = None, ev_added = 0, ev_changed = 0,
                 ev_deleted = 0, ev_error_text = None\<rparr>],
               d_next_event := d_next_event d + 1\<rparr>, Ok (d_next_event d))
     | None \<Rightarrow> (d\<lparr>d_events := d_events d @ [\<lparr>ev_id = d_next_event d, ev_lib = lib,
                 ev_started_at = d_now d, ev_finished_at = None, ev_added = 0, ev_changed = 0,
                 ev_deleted = 0, ev_error_text = None\<rparr>],
               d_next_event := d_next_event d + 1\<rparr>, Ok (d_next_event d)))"

definition FinishScanEvent :: "int \<Rightarrow> int \<Rightarrow> int \<Rightarrow> int \<Rightarrow> string \<Rightarrow> unit stmt" where
  "FinishScanEvent i added changed deleted errText d =
    (if \<not> pg_text errText \<or> \<not> list_all int4_ok [added, changed, deleted] then (d, Err ErrEncoding)
     else (d\<lparr>d_events := upd_where (\<lambda>e. ev_id e = i)
        (\<lambda>e. e\<lparr>ev_finished_at := Some (d_now d), ev_added := added, ev_changed := changed,
                ev_deleted := deleted,
                ev_error_text := (if errText = [] then None else Some errText)\<rparr>) (d_events d)\<rparr>, Ok ()))"

record scan_event =
  se_id :: int
  se_lib :: "int option"
  se_lib_name :: string
  se_started_at :: int
  se_finished_at :: "int option"
  se_added :: int
  se_changed :: int
  se_deleted :: int
  se_error_text :: string

definition scan_event_of :: "db \<Rightarrow> event_row \<Rightarrow> scan_event" where
  "scan_event_of d e = \<lparr>se_id = ev_id e, se_lib = ev_lib e,
     se_lib_name = (case Option.bind (ev_lib e) (find_lib d) of Some l \<Rightarrow> lp_name l | None \<Rightarrow> []),
     se_started_at = ev_started_at e, se_finished_at = ev_finished_at e, se_added = ev_added e,
     se_changed = ev_changed e, se_deleted = ev_deleted e,
     se_error_text = (case ev_error_text e of Some t \<Rightarrow> t | None \<Rightarrow> [])\<rparr>"

definition RecentScanEvents :: "int \<Rightarrow> scan_event list stmt" where
  "RecentScanEvents limit d =
    (let limit = (if limit \<le> 0 \<or> limit > 100 then 20 else limit)
     in (d, Ok (take (nat limit)
          (map (scan_event_of d) (sort_key (\<lambda>e. - ev_started_at e) (d_events d))))))"

subsection \<open>Every statement keeps the integrity constraints\<close>

definition keeps_ok :: "'a stmt \<Rightarrow> bool" where
  "keeps_ok st \<longleftrightarrow> (\<forall>d. db_ok d \<longrightarrow> db_ok (fst (st d)))"

definition err_frame :: "'a stmt \<Rightarrow> bool" where
  "err_frame st \<longleftrightarrow> (\<forall>d e. snd (st d) = Err e \<longrightarrow>
     fst (st d)\<lparr>d_next_lib := d_next_lib d, d_next_event := d_next_event d\<rparr> = d)"

lemma keeps_okD: "keeps_ok st \<Longrightarrow> db_ok d \<Longrightarrow> st d = (d', r) \<Longrightarrow> db_ok d'"
  by (metis fst_conv keeps_ok_def)

lemma find_lib_Some: "find_lib d i = Some l \<Longrightarrow> l \<in> set (d_libs d) \<and> lp_id l = i"
  unfolding find_lib_def by (rule find_Some_iff')

lemma find_lib_None: "find_lib d i = None \<longleftrightarrow> i \<notin> lp_id ` set (d_libs d)"
  by (auto simp: find_lib_def find_None_iff')

lemma find_lib_path_None: "find_lib_path d p = None \<longleftrightarrow> p \<notin> lp_path ` set (d_libs d)"
  by (auto simp: find_lib_path_def find_None_iff')

lemma insert_lib_ok:
  assumes "db_ok d" and "lp_id l = d_next_lib d" and "lp_path l \<notin> lp_path ` set (d_libs d)"
  shows "db_ok (insert_lib l d)"
  using assms by (fastforce simp: db_ok_defs insert_lib_def)

lemma bump_lib_ok: "db_ok d \<Longrightarrow> db_ok (d\<lparr>d_next_lib := d_next_lib d + 1\<rparr>)"
  by (fastforce simp: db_ok_defs)

lemma bump_event_ok: "db_ok d \<Longrightarrow> db_ok (d\<lparr>d_next_event := d_next_event d + 1\<rparr>)"
  by (fastforce simp: db_ok_defs)

lemma upd_libs_ok:
  assumes "db_ok d" and "\<And>r. lp_id (f r) = lp_id r" and "\<And>r. lp_path (f r) = lp_path r"
  shows "db_ok (d\<lparr>d_libs := upd_where p f (d_libs d)\<rparr>)"
proof -
  have ids: "lp_id ` set (upd_where p f (d_libs d)) = lp_id ` set (d_libs d)"
    by (simp add: set_map [symmetric] map_upd_where assms del: set_map)
  have "map lp_id (upd_where p f (d_libs d)) = map lp_id (d_libs d)"
    "map lp_path (upd_where p f (d_libs d)) = map lp_path (d_libs d)"
    by (simp_all add: map_upd_where assms)
  moreover have "\<forall>l \<in> set (upd_where p f (d_libs d)). lp_id l < d_next_lib d"
    using assms by (auto simp: set_upd_where db_ok_defs)
  ultimately show ?thesis using assms(1) by (simp add: db_ok_defs ids)
qed

lemma UpsertLibraryPathConfig_ok: "keeps_ok (UpsertLibraryPathConfig cfg)"
  unfolding keeps_ok_def
proof (intro allI impI)
  fix d assume d: "db_ok d"
  show "db_ok (fst (UpsertLibraryPathConfig cfg d))"
  proof (cases "find_lib_path d (lc_path cfg)")
    case None
    then have "lc_path cfg \<notin> lp_path ` set (d_libs d)" using find_lib_path_None by blast
    with None d show ?thesis
      by (simp add: UpsertLibraryPathConfig_def new_lib_def insert_lib_ok)
  next
    case (Some l)
    have "db_ok (d\<lparr>d_libs := upd_where p f (d_libs d), d_next_lib := d_next_lib d + 1\<rparr>)"
      if "\<And>r. lp_id (f r) = lp_id r" and "\<And>r. lp_path (f r) = lp_path r" for p f
      using bump_lib_ok [OF upd_libs_ok [OF d that]] by simp
    with Some d show ?thesis by (simp add: UpsertLibraryPathConfig_def)
  qed
qed

lemma SeedLibraryPath_ok: "keeps_ok (SeedLibraryPath cfg)"
  by (auto simp: keeps_ok_def SeedLibraryPath_def Let_def new_lib_def find_lib_path_None
      intro!: insert_lib_ok bump_lib_ok split: option.split)

lemma CreateLibrary_ok: "keeps_ok (CreateLibrary inp)"
  by (auto simp: keeps_ok_def CreateLibrary_def Let_def new_lib_def find_lib_path_None
      intro!: insert_lib_ok bump_lib_ok split: option.split)

lemma UpdateLibrary_ok: "keeps_ok (UpdateLibrary i u)"
  by (auto simp: keeps_ok_def UpdateLibrary_def intro!: upd_libs_ok)

lemma MarkLibraryScanned_ok: "keeps_ok (MarkLibraryScanned i)"
  by (auto simp: keeps_ok_def MarkLibraryScanned_def intro!: upd_libs_ok)

lemma books_of_list_set: "set (books_of_list d i) = books_of d i"
  by (auto simp: books_of_list_def books_of_def)

lemma deleted_ids:
  assumes "books_ok d" and "b \<in> set (d_books d)"
  shows "eb_id b \<in> books_of d i \<longleftrightarrow> eb_lib b = i"
  using assms distinct_map_inj [of eb_id "d_books d"] by (auto simp: books_of_def books_ok_def)

lemma DeleteLibrary_ok: "keeps_ok (DeleteLibrary i)"
  unfolding keeps_ok_def
proof (intro allI impI)
  fix d assume d: "db_ok d"
  have k: "\<And>b. b \<in> set (d_books d) \<Longrightarrow> eb_id b \<in> books_of d i \<longleftrightarrow> eb_lib b = i"
    using d deleted_ids by (simp add: db_ok_def)
  show "db_ok (fst (DeleteLibrary i d))"
  proof (cases "find_lib d i = None")
    case True
    with d show ?thesis by (simp add: DeleteLibrary_def Let_def)
  next
    case False
    let ?d = "fst (DeleteLibrary i d)"
    have f: "d_libs ?d = del_where (\<lambda>l. lp_id l = i) (d_libs d)"
      "d_books ?d = del_where (\<lambda>b. eb_lib b = i) (d_books d)"
      "d_covers ?d = del_where (\<lambda>c. cr_ebook c \<in> books_of d i) (d_covers d)"
      "d_jobs ?d = del_where (\<lambda>j. jb_id j \<in> books_of d i) (d_jobs d)"
      "d_events ?d = upd_where (\<lambda>e. ev_lib e = Some i) (\<lambda>e. e\<lparr>ev_lib := None\<rparr>) (d_events d)"
      "d_cache ?d = d_cache d" "d_next_lib ?d = d_next_lib d" "d_next_event ?d = d_next_event d"
      by (simp_all add: DeleteLibrary_def Let_def books_of_list_set False)
    have "libs_ok ?d" using d by (auto simp: db_ok_def libs_ok_def f distinct_map_del_where)
    moreover have "books_ok ?d"
      using d by (auto simp: db_ok_def books_ok_def f distinct_map_del_where)
    moreover have "covers_ok ?d"
    proof -
      have "cr_ebook c \<in> eb_id ` {b \<in> set (d_books d). eb_lib b \<noteq> i}"
        if "c \<in> set (d_covers d)" "cr_ebook c \<notin> books_of d i" for c
        using that d k by (fastforce simp: db_ok_def covers_ok_def)
      then show ?thesis using d by (simp add: db_ok_def covers_ok_def f distinct_map_del_where)
    qed
    moreover have "jobs_ok ?d"
    proof -
      have "jb_id j \<in> eb_id ` {b \<in> set (d_books d). eb_lib b \<noteq> i}"
        if "j \<in> set (d_jobs d)" "jb_id j \<notin> books_of d i" for j
        using that d k by (fastforce simp: db_ok_def jobs_ok_def)
      then show ?thesis using d by (simp add: db_ok_def jobs_ok_def f distinct_map_del_where)
    qed
    moreover have "events_ok ?d"
      using d by (auto simp: db_ok_def events_ok_def f set_upd_where map_upd_where)
    moreover have "cache_ok ?d" using d by (simp add: db_ok_def cache_ok_def f)
    ultimately show ?thesis by (simp add: db_ok_def)
  qed
qed

lemma InsertScanEvent_ok: "keeps_ok (InsertScanEvent lib)"
proof -
  have "db_ok (d\<lparr>d_events := d_events d @ [\<lparr>ev_id = d_next_event d, ev_lib = lib,
       ev_started_at = d_now d, ev_finished_at = None, ev_added = 0, ev_changed = 0,
       ev_deleted = 0, ev_error_text = None\<rparr>], d_next_event := d_next_event d + 1\<rparr>)"
    if "db_ok d" and "\<And>l. lib = Some l \<Longrightarrow> l \<in> lp_id ` set (d_libs d)" for d
    using that by (fastforce simp: db_ok_defs)
  then show ?thesis
    by (cases lib) (auto simp: keeps_ok_def InsertScanEvent_def find_lib_None intro: bump_event_ok)
qed

lemma FinishScanEvent_ok: "keeps_ok (FinishScanEvent i a c del t)"
  by (auto simp: keeps_ok_def FinishScanEvent_def db_ok_defs set_upd_where map_upd_where)

text \<open>
  C37. DeleteLibrary of an unknown id reports not found and changes nothing; of a known id it
  removes the library, exactly the books of that library, exactly the covers and jobs of those
  books, keeps every scan event and clears its library reference.
\<close>

theorem DeleteLibrary_spec:
  assumes ok: "db_ok d" and run: "DeleteLibrary i d = (d', r)"
  shows "(find_lib d i = None \<longrightarrow> r = Err ErrNotFound \<and> d' = d) \<and>
    (find_lib d i \<noteq> None \<longrightarrow> r = Ok () \<and> find_lib d' i = None \<and>
       set (d_books d') = {b \<in> set (d_books d). eb_lib b \<noteq> i} \<and>
       set (d_covers d') = {c \<in> set (d_covers d). \<exists>b \<in> set (d_books d'). eb_id b = cr_ebook c} \<and>
       set (d_jobs d') = {j \<in> set (d_jobs d). \<exists>b \<in> set (d_books d'). eb_id b = jb_id j} \<and>
       map ev_id (d_events d') = map ev_id (d_events d) \<and>
       (\<forall>e \<in> set (d_events d'). ev_lib e \<noteq> Some i))"
proof (cases "find_lib d i = None")
  case True
  with run show ?thesis by (auto simp: DeleteLibrary_def Let_def)
next
  case False
  have k: "\<And>b. b \<in> set (d_books d) \<Longrightarrow> eb_id b \<in> books_of d i \<longleftrightarrow> eb_lib b = i"
    using ok deleted_ids by (simp add: db_ok_def)
  have d': "r = Ok ()" "d_libs d' = del_where (\<lambda>l. lp_id l = i) (d_libs d)"
    "d_books d' = del_where (\<lambda>b. eb_lib b = i) (d_books d)"
    "d_covers d' = del_where (\<lambda>c. cr_ebook c \<in> books_of d i) (d_covers d)"
    "d_jobs d' = del_where (\<lambda>j. jb_id j \<in> books_of d i) (d_jobs d)"
    "d_events d' = upd_where (\<lambda>e. ev_lib e = Some i) (\<lambda>e. e\<lparr>ev_lib := None\<rparr>) (d_events d)"
    using False run by (auto simp: DeleteLibrary_def Let_def books_of_list_set)
  have kept: "x \<notin> books_of d i \<longleftrightarrow> (\<exists>b \<in> set (d_books d'). eb_id b = x)"
    if "x \<in> eb_id ` set (d_books d)" for x
  proof -
    obtain b where b: "b \<in> set (d_books d)" "x = eb_id b" using \<open>x \<in> _\<close> by auto
    have "\<exists>c \<in> set (d_books d'). eb_id c = x" if "x \<notin> books_of d i"
      using b that k [OF b(1)] by (auto simp: d')
    moreover have "x \<notin> books_of d i" if "c \<in> set (d_books d')" "eb_id c = x" for c
      using that k [of c] by (auto simp: d')
    ultimately show ?thesis by blast
  qed
  have "find_lib d' i = None" by (auto simp: find_lib_None d')
  moreover have "set (d_covers d') =
      {c \<in> set (d_covers d). \<exists>b \<in> set (d_books d'). eb_id b = cr_ebook c}"
    using ok kept by (simp add: d'(4) db_ok_def covers_ok_def) blast
  moreover have "set (d_jobs d') = {j \<in> set (d_jobs d). \<exists>b \<in> set (d_books d'). eb_id b = jb_id j}"
    using ok kept by (simp add: d'(5) db_ok_def jobs_ok_def) blast
  ultimately show ?thesis
    using False by (auto simp: d' map_upd_where set_upd_where)
qed

text \<open>A small library used by the witnesses: two roots, a book with a cover and a failed job.\<close>

definition sample_lib :: "int \<Rightarrow> string \<Rightarrow> lib_row" where
  "sample_lib i path = \<lparr>lp_id = i, lp_path = path, lp_name = path, lp_media_type = ''book'',
     lp_enabled = True, lp_last_scanned_at = None, lp_created_at = 0, lp_updated_at = 0\<rparr>"

definition sample_book :: book_row where
  "sample_book = \<lparr>eb_id = ''b1'', eb_lib = 1, eb_path = ''/a/x.fb2'', eb_format = ''fb2'',
     eb_file_size = 10, eb_mtime = 0, eb_title = ''Dune'', eb_author = [], eb_publisher = [],
     eb_year = [], eb_language = [], eb_genre = [], eb_isbn = [], eb_asin = [],
     eb_description = [], eb_page_count = 0, eb_series = [], eb_series_pos = [],
     eb_deleted = False, eb_deleted_at = None, eb_content_sig = ''s1'', eb_scanned_at = 0,
     eb_updated_at = 0\<rparr>"

definition sample_db :: db where
  "sample_db = empty_db\<lparr>d_libs := [sample_lib 1 ''/a'', sample_lib 2 ''/b''], d_next_lib := 3,
     d_books := [sample_book],
     d_covers := [\<lparr>cr_ebook = ''b1'', cr_type = ''image/png'', cr_bytes = ''x'', cr_source = ''sidecar''\<rparr>],
     d_jobs := [\<lparr>jb_id = ''b1'', jb_status = Failed, jb_attempts = 5, jb_run_after = 0,
                 jb_last_error = ''e'', jb_finished_at = Some 0\<rparr>]\<rparr>"

lemmas sample_defs = sample_db_def sample_book_def sample_lib_def empty_db_def

lemma sample_db_ok: "db_ok sample_db"
  by (simp add: sample_defs db_ok_defs book_key_def job_row_ok_def pg_text_ascii)

theorem DeleteLibrary_spec_witness:
  "snd (DeleteLibrary 1 sample_db) = Ok () \<and> set (d_covers (fst (DeleteLibrary 1 sample_db))) = {}"
proof -
  have ne: "find_lib sample_db 1 \<noteq> None" by (simp add: find_lib_def sample_defs)
  note spec = DeleteLibrary_spec [OF sample_db_ok, of 1 "fst (DeleteLibrary 1 sample_db)"
      "snd (DeleteLibrary 1 sample_db)", THEN conjunct2, THEN mp, OF _ ne]
  have "set (d_books (fst (DeleteLibrary 1 sample_db))) = {}"
    using spec by (simp add: sample_defs)
  with spec show ?thesis by simp
qed

end
