(* ===== verification/CacheStore.thy ===== *)
theory CacheStore
  imports StoreDb
begin

text \<open>
  The lookup cache (\<open>internal/metadata/cache.go\<close>). SHA-1 (in hex) is a parameter. Durations and the
  program's clock are nanoseconds, the database's times microseconds. The interface of the cache, as
  the aggregator uses it, is the locale \<open>lookup_cache\<close>.
\<close>

datatype lookup_kind = KindASIN | KindISBN | KindSearch

definition kind_name :: "lookup_kind \<Rightarrow> string" where
  "kind_name k = (case k of KindASIN \<Rightarrow> ''asin'' | KindISBN \<Rightarrow> ''isbn'' | KindSearch \<Rightarrow> ''search'')"

definition NotFoundTTL :: int where "NotFoundTTL = 24 * 3600 * 10 ^ 9"

definition key_preimage :: "string \<Rightarrow> string \<Rightarrow> string" where
  "key_preimage region query = region @ [byte 0] @ query"

definition Key :: "(string \<Rightarrow> string) \<Rightarrow> string \<Rightarrow> lookup_kind \<Rightarrow> string \<Rightarrow> string \<Rightarrow> string" where
  "Key sha1hex source kind region query =
     source @ '':'' @ kind_name kind @ '':'' @ sha1hex (key_preimage region query)"

record cache_entry =
  en_source :: string
  en_region :: string
  en_not_found :: bool
  en_response :: json
  en_fetched_at :: int

definition find_cache :: "db \<Rightarrow> string \<Rightarrow> cache_row option" where
  "find_cache d k = find (\<lambda>r. mc_key r = k) (d_cache d)"

definition entry_of :: "cache_row \<Rightarrow> cache_entry" where
  "entry_of r = \<lparr>en_source = mc_source r, en_region = mc_region r, en_not_found = mc_not_found r,
     en_response = mc_response r, en_fetched_at = mc_fetched_at r\<rparr>"

definition entry_ttl :: "int \<Rightarrow> bool \<Rightarrow> int" where
  "entry_ttl ttl notfound = (if notfound then NotFoundTTL else ttl)"

definition CacheGet :: "int \<Rightarrow> int \<Rightarrow> string \<Rightarrow> cache_entry stmt" where
  "CacheGet ttl now k d =
    (if \<not> pg_text k then (d, Err ErrEncoding)
     else case find_cache d k of
       None \<Rightarrow> (d, Err ErrCacheMiss)
     | Some r \<Rightarrow> if now - mc_fetched_at r * 1000 > entry_ttl ttl (mc_not_found r)
         then (d, Err ErrCacheMiss) else (d, Ok (entry_of r)))"

definition put_cache :: "string \<Rightarrow> string \<Rightarrow> string \<Rightarrow> json \<Rightarrow> bool \<Rightarrow> unit stmt" where
  "put_cache k source region v notfound d =
    (if \<not> list_all pg_text [k, source, region] \<or> \<not> jsonb_ok v then (d, Err ErrEncoding)
     else case find_cache d k of
       Some r \<Rightarrow> (d\<lparr>d_cache := upd_where (\<lambda>r. mc_key r = k)
          (\<lambda>r. r\<lparr>mc_response := v, mc_not_found := notfound, mc_fetched_at := d_now d\<rparr>) (d_cache d)\<rparr>, Ok ())
     | None \<Rightarrow> (d\<lparr>d_cache := d_cache d @ [\<lparr>mc_key = k, mc_source = source, mc_region = region,
          mc_response = v, mc_not_found = notfound, mc_fetched_at = d_now d\<rparr>]\<rparr>, Ok ()))"

definition PutHit :: "string \<Rightarrow> string \<Rightarrow> string \<Rightarrow> json \<Rightarrow> unit stmt" where
  "PutHit k source region v = put_cache k source region v False"

definition PutNotFound :: "string \<Rightarrow> string \<Rightarrow> string \<Rightarrow> unit stmt" where
  "PutNotFound k source region = put_cache k source region (JObj []) True"

definition expired :: "int \<Rightarrow> int \<Rightarrow> cache_row \<Rightarrow> bool" where
  "expired ttl t r \<longleftrightarrow> (\<not> mc_not_found r \<and> mc_fetched_at r < t - ttl div 1000) \<or>
     (mc_not_found r \<and> mc_fetched_at r < t - NotFoundTTL div 1000)"

definition EvictExpired :: "int \<Rightarrow> int stmt" where
  "EvictExpired ttl d = (d\<lparr>d_cache := del_where (expired ttl (d_now d)) (d_cache d)\<rparr>,
     Ok (int (count_where (expired ttl (d_now d)) (d_cache d))))"

subsection \<open>Keys\<close>

text \<open>
  Two cache keys are equal only for the same source, the same kind and the same region and
  query, or when SHA-1 itself collides: no field can be shifted into another.
\<close>

theorem Key_collision:
  assumes "CHR '':'' \<notin> set source" and "CHR '':'' \<notin> set source'"
    and "byte 0 \<notin> set region" and "byte 0 \<notin> set region'"
    and "Key sha1hex source kind region query = Key sha1hex source' kind' region' query'"
  shows "source = source' \<and> kind = kind' \<and>
    (region = region' \<and> query = query' \<or>
     key_preimage region query \<noteq> key_preimage region' query' \<and>
     sha1hex (key_preimage region query) = sha1hex (key_preimage region' query'))"
proof -
  have "source @ CHR '':'' # (kind_name kind @ CHR '':'' # sha1hex (key_preimage region query)) =
      source' @ CHR '':'' # (kind_name kind' @ CHR '':'' # sha1hex (key_preimage region' query'))"
    using assms(5) by (simp add: Key_def)
  from split_at_first [OF this assms(1,2)] have s: "source = source'"
    and r: "kind_name kind @ CHR '':'' # sha1hex (key_preimage region query) =
      kind_name kind' @ CHR '':'' # sha1hex (key_preimage region' query')" by simp_all
  have "CHR '':'' \<notin> set (kind_name k)" for k by (cases k) (simp_all add: kind_name_def)
  from split_at_first [OF r this this] have k: "kind_name kind = kind_name kind'"
    and h: "sha1hex (key_preimage region query) = sha1hex (key_preimage region' query')" by simp_all
  have kk: "kind = kind'" using k by (cases kind; cases kind') (simp_all add: kind_name_def)
  have "region = region' \<and> query = query'" if "key_preimage region query = key_preimage region' query'"
    using that assms(3,4) split_at_first [of region "byte 0" query region' query'] by (simp add: key_preimage_def)
  with s kk h show ?thesis by blast
qed

theorem Key_collision_witness:
  "key_preimage ''us'' ''a'' \<noteq> key_preimage ''us'' ''b'' \<and>
   Key (\<lambda>s. []) ''isbndb'' KindSearch ''us'' ''a'' = Key (\<lambda>s. []) ''isbndb'' KindSearch ''us'' ''b''"
proof -
  have k: "Key (\<lambda>s. []) ''isbndb'' KindSearch ''us'' ''a'' = Key (\<lambda>s. []) ''isbndb'' KindSearch ''us'' ''b''"
    by (simp add: Key_def)
  have z: "byte 0 \<notin> set ''us''" by (simp add: char_of_def)
  from Key_collision [OF _ _ z z k] k show ?thesis by simp
qed

subsection \<open>Lookup after a store\<close>

lemma find_cache_put:
  assumes "put_cache k s g v nf d = (d', Ok x)"
  shows "find_cache d' k' = (if k' = k then
      Some (case find_cache d k of
          Some r \<Rightarrow> r\<lparr>mc_response := v, mc_not_found := nf, mc_fetched_at := d_now d\<rparr>
        | None \<Rightarrow> \<lparr>mc_key = k, mc_source = s, mc_region = g, mc_response = v, mc_not_found = nf,
                   mc_fetched_at = d_now d\<rparr>)
      else find_cache d k')"
proof (cases "find_cache d k")
  case None
  then have d': "d' = d\<lparr>d_cache := d_cache d @ [\<lparr>mc_key = k, mc_source = s, mc_region = g,
      mc_response = v, mc_not_found = nf, mc_fetched_at = d_now d\<rparr>]\<rparr>"
    using assms by (auto simp: put_cache_def split: if_splits)
  have app: "find p (xs @ ys) = (case find p xs of None \<Rightarrow> find p ys | Some x \<Rightarrow> Some x)"
    for p and xs ys :: "cache_row list" by (induction xs) auto
  show ?thesis using None by (auto simp: d' find_cache_def app split: option.split)
next
  case (Some r)
  let ?f = "\<lambda>r. r\<lparr>mc_response := v, mc_not_found := nf, mc_fetched_at := d_now d\<rparr>"
  have d': "d' = d\<lparr>d_cache := upd_where (\<lambda>r. mc_key r = k) ?f (d_cache d)\<rparr>"
    using assms Some by (auto simp: put_cache_def split: if_splits)
  have "find_cache d' k' = map_option (\<lambda>r. if mc_key r = k then ?f r else r) (find_cache d k')"
    unfolding find_cache_def d' by (simp add: find_upd_where_key)
  moreover have "mc_key r' = k'" if "find_cache d k' = Some r'" for r'
    using that find_Some_iff' unfolding find_cache_def by fastforce
  ultimately show ?thesis using Some by (cases "find_cache d k'") auto
qed

lemma put_cache_Err: "put_cache k s g v nf d = (d', Err e) \<Longrightarrow> d' = d"
  by (auto simp: put_cache_def split: if_splits option.splits)

lemma CacheGet_after_put:
  assumes "put_cache k s g v nf d = (d', Ok x)"
  shows "\<exists>e. en_response e = v \<and> en_not_found e = nf \<and>
      CacheGet ttl now k d' = (d', if now - d_now d * 1000 > (if nf then NotFoundTTL else ttl)
        then Err ErrCacheMiss else Ok e)"
proof -
  have t: "pg_text k" using assms by (auto simp: put_cache_def split: if_splits)
  define r where "r = (case find_cache d k of
          Some r \<Rightarrow> r\<lparr>mc_response := v, mc_not_found := nf, mc_fetched_at := d_now d\<rparr>
        | None \<Rightarrow> \<lparr>mc_key = k, mc_source = s, mc_region = g, mc_response = v, mc_not_found = nf,
                   mc_fetched_at = d_now d\<rparr>)"
  have r: "mc_response r = v" "mc_not_found r = nf" "mc_fetched_at r = d_now d"
    by (simp_all add: r_def split: option.split)
  have f: "find_cache d' k = Some r"
    unfolding r_def using find_cache_put [OF assms, of k] by simp
  have "CacheGet ttl now k d' = (d', if now - d_now d * 1000 > (if nf then NotFoundTTL else ttl)
        then Err ErrCacheMiss else Ok (entry_of r))"
    using t f r by (simp add: CacheGet_def entry_ttl_def)
  moreover have "en_response (entry_of r) = v" "en_not_found (entry_of r) = nf"
    using r by (simp_all add: entry_of_def)
  ultimately show ?thesis by blast
qed

lemma CacheGet_put_other:
  "k \<noteq> k' \<Longrightarrow> snd (CacheGet ttl now k' (fst (put_cache k s g v nf d))) = snd (CacheGet ttl now k' d)"
proof (cases "snd (put_cache k s g v nf d)")
  case (Inl e)
  then have "fst (put_cache k s g v nf d) = d" by (metis prod.collapse put_cache_Err)
  then show ?thesis by simp
next
  case (Inr x)
  then have p: "put_cache k s g v nf d = (fst (put_cache k s g v nf d), Ok x)" by (metis prod.collapse)
  assume "k \<noteq> k'"
  then show ?thesis by (simp add: CacheGet_def find_cache_put [OF p] split: option.split)
qed

text \<open>
  After a successful store, a lookup of the key returns the stored response until its TTL
  is over (24 hours for a negative entry) and misses afterwards; every other key is unaffected.
\<close>

theorem cache_get_put:
  assumes "put_cache k s g v nf d = (d', Ok x)"
  shows "(\<exists>e. en_response e = v \<and> en_not_found e = nf \<and>
      CacheGet ttl now k d' = (d', if now - d_now d * 1000 > (if nf then NotFoundTTL else ttl)
        then Err ErrCacheMiss else Ok e)) \<and>
    (\<forall>k'. k' \<noteq> k \<longrightarrow> snd (CacheGet ttl now k' d') = snd (CacheGet ttl now k' d))"
proof
  show "\<exists>e. en_response e = v \<and> en_not_found e = nf \<and>
      CacheGet ttl now k d' = (d', if now - d_now d * 1000 > (if nf then NotFoundTTL else ttl)
        then Err ErrCacheMiss else Ok e)"
    using assms by (rule CacheGet_after_put)
  show "\<forall>k'. k' \<noteq> k \<longrightarrow> snd (CacheGet ttl now k' d') = snd (CacheGet ttl now k' d)"
    using CacheGet_put_other [of k _ ttl now s g v nf d] assms by simp
qed

theorem cache_get_put_witness:
  "\<exists>d' e. PutHit ''a:asin:x'' ''a'' ''us'' (JArr []) empty_db = (d', Ok ()) \<and> en_response e = JArr [] \<and>
     CacheGet 5 4 ''a:asin:x'' d' = (d', Ok e)"
proof -
  obtain d' where run: "put_cache ''a:asin:x'' ''a'' ''us'' (JArr []) False empty_db = (d', Ok ())"
    by (simp add: put_cache_def pg_text_ascii find_cache_def empty_db_def)
  have "d_now empty_db = 0" by (simp add: empty_db_def)
  with cache_get_put [OF run, of 5 4] run show ?thesis by (auto simp: PutHit_def)
qed

subsection \<open>Eviction\<close>

lemma find_del_where:
  assumes "distinct (map k rs)"
  shows "find (\<lambda>r. k r = x) (del_where p rs) =
    (case find (\<lambda>r. k r = x) rs of None \<Rightarrow> None | Some r \<Rightarrow> if p r then None else Some r)"
  using assms
proof (induction rs)
  case (Cons r rs)
  have "find (\<lambda>s. k s = k r) (del_where p rs) = None"
    using Cons.prems by (auto simp: find_None_iff' image_iff)
  with Cons show ?case by (auto simp: del_where_def)
qed (simp add: del_where_def)

text \<open>
  Evicting expired rows changes no lookup, now or later: only rows every lookup already
  treats as missing are removed.
\<close>

theorem eviction_unobservable:
  assumes "cache_ok d" and "ttl mod 1000 = 0" and "d_now d * 1000 \<le> now"
  shows "snd (CacheGet ttl now k (fst (EvictExpired ttl d))) = snd (CacheGet ttl now k d)"
proof -
  have f: "find_cache (fst (EvictExpired ttl d)) k = (case find_cache d k of None \<Rightarrow> None
      | Some r \<Rightarrow> if expired ttl (d_now d) r then None else Some r)"
    unfolding find_cache_def EvictExpired_def fst_conv
    using find_del_where [of mc_key "d_cache d"] assms(1) by (simp add: cache_ok_def)
  have "now - mc_fetched_at r * 1000 > entry_ttl ttl (mc_not_found r)" if "expired ttl (d_now d) r" for r
  proof -
    have "ttl = ttl div 1000 * 1000" using assms(2) by (simp add: zmod_eq_0_iff mult.commute minus_mod_eq_mult_div [symmetric])
    then show ?thesis using that assms(3)
      by (auto simp: expired_def entry_ttl_def NotFoundTTL_def)
  qed
  then show ?thesis by (auto simp: CacheGet_def f split: option.split)
qed

theorem eviction_unobservable_witness:
  "snd (CacheGet 1000 5000 ''k'' (fst (EvictExpired 1000 empty_db))) = Err ErrCacheMiss"
proof -
  have "cache_ok empty_db" "d_now empty_db * 1000 \<le> 5000" by (simp_all add: cache_ok_def empty_db_def)
  from eviction_unobservable [OF this(1) _ this(2), of 1000 "''k''"] show ?thesis
    by (simp add: CacheGet_def pg_text_ascii find_cache_def empty_db_def)
qed

subsection \<open>Integrity\<close>

lemma put_cache_ok: "keeps_ok (put_cache k s g v nf)"
proof -
  have "db_ok (d\<lparr>d_cache := d_cache d @ [r]\<rparr>)" if "db_ok d" "mc_key r \<notin> mc_key ` set (d_cache d)" for d r
    using that by (simp add: db_ok_defs)
  moreover have "db_ok (d\<lparr>d_cache := upd_where p f (d_cache d)\<rparr>)"
    if "db_ok d" "\<And>r. mc_key (f r) = mc_key r" for d p f
    using that by (simp add: db_ok_defs map_upd_where)
  moreover have "find_cache d k = None \<Longrightarrow> k \<notin> mc_key ` set (d_cache d)" for d
    by (force simp: find_cache_def find_None_iff')
  ultimately show ?thesis
    by (simp add: keeps_ok_def put_cache_def split: option.split)
qed

lemma EvictExpired_ok: "keeps_ok (EvictExpired ttl)"
  by (auto simp: keeps_ok_def EvictExpired_def db_ok_defs distinct_map_del_where)

lemma CacheGet_state: "fst (CacheGet ttl now k d) = d"
  by (simp add: CacheGet_def split: option.split)

subsection \<open>The interface\<close>

record 's cache_ops =
  cop_get :: "string \<Rightarrow> 's \<Rightarrow> cache_entry option"
  cop_hit :: "string \<Rightarrow> string \<Rightarrow> string \<Rightarrow> json \<Rightarrow> 's \<Rightarrow> 's"
  cop_not_found :: "string \<Rightarrow> string \<Rightarrow> string \<Rightarrow> 's \<Rightarrow> 's"

locale lookup_cache =
  fixes C :: "'s cache_ops"
  assumes get_hit_other: "k \<noteq> k' \<Longrightarrow> cop_get C k' (cop_hit C k s g v st) = cop_get C k' st"
    and get_not_found_other: "k \<noteq> k' \<Longrightarrow> cop_get C k' (cop_not_found C k s g st) = cop_get C k' st"

definition ok_part :: "('e, 'a) res \<Rightarrow> 'a option" where
  "ok_part r = (case r of Inl e \<Rightarrow> None | Inr x \<Rightarrow> Some x)"

text \<open>The cache on Postgres, with its TTL and the time of the lookups.\<close>

definition pg_cache :: "int \<Rightarrow> int \<Rightarrow> db cache_ops" where
  "pg_cache ttl now = \<lparr>
     cop_get = (\<lambda>k d. ok_part (snd (CacheGet ttl now k d))),
     cop_hit = (\<lambda>k s g v d. fst (PutHit k s g v d)),
     cop_not_found = (\<lambda>k s g d. fst (PutNotFound k s g d))\<rparr>"

interpretation pg_cache: lookup_cache "pg_cache ttl now" for ttl now
  by unfold_locales (simp_all add: pg_cache_def PutHit_def PutNotFound_def CacheGet_put_other)

end
