(* ===== verification/MetaTypes.thy ===== *)
theory MetaTypes
  imports GoJson
begin

text \<open>
  The data of the metadata package (\<open>internal/metadata/types.go\<close>), the external-id format
  (\<open>externalid.go\<close>) and the merge of a candidate into an ebook row (\<open>applymatch.go\<close>).
  Go's \<open>nil\<close> and empty slices are both the empty list: the code distinguishes them nowhere.
\<close>

record candidate =
  c_source :: string
  c_external_id :: string
  c_title :: string
  c_authors :: "string list"
  c_description :: string
  c_asin :: string
  c_isbn :: string
  c_cover_url :: string
  c_published_at :: string
  c_publisher :: string
  c_language :: string
  c_genres :: "string list"
  c_page_count :: int
  c_series :: string
  c_series_pos :: string
  c_region :: string
  c_raw :: raw_message

record match_rec =
  m_source :: string
  m_confidence :: int
  m_candidate :: candidate

definition empty_candidate :: candidate where
  "empty_candidate = \<lparr>c_source = [], c_external_id = [], c_title = [], c_authors = [],
     c_description = [], c_asin = [], c_isbn = [], c_cover_url = [], c_published_at = [],
     c_publisher = [], c_language = [], c_genres = [], c_page_count = 0, c_series = [],
     c_series_pos = [], c_region = [], c_raw = RawEmpty\<rparr>"

subsection \<open>External ids\<close>

datatype external_id_error = ErrBadExternalID

definition FormatExternalID :: "string \<Rightarrow> string \<Rightarrow> string" where
  "FormatExternalID source nativeID = source @ '':'' @ nativeID"

definition ParseExternalID :: "string \<Rightarrow> (external_id_error, string \<times> string) res" where
  "ParseExternalID i =
    (case IndexByte i (CHR '':'') of
       None \<Rightarrow> Err ErrBadExternalID
     | Some k \<Rightarrow> if k = 0 \<or> k = length i - 1 then Err ErrBadExternalID
         else Ok (take k i, drop (k + 1) i))"

lemma ParseExternalID_Ok:
  assumes "ParseExternalID i = Ok (s, n)"
  shows "i = FormatExternalID s n \<and> s \<noteq> [] \<and> n \<noteq> [] \<and> CHR '':'' \<notin> set s"
proof -
  from assms obtain k where k: "IndexByte i (CHR '':'') = Some k" and k0: "k \<noteq> 0"
    and kl: "k \<noteq> length i - 1" and s: "s = take k i" and n: "n = drop (k + 1) i"
    by (auto simp: ParseExternalID_def split: option.splits if_splits)
  from IndexByte_Some [OF k] have lt: "k < length i" and at: "i ! k = CHR '':''"
    and no: "CHR '':'' \<notin> set (take k i)" by auto
  have "i = take k i @ i ! k # drop (Suc k) i" using lt by (rule id_take_nth_drop)
  with at s n have "i = FormatExternalID s n" by (simp add: FormatExternalID_def)
  moreover have "s \<noteq> []" using s k0 lt by (cases i) auto
  moreover have "n \<noteq> []" using n kl lt by simp
  ultimately show ?thesis using no by (simp add: s)
qed

text \<open>
  ParseExternalID returns source and native id exactly for the strings FormatExternalID
  makes of a non-empty colon-free source and a non-empty id; every other string is an error.
\<close>

theorem external_id_roundtrip:
  "ParseExternalID i = Ok (s, n) \<longleftrightarrow>
   i = FormatExternalID s n \<and> s \<noteq> [] \<and> n \<noteq> [] \<and> CHR '':'' \<notin> set s"
proof
  assume "i = FormatExternalID s n \<and> s \<noteq> [] \<and> n \<noteq> [] \<and> CHR '':'' \<notin> set s"
  then show "ParseExternalID i = Ok (s, n)"
    by (simp add: ParseExternalID_def FormatExternalID_def IndexByte_append)
qed (rule ParseExternalID_Ok)

subsection \<open>Merging a match into a row\<close>

record ebook_row =
  er_id :: string
  er_format :: string
  er_title :: string
  er_author :: string
  er_publisher :: string
  er_year :: string
  er_language :: string
  er_genre :: string
  er_isbn :: string
  er_asin :: string
  er_description :: string
  er_page_count :: int
  er_series :: string
  er_series_pos :: string

definition year_of :: "string \<Rightarrow> string" where
  "year_of s = (if length s \<ge> 4 then take 4 s else [])"

definition ApplyMatch :: "ebook_row \<Rightarrow> candidate \<Rightarrow> ebook_row" where
  "ApplyMatch row cand =
    (let out = row;
         out = (if c_title cand \<noteq> [] then out\<lparr>er_title := c_title cand\<rparr> else out);
         a = Join (c_authors cand) '', '';
         out = (if a \<noteq> [] then out\<lparr>er_author := a\<rparr> else out);
         out = (if c_publisher cand \<noteq> [] then out\<lparr>er_publisher := c_publisher cand\<rparr> else out);
         y = year_of (c_published_at cand);
         out = (if y \<noteq> [] then out\<lparr>er_year := y\<rparr> else out);
         out = (if c_language cand \<noteq> [] then out\<lparr>er_language := c_language cand\<rparr> else out);
         g = Join (c_genres cand) '', '';
         out = (if g \<noteq> [] then out\<lparr>er_genre := g\<rparr> else out);
         out = (if c_isbn cand \<noteq> [] then out\<lparr>er_isbn := c_isbn cand\<rparr> else out);
         out = (if c_asin cand \<noteq> [] then out\<lparr>er_asin := c_asin cand\<rparr> else out);
         out = (if c_description cand \<noteq> [] then out\<lparr>er_description := c_description cand\<rparr> else out);
         out = (if c_page_count cand > 0 then out\<lparr>er_page_count := c_page_count cand\<rparr> else out);
         out = (if c_series cand \<noteq> [] then out\<lparr>er_series := c_series cand\<rparr> else out);
         out = (if c_series_pos cand \<noteq> [] then out\<lparr>er_series_pos := c_series_pos cand\<rparr> else out)
     in out)"

text \<open>The choice the merge makes for every field, and for the whole row.\<close>

definition prefer_new :: "string \<Rightarrow> string \<Rightarrow> string" where
  "prefer_new new old = (if new \<noteq> [] then new else old)"

lemma prefer_new_simps [simp]:
  "prefer_new [] x = x" "prefer_new a (prefer_new a x) = prefer_new a x" "prefer_new a x = [] \<longleftrightarrow> a = [] \<and> x = []"
  by (auto simp: prefer_new_def)

text \<open>A conditional overwrite as an unconditional one.\<close>

lemma cond_overwrite:
  "(if a \<noteq> [] then r\<lparr>er_title := a\<rparr> else r) = r\<lparr>er_title := prefer_new a (er_title r)\<rparr>"
  "(if a \<noteq> [] then r\<lparr>er_author := a\<rparr> else r) = r\<lparr>er_author := prefer_new a (er_author r)\<rparr>"
  "(if a \<noteq> [] then r\<lparr>er_publisher := a\<rparr> else r) = r\<lparr>er_publisher := prefer_new a (er_publisher r)\<rparr>"
  "(if a \<noteq> [] then r\<lparr>er_year := a\<rparr> else r) = r\<lparr>er_year := prefer_new a (er_year r)\<rparr>"
  "(if a \<noteq> [] then r\<lparr>er_language := a\<rparr> else r) = r\<lparr>er_language := prefer_new a (er_language r)\<rparr>"
  "(if a \<noteq> [] then r\<lparr>er_genre := a\<rparr> else r) = r\<lparr>er_genre := prefer_new a (er_genre r)\<rparr>"
  "(if a \<noteq> [] then r\<lparr>er_isbn := a\<rparr> else r) = r\<lparr>er_isbn := prefer_new a (er_isbn r)\<rparr>"
  "(if a \<noteq> [] then r\<lparr>er_asin := a\<rparr> else r) = r\<lparr>er_asin := prefer_new a (er_asin r)\<rparr>"
  "(if a \<noteq> [] then r\<lparr>er_description := a\<rparr> else r) = r\<lparr>er_description := prefer_new a (er_description r)\<rparr>"
  "(if a \<noteq> [] then r\<lparr>er_series := a\<rparr> else r) = r\<lparr>er_series := prefer_new a (er_series r)\<rparr>"
  "(if a \<noteq> [] then r\<lparr>er_series_pos := a\<rparr> else r) = r\<lparr>er_series_pos := prefer_new a (er_series_pos r)\<rparr>"
  "(if n > 0 then r\<lparr>er_page_count := n\<rparr> else r) =
     r\<lparr>er_page_count := (if n > 0 then n else er_page_count r)\<rparr>"
  by (simp_all add: prefer_new_def)

lemma ApplyMatch_eq:
  "ApplyMatch row cand = row\<lparr>
     er_title := prefer_new (c_title cand) (er_title row),
     er_author := prefer_new (Join (c_authors cand) '', '') (er_author row),
     er_publisher := prefer_new (c_publisher cand) (er_publisher row),
     er_year := prefer_new (year_of (c_published_at cand)) (er_year row),
     er_language := prefer_new (c_language cand) (er_language row),
     er_genre := prefer_new (Join (c_genres cand) '', '') (er_genre row),
     er_isbn := prefer_new (c_isbn cand) (er_isbn row),
     er_asin := prefer_new (c_asin cand) (er_asin row),
     er_description := prefer_new (c_description cand) (er_description row),
     er_page_count := (if c_page_count cand > 0 then c_page_count cand else er_page_count row),
     er_series := prefer_new (c_series cand) (er_series row),
     er_series_pos := prefer_new (c_series_pos cand) (er_series_pos row)\<rparr>"
  unfolding ApplyMatch_def by (simp only: Let_def cond_overwrite) simp

lemma ApplyMatch_id [simp]: "er_id (ApplyMatch row cand) = er_id row"
  by (simp add: ApplyMatch_eq)

lemma ApplyMatch_format [simp]: "er_format (ApplyMatch row cand) = er_format row"
  by (simp add: ApplyMatch_eq)

text \<open>The text fields the merge may change.\<close>

definition text_fields :: "(ebook_row \<Rightarrow> string) list" where
  "text_fields = [er_title, er_author, er_publisher, er_year, er_language, er_genre, er_isbn,
     er_asin, er_description, er_series, er_series_pos]"

text \<open>
  ApplyMatch never changes id or format, never empties a field that had a value, is
  idempotent for the same candidate, and the empty candidate changes nothing.
\<close>

theorem apply_match_merge:
  "er_id (ApplyMatch row cand) = er_id row \<and> er_format (ApplyMatch row cand) = er_format row \<and>
   (\<forall>f \<in> set text_fields. f row \<noteq> [] \<longrightarrow> f (ApplyMatch row cand) \<noteq> []) \<and>
   (er_page_count row > 0 \<longrightarrow> er_page_count (ApplyMatch row cand) > 0) \<and>
   ApplyMatch (ApplyMatch row cand) cand = ApplyMatch row cand \<and>
   ApplyMatch row empty_candidate = row"
proof -
  have "ApplyMatch row empty_candidate = row"
    by (cases row) (simp add: ApplyMatch_eq empty_candidate_def year_of_def)
  then show ?thesis by (auto simp: ApplyMatch_eq text_fields_def)
qed

theorem apply_match_merge_witness:
  "er_title (ApplyMatch \<lparr>er_id = ''i'', er_format = ''epub'', er_title = ''Old'', er_author = [],
     er_publisher = [], er_year = [], er_language = [], er_genre = [], er_isbn = [], er_asin = [],
     er_description = [], er_page_count = 7, er_series = [], er_series_pos = []\<rparr> empty_candidate) \<noteq> []"
proof -
  let ?row = "\<lparr>er_id = ''i'', er_format = ''epub'', er_title = ''Old'', er_author = [],
     er_publisher = [], er_year = [], er_language = [], er_genre = [], er_isbn = [], er_asin = [],
     er_description = [], er_page_count = 7, er_series = [], er_series_pos = []\<rparr>"
  have "\<forall>f \<in> set text_fields. f ?row \<noteq> [] \<longrightarrow> f (ApplyMatch ?row empty_candidate) \<noteq> []"
    using apply_match_merge [of ?row empty_candidate] by blast
  then have "er_title ?row \<noteq> [] \<longrightarrow> er_title (ApplyMatch ?row empty_candidate) \<noteq> []"
    by (rule bspec) (simp add: text_fields_def)
  then show ?thesis by simp
qed

end
