(* ===== verification/CandidateJson.thy ===== *)
theory CandidateJson
  imports MetaTypes
begin

text \<open>
  Candidates as JSON (\<open>internal/metadata/types.go\<close>), the form in which the cache stores them: the
  \<open>omitempty\<close> members are written only when set, and a raw upstream document that is not JSON makes
  the whole value unmarshallable.
\<close>

definition enc_candidate :: "candidate \<Rightarrow> json option" where
  "enc_candidate c = map_option (\<lambda>raw. JObj (
     [(''source'', enc_str (c_source c)), (''external_id'', enc_str (c_external_id c)),
      (''title'', enc_str (c_title c))] @
     omit_strs ''authors'' (c_authors c) @
     omit_str ''description'' (c_description c) @
     omit_str ''asin'' (c_asin c) @
     omit_str ''isbn'' (c_isbn c) @
     omit_str ''cover_url'' (c_cover_url c) @
     omit_str ''published_at'' (c_published_at c) @
     omit_str ''publisher'' (c_publisher c) @
     omit_str ''language'' (c_language c) @
     omit_strs ''genres'' (c_genres c) @
     omit_int ''page_count'' (c_page_count c) @
     omit_str ''series'' (c_series c) @
     omit_str ''series_pos'' (c_series_pos c) @
     omit_str ''region'' (c_region c) @ raw)) (enc_raw ''raw'' (c_raw c))"

definition str_field :: "('r \<Rightarrow> string) \<Rightarrow> (string \<Rightarrow> 'r \<Rightarrow> 'r) \<Rightarrow> json \<Rightarrow> 'r \<Rightarrow> 'r option" where
  "str_field get put v r = map_option (\<lambda>x. put x r) (dec_str (get r) v)"

definition strs_field :: "(string list \<Rightarrow> 'r \<Rightarrow> 'r) \<Rightarrow> json \<Rightarrow> 'r \<Rightarrow> 'r option" where
  "strs_field put v r = map_option (\<lambda>x. put x r) (dec_strs v)"

definition int_field :: "('r \<Rightarrow> int) \<Rightarrow> (int \<Rightarrow> 'r \<Rightarrow> 'r) \<Rightarrow> json \<Rightarrow> 'r \<Rightarrow> 'r option" where
  "int_field get put v r = map_option (\<lambda>x. put x r) (dec_int (get r) v)"

definition candidate_fields :: "candidate fields" where
  "candidate_fields = [
     (''source'', str_field c_source (\<lambda>x. c_source_update (\<lambda>_. x))),
     (''external_id'', str_field c_external_id (\<lambda>x. c_external_id_update (\<lambda>_. x))),
     (''title'', str_field c_title (\<lambda>x. c_title_update (\<lambda>_. x))),
     (''authors'', strs_field (\<lambda>x. c_authors_update (\<lambda>_. x))),
     (''description'', str_field c_description (\<lambda>x. c_description_update (\<lambda>_. x))),
     (''asin'', str_field c_asin (\<lambda>x. c_asin_update (\<lambda>_. x))),
     (''isbn'', str_field c_isbn (\<lambda>x. c_isbn_update (\<lambda>_. x))),
     (''cover_url'', str_field c_cover_url (\<lambda>x. c_cover_url_update (\<lambda>_. x))),
     (''published_at'', str_field c_published_at (\<lambda>x. c_published_at_update (\<lambda>_. x))),
     (''publisher'', str_field c_publisher (\<lambda>x. c_publisher_update (\<lambda>_. x))),
     (''language'', str_field c_language (\<lambda>x. c_language_update (\<lambda>_. x))),
     (''genres'', strs_field (\<lambda>x. c_genres_update (\<lambda>_. x))),
     (''page_count'', int_field c_page_count (\<lambda>x. c_page_count_update (\<lambda>_. x))),
     (''series'', str_field c_series (\<lambda>x. c_series_update (\<lambda>_. x))),
     (''series_pos'', str_field c_series_pos (\<lambda>x. c_series_pos_update (\<lambda>_. x))),
     (''region'', str_field c_region (\<lambda>x. c_region_update (\<lambda>_. x))),
     (''raw'', \<lambda>v r. Some (r\<lparr>c_raw := RawValid v\<rparr>))]"

definition dec_candidate :: "json \<Rightarrow> candidate option" where
  "dec_candidate v = dec_struct candidate_fields v empty_candidate"

definition marshal_candidates :: "candidate list \<Rightarrow> json option" where
  "marshal_candidates cs = map_option JArr (sequence (map enc_candidate cs))"

definition unmarshal_candidates :: "json \<Rightarrow> candidate list option" where
  "unmarshal_candidates v = (case v of JArr vs \<Rightarrow> sequence (map dec_candidate vs)
     | JNull \<Rightarrow> Some [] | _ \<Rightarrow> None)"

subsection \<open>Round trip\<close>

definition coerce_candidate :: "candidate \<Rightarrow> candidate" where
  "coerce_candidate c = \<lparr>c_source = coerce_utf8 (c_source c),
     c_external_id = coerce_utf8 (c_external_id c), c_title = coerce_utf8 (c_title c),
     c_authors = map coerce_utf8 (c_authors c), c_description = coerce_utf8 (c_description c),
     c_asin = coerce_utf8 (c_asin c), c_isbn = coerce_utf8 (c_isbn c),
     c_cover_url = coerce_utf8 (c_cover_url c), c_published_at = coerce_utf8 (c_published_at c),
     c_publisher = coerce_utf8 (c_publisher c), c_language = coerce_utf8 (c_language c),
     c_genres = map coerce_utf8 (c_genres c), c_page_count = c_page_count c,
     c_series = coerce_utf8 (c_series c), c_series_pos = coerce_utf8 (c_series_pos c),
     c_region = coerce_utf8 (c_region c), c_raw = c_raw c\<rparr>"

lemma dec_str_member:
  assumes "map_of fs k = Some (str_field get put)"
  shows "dec_members fs ((k, enc_str s) # ms) r = dec_members fs ms (put (coerce_utf8 s) r)"
  using assms by (simp add: find_field_exact str_field_def)

lemma dec_omit_str_member:
  assumes "map_of fs k = Some (str_field get put)" and "put [] r = r"
  shows "dec_members fs (omit_str k s @ ms) r = dec_members fs ms (put (coerce_utf8 s) r)"
  using assms by (cases "s = []") (simp_all add: omit_str_def find_field_exact str_field_def)

lemma dec_omit_strs_member:
  assumes "map_of fs k = Some (strs_field put)" and "put [] r = r"
  shows "dec_members fs (omit_strs k ss @ ms) r = dec_members fs ms (put (map coerce_utf8 ss) r)"
  using assms by (cases "ss = []") (simp_all add: omit_strs_def find_field_exact strs_field_def)

lemma dec_omit_int_member:
  assumes "map_of fs k = Some (int_field get put)" and "put 0 r = r" and "int64_range n"
  shows "dec_members fs (omit_int k n @ ms) r = dec_members fs ms (put n r)"
  using assms by (cases "n = 0") (simp_all add: omit_int_def find_field_exact int_field_def)

lemma candidate_field_table:
  "map_of candidate_fields ''source'' = Some (str_field c_source (\<lambda>x. c_source_update (\<lambda>_. x)))"
  "map_of candidate_fields ''external_id'' = Some (str_field c_external_id (\<lambda>x. c_external_id_update (\<lambda>_. x)))"
  "map_of candidate_fields ''title'' = Some (str_field c_title (\<lambda>x. c_title_update (\<lambda>_. x)))"
  "map_of candidate_fields ''authors'' = Some (strs_field (\<lambda>x. c_authors_update (\<lambda>_. x)))"
  "map_of candidate_fields ''description'' = Some (str_field c_description (\<lambda>x. c_description_update (\<lambda>_. x)))"
  "map_of candidate_fields ''asin'' = Some (str_field c_asin (\<lambda>x. c_asin_update (\<lambda>_. x)))"
  "map_of candidate_fields ''isbn'' = Some (str_field c_isbn (\<lambda>x. c_isbn_update (\<lambda>_. x)))"
  "map_of candidate_fields ''cover_url'' = Some (str_field c_cover_url (\<lambda>x. c_cover_url_update (\<lambda>_. x)))"
  "map_of candidate_fields ''published_at'' = Some (str_field c_published_at (\<lambda>x. c_published_at_update (\<lambda>_. x)))"
  "map_of candidate_fields ''publisher'' = Some (str_field c_publisher (\<lambda>x. c_publisher_update (\<lambda>_. x)))"
  "map_of candidate_fields ''language'' = Some (str_field c_language (\<lambda>x. c_language_update (\<lambda>_. x)))"
  "map_of candidate_fields ''genres'' = Some (strs_field (\<lambda>x. c_genres_update (\<lambda>_. x)))"
  "map_of candidate_fields ''page_count'' = Some (int_field c_page_count (\<lambda>x. c_page_count_update (\<lambda>_. x)))"
  "map_of candidate_fields ''series'' = Some (str_field c_series (\<lambda>x. c_series_update (\<lambda>_. x)))"
  "map_of candidate_fields ''series_pos'' = Some (str_field c_series_pos (\<lambda>x. c_series_pos_update (\<lambda>_. x)))"
  "map_of candidate_fields ''region'' = Some (str_field c_region (\<lambda>x. c_region_update (\<lambda>_. x)))"
  "map_of candidate_fields ''raw'' = Some (\<lambda>v r. Some (r\<lparr>c_raw := RawValid v\<rparr>))"
  by (simp_all add: candidate_fields_def)

lemmas candidate_members =
  candidate_field_table(1-3) [THEN dec_str_member]
  candidate_field_table(5-11,14-16) [THEN dec_omit_str_member]
  candidate_field_table(4,12) [THEN dec_omit_strs_member]
  candidate_field_table(13) [THEN dec_omit_int_member]

lemma dec_enc_candidate:
  assumes "enc_candidate c = Some v" and "int64_range (c_page_count c)"
  shows "dec_candidate v = Some (coerce_candidate c)"
proof -
  obtain raw where raw: "enc_raw ''raw'' (c_raw c) = Some raw"
    and v: "v = JObj (
     [(''source'', enc_str (c_source c)), (''external_id'', enc_str (c_external_id c)),
      (''title'', enc_str (c_title c))] @
     omit_strs ''authors'' (c_authors c) @ omit_str ''description'' (c_description c) @
     omit_str ''asin'' (c_asin c) @ omit_str ''isbn'' (c_isbn c) @
     omit_str ''cover_url'' (c_cover_url c) @ omit_str ''published_at'' (c_published_at c) @
     omit_str ''publisher'' (c_publisher c) @ omit_str ''language'' (c_language c) @
     omit_strs ''genres'' (c_genres c) @ omit_int ''page_count'' (c_page_count c) @
     omit_str ''series'' (c_series c) @ omit_str ''series_pos'' (c_series_pos c) @
     omit_str ''region'' (c_region c) @ raw)"
    using assms(1) by (auto simp: enc_candidate_def)
  have rawm: "dec_members candidate_fields raw r = Some (r\<lparr>c_raw := c_raw c\<rparr>)"
    if "c_raw r = RawEmpty" for r
    using raw that by (cases "c_raw c") (auto simp: enc_raw_def find_field_exact candidate_field_table)
  show ?thesis
    unfolding dec_candidate_def dec_struct_def v json.case append.simps
    by (simp add: candidate_members empty_candidate_def assms(2) rawm coerce_candidate_def del: dec_members.simps)
qed

lemma dec_enc_candidates:
  assumes "marshal_candidates cs = Some v" and "list_all (\<lambda>c. int64_range (c_page_count c)) cs"
  shows "unmarshal_candidates v = Some (map coerce_candidate cs)"
proof -
  obtain vs where vs: "sequence (map enc_candidate cs) = Some vs" and v: "v = JArr vs"
    using assms(1) by (auto simp: marshal_candidates_def)
  have "sequence (map dec_candidate vs) = Some (map coerce_candidate cs)"
    using vs assms(2)
  proof (induction cs arbitrary: vs)
    case (Cons c cs)
    then obtain w ws where "enc_candidate c = Some w" "sequence (map enc_candidate cs) = Some ws"
      "vs = w # ws" by (auto split: option.splits bind_splits)
    with Cons show ?case by (simp add: dec_enc_candidate)
  qed simp
  then show ?thesis by (simp add: unmarshal_candidates_def v)
qed

end
