(* ===== verification/GoFloat.thy ===== *)
theory GoFloat
  imports Prelude
begin

text \<open>
  The IEEE double arithmetic behind expressions such as \<open>int(float64(m) / float64(n) * 30.0)\<close>.
  A non-negative double is a pair of integers, numerator and denominator, the denominator a power
  of two; \<open>f64 p q\<close> is the double nearest to \<open>p / q\<close>, ties to even, with 53 significant bits.
  The values of the program (counts of words, names and fields, and their ratios times a weight)
  are far from the overflow and subnormal ranges, which this model leaves out.
\<close>

type_synonym f64 = "int \<times> int"

function scale_up :: "int \<Rightarrow> int \<Rightarrow> nat" where
  "scale_up p q = (if p \<le> 0 \<or> p \<ge> q * 2 ^ 52 then 0 else Suc (scale_up (2 * p) q))"
  by pat_completeness auto
termination
  by (relation "measure (\<lambda>(p, q). nat (q * 2 ^ 52 - p))") auto

function scale_down :: "int \<Rightarrow> int \<Rightarrow> nat" where
  "scale_down p q = (if q \<le> 0 \<or> p < q * 2 ^ 53 then 0 else Suc (scale_down p (2 * q)))"
  by pat_completeness auto
termination
  by (relation "measure (\<lambda>(p, q). nat (p + 1 - q))") auto

declare scale_up.simps [simp del] scale_down.simps [simp del]

definition round_even :: "int \<Rightarrow> int \<Rightarrow> int" where
  "round_even p q =
    (let m = p div q; r = p mod q
     in if 2 * r < q then m else if 2 * r > q then m + 1 else if even m then m else m + 1)"

definition f64 :: "int \<Rightarrow> int \<Rightarrow> f64" where
  "f64 p q =
    (let k = scale_up p q; j = scale_down p q
     in (round_even (p * 2 ^ k) (q * 2 ^ j) * 2 ^ j, 2 ^ k))"

definition fdiv :: "f64 \<Rightarrow> f64 \<Rightarrow> f64" where
  "fdiv x y = f64 (fst x * snd y) (snd x * fst y)"

definition fmul :: "f64 \<Rightarrow> f64 \<Rightarrow> f64" where
  "fmul x y = f64 (fst x * fst y) (snd x * snd y)"

text \<open>\<open>int(x)\<close> truncates; the values are non-negative.\<close>

definition ftrunc :: "f64 \<Rightarrow> int" where
  "ftrunc x = fst x div snd x"

text \<open>\<open>int(float64(m) / float64(n) * w)\<close>\<close>

definition ratio_points :: "nat \<Rightarrow> nat \<Rightarrow> int \<Rightarrow> int" where
  "ratio_points m n w = ftrunc (fmul (fdiv (f64 (int m) 1) (f64 (int n) 1)) (f64 w 1))"

subsection \<open>Rounding respects integer bounds\<close>

lemma round_even_le: "0 < q \<Longrightarrow> p \<le> n * q \<Longrightarrow> round_even p q \<le> n"
proof -
  assume q: "0 < q" and h: "p \<le> n * q"
  have d: "p div q * q + p mod q = p" by simp
  have r: "0 \<le> p mod q" "p mod q < q" using q by simp_all
  have "p div q * q \<le> n * q" using h d r by linarith
  then have le: "p div q \<le> n" using q by simp
  show ?thesis
  proof (cases "p div q = n")
    case True
    with d h have "p mod q = 0" using r by (metis add_le_same_cancel1 order_antisym)
    with True q show ?thesis by (simp add: round_even_def Let_def)
  next
    case False
    with le show ?thesis by (simp add: round_even_def Let_def)
  qed
qed

lemma round_even_ge: "0 < q \<Longrightarrow> n * q \<le> p \<Longrightarrow> n \<le> round_even p q"
proof -
  assume q: "0 < q" and h: "n * q \<le> p"
  then have "n \<le> p div q" by (simp add: zdiv_mono1 [of "n * q" p q, simplified])
  then show ?thesis by (simp add: round_even_def Let_def)
qed

lemma scale_down_small: "0 < q \<Longrightarrow> p < q * 2 ^ 53 \<Longrightarrow> scale_down p q = 0"
  by (simp add: scale_down.simps)

lemma f64_small:
  assumes "0 < q" and "p < q * 2 ^ 53"
  shows "f64 p q = (round_even (p * 2 ^ scale_up p q) q, 2 ^ scale_up p q)"
  using assms by (simp add: f64_def Let_def scale_down_small)

lemma f64_den_pos: "0 < snd (f64 p q)"
  by (simp add: f64_def Let_def)

lemma f64_le:
  assumes q: "0 < q" and h: "p \<le> c * q" and c: "c < 2 ^ 53"
  shows "fst (f64 p q) \<le> c * snd (f64 p q)"
proof -
  let ?k = "(2::int) ^ scale_up p q"
  have k: "0 < ?k" by simp
  have "c * q < 2 ^ 53 * q" using c q by (rule mult_strict_right_mono)
  with h have "p < q * 2 ^ 53" by (simp add: mult.commute)
  moreover have "p * ?k \<le> c * q * ?k" using h k by (simp add: mult_right_mono)
  then have "p * ?k \<le> (c * ?k) * q" by (simp add: algebra_simps)
  then have "round_even (p * ?k) q \<le> c * ?k" using q by (rule round_even_le [rotated])
  ultimately show ?thesis using q by (simp add: f64_small)
qed

lemma f64_ge:
  assumes q: "0 < q" and h: "c * q \<le> p" and p: "p < q * 2 ^ 53"
  shows "c * snd (f64 p q) \<le> fst (f64 p q)"
proof -
  let ?k = "(2::int) ^ scale_up p q"
  have k: "0 < ?k" by simp
  have "c * q * ?k \<le> p * ?k" using h k by (simp add: mult_right_mono)
  then have "(c * ?k) * q \<le> p * ?k" by (simp add: algebra_simps)
  then have "c * ?k \<le> round_even (p * ?k) q" using q by (rule round_even_ge [rotated])
  with q p show ?thesis by (simp add: f64_small)
qed

lemma f64_int: "0 \<le> c \<Longrightarrow> c < 2 ^ 53 \<Longrightarrow> fst (f64 c 1) = c * snd (f64 c 1)"
  using f64_le [of 1 c c] f64_ge [of 1 c c] by simp

subsection \<open>Points for a ratio\<close>

lemma ratio_points_bounds:
  assumes mn: "m \<le> n" and n: "0 < n" "int n < 2 ^ 53" and w: "0 \<le> w" "w < 2 ^ 53"
  shows "0 \<le> ratio_points m n w \<and> ratio_points m n w \<le> w"
proof -
  define M N W where d: "M = f64 (int m) 1" "N = f64 (int n) 1" "W = f64 w 1"
  have fM: "fst M = int m * snd M" and fN: "fst N = int n * snd N" and fW: "fst W = w * snd W"
    and pos: "0 < snd M" "0 < snd N" "0 < snd W"
    using assms by (simp_all add: d f64_int f64_den_pos)
  define D where "D = fdiv M N"
  have q: "0 < snd M * fst N" using fN pos n by simp
  have le1: "fst M * snd N \<le> 1 * (snd M * fst N)"
    using mn pos by (simp add: fM fN mult.assoc mult_mono)
  have D1: "fst D \<le> 1 * snd D" and D0: "0 * snd D \<le> fst D" and Dpos: "0 < snd D"
  proof -
    show "fst D \<le> 1 * snd D" unfolding D_def fdiv_def by (rule f64_le [OF q le1]) simp
    have "0 * (snd M * fst N) \<le> fst M * snd N" using fM pos by simp
    moreover have "fst M * snd N < snd M * fst N * 2 ^ 53" using le1 q by simp
    ultimately show "0 * snd D \<le> fst D" unfolding D_def fdiv_def using f64_ge [OF q] by blast
    show "0 < snd D" by (simp add: D_def fdiv_def f64_den_pos)
  qed
  define P where "P = fmul D W"
  have q2: "0 < snd D * snd W" using Dpos pos by simp
  have le2: "fst D * fst W \<le> w * (snd D * snd W)"
  proof -
    have "fst D * (w * snd W) \<le> snd D * (w * snd W)"
      using D1 w pos by (intro mult_right_mono) simp_all
    then show ?thesis by (simp add: fW algebra_simps)
  qed
  have Pw: "fst P \<le> w * snd P" unfolding P_def fmul_def by (rule f64_le [OF q2 le2 w(2)])
  have "0 * (snd D * snd W) \<le> fst D * fst W" using D0 fW w pos by simp
  moreover have "fst D * fst W < snd D * snd W * 2 ^ 53"
  proof -
    have "w * (snd D * snd W) < 2 ^ 53 * (snd D * snd W)"
      using w(2) q2 by (rule mult_strict_right_mono)
    with le2 show ?thesis by (simp add: algebra_simps)
  qed
  ultimately have P0: "0 * snd P \<le> fst P" unfolding P_def fmul_def using f64_ge [OF q2] by blast
  have Ppos: "0 < snd P" by (simp add: P_def fmul_def f64_den_pos)
  have R: "ratio_points m n w = fst P div snd P"
    by (simp add: ratio_points_def ftrunc_def P_def D_def d)
  have "0 \<le> fst P div snd P" using P0 Ppos by (simp add: pos_imp_zdiv_nonneg_iff)
  moreover have "fst P div snd P \<le> w"
    using zdiv_mono1 [OF Pw Ppos] Ppos by simp
  ultimately show ?thesis by (simp add: R)
qed

lemma ratio_points_full:
  assumes n: "0 < n" "int n < 2 ^ 53" and w: "0 \<le> w" "w < 2 ^ 53"
  shows "ratio_points n n w = w"
proof -
  define N W where d: "N = f64 (int n) 1" "W = f64 w 1"
  have fN: "fst N = int n * snd N" and fW: "fst W = w * snd W"
    and pos: "0 < snd N" "0 < snd W"
    using assms by (simp_all add: d f64_int f64_den_pos)
  define D where "D = fdiv N N"
  have q: "0 < snd N * fst N" using fN pos n by simp
  have "fst D = snd D"
    using f64_le [OF q, of "fst N * snd N" 1] f64_ge [OF q, of 1 "fst N * snd N"] q
    by (simp add: D_def fdiv_def mult.commute)
  moreover have Dpos: "0 < snd D" by (simp add: D_def fdiv_def f64_den_pos)
  define P where "P = fmul D W"
  have q2: "0 < snd D * snd W" using Dpos pos by simp
  have eq: "fst D * fst W = w * (snd D * snd W)"
    using \<open>fst D = snd D\<close> by (simp add: fW)
  have lt: "w * (snd D * snd W) < snd D * snd W * 2 ^ 53"
  proof -
    have "w * (snd D * snd W) < 2 ^ 53 * (snd D * snd W)"
      using w(2) q2 by (rule mult_strict_right_mono)
    then show ?thesis by (simp add: algebra_simps)
  qed
  have "fst P \<le> w * snd P" unfolding P_def fmul_def using eq w by (intro f64_le [OF q2]) simp_all
  moreover have "w * snd P \<le> fst P" unfolding P_def fmul_def using eq lt
    by (intro f64_ge [OF q2]) simp_all
  ultimately have "fst P = w * snd P" by simp
  moreover have "0 < snd P" by (simp add: P_def fmul_def f64_den_pos)
  moreover have "ratio_points n n w = fst P div snd P"
    by (simp add: ratio_points_def ftrunc_def P_def D_def d)
  ultimately show ?thesis by simp
qed

lemma ratio_points_zero:
  assumes "0 < n" "int n < 2 ^ 53" "0 \<le> w" "w < 2 ^ 53"
  shows "ratio_points 0 n w = 0"
proof -
  have "\<And>q. 0 < q \<Longrightarrow> fst (f64 0 q) = 0"
    using f64_le [of _ 0 0] f64_ge [of _ 0 0] by fastforce
  then show ?thesis
    using assms f64_int [of "int n"] f64_den_pos f64_int [of w]
    by (simp add: ratio_points_def ftrunc_def fmul_def fdiv_def)
qed

end
