(* ===== verification/Confidence.thy ===== *)
theory Confidence
  imports MetaTypes GoFloat
begin

text \<open>
  The confidence score of a search result (\<open>internal/metadata/confidence.go\<close>), with the double
  arithmetic of its three ratios, and the comparison of ISBNs in their 10 and 13 character forms.
\<close>

subsection \<open>ISBNs\<close>

definition isbn_char :: "char \<Rightarrow> bool" where
  "isbn_char c \<longleftrightarrow> is_digit c \<or> c = CHR ''X'' \<or> c = CHR ''x''"

definition normalizeISBN :: "string \<Rightarrow> string" where
  "normalizeISBN s = map (\<lambda>c. if c = CHR ''x'' then CHR ''X'' else c) (filter isbn_char s)"

definition isbnsMatch :: "string \<Rightarrow> string \<Rightarrow> bool" where
  "isbnsMatch a b =
    (let an = normalizeISBN a; bn = normalizeISBN b
     in if an = [] \<or> bn = [] then False
        else if an = bn then True
        else if length an = 10 \<and> length bn = 13 \<and> HasPrefix bn ''978''
          then take 9 an = take 9 (drop 3 bn)
        else if length bn = 10 \<and> length an = 13 \<and> HasPrefix an ''978''
          then take 9 bn = take 9 (drop 3 an)
        else False)"

subsection \<open>Scores\<close>

definition titleScore :: "uni \<Rightarrow> string \<Rightarrow> string \<Rightarrow> int" where
  "titleScore u query title =
    (let q = ToLower u (TrimSpace query); t = ToLower u (TrimSpace title)
     in if q = t then 30
        else if Contains t q \<or> Contains q t then 22
        else let qw = Fields q; tw = Fields t
          in if qw = [] then 0
             else ratio_points
               (count_where (\<lambda>w. list_ex (\<lambda>tword. Contains tword w \<or> Contains w tword) tw) qw)
               (length qw) 30)"

definition name_matches :: "uni \<Rightarrow> string list \<Rightarrow> string \<Rightarrow> bool" where
  "name_matches u candidates orig =
    (let ol = ToLower u (TrimSpace orig)
     in ol \<noteq> [] \<and> list_ex (\<lambda>c. let cl = ToLower u (TrimSpace c)
          in cl \<noteq> [] \<and> (Contains cl ol \<or> Contains ol cl)) candidates)"

definition matchingNames :: "uni \<Rightarrow> string list \<Rightarrow> string list \<Rightarrow> nat" where
  "matchingNames u original candidates = count_where (name_matches u candidates) original"

definition populated_fields :: "candidate \<Rightarrow> nat" where
  "populated_fields c = count_where id
     [c_title c \<noteq> [], c_authors c \<noteq> [], c_description c \<noteq> [], c_cover_url c \<noteq> [],
      c_asin c \<noteq> [] \<or> c_isbn c \<noteq> [], c_publisher c \<noteq> [], c_language c \<noteq> [],
      c_page_count c > 0, c_genres c \<noteq> []]"

definition completenessScore :: "candidate \<Rightarrow> int" where
  "completenessScore c = ratio_points (populated_fields c) 9 10"

definition title_points :: "uni \<Rightarrow> string \<Rightarrow> candidate \<Rightarrow> int" where
  "title_points u query c =
     (if c_title c \<noteq> [] \<and> query \<noteq> [] then titleScore u query (c_title c) else 0)"

definition isbn_points :: "candidate \<Rightarrow> candidate option \<Rightarrow> int" where
  "isbn_points c original = (case original of None \<Rightarrow> 0 | Some oc \<Rightarrow>
     if c_isbn oc \<noteq> [] \<and> c_isbn c \<noteq> [] then (if isbnsMatch (c_isbn oc) (c_isbn c) then 35 else 0)
     else 0)"

definition author_points :: "uni \<Rightarrow> candidate \<Rightarrow> candidate option \<Rightarrow> int" where
  "author_points u c original = (case original of None \<Rightarrow> 0 | Some oc \<Rightarrow>
     if c_authors oc \<noteq> [] \<and> c_authors c \<noteq> []
     then ratio_points (matchingNames u (c_authors oc) (c_authors c)) (length (c_authors oc)) 20
     else 0)"

definition asin_points :: "uni \<Rightarrow> candidate \<Rightarrow> candidate option \<Rightarrow> int" where
  "asin_points u c original = (case original of None \<Rightarrow> 0 | Some oc \<Rightarrow>
     if c_asin oc \<noteq> [] \<and> c_asin c \<noteq> [] then (if EqualFold u (c_asin oc) (c_asin c) then 5 else 0)
     else 0)"

definition CalculateConfidence :: "uni \<Rightarrow> string \<Rightarrow> candidate \<Rightarrow> candidate option \<Rightarrow> int" where
  "CalculateConfidence u query c original =
    (let score = title_points u query c + isbn_points c original + author_points u c original
           + asin_points u c original + completenessScore c
     in if score > 100 then 100 else score)"

subsection \<open>Bounds\<close>

lemma count_where_le [simp]: "count_where p xs \<le> length xs"
  by (simp add: count_where_def)

lemma fields_from_length: "length (fields_from acc s) \<le> length s + length acc"
proof (induction acc s rule: fields_from.induct)
  case (1 acc s)
  show ?case
  proof (cases s)
    case Nil
    then show ?thesis by (cases acc) (simp_all add: fields_from.simps [of _ "[]"])
  next
    case (Cons c s')
    show ?thesis
    proof (cases "space_at_front s = 0")
      case True
      with 1(1) [OF Cons] Cons show ?thesis by (simp add: fields_from.simps [of acc "c # s'"])
    next
      case False
      with 1(2) [OF Cons] have "length (fields_from [] (drop (space_at_front s) s)) \<le> length s - 1"
        by (simp add: le_diff_conv)
      with False Cons show ?thesis
        by (cases acc) (simp_all add: fields_from.simps [of _ "c # s'"])
    qed
  qed
qed

lemma Fields_length: "length (Fields s) \<le> length s"
  using fields_from_length [of "[]" s] by (simp add: Fields_def)

definition sized :: "nat \<Rightarrow> bool" where
  "sized n \<longleftrightarrow> int n < 2 ^ 53"

lemma ratio_points_count:
  "sized (length xs) \<Longrightarrow> xs \<noteq> [] \<Longrightarrow> 0 \<le> w \<Longrightarrow> w < 2 ^ 53 \<Longrightarrow>
   0 \<le> ratio_points (count_where p xs) (length xs) w \<and>
   ratio_points (count_where p xs) (length xs) w \<le> w"
  by (rule ratio_points_bounds) (simp_all add: sized_def)

lemma completenessScore_bounds: "0 \<le> completenessScore c \<and> completenessScore c \<le> 10"
proof -
  have "populated_fields c \<le> 9"
    unfolding populated_fields_def by (rule order_trans [OF count_where_le]) simp
  then show ?thesis unfolding completenessScore_def by (intro ratio_points_bounds) simp_all
qed

lemma titleScore_bounds:
  assumes "sized (length (ToLower u (TrimSpace q)))"
  shows "0 \<le> titleScore u q t \<and> titleScore u q t \<le> 30"
proof -
  let ?qw = "Fields (ToLower u (TrimSpace q))"
  have "sized (length ?qw)"
    using assms Fields_length [of "ToLower u (TrimSpace q)"] by (simp add: sized_def)
  from ratio_points_count [OF this, of 30] show ?thesis
    by (simp add: titleScore_def Let_def)
qed

lemma author_points_bounds:
  assumes "\<And>oc. orig = Some oc \<Longrightarrow> sized (length (c_authors oc))"
  shows "0 \<le> author_points u c orig \<and> author_points u c orig \<le> 20"
proof (cases orig)
  case None
  then show ?thesis by (simp add: author_points_def)
next
  case (Some oc)
  with assms ratio_points_count [of "c_authors oc" 20] show ?thesis
    by (simp add: author_points_def matchingNames_def)
qed

lemma asin_points_bounds: "0 \<le> asin_points u c orig \<and> asin_points u c orig \<le> 5"
  by (simp add: asin_points_def split: option.splits)

lemma isbn_points_bounds: "0 \<le> isbn_points c orig \<and> isbn_points c orig \<le> 35"
  by (simp add: isbn_points_def split: option.splits)

lemma title_points_bounds:
  "sized (length (ToLower u (TrimSpace q))) \<Longrightarrow> 0 \<le> title_points u q c \<and> title_points u q c \<le> 30"
  by (simp add: title_points_def titleScore_bounds)

text \<open>
  The confidence score lies between 0 and 100 and is the sum of its five parts, so the cap
  at 100 never cuts; the float64 quotients are rounded as the hardware rounds them.
\<close>

theorem confidence_bounds:
  assumes "sized (length (ToLower u (TrimSpace query)))"
    and "\<And>oc. original = Some oc \<Longrightarrow> sized (length (c_authors oc))"
  shows "0 \<le> CalculateConfidence u query c original \<and>
    CalculateConfidence u query c original \<le> 100 \<and>
    CalculateConfidence u query c original =
      title_points u query c + isbn_points c original + author_points u c original
      + asin_points u c original + completenessScore c"
  using title_points_bounds [OF assms(1), of c] author_points_bounds [of original u c, OF assms(2)]
    isbn_points_bounds [of c original] asin_points_bounds [of u c original]
    completenessScore_bounds [of c]
  by (simp add: CalculateConfidence_def Let_def)

subsection \<open>ISBN comparison against its specification\<close>

text \<open>Valid ISBNs: the right length and a correct check digit.\<close>

definition isbn_digit_val :: "char \<Rightarrow> nat" where
  "isbn_digit_val c = (if c = CHR ''X'' then 10 else digit_val c)"

fun weighted :: "nat list \<Rightarrow> string \<Rightarrow> nat" where
  "weighted (w # ws) (c # s) = w * isbn_digit_val c + weighted ws s"
| "weighted _ _ = 0"

definition valid_isbn10 :: "string \<Rightarrow> bool" where
  "valid_isbn10 n \<longleftrightarrow> length n = 10 \<and> list_all is_digit (take 9 n) \<and>
     (is_digit (n ! 9) \<or> n ! 9 = CHR ''X'') \<and>
     (weighted [10, 9, 8, 7, 6, 5, 4, 3, 2] (take 9 n) + isbn_digit_val (n ! 9)) mod 11 = 0"

definition valid_isbn13 :: "string \<Rightarrow> bool" where
  "valid_isbn13 n \<longleftrightarrow> length n = 13 \<and> list_all is_digit n \<and>
     (weighted [1, 3, 1, 3, 1, 3, 1, 3, 1, 3, 1, 3] (take 12 n) + digit_val (n ! 12)) mod 10 = 0"

definition valid_isbn :: "string \<Rightarrow> bool" where
  "valid_isbn s \<longleftrightarrow> valid_isbn10 (normalizeISBN s) \<or> valid_isbn13 (normalizeISBN s)"

text \<open>The book an ISBN names: its twelve digits without the check digit.\<close>

definition isbn_key :: "string \<Rightarrow> string" where
  "isbn_key s = (let n = normalizeISBN s
     in if length n = 10 then ''978'' @ take 9 n else take 12 n)"

lemma digit_val_inj: "is_digit c \<Longrightarrow> is_digit d \<Longrightarrow> digit_val c = digit_val d \<Longrightarrow> c = d"
proof -
  assume "is_digit c" "is_digit d" "digit_val c = digit_val d"
  then have "code c = (code d :: nat)" unfolding is_digit_def digit_val_def by linarith
  then show "c = d" by simp
qed

lemma digit_val_le: "is_digit c \<Longrightarrow> digit_val c \<le> 9"
  by (auto simp: is_digit_def digit_val_def)

lemma isbn_digit_val_inj:
  assumes c: "is_digit c \<or> c = CHR ''X''" and d: "is_digit d \<or> d = CHR ''X''"
    and eq: "isbn_digit_val c = isbn_digit_val d"
  shows "c = d"
proof -
  have x: "\<not> is_digit (CHR ''X'')" by (simp add: is_digit_def)
  show ?thesis
  proof (cases "c = CHR ''X'' \<or> d = CHR ''X''")
    case True
    with assms x digit_val_le [of c] digit_val_le [of d] show ?thesis
      by (auto simp: isbn_digit_val_def split: if_splits)
  next
    case False
    with assms show ?thesis by (auto simp: isbn_digit_val_def intro: digit_val_inj)
  qed
qed

lemma check_digit_unique:
  fixes s t a b m :: nat
  assumes "s = t" and "(s + a) mod m = 0" and "(t + b) mod m = 0" and "a < m" and "b < m"
  shows "a = b"
proof -
  have "a = b" if "a \<le> b" "(s + a) mod m = 0" "(s + b) mod m = 0" "b < m" for a b
  proof -
    from that have "m dvd (s + b) - (s + a)" by (intro dvd_diff_nat) (auto simp: mod_eq_0_iff_dvd)
    then have "m dvd b - a" by simp
    moreover have "b - a < m" using that by simp
    ultimately have "\<not> 0 < b - a" using dvd_imp_le [of m "b - a"] by linarith
    with that show ?thesis by simp
  qed
  with assms show ?thesis by (metis nat_le_linear)
qed

lemma valid_isbn10_unique:
  assumes "valid_isbn10 n" and "valid_isbn10 m" and "take 9 n = take 9 m"
  shows "n = m"
proof -
  have len: "length n = 10" "length m = 10"
    and d: "is_digit (n ! 9) \<or> n ! 9 = CHR ''X''" "is_digit (m ! 9) \<or> m ! 9 = CHR ''X''"
    using assms by (simp_all add: valid_isbn10_def)
  have lt: "isbn_digit_val (n ! 9) < 11" "isbn_digit_val (m ! 9) < 11"
    using d digit_val_le by (force simp: isbn_digit_val_def)+
  have "isbn_digit_val (n ! 9) = isbn_digit_val (m ! 9)"
    by (rule check_digit_unique [OF _ _ _ lt,
          of "weighted [10, 9, 8, 7, 6, 5, 4, 3, 2] (take 9 n)"
             "weighted [10, 9, 8, 7, 6, 5, 4, 3, 2] (take 9 m)"])
      (use assms in \<open>simp_all only: valid_isbn10_def\<close>)
  then have "n ! 9 = m ! 9" using d by (intro isbn_digit_val_inj)
  moreover have "n = take 9 n @ [n ! 9]" "m = take 9 m @ [m ! 9]"
    using len take_Suc_conv_app_nth [of 9 n] take_Suc_conv_app_nth [of 9 m] by simp_all
  ultimately show ?thesis using assms(3) by metis
qed

lemma valid_isbn13_unique:
  assumes "valid_isbn13 n" and "valid_isbn13 m" and "take 12 n = take 12 m"
  shows "n = m"
proof -
  have len: "length n = 13" "length m = 13" and d: "is_digit (n ! 12)" "is_digit (m ! 12)"
    using assms by (simp_all add: valid_isbn13_def list_all_length)
  have lt: "digit_val (n ! 12) < 10" "digit_val (m ! 12) < 10"
    using d digit_val_le by fastforce+
  have "digit_val (n ! 12) = digit_val (m ! 12)"
    by (rule check_digit_unique [OF _ _ _ lt,
          of "weighted [1, 3, 1, 3, 1, 3, 1, 3, 1, 3, 1, 3] (take 12 n)"
             "weighted [1, 3, 1, 3, 1, 3, 1, 3, 1, 3, 1, 3] (take 12 m)"])
      (use assms in \<open>simp_all only: valid_isbn13_def\<close>)
  then have "n ! 12 = m ! 12" using d by (intro digit_val_inj)
  moreover have "n = take 12 n @ [n ! 12]" "m = take 12 m @ [m ! 12]"
    using len take_Suc_conv_app_nth [of 12 n] take_Suc_conv_app_nth [of 12 m] by simp_all
  ultimately show ?thesis using assms(3) by metis
qed

lemma key_mixed:
  assumes "length n = 10" and "length m = 13"
  shows "''978'' @ take 9 n = take 12 m \<longleftrightarrow> prefix ''978'' m \<and> take 9 n = take 9 (drop 3 m)"
proof -
  have "take 12 m = take 3 m @ take 9 (drop 3 m)" by (simp add: take_add [of 3 9, simplified])
  moreover have "prefix ''978'' m \<longleftrightarrow> take 3 m = ''978''"
    using prefix_take_iff [of "''978''" m] by (simp add: numeral_3_eq_3)
  moreover have "length (take 3 m) = 3" using assms by simp
  ultimately show ?thesis
    by (metis append_eq_append_conv length_Cons list.size(3) numeral_3_eq_3)
qed

text \<open>
  On valid ISBNs (10 or 13 digits with a correct check digit) isbnsMatch decides whether
  both name the same book: the same twelve digits once an ISBN-10 is read as 978 followed by its
  first nine digits.
\<close>

theorem isbns_match_spec:
  assumes "valid_isbn a" and "valid_isbn b"
  shows "isbnsMatch a b \<longleftrightarrow> isbn_key a = isbn_key b"
proof -
  let ?n = "normalizeISBN a" and ?m = "normalizeISBN b"
  have ne: "?n \<noteq> []" "?m \<noteq> []"
    using assms by (auto simp: valid_isbn_def valid_isbn10_def valid_isbn13_def)
  consider (tt) "valid_isbn10 ?n" "valid_isbn10 ?m" | (hh) "valid_isbn13 ?n" "valid_isbn13 ?m"
    | (th) "valid_isbn10 ?n" "valid_isbn13 ?m" | (ht) "valid_isbn13 ?n" "valid_isbn10 ?m"
    using assms by (auto simp: valid_isbn_def)
  then show ?thesis
  proof cases
    case tt
    then have "length ?n = 10" "length ?m = 10" by (simp_all add: valid_isbn10_def)
    with tt valid_isbn10_unique ne show ?thesis by (auto simp: isbnsMatch_def isbn_key_def Let_def)
  next
    case hh
    then have "length ?n = 13" "length ?m = 13" by (simp_all add: valid_isbn13_def)
    with hh valid_isbn13_unique ne show ?thesis by (auto simp: isbnsMatch_def isbn_key_def Let_def)
  next
    case th
    then have "length ?n = 10" "length ?m = 13"
      by (simp_all add: valid_isbn13_def valid_isbn10_def)
    with key_mixed [of "normalizeISBN a" "normalizeISBN b"] ne show ?thesis by (auto simp: isbnsMatch_def isbn_key_def Let_def)
  next
    case ht
    then have "length ?n = 13" "length ?m = 10"
      by (simp_all add: valid_isbn13_def valid_isbn10_def)
    with key_mixed [of "normalizeISBN b" "normalizeISBN a"] ne show ?thesis by (auto simp: isbnsMatch_def isbn_key_def Let_def)
  qed
qed

theorem isbns_match_spec_witness:
  "valid_isbn ''0-306-40615-2'' \<and> valid_isbn ''978-0-306-40615-7'' \<and>
   isbnsMatch ''0-306-40615-2'' ''978-0-306-40615-7''"
proof -
  have n: "normalizeISBN ''0-306-40615-2'' = ''0306406152''"
    "normalizeISBN ''978-0-306-40615-7'' = ''9780306406157''"
    by (simp_all add: normalizeISBN_def isbn_char_def is_digit_def)
  have v: "valid_isbn ''0-306-40615-2''" "valid_isbn ''978-0-306-40615-7''"
    by (simp_all add: valid_isbn_def n valid_isbn10_def valid_isbn13_def is_digit_def
        isbn_digit_val_def digit_val_def)
  have "isbn_key ''0-306-40615-2'' = isbn_key ''978-0-306-40615-7''"
    by (simp add: isbn_key_def Let_def n)
  with isbns_match_spec [OF v] v show ?thesis by simp
qed

theorem confidence_bounds_witness:
  "CalculateConfidence \<lparr>u_lower = (\<lambda>s. s), u_fold = (=)\<rparr> ''Dune'' empty_candidate None \<le> 100"
proof -
  have "sized (length (ToLower \<lparr>u_lower = (\<lambda>s. s), u_fold = (=)\<rparr> (TrimSpace ''Dune'')))"
  proof -
    have "TrimSpace ''Dune'' = ''Dune''" by (rule TrimSpace_plain) (simp_all add: plain_def ascii_space_def)
    then show ?thesis by (simp add: ToLower_def is_ascii_def sized_def)
  qed
  from confidence_bounds [OF this, of None empty_candidate] show ?thesis by simp
qed

end
