(* ===== verification/Aggregator.thy ===== *)
theory Aggregator
  imports CacheStore CandidateJson Confidence "HOL-Library.AList" "HOL-Library.Multiset"
begin

text \<open>
  The metadata sources as the program sees them (\<open>sources/source.go\<close>, \<open>sources/registry.go\<close>) and the
  aggregator over them (\<open>internal/metadata/aggregator.go\<close>). The goroutines of a search share nothing
  but the cache and the result list, to which each appends once: a search is modelled by the order in
  which the sources deliver, a source that misses the deadline being left out of it.
\<close>

subsection \<open>Sources\<close>

datatype source_error = SourceNotFound | MetaNotFound | SourceCanceled | SourceDeadline | SourceFailed string

record source =
  s_id :: string
  s_enabled :: "(string \<Rightarrow> bool) \<Rightarrow> bool"
  s_search :: "string \<Rightarrow> string \<Rightarrow> (source_error, candidate list) res"
  s_get :: "string \<Rightarrow> string \<Rightarrow> (source_error, candidate option) res"

text \<open>The registry is a map; \<open>All\<close> iterates it in some order, here the order of the list.\<close>

type_synonym registry = "(string \<times> source) list"

definition Register :: "source \<Rightarrow> registry \<Rightarrow> registry" where
  "Register s r = AList.update (s_id s) s r"

definition ForID :: "registry \<Rightarrow> string \<Rightarrow> source option" where
  "ForID r i = map_of r i"

definition All :: "registry \<Rightarrow> source list" where
  "All r = map snd r"

lemma ForID_Register: "ForID (Register s r) i = (if i = s_id s then Some s else ForID r i)"
  by (simp add: ForID_def Register_def update_conv)

definition registry_ok :: "registry \<Rightarrow> bool" where
  "registry_ok r \<longleftrightarrow> distinct (map fst r) \<and> (\<forall>(i, s) \<in> set r. s_id s = i)"

lemma update_snd: "(i, s) \<in> set (AList.update k v r) \<Longrightarrow> (i, s) = (k, v) \<or> (i, s) \<in> set r"
  by (induction r) (auto split: if_splits)

lemma Register_ok: "registry_ok r \<Longrightarrow> registry_ok (Register s r)"
  unfolding registry_ok_def Register_def using distinct_update [of r "s_id s" s] update_snd by fastforce

lemma All_ids: "registry_ok r \<Longrightarrow> map s_id (All r) = map fst r"
  by (auto simp: registry_ok_def All_def)

subsection \<open>Queries\<close>

definition asin_char :: "char \<Rightarrow> bool" where
  "asin_char c \<longleftrightarrow> is_digit c \<or> is_upper c"

definition matches_asin :: "string \<Rightarrow> bool" where
  "matches_asin q \<longleftrightarrow> length q = 10 \<and> HasPrefix q ''B0'' \<and> list_all asin_char (drop 2 q)"

definition isbn_core :: "string \<Rightarrow> bool" where
  "isbn_core q \<longleftrightarrow> length q = 10 \<and> list_all is_digit (take 9 q) \<and> (is_digit (q ! 9) \<or> q ! 9 = CHR ''X'')"

definition matches_isbn :: "string \<Rightarrow> bool" where
  "matches_isbn q \<longleftrightarrow> isbn_core q \<or> (HasPrefix q ''978'' \<or> HasPrefix q ''979'') \<and> isbn_core (drop 3 q)"

definition classify :: "string \<Rightarrow> lookup_kind" where
  "classify q = (if matches_asin q then KindASIN else if matches_isbn q then KindISBN else KindSearch)"

subsection \<open>One source\<close>

definition MaxResults :: nat where "MaxResults = 20"

definition rank :: "uni \<Rightarrow> candidate list \<Rightarrow> string \<Rightarrow> candidate option \<Rightarrow> match_rec list" where
  "rank u cs query original = map (\<lambda>c. \<lparr>m_source = c_source c,
     m_confidence = CalculateConfidence u query c original, m_candidate = c\<rparr>) cs"

text \<open>\<open>limited s\<close>: the rate limiter let the source through in time.\<close>

record 's agg =
  ag_uni :: uni
  ag_sha1 :: "string \<Rightarrow> string"
  ag_cache :: "'s cache_ops"
  ag_limited :: "string \<Rightarrow> bool"

definition live_fetch :: "'s agg \<Rightarrow> source \<Rightarrow> string \<Rightarrow> string \<Rightarrow> string \<Rightarrow> candidate option \<Rightarrow> 's \<Rightarrow> 's \<times> match_rec list" where
  "live_fetch A s key query region original st =
    (if \<not> ag_limited A (s_id s) then (st, [])
     else case s_search s query region of
       Inl e \<Rightarrow> (st, [])
     | Inr cs \<Rightarrow>
         if cs = [] then (cop_not_found (ag_cache A) key (s_id s) region st, [])
         else (case marshal_candidates cs of
             Some v \<Rightarrow> cop_hit (ag_cache A) key (s_id s) region v st
           | None \<Rightarrow> st, rank (ag_uni A) cs query original))"

definition searchOne :: "'s agg \<Rightarrow> source \<Rightarrow> string \<Rightarrow> string \<Rightarrow> candidate option \<Rightarrow> 's \<Rightarrow> 's \<times> match_rec list" where
  "searchOne A s query region original st =
    (let key = Key (ag_sha1 A) (s_id s) (classify query) region query
     in case cop_get (ag_cache A) key st of
          Some e \<Rightarrow> if en_not_found e then (st, [])
            else (case unmarshal_candidates (en_response e) of
                Some cs \<Rightarrow> (st, rank (ag_uni A) cs query original)
              | None \<Rightarrow> live_fetch A s key query region original st)
        | None \<Rightarrow> live_fetch A s key query region original st)"

subsection \<open>The search\<close>

definition search_step :: "'s agg \<Rightarrow> string \<Rightarrow> string \<Rightarrow> candidate option \<Rightarrow> 's \<times> match_rec list \<Rightarrow> source \<Rightarrow> 's \<times> match_rec list" where
  "search_step A query region original acc s =
    (let r = searchOne A s query region original (fst acc) in (fst r, snd acc @ snd r))"

definition collect :: "'s agg \<Rightarrow> source list \<Rightarrow> string \<Rightarrow> string \<Rightarrow> candidate option \<Rightarrow> 's \<Rightarrow> 's \<times> match_rec list" where
  "collect A sched query region original st = foldl (search_step A query region original) (st, []) sched"

definition top_matches :: "match_rec list \<Rightarrow> match_rec list" where
  "top_matches out = take MaxResults (sort_key (\<lambda>m. - m_confidence m) out)"

definition Search :: "'s agg \<Rightarrow> source list \<Rightarrow> string \<Rightarrow> string \<Rightarrow> candidate option \<Rightarrow> 's \<Rightarrow> 's \<times> match_rec list" where
  "Search A sched query region original st =
    (let r = collect A sched query region original st in (fst r, top_matches (snd r)))"

text \<open>The orders of delivery a registry allows: some of the enabled sources, each once.\<close>

definition schedule :: "registry \<Rightarrow> (string \<Rightarrow> bool) \<Rightarrow> source list \<Rightarrow> bool" where
  "schedule reg enabled sched \<longleftrightarrow> distinct (map s_id sched) \<and>
     set sched \<subseteq> {s \<in> set (All reg). s_enabled s enabled}"

subsection \<open>Sources do not interfere\<close>

definition plain_id :: "source \<Rightarrow> bool" where
  "plain_id s \<longleftrightarrow> CHR '':'' \<notin> set (s_id s)"

lemma Key_source:
  assumes "plain_id s" and "plain_id t" and "s_id s \<noteq> s_id t"
  shows "Key h (s_id s) k g q \<noteq> Key h (s_id t) k g q"
  using split_at_first [of "s_id s" "CHR '':''" _ "s_id t"] assms
  by (auto simp: Key_def plain_id_def)

context lookup_cache
begin

lemma searchOne_frame:
  assumes "ag_cache A = C" and "k \<noteq> Key (ag_sha1 A) (s_id s) (classify q) g q"
  shows "cop_get C k (fst (searchOne A s q g orig st)) = cop_get C k st"
  using assms get_hit_other get_not_found_other
  by (auto simp: searchOne_def live_fetch_def Let_def split: option.split sum.split)

lemma searchOne_depends:
  assumes "ag_cache A = C"
    and "cop_get C (Key (ag_sha1 A) (s_id s) (classify q) g q) st =
         cop_get C (Key (ag_sha1 A) (s_id s) (classify q) g q) st'"
  shows "snd (searchOne A s q g orig st) = snd (searchOne A s q g orig st')"
  using assms by (auto simp: searchOne_def live_fetch_def Let_def split: option.split sum.split)

text \<open>What a search collects is the concatenation of what each source alone delivers.\<close>

lemma collect_independent:
  assumes "ag_cache A = C" and "distinct (map s_id sched)" and "list_all plain_id sched"
  shows "snd (collect A sched q g orig st) = concat (map (\<lambda>s. snd (searchOne A s q g orig st)) sched)"
proof -
  have fold: "snd (foldl (search_step A q g orig) (st', out) ss) =
      out @ concat (map (\<lambda>s. snd (searchOne A s q g orig st)) ss)"
    if "distinct (map s_id ss)" "list_all plain_id ss"
      and "\<And>s. s \<in> set ss \<Longrightarrow> cop_get C (Key (ag_sha1 A) (s_id s) (classify q) g q) st' =
         cop_get C (Key (ag_sha1 A) (s_id s) (classify q) g q) st"
    for st' out ss
    using that
  proof (induction ss arbitrary: st' out)
    case Nil
    then show ?case by simp
  next
    case (Cons s ss)
    let ?r = "searchOne A s q g orig st'"
    have res: "snd ?r = snd (searchOne A s q g orig st)"
      using Cons.prems(3) by (intro searchOne_depends [OF assms(1)]) simp
    have "cop_get C (Key (ag_sha1 A) (s_id t) (classify q) g q) (fst ?r) =
        cop_get C (Key (ag_sha1 A) (s_id t) (classify q) g q) st" if "t \<in> set ss" for t
    proof -
      have "s_id t \<in> s_id ` set ss" using that by (rule imageI)
      then have "s_id t \<noteq> s_id s" using Cons.prems(1) by auto
      moreover have "plain_id t" "plain_id s" using Cons.prems(2) that by (auto simp: list_all_iff)
      ultimately have "Key (ag_sha1 A) (s_id t) (classify q) g q \<noteq> Key (ag_sha1 A) (s_id s) (classify q) g q"
        by (intro Key_source)
      from searchOne_frame [OF assms(1) this] Cons.prems(3) that show ?thesis by simp
    qed
    with Cons.prems Cons.IH [of "fst ?r" "out @ snd ?r"] res show ?case
      by (simp add: search_step_def Let_def)
  qed
  show ?thesis unfolding collect_def using fold [of sched st "[]"] assms(2,3) by simp
qed

end

subsection \<open>The ranked result\<close>

definition desc :: "match_rec list \<Rightarrow> bool" where
  "desc ms = sorted (map (\<lambda>m. - m_confidence m) ms)"

lemma top_matches_best:
  assumes "m \<in> set out" and "m \<notin> set (top_matches out)" and "n \<in> set (top_matches out)"
  shows "m_confidence m \<le> m_confidence n"
proof -
  let ?s = "sort_key (\<lambda>m. - m_confidence m) out"
  have split: "?s = top_matches out @ drop MaxResults ?s" by (simp add: top_matches_def)
  have "m \<in> set ?s" using assms(1) by simp
  then have "m \<in> set (drop MaxResults ?s)" using assms(2) split by (metis Un_iff set_append)
  moreover have "sorted (map (\<lambda>m. - m_confidence m) (top_matches out @ drop MaxResults ?s))"
    unfolding split [symmetric] by simp
  ultimately have "- m_confidence n \<le> - m_confidence m"
    using assms(3) by (auto simp: sorted_append)
  then show ?thesis by simp
qed

text \<open>
  C33. A search returns at most MaxResults matches in descending confidence, each with the
  confidence of its own candidate and its own source, all taken from what the sources delivered;
  no match left out has a higher confidence than one returned.
\<close>

theorem Search_ranked:
  assumes "Search A sched query region original st = (st', ms)"
  shows "length ms \<le> MaxResults \<and> desc ms \<and>
    mset ms \<subseteq># mset (snd (collect A sched query region original st)) \<and>
    (\<forall>m \<in> set ms. m_source m = c_source (m_candidate m) \<and>
       m_confidence m = CalculateConfidence (ag_uni A) query (m_candidate m) original) \<and>
    (\<forall>m \<in> set (snd (collect A sched query region original st)). m \<notin> set ms \<longrightarrow>
       (\<forall>n \<in> set ms. m_confidence m \<le> m_confidence n))"
proof -
  let ?out = "snd (collect A sched query region original st)"
  have ms: "ms = top_matches ?out" using assms by (auto simp: Search_def Let_def)
  have "mset ms \<subseteq># mset (sort_key (\<lambda>m. - m_confidence m) ?out)"
    unfolding ms top_matches_def by (metis append_take_drop_id mset_append mset_subset_eq_add_left)
  then have sub: "mset ms \<subseteq># mset ?out" by simp
  have len: "length ms \<le> MaxResults" by (simp add: ms top_matches_def)
  have srt: "desc ms" unfolding desc_def ms top_matches_def take_map [symmetric] by (rule sorted_wrt_take) simp
  have one: "\<forall>m \<in> set (snd (searchOne A s query region original st'')). m_source m = c_source (m_candidate m) \<and>
       m_confidence m = CalculateConfidence (ag_uni A) query (m_candidate m) original" for s st''
    by (auto simp: searchOne_def live_fetch_def rank_def Let_def split: option.split sum.split)
  have "\<forall>m \<in> set (snd (foldl (search_step A query region original) acc ss)).
      m_source m = c_source (m_candidate m) \<and>
      m_confidence m = CalculateConfidence (ag_uni A) query (m_candidate m) original"
    if "\<forall>m \<in> set (snd acc). m_source m = c_source (m_candidate m) \<and>
      m_confidence m = CalculateConfidence (ag_uni A) query (m_candidate m) original" for acc ss
    using that
  proof (induction ss arbitrary: acc)
    case (Cons s ss)
    have "\<forall>m \<in> set (snd (search_step A query region original acc s)). m_source m = c_source (m_candidate m) \<and>
        m_confidence m = CalculateConfidence (ag_uni A) query (m_candidate m) original"
      using Cons.prems one [of s "fst acc"] by (auto simp: search_step_def Let_def)
    from Cons.IH [OF this] show ?case by simp
  qed simp
  from this [of "(st, [])" sched] have scored: "\<forall>m \<in> set ?out. m_source m = c_source (m_candidate m) \<and>
      m_confidence m = CalculateConfidence (ag_uni A) query (m_candidate m) original"
    by (simp add: collect_def)
  have "set ms \<subseteq> set ?out" using sub by (metis set_mset_mono set_mset_mset)
  with len srt sub scored top_matches_best [of _ ?out] show ?thesis by (auto simp: ms)
qed

subsection \<open>The order of delivery does not matter\<close>

lemma sort_confidences: "map (\<lambda>m. - m_confidence m) (sort_key (\<lambda>m. - m_confidence m) out) =
    sort (map (\<lambda>m. - m_confidence m) out)"
  by (rule properties_for_sort [symmetric]) simp_all

lemma top_matches_confidences:
  assumes "mset out = mset out'"
  shows "map m_confidence (top_matches out) = map m_confidence (top_matches out')"
proof -
  let ?k = "\<lambda>m. - m_confidence m"
  have "mset (map ?k out) = mset (map ?k out')" using assms by simp
  then have "sort (map ?k out) = sort (map ?k out')" by (intro properties_for_sort) simp_all
  then have "map ?k (sort_key ?k out) = map ?k (sort_key ?k out')" by (simp add: sort_confidences)
  then have "map ?k (top_matches out) = map ?k (top_matches out')"
    unfolding top_matches_def take_map [symmetric] by simp
  then have "map uminus (map ?k (top_matches out)) = map uminus (map ?k (top_matches out'))" by simp
  then show ?thesis by (simp add: comp_def)
qed

text \<open>
  C34. The order in which the concurrent sources deliver does not matter: for two schedules of
  the same sources the ranked confidences are the same, and what is collected is the union of
  what each source delivers on its own from the same cache.
\<close>

theorem Search_order_free:
  assumes "ag_cache A = pg_cache ttl now" and "schedule reg enabled sched" and "schedule reg enabled sched'"
    and "mset sched = mset sched'" and "list_all plain_id (All reg)"
  shows "map m_confidence (snd (Search A sched q g orig d)) = map m_confidence (snd (Search A sched' q g orig d)) \<and>
    mset (snd (collect A sched q g orig d)) = (\<Sum>s \<in># mset sched. mset (snd (searchOne A s q g orig d)))"
proof -
  have plain: "list_all plain_id sched" "list_all plain_id sched'"
    using assms(2,3,5) by (auto simp: schedule_def list_all_iff)
  have c: "snd (collect A ss q g orig d) = concat (map (\<lambda>s. snd (searchOne A s q g orig d)) ss)"
    if "ss = sched \<or> ss = sched'" for ss
    using that plain assms(1-3) by (intro pg_cache.collect_independent) (auto simp: schedule_def)
  have m: "mset (concat (map f ss)) = (\<Sum>s \<in># mset ss. mset (f s))" for f :: "source \<Rightarrow> match_rec list" and ss
    by (induction ss) simp_all
  have "mset (snd (collect A sched q g orig d)) = mset (snd (collect A sched' q g orig d))"
    by (simp add: c m assms(4))
  from top_matches_confidences [OF this] have
    "map m_confidence (snd (Search A sched q g orig d)) = map m_confidence (snd (Search A sched' q g orig d))"
    by (simp add: Search_def Let_def)
  then show ?thesis by (simp add: c m)
qed

subsection \<open>Cached results\<close>

text \<open>
  C35. A search answered from the cache returns the ranking of the candidates that were fetched,
  up to the replacement of invalid UTF-8 by JSON, and leaves the cache as it is.
\<close>

theorem cached_search_same:
  assumes "ag_cache A = pg_cache ttl (d_now d * 1000)" and "0 \<le> ttl"
    and "cop_get (ag_cache A) (Key (ag_sha1 A) (s_id s) (classify q) g q) d = None"
    and "ag_limited A (s_id s)" and "s_search s q g = Ok cs" and "cs \<noteq> []"
    and "marshal_candidates cs = Some v" and "list_all (\<lambda>c. int64_range (c_page_count c)) cs"
    and "PutHit (Key (ag_sha1 A) (s_id s) (classify q) g q) (s_id s) g v d = (d', Ok ())"
    and "s_id s' = s_id s"
  shows "searchOne A s q g orig d = (d', rank (ag_uni A) cs q orig) \<and>
    searchOne A s' q g orig d' = (d', rank (ag_uni A) (map coerce_candidate cs) q orig)"
proof
  let ?k = "Key (ag_sha1 A) (s_id s) (classify q) g q"
  have "cop_hit (ag_cache A) ?k (s_id s) g v d = d'"
    using assms(9) by (simp add: assms(1) pg_cache_def)
  then show "searchOne A s q g orig d = (d', rank (ag_uni A) cs q orig)"
    using assms(3-7) by (simp add: searchOne_def live_fetch_def Let_def)
  obtain e where "en_response e = v" "\<not> en_not_found e" "CacheGet ttl (d_now d * 1000) ?k d' = (d', Ok e)"
    using CacheGet_after_put [OF assms(9) [unfolded PutHit_def], of ttl "d_now d * 1000"] assms(2) by auto
  then show "searchOne A s' q g orig d' = (d', rank (ag_uni A) (map coerce_candidate cs) q orig)"
    using assms(1,2,10) dec_enc_candidates [OF assms(7,8)]
    by (auto simp: searchOne_def Let_def pg_cache_def ok_part_def)
qed

lemma marshal_invalid: "c \<in> set cs \<Longrightarrow> c_raw c = RawInvalid b \<Longrightarrow> marshal_candidates cs = None"
proof -
  have "c \<in> set cs \<Longrightarrow> c_raw c = RawInvalid b \<Longrightarrow> sequence (map enc_candidate cs) = None"
  proof (induction cs)
    case (Cons a cs)
    then show ?case by (cases "enc_candidate a") (auto simp: enc_candidate_def enc_raw_def)
  qed simp
  then show "c \<in> set cs \<Longrightarrow> c_raw c = RawInvalid b \<Longrightarrow> marshal_candidates cs = None" by (simp add: marshal_candidates_def)
qed

text \<open>
  When one fetched candidate carries raw bytes that are not JSON, marshalling the list
  fails and nothing is cached: the matches are returned and the next search fetches again.
\<close>

theorem unmarshallable_never_cached:
  assumes "cop_get (ag_cache A) (Key (ag_sha1 A) (s_id s) (classify q) g q) st = None"
    and "ag_limited A (s_id s)" and "s_search s q g = Ok cs" and "c \<in> set cs" and "c_raw c = RawInvalid body"
  shows "searchOne A s q g orig st = (st, rank (ag_uni A) cs q orig)"
  using assms marshal_invalid [OF assms(4,5)] by (auto simp: searchOne_def live_fetch_def Let_def)

subsection \<open>Witnesses\<close>

definition demo_source :: "string \<Rightarrow> raw_message \<Rightarrow> source" where
  "demo_source i raw = \<lparr>s_id = i, s_enabled = (\<lambda>f. f i),
     s_search = (\<lambda>q g. Ok [empty_candidate\<lparr>c_source := i, c_raw := raw\<rparr>]),
     s_get = (\<lambda>i g. Err SourceNotFound)\<rparr>"

definition demo_agg :: "db agg" where
  "demo_agg = \<lparr>ag_uni = \<lparr>u_lower = (\<lambda>s. s), u_fold = (=)\<rparr>, ag_sha1 = (\<lambda>s. ''h''),
     ag_cache = pg_cache 1000 0, ag_limited = (\<lambda>i. True)\<rparr>"

definition demo_registry :: registry where
  "demo_registry = Register (demo_source ''b'' RawEmpty) (Register (demo_source ''a'' RawEmpty) [])"

theorem Search_ranked_witness:
  "length (snd (Search demo_agg [demo_source ''a'' RawEmpty] ''q'' ''us'' None empty_db)) \<le> MaxResults"
  using Search_ranked [of demo_agg "[demo_source ''a'' RawEmpty]" "''q''" "''us''" None empty_db, OF prod.collapse [symmetric]]
  by simp

theorem Search_order_free_witness:
  "map m_confidence (snd (Search demo_agg [demo_source ''a'' RawEmpty, demo_source ''b'' RawEmpty] ''q'' ''us'' None empty_db)) =
   map m_confidence (snd (Search demo_agg [demo_source ''b'' RawEmpty, demo_source ''a'' RawEmpty] ''q'' ''us'' None empty_db))"
proof -
  have reg: "All demo_registry = [demo_source ''a'' RawEmpty, demo_source ''b'' RawEmpty]"
    by (simp add: demo_registry_def All_def Register_def demo_source_def)
  have "schedule demo_registry (\<lambda>i. True) [demo_source ''a'' RawEmpty, demo_source ''b'' RawEmpty]"
    "schedule demo_registry (\<lambda>i. True) [demo_source ''b'' RawEmpty, demo_source ''a'' RawEmpty]"
    by (simp_all add: schedule_def reg) (simp_all add: demo_source_def)
  moreover have "list_all plain_id (All demo_registry)"
    by (simp add: reg) (simp add: plain_id_def demo_source_def)
  moreover have "ag_cache demo_agg = pg_cache 1000 0" by (simp add: demo_agg_def)
  ultimately show ?thesis
    using Search_order_free [of demo_agg 1000 0 demo_registry "\<lambda>i. True"
        "[demo_source ''a'' RawEmpty, demo_source ''b'' RawEmpty]"
        "[demo_source ''b'' RawEmpty, demo_source ''a'' RawEmpty]"] by simp
qed

theorem cached_search_same_witness:
  "\<exists>d'. searchOne demo_agg (demo_source ''a'' RawEmpty) ''q'' ''us'' None empty_db =
       (d', rank (ag_uni demo_agg) [empty_candidate\<lparr>c_source := ''a''\<rparr>] ''q'' None) \<and>
     snd (searchOne demo_agg (demo_source ''a'' (RawInvalid ''<'')) ''q'' ''us'' None d') =
       rank (ag_uni demo_agg) (map coerce_candidate [empty_candidate\<lparr>c_source := ''a''\<rparr>]) ''q'' None"
proof -
  let ?s = "demo_source ''a'' RawEmpty" and ?c = "empty_candidate\<lparr>c_source := ''a''\<rparr>"
  let ?k = "Key (ag_sha1 demo_agg) (s_id ?s) (classify ''q'') ''us'' ''q''"
  have key: "?k = ''a:search:h''"
    by (simp add: Key_def demo_agg_def demo_source_def classify_def matches_asin_def matches_isbn_def
        isbn_core_def kind_name_def)
  have a: "coerce_utf8 ''a'' = ''a''" by (simp add: coerce_utf8_valid utf8_valid_ascii is_ascii_def)
  obtain v where v: "marshal_candidates [?c] = Some v" and ok: "jsonb_ok v"
    by (simp add: marshal_candidates_def enc_candidate_def empty_candidate_def enc_raw_def omit_str_def
        omit_strs_def omit_int_def enc_str_def a no_nul_def)
  have miss: "cop_get (ag_cache demo_agg) ?k empty_db = None"
    unfolding key by (simp add: demo_agg_def pg_cache_def ok_part_def CacheGet_def find_cache_def empty_db_def)
  obtain d' where put: "PutHit ?k (s_id ?s) ''us'' v empty_db = (d', Ok ())"
    unfolding key
    by (simp add: PutHit_def put_cache_def pg_text_ascii ok find_cache_def empty_db_def demo_source_def)
  have c: "ag_cache demo_agg = pg_cache 1000 (d_now empty_db * 1000)"
    by (simp add: demo_agg_def empty_db_def)
  have f: "s_search ?s ''q'' ''us'' = Ok [?c]" "ag_limited demo_agg (s_id ?s)"
    "s_id (demo_source ''a'' (RawInvalid ''<'')) = s_id ?s" "list_all (\<lambda>c. int64_range (c_page_count c)) [?c]"
    by (simp_all add: demo_source_def demo_agg_def empty_candidate_def int64_range_def min_int64_def
        max_int64_def)
  from cached_search_same [OF c _ miss f(2,1) _ v f(4) put f(3), of None] show ?thesis by auto
qed

theorem unmarshallable_never_cached_witness:
  "fst (searchOne demo_agg (demo_source ''a'' (RawInvalid ''<html>'')) ''q'' ''us'' None empty_db) = empty_db"
proof -
  let ?s = "demo_source ''a'' (RawInvalid ''<html>'')"
  have miss: "cop_get (ag_cache demo_agg) (Key (ag_sha1 demo_agg) (s_id ?s) (classify ''q'') ''us'' ''q'') empty_db = None"
    by (simp add: demo_agg_def pg_cache_def ok_part_def CacheGet_def find_cache_def empty_db_def)
  have f: "ag_limited demo_agg (s_id ?s)"
    "s_search ?s ''q'' ''us'' = Ok [empty_candidate\<lparr>c_source := ''a'', c_raw := RawInvalid ''<html>''\<rparr>]"
    by (simp_all add: demo_agg_def demo_source_def)
  from unmarshallable_never_cached [OF miss f, of "empty_candidate\<lparr>c_source := ''a'', c_raw := RawInvalid ''<html>''\<rparr>"]
  show ?thesis by simp
qed

end
