(* ===== verification/GoTime.thy ===== *)
theory GoTime
  imports GoStrings
begin

text \<open>
  \<open>time.Parse\<close> for the four layouts \<open>tryParseDate\<close> (in \<open>internal/ebookparse/epub.go\<close>) tries: a full
  date, a month, a year, and RFC 3339 with the leniencies of Go's general parser (one-digit hour,
  optional fraction, offsets up to 24:60). Of the resulting \<open>time.Time\<close> the program reads the
  year and whether it is the zero instant, so those are the two components of \<open>gotime\<close>.
\<close>

record gotime =
  t_year :: int
  t_is_zero :: bool

definition zero_time :: gotime where
  "zero_time = \<lparr>t_year = 1, t_is_zero = True\<rparr>"

text \<open>Fixed-width numbers: value and rest of the input.\<close>

definition num2 :: "string \<Rightarrow> (int \<times> string) option" where
  "num2 s = (case s of a # b # r \<Rightarrow>
      if is_digit a \<and> is_digit b then Some (int (digit_val a * 10 + digit_val b), r) else None
    | _ \<Rightarrow> None)"

text \<open>One or two digits (the hour of the general parser).\<close>

definition num12 :: "string \<Rightarrow> (int \<times> string) option" where
  "num12 s = (case s of
      [] \<Rightarrow> None
    | [a] \<Rightarrow> if is_digit a then Some (int (digit_val a), []) else None
    | a # b # r \<Rightarrow> if is_digit a \<and> is_digit b then Some (int (digit_val a * 10 + digit_val b), r)
        else if is_digit a then Some (int (digit_val a), b # r) else None)"

definition num4 :: "string \<Rightarrow> (int \<times> string) option" where
  "num4 s = (case (num2 s) of None \<Rightarrow> None
    | Some (hi, r) \<Rightarrow> (case num2 r of None \<Rightarrow> None | Some (lo, r') \<Rightarrow> Some (hi * 100 + lo, r')))"

definition lit :: "char \<Rightarrow> string \<Rightarrow> string option" where
  "lit c s = (case s of x # r \<Rightarrow> if x = c then Some r else None | [] \<Rightarrow> None)"

definition leap :: "int \<Rightarrow> bool" where
  "leap y \<longleftrightarrow> y mod 4 = 0 \<and> (y mod 100 \<noteq> 0 \<or> y mod 400 = 0)"

definition days_in :: "int \<Rightarrow> int \<Rightarrow> int" where
  "days_in m y = (if m = 2 then (if leap y then 29 else 28)
     else if m = 4 \<or> m = 6 \<or> m = 9 \<or> m = 11 then 30 else 31)"

text \<open>Days from 1 January of year 1 to the given date.\<close>

definition days_before_year :: "int \<Rightarrow> int" where
  "days_before_year y = (let p = y - 1 in 365 * p + p div 4 - p div 100 + p div 400)"

definition day_number :: "int \<Rightarrow> int \<Rightarrow> int \<Rightarrow> int" where
  "day_number y m d =
     days_before_year y + (\<Sum>i \<leftarrow> [1..m - 1]. days_in i y) + (d - 1)"

definition mk_time :: "int \<Rightarrow> int \<Rightarrow> int \<Rightarrow> int \<Rightarrow> int \<Rightarrow> bool \<Rightarrow> gotime option" where
  "mk_time y m d secs offset frac =
     (if m < 1 \<or> m > 12 then None
      else if d < 1 \<or> d > days_in m y then None
      else Some \<lparr>t_year = y,
        t_is_zero = (\<not> frac \<and> day_number y m d * 86400 + secs - offset = 0)\<rparr>)"

definition parse_year :: "string \<Rightarrow> gotime option" where
  "parse_year s = 
     Option.bind (num4 s) (\<lambda>(y, r). if r = [] then mk_time y 1 1 0 0 False else None)"

definition parse_month :: "string \<Rightarrow> gotime option" where
  "parse_month s =
     Option.bind (num4 s) (\<lambda>(y, r). Option.bind (lit (CHR ''-'') r) (\<lambda>r.
     Option.bind (num2 r) (\<lambda>(m, r). if r = [] then mk_time y m 1 0 0 False else None)))"

definition date_part :: "string \<Rightarrow> (int \<times> int \<times> int \<times> string) option" where
  "date_part s =
     Option.bind (num4 s) (\<lambda>(y, r). Option.bind (lit (CHR ''-'') r) (\<lambda>r.
     Option.bind (num2 r) (\<lambda>(m, r). Option.bind (lit (CHR ''-'') r) (\<lambda>r.
     Option.bind (num2 r) (\<lambda>(d, r). Some (y, m, d, r))))))"

definition parse_date :: "string \<Rightarrow> gotime option" where
  "parse_date s = 
     Option.bind (date_part s) (\<lambda>(y, m, d, r). if r = [] then mk_time y m d 0 0 False else None)"

text \<open>The fraction of a second: whether it is non-zero, and the rest.\<close>

definition fraction :: "string \<Rightarrow> bool \<times> string" where
  "fraction s = (case s of a # b # r \<Rightarrow>
      if (a = CHR ''.'' \<or> a = CHR '','') \<and> is_digit b
      then (let ds = takeWhile is_digit (b # r)
        in (list_ex (\<lambda>c. c \<noteq> CHR ''0'') (take 9 ds), dropWhile is_digit (b # r)))
      else (False, s)
    | _ \<Rightarrow> (False, s))"

text \<open>The zone: \<open>Z\<close> or a signed offset, in seconds.\<close>

definition zone :: "string \<Rightarrow> int option" where
  "zone s = (case s of
      [] \<Rightarrow> None
    | c # r \<Rightarrow> if c = CHR ''Z'' then (if r = [] then Some 0 else None)
        else if c = CHR ''+'' \<or> c = CHR ''-'' then
          Option.bind (num2 r) (\<lambda>(h, r). Option.bind (lit (CHR '':'') r) (\<lambda>r.
          Option.bind (num2 r) (\<lambda>(m, r).
            if r \<noteq> [] \<or> h > 24 \<or> m > 60 then None
            else Some ((if c = CHR ''-'' then -1 else 1) * (h * 60 + m) * 60))))
        else None)"

definition parse_rfc3339 :: "string \<Rightarrow> gotime option" where
  "parse_rfc3339 s =
     Option.bind (date_part s) (\<lambda>(y, m, d, r). Option.bind (lit (CHR ''T'') r) (\<lambda>r.
     Option.bind (num12 r) (\<lambda>(h, r). Option.bind (lit (CHR '':'') r) (\<lambda>r.
     Option.bind (num2 r) (\<lambda>(mi, r). Option.bind (lit (CHR '':'') r) (\<lambda>r.
     Option.bind (num2 r) (\<lambda>(sec, r).
       let fr = fraction r in
       Option.bind (zone (snd fr)) (\<lambda>off.
         if h \<ge> 24 \<or> mi \<ge> 60 \<or> sec \<ge> 60 then None
         else mk_time y m d (h * 3600 + mi * 60 + sec) off (fst fr)))))))))"

definition tryParseDate :: "string \<Rightarrow> gotime option" where
  "tryParseDate s0 =
    (let s = TrimSpace s0
     in case parse_date s of Some t \<Rightarrow> Some t
      | None \<Rightarrow> (case parse_month s of Some t \<Rightarrow> Some t
        | None \<Rightarrow> (case parse_year s of Some t \<Rightarrow> Some t
          | None \<Rightarrow> parse_rfc3339 s)))"

text \<open>\<open>yearOf\<close> of \<open>internal/store/store.go\<close>: the zero time is the empty string, else \<open>%04d\<close>.\<close>

definition pad4 :: "int \<Rightarrow> string" where
  "pad4 n = (let d = Itoa n in replicate (4 - length d) (CHR ''0'') @ d)"

definition yearOf :: "gotime \<Rightarrow> string" where
  "yearOf t = (if t_is_zero t then [] else pad4 (t_year t))"

lemma num2_bound: "num2 s = Some (n, r) \<Longrightarrow> 0 \<le> n \<and> n < 100"
  by (auto simp: num2_def is_digit_def digit_val_def split: list.splits if_splits)

lemma num4_bound: "num4 s = Some (n, r) \<Longrightarrow> 0 \<le> n \<and> n < 10000"
  by (auto simp: num4_def split: option.splits dest!: num2_bound)

lemma mk_time_year: "mk_time y m d secs off frac = Some t \<Longrightarrow> t_year t = y"
  by (auto simp: mk_time_def split: if_splits)

lemma date_part_bound: "date_part s = Some (y, m, d, r) \<Longrightarrow> 0 \<le> y \<and> y < 10000"
  by (auto simp: date_part_def bind_eq_Some_conv dest!: num4_bound)

definition year_ok :: "gotime \<Rightarrow> bool" where
  "year_ok t \<longleftrightarrow> 0 \<le> t_year t \<and> t_year t < 10000"

lemma mk_time_ok: "mk_time y m d secs off frac = Some t \<Longrightarrow> 0 \<le> y \<Longrightarrow> y < 10000 \<Longrightarrow> year_ok t"
  by (auto simp: year_ok_def dest: mk_time_year)

lemma parse_date_ok: "parse_date s = Some t \<Longrightarrow> year_ok t"
  by (auto simp: parse_date_def bind_eq_Some_conv split: if_splits
      dest: date_part_bound intro: mk_time_ok)

lemma parse_month_ok: "parse_month s = Some t \<Longrightarrow> year_ok t"
  by (auto simp: parse_month_def bind_eq_Some_conv split: if_splits
      dest: num4_bound intro: mk_time_ok)

lemma parse_year_ok: "parse_year s = Some t \<Longrightarrow> year_ok t"
  by (auto simp: parse_year_def bind_eq_Some_conv split: if_splits
      dest: num4_bound intro: mk_time_ok)

lemma parse_rfc3339_ok: "parse_rfc3339 s = Some t \<Longrightarrow> year_ok t"
  by (auto simp: parse_rfc3339_def bind_eq_Some_conv Let_def split: if_splits
      dest: date_part_bound intro: mk_time_ok)

lemma tryParseDate_ok: "tryParseDate s = Some t \<Longrightarrow> year_ok t"
  by (auto simp: tryParseDate_def Let_def split: option.splits
      dest: parse_date_ok parse_month_ok parse_year_ok parse_rfc3339_ok)

end
