(* ===== verification/GoPath.thy ===== *)
theory GoPath
  imports GoStrings
begin

text \<open>
  Lexical path processing of Go's \<open>path\<close> and \<open>path/filepath\<close> on Unix, where the two agree:
  \<open>Clean\<close>, \<open>Dir\<close>, \<open>Base\<close>, \<open>Join\<close>, \<open>IsAbs\<close>. \<open>Clean\<close> processes the slash-separated elements on a
  stack, which is what the library's byte buffer with its \<open>dotdot\<close> mark amounts to.
\<close>

abbreviation slash :: char where
  "slash \<equiv> CHR ''/''"

definition clean_step :: "bool \<Rightarrow> string list \<Rightarrow> string \<Rightarrow> string list" where
  "clean_step rooted st e =
    (if e = [] \<or> e = ''.'' then st
     else if e = ''..'' then
       (case st of
          [] \<Rightarrow> if rooted then [] else [''..'']
        | t # st' \<Rightarrow> if t = ''..'' then ''..'' # st else st')
     else e # st)"

definition clean_elems :: "bool \<Rightarrow> string list \<Rightarrow> string list" where
  "clean_elems rooted es = rev (foldl (clean_step rooted) [] es)"

definition IsAbs :: "string \<Rightarrow> bool" where
  "IsAbs p \<longleftrightarrow> prefix [slash] p"

definition Clean :: "string \<Rightarrow> string" where
  "Clean p = (if p = [] then ''.''
     else let es = clean_elems (IsAbs p) (Split p slash)
       in if IsAbs p then slash # Join es [slash]
          else if es = [] then ''.'' else Join es [slash])"

text \<open>The part up to and including the last slash.\<close>

definition dir_part :: "string \<Rightarrow> string" where
  "dir_part p = rev (dropWhile (\<lambda>c. c \<noteq> slash) (rev p))"

definition Dir :: "string \<Rightarrow> string" where
  "Dir p = Clean (dir_part p)"

definition Base :: "string \<Rightarrow> string" where
  "Base p = (if p = [] then ''.''
     else let q = rev (dropWhile (\<lambda>c. c = slash) (rev p));
              b = rev (takeWhile (\<lambda>c. c \<noteq> slash) (rev q))
       in if b = [] then [slash] else b)"

definition Join_path :: "string \<Rightarrow> string \<Rightarrow> string" where
  "Join_path a b = (if a = [] then (if b = [] then [] else Clean b)
     else if b = [] then Clean a else Clean (a @ [slash] @ b))"

subsection \<open>Cleaned absolute paths\<close>

definition good_elem :: "string \<Rightarrow> bool" where
  "good_elem e \<longleftrightarrow> e \<noteq> [] \<and> e \<noteq> ''.'' \<and> e \<noteq> ''..'' \<and> slash \<notin> set e"

lemma clean_step_rooted:
  assumes "list_all good_elem st" and "slash \<notin> set e"
  shows "list_all good_elem (clean_step True st e)"
  using assms by (auto simp: clean_step_def good_elem_def split: list.splits)

lemma foldl_clean_rooted:
  "list_all good_elem st \<Longrightarrow> \<forall>e \<in> set es. slash \<notin> set e \<Longrightarrow>
   list_all good_elem (foldl (clean_step True) st es)"
  by (induction es arbitrary: st) (simp_all add: clean_step_rooted)

lemma clean_elems_good: "list_all good_elem (clean_elems True (Split p slash))"
  using foldl_clean_rooted [of "[]" "Split p slash"] Split_set [of _ p slash]
  by (simp add: clean_elems_def list_all_iff)

lemma foldl_clean_id:
  "list_all good_elem es \<Longrightarrow> foldl (clean_step r) st es = rev es @ st"
  by (induction es arbitrary: st) (simp_all add: clean_step_def good_elem_def)

lemma Split_Join:
  "es \<noteq> [] \<Longrightarrow> list_all (\<lambda>e. c \<notin> set e) es \<Longrightarrow> Split (Join es [c]) c = es"
proof (induction es)
  case Nil
  then show ?case by simp
next
  case (Cons e es)
  then show ?case by (cases es) (simp_all add: Split_no_sep Split_append_sep)
qed

lemma Clean_abs_elems:
  assumes "list_all good_elem es"
  shows "Clean (slash # Join es [slash]) = slash # Join es [slash]"
proof (cases "es = []")
  case True
  then show ?thesis by (simp add: Clean_def IsAbs_def clean_elems_def clean_step_def)
next
  case False
  have "list_all (\<lambda>e. slash \<notin> set e) es" using assms by (auto simp: list_all_iff good_elem_def)
  with False have "Split (slash # Join es [slash]) slash = [] # es" by (simp add: Split_Join)
  with assms show ?thesis
    by (simp add: Clean_def IsAbs_def clean_elems_def foldl_clean_id clean_step_def)
qed

lemma Clean_abs_form:
  assumes "IsAbs p"
  obtains es where "Clean p = slash # Join es [slash]" and "list_all good_elem es"
    and "es = clean_elems True (Split p slash)"
proof
  show "Clean p = slash # Join (clean_elems True (Split p slash)) [slash]"
    using assms by (auto simp: Clean_def IsAbs_def Let_def)
qed (simp_all add: clean_elems_good)

lemma Clean_idem_abs: "IsAbs p \<Longrightarrow> Clean (Clean p) = Clean p"
  by (erule Clean_abs_form) (simp add: Clean_abs_elems)

lemma Clean_abs: "IsAbs p \<Longrightarrow> IsAbs (Clean p)"
  by (erule Clean_abs_form) (simp add: IsAbs_def)

lemma set_Join: "set (Join es sep) \<subseteq> \<Union> (set ` set es) \<union> set sep"
  by (induction es sep rule: Join.induct) auto

lemma foldl_clean_set:
  "\<Union> (set ` set (foldl (clean_step r) st es)) \<subseteq>
    \<Union> (set ` set st) \<union> \<Union> (set ` set es) \<union> {CHR ''.''}"
proof (induction es arbitrary: st)
  case Nil
  show ?case by auto
next
  case (Cons e es)
  have "\<Union> (set ` set (clean_step r st e)) \<subseteq> \<Union> (set ` set st) \<union> set e \<union> {CHR ''.''}"
    by (auto simp: clean_step_def split: list.splits if_splits)
  with Cons [of "clean_step r st e"] show ?case by auto
qed

lemma Clean_set: "set (Clean p) \<subseteq> set p \<union> {slash, CHR ''.''}"
proof -
  have "\<Union> (set ` set (Split p slash)) \<subseteq> set p" using Split_set by fastforce
  then have "\<Union> (set ` set (foldl (clean_step r) [] (Split p slash))) \<subseteq> set p \<union> {CHR ''.''}" for r
    using foldl_clean_set [of r "[]" "Split p slash"] by simp blast
  then have es: "\<Union> (set ` set (clean_elems r (Split p slash))) \<subseteq> set p \<union> {CHR ''.''}" for r
    by (simp add: clean_elems_def)
  have J: "set (Join (clean_elems r (Split p slash)) [slash]) \<subseteq> insert slash (insert (CHR ''.'') (set p))"
    for r
    by (rule order_trans [OF set_Join]) (use es in auto)
  show ?thesis
    using J [of True] J [of False] by (cases "IsAbs p") (auto simp: Clean_def Let_def)
qed

end
