(* ===== verification/HttpCore.thy ===== *)
theory HttpCore
  imports GoJson GoTime GoPath
begin

text \<open>
  Requests and responses as the handlers see them. The query and the headers are their \<open>Get\<close>
  functions (empty when absent), a body is the JSON document it holds or \<open>None\<close>. A body that
  \<open>http.ServeContent\<close> streams is named by the path of the file and the name offered to the client.
\<close>

record request =
  rq_method :: string
  rq_path :: string
  rq_query :: "string \<Rightarrow> string"
  rq_header :: "string \<Rightarrow> string"
  rq_body :: "json option"

datatype body = NoBody | JsonBody json | BytesBody string | FileBody string string | HtmlBody string

record response =
  rs_status :: int
  rs_headers :: "(string \<times> string) list"
  rs_body :: body

definition writeJSON :: "int \<Rightarrow> json \<Rightarrow> response" where
  "writeJSON st v = \<lparr>rs_status = st, rs_headers = [(''Content-Type'', ''application/json'')],
     rs_body = JsonBody v\<rparr>"

subsection \<open>RFC 3339 in UTC\<close>

text \<open>The calendar date of a day counted from 1970-01-01, for times in microseconds.\<close>

definition civil :: "int \<Rightarrow> int \<times> int \<times> int" where
  "civil days =
    (let z = days + 719468; era = z div 146097; doe = z - era * 146097;
         yoe = (doe - doe div 1460 + doe div 36524 - doe div 146096) div 365;
         doy = doe - (365 * yoe + yoe div 4 - yoe div 100);
         mp = (5 * doy + 2) div 153;
         m = (if mp < 10 then mp + 3 else mp - 9)
     in (yoe + era * 400 + (if m \<le> 2 then 1 else 0), m, doy - (153 * mp + 2) div 5 + 1))"

definition pad2 :: "int \<Rightarrow> string" where
  "pad2 n = (if n < 10 then CHR ''0'' # Itoa n else Itoa n)"

definition format_rfc3339 :: "int \<Rightarrow> string" where
  "format_rfc3339 us =
    (let secs = us div 10 ^ 6; s = secs mod 86400 in
     case civil (secs div 86400) of (y, m, dd) \<Rightarrow>
       pad4 y @ ''-'' @ pad2 m @ ''-'' @ pad2 dd @ ''T'' @ pad2 (s div 3600) @ '':'' @
       pad2 (s mod 3600 div 60) @ '':'' @ pad2 (s mod 60) @ ''Z'')"

subsection \<open>Reading a response\<close>

definition json_member :: "string \<Rightarrow> body \<Rightarrow> json option" where
  "json_member k b = (case b of JsonBody (JObj ms) \<Rightarrow> map_of ms k | _ \<Rightarrow> None)"

definition json_items :: "response \<Rightarrow> json list" where
  "json_items r = (case json_member ''items'' (rs_body r) of Some (JArr vs) \<Rightarrow> vs | _ \<Rightarrow> [])"

definition json_cursor :: "response \<Rightarrow> string" where
  "json_cursor r = (case json_member ''next_cursor'' (rs_body r) of Some (JStr s) \<Rightarrow> s | _ \<Rightarrow> [])"

end
