(* ===== verification/ServeMux.thy ===== *)
theory ServeMux
  imports HttpCore
begin

text \<open>
  The request multiplexer the routes are registered on (\<open>http.ServeMux\<close>, since Go 1.22): patterns
  with a method, literal and wildcard segments and a trailing slash, and the routing tree, here as
  the list of patterns that are still alive after the segments read so far. At every segment a
  literal is tried first, then a wildcard, then a trailing slash. \<open>lookup_spec\<close> states what the
  documentation promises of it: the most specific pattern wins.
\<close>

subsection \<open>Patterns\<close>

datatype seg = Lit string | Wild string | Multi

record 'h route =
  rt_method :: string
  rt_segs :: "seg list"
  rt_handler :: 'h

definition parse_seg :: "string \<Rightarrow> seg" where
  "parse_seg s = (case s of [] \<Rightarrow> Multi
     | c # r \<Rightarrow> if c = CHR ''{'' then Wild (butlast r) else Lit s)"

text \<open>\<open>METHOD /path\<close>; hosts, \<open>{name...}\<close> and \<open>{$}\<close> do not occur in the program.\<close>

definition parse_pattern :: "string \<times> 'h \<Rightarrow> 'h route" where
  "parse_pattern x = (case Split (fst x) (CHR '' '') of
     m # p # _ \<Rightarrow> \<lparr>rt_method = m, rt_segs = map parse_seg (tl (Split p slash)), rt_handler = snd x\<rparr>
   | _ \<Rightarrow> \<lparr>rt_method = [], rt_segs = [], rt_handler = snd x\<rparr>)"

definition hex_val :: "char \<Rightarrow> nat option" where
  "hex_val c = (if is_digit c then Some (code c - 48)
     else if 97 \<le> (code c :: nat) \<and> code c \<le> (102 :: nat) then Some (code c - 87)
     else if 65 \<le> (code c :: nat) \<and> code c \<le> (70 :: nat) then Some (code c - 55) else None)"

fun unescape :: "string \<Rightarrow> string option" where
  "unescape [] = Some []"
| "unescape (c # r) =
     (if c = CHR ''%'' then (case r of
        a # b # r' \<Rightarrow> (case (hex_val a, hex_val b) of
          (Some x, Some y) \<Rightarrow> map_option (Cons (byte (16 * x + y))) (unescape r') | _ \<Rightarrow> None)
      | _ \<Rightarrow> None)
      else map_option (Cons c) (unescape r))"

definition pathUnescape :: "string \<Rightarrow> string" where
  "pathUnescape s = (case unescape s of Some t \<Rightarrow> t | None \<Rightarrow> s)"

text \<open>The segments of a clean path; a trailing slash is the segment \<open>/\<close>.\<close>

definition path_segs :: "string \<Rightarrow> string list" where
  "path_segs p = map (\<lambda>s. if s = [] then [slash] else pathUnescape s) (tl (Split p slash))"

definition cleanPath :: "string \<Rightarrow> string" where
  "cleanPath p = (if p = [] then [slash]
     else let p = (if IsAbs p then p else slash # p); np = Clean p
       in if last p = slash \<and> np \<noteq> [slash] then np @ [slash] else np)"

subsection \<open>The routing tree\<close>

type_synonym 'h alive = "(seg list \<times> 'h route) list"

definition after :: "(seg \<Rightarrow> bool) \<Rightarrow> 'h alive \<Rightarrow> 'h alive" where
  "after p ps = map (\<lambda>x. (tl (fst x), snd x)) (filter (\<lambda>x. fst x \<noteq> [] \<and> p (hd (fst x))) ps)"

fun is_wild :: "seg \<Rightarrow> bool" where
  "is_wild (Wild n) = True" | "is_wild _ = False"

definition or_else :: "'a option \<Rightarrow> 'a option \<Rightarrow> 'a option" where
  "or_else x y = (case x of None \<Rightarrow> y | Some a \<Rightarrow> Some a)"

fun lookup :: "'h alive \<Rightarrow> string list \<Rightarrow> 'h route option" where
  "lookup ps [] = map_option snd (find (\<lambda>x. fst x = []) ps)"
| "lookup ps (s # ss) =
     or_else (lookup (after (\<lambda>g. g = Lit s) ps) ss)
       (or_else (if s = [slash] then None else lookup (after is_wild ps) ss)
         (map_option snd (find (\<lambda>x. fst x = [Multi]) ps)))"

fun path_value :: "seg list \<Rightarrow> string list \<Rightarrow> string \<Rightarrow> string" where
  "path_value (Wild n # gs) (s # ss) k = (if n = k then s else path_value gs ss k)"
| "path_value (g # gs) (s # ss) k = path_value gs ss k"
| "path_value _ _ k = []"

definition alive :: "string \<Rightarrow> 'h route list \<Rightarrow> 'h alive" where
  "alive m rs = map (\<lambda>r. (rt_segs r, r)) (filter (\<lambda>r. rt_method r = m) rs)"

definition match_path :: "'h route list \<Rightarrow> string \<Rightarrow> string \<Rightarrow> 'h route option" where
  "match_path rs m path = lookup (alive m rs) (path_segs path)"

text \<open>A \<open>HEAD\<close> request falls back to the \<open>GET\<close> patterns.\<close>

definition match :: "'h route list \<Rightarrow> string \<Rightarrow> string \<Rightarrow> 'h route option" where
  "match rs m path = or_else (match_path rs m path)
     (if m = ''HEAD'' then match_path rs ''GET'' path else None)"

definition exactMatch :: "'h route option \<Rightarrow> string \<Rightarrow> bool" where
  "exactMatch n path = (case n of None \<Rightarrow> False
     | Some r \<Rightarrow> \<not> HasSuffix path [slash] \<or> length (rt_segs r) = count_where (\<lambda>c. c = slash) path)"

definition matchingMethods :: "'h route list \<Rightarrow> string \<Rightarrow> string list" where
  "matchingMethods rs path =
    (let hit = (\<lambda>p. filter (\<lambda>m. match_path rs m p \<noteq> None) (map rt_method rs));
         ms = hit path @ (if HasSuffix path [slash] then [] else hit (path @ [slash]))
     in sort (remdups (ms @ (if ''GET'' \<in> set ms then [''HEAD''] else []))))"

datatype 'h routing = Handled 'h "string \<Rightarrow> string" | Redirect string | NotAllowed "string list" | NoRoute

definition findHandler :: "'h route list \<Rightarrow> string \<Rightarrow> string \<Rightarrow> 'h routing" where
  "findHandler rs m escaped =
    (let path = cleanPath escaped; n = match rs m path in
     if \<not> exactMatch n path \<and> \<not> HasSuffix path [slash] \<and>
        exactMatch (match rs m (path @ [slash])) (path @ [slash])
     then Redirect (path @ [slash])
     else if path \<noteq> escaped then Redirect path
     else case n of
         Some r \<Rightarrow> Handled (rt_handler r) (path_value (rt_segs r) (path_segs path))
       | None \<Rightarrow> if matchingMethods rs path \<noteq> [] then NotAllowed (matchingMethods rs path) else NoRoute)"

subsection \<open>Specificity\<close>

fun seg_match :: "seg list \<Rightarrow> string list \<Rightarrow> bool" where
  "seg_match [] ss = (ss = [])"
| "seg_match (g # gs) [] = False"
| "seg_match (Lit t # gs) (s # ss) = (t = s \<and> seg_match gs ss)"
| "seg_match (Wild n # gs) (s # ss) = (s \<noteq> [slash] \<and> seg_match gs ss)"
| "seg_match (Multi # gs) (s # ss) = (gs = [])"

text \<open>\<open>covers p q\<close>: every path of \<open>q\<close> is a path of \<open>p\<close>; \<open>overlap p q\<close>: some path is one of both.\<close>

fun covers :: "seg list \<Rightarrow> seg list \<Rightarrow> bool" where
  "covers [] q = (q = [])"
| "covers (g # p) [] = False"
| "covers (Lit a # p) (h # q) = (h = Lit a \<and> covers p q)"
| "covers (Wild n # p) (h # q) = (h \<noteq> Multi \<and> h \<noteq> Lit [slash] \<and> covers p q)"
| "covers (Multi # p) (h # q) = (p = [])"

fun overlap :: "seg list \<Rightarrow> seg list \<Rightarrow> bool" where
  "overlap [] q = (q = [])"
| "overlap (g # p) [] = False"
| "overlap (Multi # p) (h # q) = (p = [])"
| "overlap (g # p) (Multi # q) = (q = [])"
| "overlap (Lit a # p) (Lit b # q) = (a = b \<and> overlap p q)"
| "overlap (g # p) (h # q) = overlap p q"

definition conflict :: "seg list \<Rightarrow> seg list \<Rightarrow> bool" where
  "conflict p q \<longleftrightarrow> overlap p q \<and> covers p q = covers q p"

text \<open>Registering a pattern that conflicts with an earlier one panics. (No pattern here is for
  \<open>HEAD\<close> or for every method, so only patterns of one method can meet.)\<close>

definition registers :: "'h route list \<Rightarrow> bool" where
  "registers rs \<longleftrightarrow> sorted_wrt (\<lambda>r q. rt_method r = rt_method q \<longrightarrow> \<not> conflict (rt_segs r) (rt_segs q)) rs"

lemma covers_match: "covers p q \<Longrightarrow> seg_match q ss \<Longrightarrow> seg_match p ss"
proof (induction p q arbitrary: ss rule: covers.induct)
  case (3 a p h q)
  then show ?case by (cases ss) auto
next
  case (4 n p h q)
  then show ?case by (cases ss; cases h) auto
next
  case (5 p h q)
  then show ?case by (cases ss; cases h) auto
qed auto

lemma seg_match_Nil [simp]: "seg_match p [] \<longleftrightarrow> p = []"
  by (cases p) auto

lemma seg_match_Cons:
  "seg_match p (s # ss) \<longleftrightarrow> (\<exists>gs. p = Lit s # gs \<and> seg_match gs ss) \<or>
     (\<exists>n gs. p = Wild n # gs \<and> s \<noteq> [slash] \<and> seg_match gs ss) \<or> p = [Multi]"
proof (cases p)
  case (Cons g gs)
  then show ?thesis by (cases g) auto
qed simp

lemma covers_refl: "seg_match p ss \<Longrightarrow> covers p p"
proof (induction ss arbitrary: p)
  case (Cons s ss)
  then show ?case by (auto simp: seg_match_Cons)
qed simp

lemma match_overlap: "seg_match p ss \<Longrightarrow> seg_match q ss \<Longrightarrow> overlap p q"
proof (induction ss arbitrary: p q)
  case (Cons s ss)
  then show ?case by (auto simp: seg_match_Cons)
qed simp

lemma match_covers:
  assumes "\<not> conflict p q" and "seg_match p ss" and "seg_match q ss"
  shows "covers p q \<or> covers q p"
  using assms match_overlap by (auto simp: conflict_def)

subsection \<open>The tree finds the most specific pattern\<close>

definition alive_ok :: "'h alive \<Rightarrow> bool" where
  "alive_ok ps \<longleftrightarrow> sorted_wrt (\<lambda>x y. \<not> conflict (fst x) (fst y)) ps"

definition best :: "'h alive \<Rightarrow> string list \<Rightarrow> 'h route \<Rightarrow> bool" where
  "best ps ss r \<longleftrightarrow> (\<exists>gs. (gs, r) \<in> set ps \<and> seg_match gs ss \<and>
     (\<forall>q \<in> fst ` set ps. seg_match q ss \<longrightarrow> covers q gs))"

lemma set_after: "set (after p ps) = {(gs, r). \<exists>g. (g # gs, r) \<in> set ps \<and> p g}"
  by (force simp: after_def neq_Nil_conv image_iff)

lemma alive_ok_after:
  assumes "alive_ok ps" and "\<And>g h p q. P g \<Longrightarrow> P h \<Longrightarrow> conflict (g # p) (h # q) = conflict p q"
  shows "alive_ok (after P ps)"
proof -
  have "conflict (tl (fst x)) (tl (fst y)) \<Longrightarrow> conflict (fst x) (fst y)"
    if "fst x \<noteq> [] \<and> P (hd (fst x))" and "fst y \<noteq> [] \<and> P (hd (fst y))" for x y :: "seg list \<times> 'a route"
    using assms(2) [of "hd (fst x)" "hd (fst y)" "tl (fst x)" "tl (fst y)"] that by (auto simp: neq_Nil_conv)
  then show ?thesis using assms(1) unfolding alive_ok_def after_def sorted_wrt_map
    by (intro sorted_wrt_mono_rel [OF _ sorted_wrt_filter]) auto
qed

lemma alive_total:
  assumes "alive_ok ps" and "p \<in> fst ` set ps" and "q \<in> fst ` set ps" and "seg_match p ss" and "seg_match q ss"
  shows "covers p q \<or> covers q p"
proof -
  from assms(2,3) obtain i j where "i < length ps" "p = fst (ps ! i)" "j < length ps" "q = fst (ps ! j)"
    by (auto simp: in_set_conv_nth)
  then show ?thesis
    using assms(1,4,5) match_covers [of p q ss] match_covers [of q p ss] covers_refl [OF assms(4)]
    by (cases i j rule: linorder_cases) (auto simp: alive_ok_def sorted_wrt_iff_nth_less)
qed

lemma conflict_lit: "conflict (Lit a # p) (Lit a # q) = conflict p q"
  by (simp add: conflict_def)

lemma conflict_wild: "conflict (Wild m # p) (Wild n # q) = conflict p q"
  by (simp add: conflict_def)

lemma is_wild_iff: "is_wild g \<longleftrightarrow> (\<exists>n. g = Wild n)"
  by (cases g) auto

lemma find_shape: "find (\<lambda>x. fst x = p) ps = None \<longleftrightarrow> p \<notin> fst ` set ps"
  by (force simp: find_None_iff' image_iff)

lemma find_shape_Some: "map_option snd (find (\<lambda>x. fst x = p) ps) = Some r \<Longrightarrow> (p, r) \<in> set ps"
  using find_Some_iff' by (fastforce simp: prod_eq_iff)

lemma or_else_None [simp]: "or_else x y = None \<longleftrightarrow> x = None \<and> y = None"
  by (simp add: or_else_def split: option.splits)

lemma or_else_Some: "or_else x y = Some r \<longleftrightarrow> x = Some r \<or> x = None \<and> y = Some r"
  by (auto simp: or_else_def split: option.splits)

lemma lookup_None: "lookup ps ss = None \<longleftrightarrow> (\<forall>q \<in> fst ` set ps. \<not> seg_match q ss)"
proof (induction ps ss rule: lookup.induct)
  case (1 ps)
  then show ?case by (force simp: find_shape image_iff)
next
  case (2 ps s ss)
  have "(\<forall>q \<in> fst ` set ps. \<not> seg_match q (s # ss)) \<longleftrightarrow>
      (\<forall>q \<in> fst ` set (after (\<lambda>g. g = Lit s) ps). \<not> seg_match q ss) \<and>
      (s = [slash] \<or> (\<forall>q \<in> fst ` set (after is_wild ps). \<not> seg_match q ss)) \<and> [Multi] \<notin> fst ` set ps"
    by (force simp: seg_match_Cons set_after is_wild_iff)
  with 2 show ?case by (cases "s = [slash]") (simp_all add: find_shape)
qed

lemma lookup_best: "alive_ok ps \<Longrightarrow> lookup ps ss = Some r \<Longrightarrow> best ps ss r"
proof (induction ps ss rule: lookup.induct)
  case (1 ps)
  then have "([], r) \<in> set ps" by (simp only: lookup.simps find_shape_Some)
  then show ?case by (auto simp: best_def)
next
  case (2 ps s ss)
  let ?L = "after (\<lambda>g. g = Lit s) ps" and ?W = "after is_wild ps"
  have ok: "alive_ok ?L" "alive_ok ?W"
    by (rule alive_ok_after [OF 2(3)], auto simp: conflict_lit conflict_wild is_wild_iff)+
  from 2(4) consider (lit) "lookup ?L ss = Some r"
    | (wild) "lookup ?L ss = None" "s \<noteq> [slash]" "lookup ?W ss = Some r"
    | (multi) "lookup ?L ss = None" "s = [slash] \<or> lookup ?W ss = None"
        "map_option snd (find (\<lambda>x. fst x = [Multi]) ps) = Some r"
    by (auto simp: or_else_Some split: if_splits)
  then show ?case
  proof cases
    case lit
    with 2(1) ok have "best ?L ss r" by blast
    then obtain gs where gs: "(Lit s # gs, r) \<in> set ps" "seg_match gs ss"
      and IH: "\<And>q r'. (Lit s # q, r') \<in> set ps \<Longrightarrow> seg_match q ss \<Longrightarrow> covers q gs"
      unfolding best_def by (force simp: set_after)
    have "covers q (Lit s # gs)" if q: "q \<in> fst ` set ps" "seg_match q (s # ss)" for q
    proof -
      from gs(1) have "Lit s # gs \<in> fst ` set ps" by force
      then have "covers q (Lit s # gs) \<or> covers (Lit s # gs) q"
        using alive_total [OF 2(3) _ q(1), of "Lit s # gs" "s # ss"] gs(2) q(2) by auto
      then show ?thesis using q IH by (auto simp: seg_match_Cons)
    qed
    with gs show ?thesis unfolding best_def by (intro exI [of _ "Lit s # gs"]) simp
  next
    case wild
    with 2(2) ok have "best ?W ss r" by blast
    then obtain n gs where gs: "(Wild n # gs, r) \<in> set ps" "seg_match gs ss"
      and IH: "\<And>m q r'. (Wild m # q, r') \<in> set ps \<Longrightarrow> seg_match q ss \<Longrightarrow> covers q gs"
      unfolding best_def by (force simp: set_after is_wild_iff)
    have "\<not> seg_match q ss" if "(Lit s # q, r') \<in> set ps" for q r'
      using wild(1) that by (force simp: lookup_None set_after)
    then have "covers q (Wild n # gs)" if "q \<in> fst ` set ps" "seg_match q (s # ss)" for q
      using that IH by (auto simp: seg_match_Cons)
    with gs wild(2) show ?thesis unfolding best_def by (intro exI [of _ "Wild n # gs"]) simp
  next
    case multi
    have "\<not> seg_match q ss" if "(Lit s # q, r') \<in> set ps" for q r'
      using multi(1) that by (force simp: lookup_None set_after)
    moreover have "s = [slash] \<or> \<not> seg_match q ss" if "(Wild m # q, r') \<in> set ps" for m q r'
      using multi(2) that by (force simp: lookup_None set_after is_wild_iff)
    ultimately have "covers q [Multi]" if "q \<in> fst ` set ps" "seg_match q (s # ss)" for q
      using that by (auto simp: seg_match_Cons)
    with find_shape_Some [OF multi(3)] show ?thesis
      unfolding best_def by (intro exI [of _ "[Multi]"]) simp
  qed
qed

text \<open>What the documentation promises: among the patterns of the request's method that match the
  path, the handler is that of the one whose paths the others all include.\<close>

lemma match_path_spec:
  assumes "registers rs"
  shows "match_path rs m path = Some r \<Longrightarrow> r \<in> set rs \<and> rt_method r = m \<and> seg_match (rt_segs r) (path_segs path) \<and>
      (\<forall>q \<in> set rs. rt_method q = m \<longrightarrow> seg_match (rt_segs q) (path_segs path) \<longrightarrow> covers (rt_segs q) (rt_segs r))"
    and "match_path rs m path = None \<longleftrightarrow>
      (\<forall>q \<in> set rs. rt_method q = m \<longrightarrow> \<not> seg_match (rt_segs q) (path_segs path))"
proof -
  have "sorted_wrt (\<lambda>r q. rt_method r = rt_method q \<longrightarrow> \<not> conflict (rt_segs r) (rt_segs q))
      (filter (\<lambda>r. rt_method r = m) rs)"
    using assms unfolding registers_def by (rule sorted_wrt_filter)
  then have "alive_ok (alive m rs)" unfolding alive_ok_def alive_def sorted_wrt_map
    by (rule sorted_wrt_mono_rel [rotated]) simp
  then show "match_path rs m path = Some r \<Longrightarrow> r \<in> set rs \<and> rt_method r = m \<and> seg_match (rt_segs r) (path_segs path) \<and>
      (\<forall>q \<in> set rs. rt_method q = m \<longrightarrow> seg_match (rt_segs q) (path_segs path) \<longrightarrow> covers (rt_segs q) (rt_segs r))"
    using lookup_best [of "alive m rs" "path_segs path" r] by (auto simp: match_path_def best_def alive_def)
  show "match_path rs m path = None \<longleftrightarrow>
      (\<forall>q \<in> set rs. rt_method q = m \<longrightarrow> \<not> seg_match (rt_segs q) (path_segs path))"
    by (auto simp: match_path_def lookup_None alive_def)
qed

end
