(* ===== verification/GoUrl.thy ===== *)
theory GoUrl
  imports ServeMux "HOL-Library.AList"
begin

text \<open>
  The part of \<open>net/url\<close> and \<open>net/http\<close> a forwarded request goes through: percent encoding,
  \<open>Values.Encode\<close> and \<open>ParseQuery\<close>, the reading of a path as a URL, and canonical header names.
\<close>

subsection \<open>Percent encoding\<close>

definition alnum :: "char \<Rightarrow> bool" where
  "alnum c \<longleftrightarrow> is_digit c \<or> is_upper c \<or> is_lower c"

definition unreserved :: "char \<Rightarrow> bool" where
  "unreserved c \<longleftrightarrow> alnum c \<or> c \<in> set ''-_.~''"

definition hex_char :: "nat \<Rightarrow> char" where
  "hex_char n = byte (if n < 10 then 48 + n else 55 + n)"

definition escape_byte :: "(char \<Rightarrow> bool) \<Rightarrow> char \<Rightarrow> string" where
  "escape_byte keep c = (if keep c then [c] else [CHR ''%'', hex_char (code c div 16), hex_char (code c mod 16)])"

definition escape :: "(char \<Rightarrow> bool) \<Rightarrow> string \<Rightarrow> string" where
  "escape keep s = concat (map (escape_byte keep) s)"

definition path_escape :: "string \<Rightarrow> string" where
  "path_escape s = escape (\<lambda>c. unreserved c \<or> c \<in> set ''$&+,/:;=@'') s"

definition QueryEscape :: "string \<Rightarrow> string" where
  "QueryEscape s = ReplaceByte (escape (\<lambda>c. unreserved c \<or> c = CHR '' '') s) (CHR '' '') (CHR ''+'')"

definition QueryUnescape :: "string \<Rightarrow> string option" where
  "QueryUnescape s = unescape (ReplaceByte s (CHR ''+'') (CHR '' ''))"

subsection \<open>Query strings\<close>

definition encode_pair :: "string \<times> string \<Rightarrow> string" where
  "encode_pair x = QueryEscape (fst x) @ CHR ''='' # QueryEscape (snd x)"

text \<open>\<open>Encode\<close> for values set once per key, and the pairs \<open>ParseQuery\<close> reads; what it cannot read it
  skips, since \<open>URL.Query\<close> drops its error.\<close>

definition Encode :: "(string \<times> string) list \<Rightarrow> string" where
  "Encode kvs = Join (map encode_pair (sort_key fst kvs)) ''&''"

definition parse_pair :: "string \<Rightarrow> (string \<times> string) option" where
  "parse_pair s =
    (if s = [] \<or> CHR '';'' \<in> set s then None
     else (let k = takeWhile (\<lambda>c. c \<noteq> CHR ''='') s; v = tl (dropWhile (\<lambda>c. c \<noteq> CHR ''='') s) in
       case (QueryUnescape k, QueryUnescape v) of (Some k, Some v) \<Rightarrow> Some (k, v) | _ \<Rightarrow> None))"

definition ParseQuery :: "string \<Rightarrow> (string \<times> string) list" where
  "ParseQuery s = List.map_filter parse_pair (Split s (CHR ''&''))"

definition value_get :: "(string \<times> string) list \<Rightarrow> string \<Rightarrow> string" where
  "value_get kvs k = (case map_of kvs k of Some v \<Rightarrow> v | None \<Rightarrow> [])"

lemma hex_val_char: "n < 16 \<Longrightarrow> hex_val (hex_char n) = Some n"
  by (auto simp: hex_char_def hex_val_def is_digit_def code_byte)

lemma unescape_cons: "c \<noteq> CHR ''%'' \<Longrightarrow> unescape (c # s) = map_option (Cons c) (unescape s)"
  by simp

lemma unescape_hex: "unescape (CHR ''%'' # hex_char (code c div 16) # hex_char (code c mod 16) # s) =
    map_option (Cons c) (unescape s)"
proof -
  have "code c div 16 < (16 :: nat)" using nat_of_char_less_256 [of c] by linarith
  then show ?thesis by (simp add: hex_val_char)
qed

lemma unescape_escape: "\<not> keep (CHR ''%'') \<Longrightarrow> unescape (escape keep s) = Some s"
proof (induction s)
  case (Cons c s)
  then show ?case
    by (cases "keep c") (auto simp: escape_def escape_byte_def unescape_hex simp del: unescape.simps
        intro: unescape_cons [THEN trans])
qed (simp add: escape_def)

lemma escape_chars: "c \<in> set (escape keep s) \<Longrightarrow> keep c \<or> c = CHR ''%'' \<or> hex_val c \<noteq> None"
proof -
  assume "c \<in> set (escape keep s)"
  then obtain b where "c \<in> set (escape_byte keep b)" by (auto simp: escape_def)
  moreover have "code b div 16 < (16 :: nat)" using nat_of_char_less_256 [of b] by linarith
  ultimately show ?thesis by (auto simp: escape_byte_def hex_val_char split: if_splits)
qed

definition query_keep :: "char \<Rightarrow> bool" where
  "query_keep c \<longleftrightarrow> unreserved c \<or> c = CHR '' ''"

lemma QueryEscape_eq: "QueryEscape s = ReplaceByte (escape query_keep s) (CHR '' '') (CHR ''+'')"
  by (simp add: QueryEscape_def query_keep_def [abs_def])

lemma separators:
  "\<not> query_keep (CHR ''&'')" "\<not> query_keep (CHR ''='')" "\<not> query_keep (CHR '';'')" "\<not> query_keep (CHR ''+'')"
  "\<not> query_keep (CHR ''%'')" "hex_val (CHR ''&'') = None" "hex_val (CHR ''='') = None" "hex_val (CHR '';'') = None"
  "hex_val (CHR ''+'') = None"
  by (simp_all add: query_keep_def unreserved_def alnum_def is_digit_def is_upper_def is_lower_def hex_val_def)

lemma not_escaped: "\<not> query_keep c \<Longrightarrow> hex_val c = None \<Longrightarrow> c \<noteq> CHR ''%'' \<Longrightarrow> c \<notin> set (escape query_keep s)"
  using escape_chars by fastforce

lemma query_escape_chars:
  "CHR ''&'' \<notin> set (QueryEscape s)" "CHR ''='' \<notin> set (QueryEscape s)" "CHR '';'' \<notin> set (QueryEscape s)"
  using not_escaped [of "CHR ''&''" s] not_escaped [of "CHR ''=''" s] not_escaped [of "CHR '';''" s] separators
  by (auto simp: QueryEscape_eq ReplaceByte_def split: if_splits)

lemma query_unescape_escape: "QueryUnescape (QueryEscape s) = Some s"
proof -
  have "CHR ''+'' \<notin> set (escape query_keep s)" using not_escaped separators by simp
  then have "ReplaceByte (QueryEscape s) (CHR ''+'') (CHR '' '') = escape query_keep s"
    by (auto simp: QueryEscape_eq ReplaceByte_def intro!: map_idI)
  then show ?thesis by (simp add: QueryUnescape_def unescape_escape separators)
qed

lemma parse_encode_pair: "parse_pair (encode_pair x) = Some x"
proof -
  let ?k = "QueryEscape (fst x)" and ?v = "QueryEscape (snd x)"
  have eq: "CHR ''='' \<notin> set ?k" "CHR '';'' \<notin> set ?k" "CHR '';'' \<notin> set ?v" by (rule query_escape_chars)+
  then have "takeWhile (\<lambda>c. c \<noteq> CHR ''='') (?k @ CHR ''='' # ?v) = ?k"
    "dropWhile (\<lambda>c. c \<noteq> CHR ''='') (?k @ CHR ''='' # ?v) = CHR ''='' # ?v"
    by (auto simp: takeWhile_append dropWhile_append)
  with eq show ?thesis by (simp add: parse_pair_def encode_pair_def query_unescape_escape Let_def)
qed

lemma ParseQuery_Encode: "ParseQuery (Encode kvs) = sort_key fst kvs"
proof (cases "kvs = []")
  case True
  then show ?thesis by (simp add: ParseQuery_def Encode_def parse_pair_def List.map_filter_simps)
next
  case False
  have "list_all (\<lambda>e. CHR ''&'' \<notin> set e) (map encode_pair (sort_key fst kvs))"
    using query_escape_chars(1) by (auto simp: list_all_iff encode_pair_def)
  moreover have "map encode_pair (sort_key fst kvs) \<noteq> []" using False by (metis length_0_conv length_map length_sort)
  ultimately have "Split (Encode kvs) (CHR ''&'') = map encode_pair (sort_key fst kvs)"
    by (simp add: Encode_def Split_Join)
  then show ?thesis by (simp add: ParseQuery_def List.map_filter_def comp_def parse_encode_pair)
qed

text \<open>What was set is what is read.\<close>

lemma value_get_Encode: "distinct (map fst kvs) \<Longrightarrow> value_get (ParseQuery (Encode kvs)) k = value_get kvs k"
proof -
  assume d: "distinct (map fst kvs)"
  have "distinct (map fst (sort_key fst kvs))"
    using d by (metis distinct_map distinct_sort set_sort)
  then have "map_of (sort_key fst kvs) = map_of kvs" using d by (simp add: map_of_inject_set)
  then show ?thesis by (simp add: ParseQuery_Encode value_get_def)
qed

subsection \<open>A path as a URL\<close>

text \<open>The escaped path that \<open>url.Parse\<close> reads from what \<open>URL.String\<close> writes for a URL with only this
  path: a first segment with a colon is protected with a dot segment, and what follows two slashes
  (but not three) is an authority, which the argument accepts or not.\<close>

definition reparsed_path :: "(string \<Rightarrow> bool) \<Rightarrow> string \<Rightarrow> string option" where
  "reparsed_path authority p =
    (if p = ''*'' then Some p
     else let e = path_escape p in
       if prefix ''//'' e \<and> \<not> prefix ''///'' e then
         (if authority (takeWhile (\<lambda>c. c \<noteq> slash) (drop 2 e)) then Some (dropWhile (\<lambda>c. c \<noteq> slash) (drop 2 e)) else None)
       else if CHR '':'' \<in> set (takeWhile (\<lambda>c. c \<noteq> slash) e) then Some (''./'' @ e)
       else Some e)"

definition rooted :: "string \<Rightarrow> bool" where
  "rooted p \<longleftrightarrow> prefix ''/'' p \<and> \<not> prefix ''//'' p"

lemma path_escape_slash: "path_escape (slash # p) = slash # path_escape p"
  by (simp add: path_escape_def escape_def escape_byte_def)

lemma path_escape_prefix: "prefix ''//'' (path_escape p) \<longleftrightarrow> prefix ''//'' p" "prefix ''/'' (path_escape p) \<longleftrightarrow> prefix ''/'' p"
proof -
  have one: "(\<exists>r. path_escape q = slash # r) \<longleftrightarrow> (\<exists>r. q = slash # r)" for q
  proof (cases q)
    case (Cons c r)
    have "escape_byte keep c = slash # t \<Longrightarrow> c = slash" for keep t by (auto simp: escape_byte_def split: if_splits)
    then show ?thesis using Cons path_escape_slash
      by (auto simp: path_escape_def escape_def escape_byte_def split: if_splits)
  qed (simp add: path_escape_def escape_def)
  then show "prefix ''/'' (path_escape p) \<longleftrightarrow> prefix ''/'' p" by (auto simp: prefix_def)
  have two: "prefix ''//'' s \<longleftrightarrow> (\<exists>r. s = slash # slash # r)" for s by (auto simp: prefix_def)
  show "prefix ''//'' (path_escape p) \<longleftrightarrow> prefix ''//'' p"
    unfolding two using one by (metis list.inject path_escape_slash)
qed

lemma reparsed_rooted: "rooted p \<Longrightarrow> reparsed_path a p = Some (path_escape p)"
proof -
  assume p: "rooted p"
  then obtain r where r: "p = slash # r" by (auto simp: rooted_def prefix_def)
  moreover have "\<not> prefix ''//'' (path_escape p)" using p path_escape_prefix(1) by (simp add: rooted_def)
  ultimately show ?thesis by (simp add: reparsed_path_def path_escape_slash)
qed

text \<open>Two leading slashes: the first segment is lost.\<close>

lemma reparsed_double:
  assumes "slash \<notin> set h" and "h \<noteq> []"
  shows "reparsed_path a (''//'' @ h @ slash # p) = (if a (path_escape h) then Some (slash # path_escape p) else None)"
proof -
  have app: "path_escape (s @ t) = path_escape s @ path_escape t" for s t by (simp add: path_escape_def escape_def)
  have no: "c \<noteq> slash" if "c \<in> set (path_escape h)" for c
  proof -
    from that obtain b where b: "b \<in> set h" "c \<in> set (escape_byte (\<lambda>c. unreserved c \<or> c \<in> set ''$&+,/:;=@'') b)"
      by (auto simp: path_escape_def escape_def)
    have hex: "hex_char n \<noteq> slash" if "n < 16" for n using hex_val_char [OF that] by (auto simp: hex_val_def is_digit_def)
    have "code b div 16 < (16 :: nat)" using nat_of_char_less_256 [of b] by linarith
    then have "hex_char (code b div 16) \<noteq> slash" "hex_char (code b mod 16) \<noteq> slash" by (simp_all add: hex)
    then show ?thesis using assms(1) b by (auto simp: escape_byte_def split: if_splits)
  qed
  have "path_escape h \<noteq> []" using assms(2) by (cases h) (auto simp: path_escape_def escape_def escape_byte_def split: if_splits)
  then obtain b t where "path_escape h = b # t" "b \<noteq> slash" using no by (cases "path_escape h") auto
  then have "\<not> prefix ''///'' (slash # slash # path_escape h @ slash # path_escape p)" by (auto simp: prefix_def)
  moreover have "takeWhile (\<lambda>c. c \<noteq> slash) (path_escape h @ slash # path_escape p) = path_escape h"
    "dropWhile (\<lambda>c. c \<noteq> slash) (path_escape h @ slash # path_escape p) = slash # path_escape p"
    using no by (auto simp: takeWhile_append dropWhile_append)
  ultimately show ?thesis by (simp add: reparsed_path_def path_escape_slash app Let_def)
qed

subsection \<open>Header names\<close>

definition token_char :: "char \<Rightarrow> bool" where
  "token_char c \<longleftrightarrow> 33 \<le> (code c :: nat) \<and> (code c :: nat) \<le> 126 \<and> c \<notin> set ''()<>@,;:/[]?={}'' \<and> c \<notin> {CHR 0x22, CHR 0x5C}"

fun canon_from :: "bool \<Rightarrow> string \<Rightarrow> string" where
  "canon_from up [] = []"
| "canon_from up (c # cs) = (let c = (if up then upper_byte c else lower_byte c) in c # canon_from (c = CHR ''-'') cs)"

definition CanonicalMIMEHeaderKey :: "string \<Rightarrow> string" where
  "CanonicalMIMEHeaderKey s = (if list_all token_char s then canon_from True s else s)"

type_synonym header = "(string \<times> string) list"

definition header_get :: "header \<Rightarrow> string \<Rightarrow> string" where
  "header_get hs k = value_get hs (CanonicalMIMEHeaderKey k)"

definition header_del :: "string \<Rightarrow> header \<Rightarrow> header" where
  "header_del k hs = filter (\<lambda>x. fst x \<noteq> CanonicalMIMEHeaderKey k) hs"

definition header_set :: "string \<Rightarrow> string \<Rightarrow> header \<Rightarrow> header" where
  "header_set k v hs = AList.update (CanonicalMIMEHeaderKey k) v hs"

lemma lower_upper_byte [simp]:
  "upper_byte (upper_byte c) = upper_byte c" "lower_byte (lower_byte c) = lower_byte c"
  by (auto simp: upper_byte_def lower_byte_def is_lower_def is_upper_def)

lemma canon_from_idem: "canon_from up (canon_from up s) = canon_from up s"
  by (induction s arbitrary: up) (auto simp: Let_def)

lemma header_get_del: "header_get (header_del j hs) k =
    (if CanonicalMIMEHeaderKey j = CanonicalMIMEHeaderKey k then [] else header_get hs k)"
proof -
  have "map_of (filter (\<lambda>x. fst x \<noteq> a) hs) b = (if a = b then None else map_of hs b)" for a b :: string
    by (induction hs) auto
  then show ?thesis by (simp add: header_get_def header_del_def value_get_def)
qed

lemma header_get_set: "header_get (header_set j v hs) k =
    (if CanonicalMIMEHeaderKey j = CanonicalMIMEHeaderKey k then v else header_get hs k)"
  by (auto simp: header_get_def header_set_def value_get_def update_conv')

end
