(* ===== verification/SourceHttp.thy ===== *)
theory SourceHttp
  imports Aggregator GoUrl
begin

text \<open>
  What the adapters of \<open>internal/metadata/sources\<close> share (\<open>source.go\<close>): the HTTP client with its size
  limit and its error texts, the decoding of an answer, and the small string functions and regular
  expressions several of them use. The network and the reading of bytes as JSON are parameters.
\<close>

subsection \<open>The client\<close>

record http_call =
  hc_method :: string
  hc_url :: string
  hc_headers :: header
  hc_body :: "json option"

text \<open>No answer at all, an answer that breaks off, or a status with its body.\<close>

datatype http_reply = NoReply source_error | BrokenBody source_error | Reply int string

record source_env =
  sv_http :: "http_call \<Rightarrow> http_reply"
  sv_json :: "string \<Rightarrow> json option"
  sv_json_error :: "string \<Rightarrow> string"
  sv_quote :: "string \<Rightarrow> string"
  sv_ua :: string
  sv_uni :: uni

definition SoftLimit :: nat where
  "SoftLimit = 2 ^ 20"

definition redactURL :: "string \<Rightarrow> string" where
  "redactURL raw = (case IndexByte raw (CHR ''?'') of None \<Rightarrow> raw | Some i \<Rightarrow> take i raw @ ''?<redacted>'')"

text \<open>\<open>Client.Do\<close> names the whole URL in the error it returns.\<close>

definition transport_error :: "source_env \<Rightarrow> string \<Rightarrow> string \<Rightarrow> source_error \<Rightarrow> source_error" where
  "transport_error E verb url e = (case e of SourceFailed m \<Rightarrow> SourceFailed (verb @ '' '' @ sv_quote E url @ '': '' @ m) | _ \<Rightarrow> e)"

definition answer_body :: "source_env \<Rightarrow> string \<Rightarrow> string \<Rightarrow> (string \<Rightarrow> string) \<Rightarrow> http_call \<Rightarrow> (source_error, string) res" where
  "answer_body E verb Verb redact c = (case sv_http E c of
     NoReply e \<Rightarrow> Err (transport_error E Verb (hc_url c) e)
   | BrokenBody e \<Rightarrow> Err e
   | Reply st body \<Rightarrow>
       if st = 404 then Err SourceNotFound
       else if st < 200 \<or> st \<ge> 300 then Err (SourceFailed (''source: '' @ verb @ '' '' @ redact (hc_url c) @ '' status '' @ Itoa st))
       else Ok (take SoftLimit body))"

definition ua_header :: "source_env \<Rightarrow> header" where
  "ua_header E = (if sv_ua E \<noteq> [] then [(''User-Agent'', sv_ua E)] else [])"

definition GetJSONWithHeaders :: "source_env \<Rightarrow> header \<Rightarrow> string \<Rightarrow> (source_error, string) res" where
  "GetJSONWithHeaders E hs url = answer_body E ''GET'' ''Get'' redactURL
     \<lparr>hc_method = ''GET'', hc_url = url, hc_headers = foldl (\<lambda>r x. header_set (fst x) (snd x) r) (ua_header E) hs, hc_body = None\<rparr>"

definition GetJSON :: "source_env \<Rightarrow> string \<Rightarrow> (source_error, string) res" where
  "GetJSON E url = GetJSONWithHeaders E [] url"

definition UnmarshalInto :: "source_env \<Rightarrow> (json \<Rightarrow> 'a option) \<Rightarrow> string \<Rightarrow> (source_error, 'a) res" where
  "UnmarshalInto E dec body = (case Option.bind (sv_json E body) dec of
     None \<Rightarrow> Err (SourceFailed (''source: json decode: '' @ sv_json_error E body))
   | Some x \<Rightarrow> Ok x)"

definition raw_body :: "source_env \<Rightarrow> string \<Rightarrow> raw_message" where
  "raw_body E body = (case sv_json E body of Some v \<Rightarrow> RawValid v | None \<Rightarrow> RawInvalid body)"

definition bind_res :: "('e, 'a) res \<Rightarrow> ('a \<Rightarrow> ('e, 'b) res) \<Rightarrow> ('e, 'b) res" where
  "bind_res r f = (case r of Inl e \<Rightarrow> Err e | Inr x \<Rightarrow> f x)"

text \<open>A search that finds nothing is empty, not an error.\<close>

definition not_found_empty :: "(source_error, 'a list) res \<Rightarrow> (source_error, 'a list) res" where
  "not_found_empty r = (case r of Inl e \<Rightarrow> if e = SourceNotFound then Ok [] else Err e | Inr x \<Rightarrow> Ok x)"

lemma bind_res_Ok: "bind_res r f = Ok y \<longleftrightarrow> (\<exists>x. r = Ok x \<and> f x = Ok y)"
  by (auto simp: bind_res_def split: sum.split)

lemma not_found_empty_Ok: "not_found_empty r = Ok xs \<longleftrightarrow> r = Ok xs \<or> r = Err SourceNotFound \<and> xs = []"
  by (auto simp: not_found_empty_def split: sum.split)

subsection \<open>Decoding\<close>

type_synonym 'a slice = "'a list option"

definition elems :: "'a slice \<Rightarrow> 'a list" where
  "elems s = (case s of None \<Rightarrow> [] | Some l \<Rightarrow> l)"

definition dec_slice :: "(json \<Rightarrow> 'a option) \<Rightarrow> json \<Rightarrow> 'a slice option" where
  "dec_slice dec v = (case v of JArr vs \<Rightarrow> map_option Some (sequence (map dec vs)) | JNull \<Rightarrow> Some None | _ \<Rightarrow> None)"

definition dec_list :: "(json \<Rightarrow> 'a option) \<Rightarrow> json \<Rightarrow> 'a list option" where
  "dec_list dec v = map_option elems (dec_slice dec v)"

definition dec_ptr :: "(json \<Rightarrow> 'a option) \<Rightarrow> json \<Rightarrow> 'a option option" where
  "dec_ptr dec v = (case v of JNull \<Rightarrow> Some None | _ \<Rightarrow> map_option Some (dec v))"

definition dec_map :: "json \<Rightarrow> (string \<times> string) list option" where
  "dec_map v = (case v of
     JObj ms \<Rightarrow> map_option (foldl (\<lambda>m x. AList.update (fst x) (snd x) m) [])
       (sequence (map (\<lambda>x. map_option (Pair (fst x)) (dec_str [] (snd x))) ms))
   | JNull \<Rightarrow> Some [] | _ \<Rightarrow> None)"

definition put_field :: "(json \<Rightarrow> 'a option) \<Rightarrow> ('a \<Rightarrow> 'r \<Rightarrow> 'r) \<Rightarrow> json \<Rightarrow> 'r \<Rightarrow> 'r option" where
  "put_field dec put v r = map_option (\<lambda>x. put x r) (dec v)"

definition enc_slice :: "('a \<Rightarrow> json) \<Rightarrow> 'a slice \<Rightarrow> json" where
  "enc_slice enc s = (case s of None \<Rightarrow> JNull | Some l \<Rightarrow> JArr (map enc l))"

definition first_of :: "string list \<Rightarrow> string" where
  "first_of ss = (case ss of [] \<Rightarrow> [] | s # _ \<Rightarrow> s)"

subsection \<open>Strings\<close>

definition no_dashes :: "string \<Rightarrow> string" where
  "no_dashes s = filter (\<lambda>c. c \<noteq> CHR ''-'') s"

text \<open>\<open>^(?:978\d|979\d)\d{9}$|^\d{9}[\dX]$\<close>\<close>

definition isbnRE :: "string \<Rightarrow> bool" where
  "isbnRE s \<longleftrightarrow> length s = 13 \<and> (HasPrefix s ''978'' \<or> HasPrefix s ''979'') \<and> list_all is_digit s \<or> isbn_core s"

definition PathEscape :: "string \<Rightarrow> string" where
  "PathEscape s = escape (\<lambda>c. unreserved c \<or> c \<in> set ''$&+=:@'') s"

text \<open>The first four digits in a row.\<close>

fun year_in :: "string \<Rightarrow> string" where
  "year_in [] = []"
| "year_in (c # s) = (if length s \<ge> 3 \<and> list_all is_digit (take 4 (c # s)) then take 4 (c # s) else year_in s)"

function ReplaceAll :: "string \<Rightarrow> string \<Rightarrow> string \<Rightarrow> string" where
  "ReplaceAll old new s = (if old = [] \<or> s = [] then s
     else if prefix old s then new @ ReplaceAll old new (drop (length old) s)
     else hd s # ReplaceAll old new (tl s))"
  by pat_completeness auto
termination
  by (relation "measure (\<lambda>(old, new, s). length s)") auto

declare ReplaceAll.simps [simp del]

text \<open>Removing all matches of \<open><[^>]+>\<close>: a less-than sign, at least one other character than a greater-than sign, and that sign.\<close>

function strip_tags :: "string \<Rightarrow> string" where
  "strip_tags [] = []"
| "strip_tags (c # s) =
     (let m = takeWhile (\<lambda>x. x \<noteq> CHR ''>'') s; r = dropWhile (\<lambda>x. x \<noteq> CHR ''>'') s in
      if c = CHR ''<'' \<and> m \<noteq> [] \<and> r \<noteq> [] then strip_tags (tl r) else c # strip_tags s)"
  by pat_completeness auto
termination
  by (relation "measure length")
    (auto simp: le_imp_less_Suc length_dropWhile_le intro: le_less_trans [OF diff_le_self])

subsection \<open>Markup\<close>

lemma strip_tags_Cons:
  "strip_tags (c # s) = (if c = CHR ''<'' \<and> takeWhile (\<lambda>x. x \<noteq> CHR ''>'') s \<noteq> [] \<and> dropWhile (\<lambda>x. x \<noteq> CHR ''>'') s \<noteq> []
     then strip_tags (tl (dropWhile (\<lambda>x. x \<noteq> CHR ''>'') s)) else c # strip_tags s)"
  by (simp add: Let_def)

lemma strip_tags_set: "set (strip_tags s) \<subseteq> set s"
proof (induction s rule: length_induct)
  case (1 s)
  show ?case
  proof (cases s)
    case (Cons c t)
    let ?r = "dropWhile (\<lambda>x. x \<noteq> CHR ''>'') t"
    have "length (tl ?r) < length s" using Cons length_dropWhile_le [of "\<lambda>x. x \<noteq> CHR ''>''" t] by simp
    with 1 have "set (strip_tags (tl ?r)) \<subseteq> set (tl ?r)" by blast
    moreover have "set (tl ?r) \<subseteq> set t" using set_dropWhileD by (metis list.set_sel(2) subsetI tl_Nil)
    moreover have "set (strip_tags t) \<subseteq> set t" using 1 Cons by simp
    ultimately show ?thesis using Cons by (simp add: strip_tags_Cons del: strip_tags.simps(2)) blast
  qed simp
qed

text \<open>Where a tag could begin, the rest of the output has no end of one, except right behind it.\<close>

lemma strip_tags_head: "dropWhile (\<lambda>x. x \<noteq> CHR ''>'') s = [] \<Longrightarrow> dropWhile (\<lambda>x. x \<noteq> CHR ''>'') (strip_tags s) = []"
  using strip_tags_set by (metis dropWhile_eq_Nil_conv subset_eq)

lemma strip_tags_end: "takeWhile (\<lambda>x. x \<noteq> CHR ''>'') s = [] \<Longrightarrow> takeWhile (\<lambda>x. x \<noteq> CHR ''>'') (strip_tags s) = []"
  by (cases s) (auto split: if_splits)

lemma strip_tags_idem: "strip_tags (strip_tags s) = strip_tags s"
proof (induction s rule: strip_tags.induct)
  case (2 c s)
  then show ?case using strip_tags_head [of s] strip_tags_end [of s] by (auto simp: strip_tags_Cons simp del: strip_tags.simps(2))
qed simp

subsection \<open>Errors and the key\<close>

lemma redactURL_query: "CHR ''?'' \<notin> set base \<Longrightarrow> redactURL (base @ CHR ''?'' # q) = base @ ''?<redacted>''"
  by (simp add: redactURL_def IndexByte_append)

lemma path_escape_safe: "c \<in> set (PathEscape s) \<Longrightarrow> c \<notin> {slash, CHR ''?'', CHR ''#''}"
proof -
  assume "c \<in> set (PathEscape s)"
  then have "(unreserved c \<or> c \<in> set ''$&+=:@'') \<or> c = CHR ''%'' \<or> hex_val c \<noteq> None"
    unfolding PathEscape_def by (rule escape_chars)
  then show ?thesis by (auto simp: unreserved_def alnum_def is_digit_def is_upper_def is_lower_def hex_val_def)
qed

lemma path_escape_reads_back: "unescape (PathEscape s) = Some s"
  unfolding PathEscape_def
  by (rule unescape_escape) (simp add: unreserved_def alnum_def is_digit_def is_upper_def is_lower_def)

end
