(* ===== verification/GoRegexp.thy ===== *)
theory GoRegexp
  imports GoJson
begin

text \<open>
  Go's \<open>regexp\<close> package on the patterns the program uses: a pattern is a list of items, a match is the
  leftmost one and among those the first in the order a backtracking search would try them. Texts are bytes
  and are read one UTF-8 character at a time; a byte that starts no character counts as U+FFFD.
\<close>

subsection \<open>Cursors\<close>

definition rune_at :: "string \<Rightarrow> nat" where
  "rune_at s = (case take (utf8_front s) s of
     [a] \<Rightarrow> code a
   | [a, b] \<Rightarrow> (code a mod 32) * 64 + code b mod 64
   | [a, b, c] \<Rightarrow> ((code a mod 16) * 64 + code b mod 64) * 64 + code c mod 64
   | [a, b, c, d] \<Rightarrow> (((code a mod 8) * 64 + code b mod 64) * 64 + code c mod 64) * 64 + code d mod 64
   | _ \<Rightarrow> 65533)"

text \<open>The character before the cursor and the text behind it.\<close>

datatype cursor = At (before: "nat option") (behind: string)

definition advance :: "cursor \<Rightarrow> (nat \<times> cursor) option" where
  "advance c = (if behind c = [] then None
     else Some (rune_at (behind c), At (Some (rune_at (behind c))) (drop (max 1 (utf8_front (behind c))) (behind c))))"

definition taken :: "string \<Rightarrow> cursor \<Rightarrow> string" where
  "taken s c = take (length s - length (behind c)) s"

definition word_rune :: "nat \<Rightarrow> bool" where
  "word_rune r \<longleftrightarrow> 48 \<le> r \<and> r \<le> 57 \<or> 65 \<le> r \<and> r \<le> 90 \<or> r = 95 \<or> 97 \<le> r \<and> r \<le> 122"

definition at_edge :: "cursor \<Rightarrow> bool" where
  "at_edge c \<longleftrightarrow> (case before c of None \<Rightarrow> False | Some r \<Rightarrow> word_rune r) \<noteq> (behind c \<noteq> [] \<and> word_rune (rune_at (behind c)))"

subsection \<open>Patterns\<close>

text \<open>
  \<open>Close\<close> and \<open>Again\<close> occur only on the stack of the matcher: the end of a group, with the text at its
  beginning, and the end of one pass of a loop, with the length of the text before it.
\<close>

datatype re = Rune "nat \<Rightarrow> bool" | Begin | Finish | Edge | Group nat "re list" | Alt "re list" "re list" | Loop bool "re list"
  | Close nat string | Again nat bool "re list"

type_synonym groups = "(nat \<times> string) list"

fun weight :: "nat \<Rightarrow> re \<Rightarrow> nat" where
  "weight n (Group i p) = 2 + sum_list (map (weight n) p)"
| "weight n (Alt p q) = 1 + sum_list (map (weight n) p) + sum_list (map (weight n) q)"
| "weight n (Loop b p) = 2 + sum_list (map (weight n) p)"
| "weight n (Again m b p) = (if n < m then 3 + sum_list (map (weight n) p) else 1)"
| "weight n _ = 1"

definition stack_weight :: "nat \<Rightarrow> re list \<Rightarrow> nat" where
  "stack_weight n k = sum_list (map (weight n) k)"

lemma stack_weight_simps [simp]:
  "stack_weight n [] = 0" "stack_weight n (x # k) = weight n x + stack_weight n k"
  "stack_weight n (p @ k) = stack_weight n p + stack_weight n k"
  by (simp_all add: stack_weight_def)

lemma advance_shorter: "advance c = Some (r, c') \<Longrightarrow> length (behind c') < length (behind c)"
  by (auto simp: advance_def split: if_splits)

function run :: "re list \<Rightarrow> cursor \<Rightarrow> groups \<Rightarrow> (cursor \<times> groups) option" where
  "run [] c g = Some (c, g)"
| "run (Rune C # k) c g = (case advance c of None \<Rightarrow> None | Some (r, c') \<Rightarrow> if C r then run k c' g else None)"
| "run (Begin # k) c g = (if before c = None then run k c g else None)"
| "run (Finish # k) c g = (if behind c = [] then run k c g else None)"
| "run (Edge # k) c g = (if at_edge c then run k c g else None)"
| "run (Group i p # k) c g = run (p @ Close i (behind c) # k) c g"
| "run (Close i s # k) c g = run k c ((i, taken s c) # g)"
| "run (Alt p q # k) c g = (case run (p @ k) c g of Some m \<Rightarrow> Some m | None \<Rightarrow> run (q @ k) c g)"
| "run (Loop greedy p # k) c g =
    (if greedy then case run (p @ Again (length (behind c)) greedy p # k) c g of Some m \<Rightarrow> Some m | None \<Rightarrow> run k c g
     else case run k c g of Some m \<Rightarrow> Some m | None \<Rightarrow> run (p @ Again (length (behind c)) greedy p # k) c g)"
| "run (Again n greedy p # k) c g = (if length (behind c) < n then run (Loop greedy p # k) c g else None)"
  by pat_completeness auto
termination
  by (relation "measures [\<lambda>(k, c, g). length (behind c), \<lambda>(k, c, g). stack_weight (length (behind c)) k]")
    (auto simp: stack_weight_def [symmetric] dest: advance_shorter)

definition lit :: "string \<Rightarrow> re list" where
  "lit s = map (\<lambda>c. Rune (\<lambda>r. r = code c)) s"

definition dq :: "re list" where "dq = lit [CHR 0x22]"

definition one :: "string \<Rightarrow> re list" where
  "one s = [Rune (\<lambda>r. list_ex (\<lambda>c. r = code c) s)]"

definition but :: "string \<Rightarrow> re list" where
  "but s = [Rune (\<lambda>r. \<not> list_ex (\<lambda>c. r = code c) s)]"

definition unquoted :: "re list" where "unquoted = but [CHR 0x22]"

definition between :: "char \<Rightarrow> char \<Rightarrow> re list" where
  "between a b = [Rune (\<lambda>r. code a \<le> r \<and> r \<le> code b)]"

definition decimal :: "re list" where "decimal = between (CHR ''0'') (CHR ''9'')"

definition blank_rune :: "nat \<Rightarrow> bool" where
  "blank_rune r \<longleftrightarrow> r \<in> {9, 10, 12, 13, 32}"

definition blank :: "re list" where "blank = [Rune blank_rune]"

definition rune :: "re list" where "rune = [Rune (\<lambda>r. True)]"

definition many :: "re list \<Rightarrow> re list" where "many p = [Loop True p]"

definition some_of :: "re list \<Rightarrow> re list" where "some_of p = p @ many p"

definition few :: "re list \<Rightarrow> re list" where "few p = [Loop False p]"

definition times :: "nat \<Rightarrow> re list \<Rightarrow> re list" where "times n p = concat (replicate n p)"

definition opt :: "re list \<Rightarrow> re list" where "opt p = [Alt p []]"

definition group :: "nat \<Rightarrow> re list \<Rightarrow> re list" where "group i p = [Group i p]"

text \<open>The flag \<open>i\<close>: the characters that are equal up to case to a character that can occur in a pattern.\<close>

definition orbit :: "nat \<Rightarrow> nat list" where
  "orbit r = (if r = 75 \<or> r = 107 \<or> r = 8490 then [75, 107, 8490]
     else if r = 83 \<or> r = 115 \<or> r = 383 then [83, 115, 383]
     else if 65 \<le> r \<and> r \<le> 90 then [r, r + 32]
     else if 97 \<le> r \<and> r \<le> 122 then [r - 32, r] else [r])"

fun folded :: "re \<Rightarrow> re" where
  "folded (Rune C) = Rune (\<lambda>r. list_ex C (orbit r))"
| "folded (Group i p) = Group i (map folded p)"
| "folded (Alt p q) = Alt (map folded p) (map folded q)"
| "folded (Loop b p) = Loop b (map folded p)"
| "folded x = x"

definition caseless :: "re list \<Rightarrow> re list" where "caseless p = map folded p"

subsection \<open>Searching\<close>

type_synonym found = "cursor \<times> cursor \<times> groups"

function find_at :: "re list \<Rightarrow> cursor \<Rightarrow> found option" where
  "find_at p c = (case run p c [] of
     Some (c', g) \<Rightarrow> Some (c, c', g)
   | None \<Rightarrow> (case advance c of None \<Rightarrow> None | Some (r, d) \<Rightarrow> find_at p d))"
  by pat_completeness auto
termination
  by (relation "measure (\<lambda>(p, c). length (behind c))") (auto dest: advance_shorter)

declare find_at.simps [simp del]

definition group_of :: "groups \<Rightarrow> nat \<Rightarrow> string" where
  "group_of g i = (case map_of g i of None \<Rightarrow> [] | Some u \<Rightarrow> u)"

definition MatchString :: "re list \<Rightarrow> string \<Rightarrow> bool" where
  "MatchString p s \<longleftrightarrow> find_at p (At None s) \<noteq> None"

definition whole :: "found \<Rightarrow> string" where
  "whole m = taken (behind (fst m)) (fst (snd m))"

text \<open>The submatch function of a match: group 0 is the whole match.\<close>

definition submatch :: "found \<Rightarrow> nat \<Rightarrow> string" where
  "submatch m i = (if i = 0 then whole m else group_of (snd (snd m)) i)"

definition FindStringSubmatch :: "re list \<Rightarrow> string \<Rightarrow> (nat \<Rightarrow> string) option" where
  "FindStringSubmatch p s = map_option submatch (find_at p (At None s))"

text \<open>
  All matches without overlap. An empty match right behind another one does not count, and the search goes on
  one character further.
\<close>

lemma run_shorter: "run k c g = Some (c', g') \<Longrightarrow> length (behind c') \<le> length (behind c)"
proof (induction k c g rule: run.induct)
  case (2 C k c g)
  then show ?case by (fastforce split: option.splits if_splits dest: advance_shorter)
qed (auto split: option.splits if_splits)

lemma find_at_shorter: "find_at p c = Some (a, b, g) \<Longrightarrow> length (behind a) \<le> length (behind c) \<and> length (behind b) \<le> length (behind a)"
proof (induction p c rule: find_at.induct)
  case (1 p c)
  show ?case
  proof (cases "run p c []")
    case None
    with 1(2) obtain r d where d: "advance c = Some (r, d)" "find_at p d = Some (a, b, g)"
      by (subst (asm) find_at.simps) (auto split: option.splits)
    from 1(1) [OF None d(1) refl d(2)] advance_shorter [OF d(1)] show ?thesis by simp
  next
    case (Some m)
    with 1(2) show ?thesis by (subst (asm) find_at.simps) (auto split: prod.splits dest: run_shorter)
  qed
qed

function all_found :: "re list \<Rightarrow> nat option \<Rightarrow> cursor \<Rightarrow> found list" where
  "all_found p prev c = (case find_at p c of
     None \<Rightarrow> []
   | Some (a, b, g) \<Rightarrow>
       if length (behind b) < length (behind c) then (a, b, g) # all_found p (Some (length (behind b))) b
       else (if prev = Some (length (behind a)) then [] else [(a, b, g)]) @
         (case advance c of None \<Rightarrow> [] | Some (r, d) \<Rightarrow> all_found p (Some (length (behind b))) d))"
  by pat_completeness auto
termination
  by (relation "measure (\<lambda>(p, l, c). length (behind c))") (auto dest: advance_shorter)

declare all_found.simps [simp del]

definition FindAllStringSubmatch :: "re list \<Rightarrow> string \<Rightarrow> (nat \<Rightarrow> string) list" where
  "FindAllStringSubmatch p s = map submatch (all_found p None (At None s))"

definition FindAllString :: "re list \<Rightarrow> string \<Rightarrow> string list" where
  "FindAllString p s = map whole (all_found p None (At None s))"

fun splice :: "string \<Rightarrow> found list \<Rightarrow> (string \<Rightarrow> string) \<Rightarrow> string" where
  "splice s [] f = s"
| "splice s ((a, b, g) # ms) f = taken s a @ f (whole (a, b, g)) @ splice (behind b) ms f"

definition ReplaceAllStringFunc :: "re list \<Rightarrow> string \<Rightarrow> (string \<Rightarrow> string) \<Rightarrow> string" where
  "ReplaceAllStringFunc p s f = splice s (all_found p None (At None s)) f"

definition ReplaceAllString :: "re list \<Rightarrow> string \<Rightarrow> string \<Rightarrow> string" where
  "ReplaceAllString p s t = ReplaceAllStringFunc p s (\<lambda>_. t)"


subsection \<open>What a match is\<close>

text \<open>The matches of a pattern, without the order of the search.\<close>

inductive eats :: "re list \<Rightarrow> cursor \<Rightarrow> groups \<Rightarrow> cursor \<Rightarrow> groups \<Rightarrow> bool" where
  nothing: "eats [] c g c g"
| rune: "advance c = Some (r, d) \<Longrightarrow> C r \<Longrightarrow> eats k d g c' g' \<Longrightarrow> eats (Rune C # k) c g c' g'"
| front: "before c = None \<Longrightarrow> eats k c g c' g' \<Longrightarrow> eats (Begin # k) c g c' g'"
| finish: "behind c = [] \<Longrightarrow> eats k c g c' g' \<Longrightarrow> eats (Finish # k) c g c' g'"
| edge: "at_edge c \<Longrightarrow> eats k c g c' g' \<Longrightarrow> eats (Edge # k) c g c' g'"
| group: "eats p c g d h \<Longrightarrow> eats k d ((i, taken (behind c) d) # h) c' g' \<Longrightarrow> eats (Group i p # k) c g c' g'"
| close: "eats k c ((i, taken s c) # g) c' g' \<Longrightarrow> eats (Close i s # k) c g c' g'"
| alt_left: "eats p c g d h \<Longrightarrow> eats k d h c' g' \<Longrightarrow> eats (Alt p q # k) c g c' g'"
| alt_right: "eats q c g d h \<Longrightarrow> eats k d h c' g' \<Longrightarrow> eats (Alt p q # k) c g c' g'"
| leave: "eats k c g c' g' \<Longrightarrow> eats (Loop b p # k) c g c' g'"
| pass: "eats p c g d h \<Longrightarrow> length (behind d) < length (behind c) \<Longrightarrow> eats (Loop b p # k) d h c' g' \<Longrightarrow> eats (Loop b p # k) c g c' g'"
| again: "length (behind c) < n \<Longrightarrow> eats (Loop b p # k) c g c' g' \<Longrightarrow> eats (Again n b p # k) c g c' g'"

inductive_cases eats_NilE: "eats [] c g c' g'"
inductive_cases eats_RuneE: "eats (Rune C # k) c g c' g'"
inductive_cases eats_BeginE: "eats (Begin # k) c g c' g'"
inductive_cases eats_FinishE: "eats (Finish # k) c g c' g'"
inductive_cases eats_EdgeE: "eats (Edge # k) c g c' g'"
inductive_cases eats_GroupE: "eats (Group i p # k) c g c' g'"
inductive_cases eats_CloseE: "eats (Close i s # k) c g c' g'"
inductive_cases eats_AltE: "eats (Alt p q # k) c g c' g'"
inductive_cases eats_LoopE: "eats (Loop b p # k) c g c' g'"
inductive_cases eats_AgainE: "eats (Again n b p # k) c g c' g'"

lemma eats_append: "eats p c g d h \<Longrightarrow> eats k d h c' g' \<Longrightarrow> eats (p @ k) c g c' g'"
  by (induction rule: eats.induct) (auto intro: eats.intros)

lemma eats_split: "eats pk c g c' g' \<Longrightarrow> pk = p @ k \<Longrightarrow> \<exists>d h. eats p c g d h \<and> eats k d h c' g'"
proof (induction arbitrary: p rule: eats.induct)
  case (nothing c g)
  then have "p = []" "k = []" by simp_all
  then show ?case using eats.nothing by blast
next
  case (pass q c g d h b k' c' g')
  show ?case
  proof (cases p)
    case Nil
    with pass(6) have "eats k c g c' g'" using eats.pass [OF pass(1-3)] by simp
    with Nil show ?thesis using eats.nothing by blast
  next
    case (Cons x p')
    with pass(6) have x: "x = Loop b q" "k' = p' @ k" by simp_all
    with pass(5) [of p] Cons obtain d1 h1 where "eats p d h d1 h1" "eats k d1 h1 c' g'" by auto
    with pass(1,2) Cons x show ?thesis by (blast intro: eats.pass)
  qed
next
  case (again c n b q k' g c' g')
  show ?case
  proof (cases p)
    case Nil
    with again(4) have "eats k c g c' g'" using eats.again [OF again(1,2)] by simp
    with Nil show ?thesis using eats.nothing by blast
  next
    case (Cons x p')
    with again(4) have x: "x = Again n b q" "k' = p' @ k" by simp_all
    with again(3) [of "Loop b q # p'"] obtain d1 h1 where "eats (Loop b q # p') c g d1 h1" "eats k d1 h1 c' g'" by auto
    with again(1) Cons x show ?thesis by (blast intro: eats.again)
  qed
qed (auto simp: Cons_eq_append_conv, (blast intro: eats.intros)+)

lemma eats_append_iff: "eats (p @ k) c g c' g' \<longleftrightarrow> (\<exists>d h. eats p c g d h \<and> eats k d h c' g')"
  using eats_split eats_append by blast

text \<open>The matcher finds a match if and only if there is one.\<close>

lemma run_sound: "run k c g = Some (c', g') \<Longrightarrow> eats k c g c' g'"
proof (induction k c g arbitrary: c' g' rule: run.induct)
  case (6 i p k c g)
  then obtain d h where "eats p c g d h" "eats (Close i (behind c) # k) d h c' g'" by (auto simp: eats_append_iff)
  then show ?case by (auto intro: eats.group elim: eats_CloseE)
next
  case (8 p q k c g)
  then show ?case
    by (cases "run (p @ k) c g") (auto simp: eats_append_iff intro: eats.alt_left eats.alt_right)
next
  case (9 b p k c g)
  have turn: "eats (Loop b p # k) c g c' g'" if "eats (p @ Again (length (behind c)) b p # k) c g c' g'"
    using that by (auto simp: eats_append_iff elim!: eats_AgainE intro: eats.pass)
  show ?case
  proof (cases "run k c g = Some (c', g')")
    case True
    with 9 have "eats k c g c' g' \<or> eats (p @ Again (length (behind c)) b p # k) c g c' g'"
      by (cases b) (auto split: option.splits)
    then show ?thesis using eats.leave turn by blast
  next
    case False
    with 9 have "eats (p @ Again (length (behind c)) b p # k) c g c' g' \<or> eats k c g c' g'"
      by (cases b) (auto split: option.splits)
    then show ?thesis using eats.leave turn by blast
  qed
qed (auto split: option.splits if_splits intro: eats.intros)

lemma run_complete: "eats k c g c' g' \<Longrightarrow> run k c g \<noteq> None"
proof (induction k c g arbitrary: c' g' rule: run.induct)
  case (2 C k c g)
  from 2(2) obtain r d where d: "advance c = Some (r, d)" "C r" "eats k d g c' g'" by (elim eats_RuneE)
  from 2(1) [OF d(1) refl d(2,3)] d(1,2) show ?case by simp
next
  case (6 i p k c g)
  then have "eats (p @ Close i (behind c) # k) c g c' g'"
    by (auto elim!: eats_GroupE simp: eats_append_iff intro: eats.close)
  with 6 show ?case by auto
next
  case (8 p q k c g)
  from 8(3) have "eats (p @ k) c g c' g' \<or> eats (q @ k) c g c' g'" by (auto elim!: eats_AltE simp: eats_append_iff)
  then show ?case
  proof
    assume "eats (p @ k) c g c' g'"
    from 8(1) [OF this] show ?case by auto
  next
    assume "eats (q @ k) c g c' g'"
    with 8(2) show ?case by (cases "run (p @ k) c g") auto
  qed
next
  case (9 b p k c g)
  from 9(5) have "eats k c g c' g' \<or> eats (p @ Again (length (behind c)) b p # k) c g c' g'"
    by (rule eats_LoopE) (blast, blast intro: eats_append [OF _ eats.again])
  then show ?case
  proof
    assume e: "eats k c g c' g'"
    show ?case using 9(2) [OF _ _ e] 9(3) [OF _ e]
      by (cases b; cases "run (p @ Again (length (behind c)) b p # k) c g") auto
  next
    assume e: "eats (p @ Again (length (behind c)) b p # k) c g c' g'"
    show ?case using 9(1) [OF _ e] 9(4) [OF _ _ e] by (cases b; cases "run k c g") auto
  qed
qed (auto elim: eats_BeginE eats_FinishE eats_EdgeE eats_CloseE eats_AgainE)

lemma find_at_sound: "find_at p c = Some (a, b, g) \<Longrightarrow> eats p a [] b g"
proof (induction p c rule: find_at.induct)
  case (1 p c)
  show ?case
  proof (cases "run p c []")
    case None
    with 1(2) obtain r d where d: "advance c = Some (r, d)" "find_at p d = Some (a, b, g)"
      by (subst (asm) find_at.simps) (auto split: option.splits)
    show ?thesis by (rule 1(1) [OF None d(1) refl d(2)])
  next
    case (Some m)
    with 1(2) show ?thesis by (subst (asm) find_at.simps) (auto split: prod.splits intro: run_sound)
  qed
qed

lemma find_at_complete: "eats p c [] c' g \<Longrightarrow> find_at p c \<noteq> None"
  using run_complete [of p c "[]" c' g] by (subst find_at.simps) (auto split: option.splits)


subsection \<open>The text of a match\<close>

text \<open>
  A text all of whose characters satisfy \<open>P\<close>: so do its ASCII bytes, and it has no others when \<open>P\<close> admits
  ASCII only.
\<close>

definition spelled :: "(nat \<Rightarrow> bool) \<Rightarrow> string \<Rightarrow> bool" where
  "spelled P w \<longleftrightarrow> (\<forall>x \<in> set w. (code x :: nat) < 128 \<longrightarrow> P (code x)) \<and>
     ((\<forall>r. P r \<longrightarrow> r < 128) \<longrightarrow> (\<forall>x \<in> set w. (code x :: nat) < 128))"

lemma spelled_simps [simp]: "spelled P []" "spelled P (u @ w) \<longleftrightarrow> spelled P u \<and> spelled P w"
  by (auto simp: spelled_def)

lemma spelled_ascii: "spelled P w \<Longrightarrow> (\<And>r. P r \<Longrightarrow> r < 128) \<Longrightarrow> x \<in> set w \<Longrightarrow> P (code x)"
  by (auto simp: spelled_def)

lemma front_one: "utf8_front s = 1 \<Longrightarrow> byte_in (hd s) 0 127"
  by (cases s; cases "tl s"; cases "tl (tl s)"; cases "tl (tl (tl s))") (simp_all add: utf8_front_def split: if_splits)

lemma front_zero: "s \<noteq> [] \<Longrightarrow> utf8_front s = 0 \<Longrightarrow> \<not> byte_in (hd s) 0 127"
  by (cases s; cases "tl s"; cases "tl (tl s)"; cases "tl (tl (tl s))") (simp_all add: utf8_front_def split: if_splits)

lemma front_low:
  assumes "s \<noteq> []" and "utf8_front s \<le> 1"
  shows "utf8_front s = 1 \<and> (code (hd s) :: nat) < 128 \<or> utf8_front s = 0 \<and> 128 \<le> (code (hd s) :: nat)"
proof (cases "utf8_front s = 1")
  case True
  with front_one [of s] show ?thesis by (simp add: byte_in_def)
next
  case False
  with assms front_zero [of s] show ?thesis by (simp add: byte_in_def)
qed

lemma front_two: "utf8_front s = 2 \<Longrightarrow> \<exists>a b t. s = a # b # t \<and> byte_in a 194 223 \<and> cont_byte b"
  by (cases s; cases "tl s"; cases "tl (tl s)"; cases "tl (tl (tl s))") (simp_all add: utf8_front_def split: if_splits)

lemma front_three:
  "utf8_front s = 3 \<Longrightarrow> \<exists>a b c t. s = a # b # c # t \<and> cont_byte c \<and>
     (a = byte 224 \<and> byte_in b 160 191 \<or> byte_in a 225 236 \<and> cont_byte b \<or> a = byte 237 \<and> byte_in b 128 159 \<or> byte_in a 238 239 \<and> cont_byte b)"
  by (cases s; cases "tl s"; cases "tl (tl s)"; cases "tl (tl (tl s))") (simp_all add: utf8_front_def split: if_splits)

lemma front_four:
  "utf8_front s = 4 \<Longrightarrow> \<exists>a b c d t. s = a # b # c # d # t \<and> cont_byte c \<and> cont_byte d \<and>
     (a = byte 240 \<and> byte_in b 144 191 \<or> byte_in a 241 243 \<and> cont_byte b \<or> a = byte 244 \<and> byte_in b 128 143)"
  by (cases s; cases "tl s"; cases "tl (tl s)"; cases "tl (tl (tl s))") (simp_all add: utf8_front_def split: if_splits)

lemma front_value: "utf8_front s \<in> {0, 1, 2, 3, 4}"
  by (cases s; cases "tl s"; cases "tl (tl s)"; cases "tl (tl (tl s))") (simp_all add: utf8_front_def)

lemma mod_in_block: "k * n \<le> x \<Longrightarrow> x < k * n + n \<Longrightarrow> x mod n = x - k * n" for x :: nat
  by (metis le_add_diff_inverse mod_less mod_mult_self3 nat_add_left_cancel_less)

text \<open>All bytes of a longer character are high, and so is its number.\<close>

lemma front_high:
  assumes "2 \<le> utf8_front s"
  shows "\<forall>x \<in> set (take (utf8_front s) s). 128 \<le> (code x :: nat)" and "128 \<le> rune_at s"
proof -
  have b: "160 \<le> x \<Longrightarrow> x \<le> 191 \<Longrightarrow> 32 \<le> x mod 64" for x :: nat using mod_in_block [of 2 64 x] by simp
  have d: "144 \<le> x \<Longrightarrow> x \<le> 191 \<Longrightarrow> 16 \<le> x mod 64" for x :: nat using mod_in_block [of 2 64 x] by simp
  consider "utf8_front s = 2" | "utf8_front s = 3" | "utf8_front s = 4" using front_value [of s] assms by auto
  then have "(\<forall>x \<in> set (take (utf8_front s) s). 128 \<le> (code x :: nat)) \<and> 128 \<le> rune_at s"
  proof cases
    case 1
    from front_two [OF 1] obtain a b' t where s: "s = a # b' # t" "byte_in a 194 223" "cont_byte b'" by blast
    have a: "194 \<le> (code a :: nat)" "(code a :: nat) \<le> 223" "128 \<le> (code b' :: nat)" using s(2,3) by (simp_all add: byte_in_def cont_byte_def)
    then have "2 \<le> (code a :: nat) mod 32" using mod_in_block [of 6 32 "code a"] by simp
    with s(1) 1 a show ?thesis by (simp add: rune_at_def)
  next
    case 2
    from front_three [OF 2] obtain a b' c t where s: "s = a # b' # c # t" "cont_byte c"
      "a = byte 224 \<and> byte_in b' 160 191 \<or> byte_in a 225 236 \<and> cont_byte b' \<or> a = byte 237 \<and> byte_in b' 128 159 \<or> byte_in a 238 239 \<and> cont_byte b'"
      by blast
    from s(3) have a: "224 \<le> (code a :: nat)" "(code a :: nat) \<le> 239" "128 \<le> (code b' :: nat)"
      by (auto simp: byte_in_def cont_byte_def)
    from s(3) have "32 \<le> (code b' :: nat) mod 64 \<or> 225 \<le> (code a :: nat)" using b by (auto simp: byte_in_def cont_byte_def)
    moreover have "225 \<le> (code a :: nat) \<Longrightarrow> 1 \<le> (code a :: nat) mod 16" using a(2) mod_in_block [of 14 16 "code a"] by simp
    ultimately have "32 \<le> (code b' :: nat) mod 64 \<or> 1 \<le> (code a :: nat) mod 16" by blast
    then have "2 \<le> (code a mod 16) * 64 + (code b' :: nat) mod 64" by linarith
    with s(1,2) 2 a show ?thesis by (simp add: rune_at_def cont_byte_def)
  next
    case 3
    from front_four [OF 3] obtain a b' c e t where s: "s = a # b' # c # e # t" "cont_byte c" "cont_byte e"
      "a = byte 240 \<and> byte_in b' 144 191 \<or> byte_in a 241 243 \<and> cont_byte b' \<or> a = byte 244 \<and> byte_in b' 128 143"
      by blast
    from s(4) have a: "240 \<le> (code a :: nat)" "(code a :: nat) \<le> 244" "128 \<le> (code b' :: nat)"
      by (auto simp: byte_in_def cont_byte_def)
    from s(4) have "16 \<le> (code b' :: nat) mod 64 \<or> 241 \<le> (code a :: nat)" using d by (auto simp: byte_in_def cont_byte_def)
    moreover have "241 \<le> (code a :: nat) \<Longrightarrow> 1 \<le> (code a :: nat) mod 8" using a(2) mod_in_block [of 30 8 "code a"] by simp
    ultimately have "16 \<le> (code b' :: nat) mod 64 \<or> 1 \<le> (code a :: nat) mod 8" by blast
    then have "1 \<le> (code a mod 8) * 64 + (code b' :: nat) mod 64" by linarith
    with s(1-3) 3 a show ?thesis by (simp add: rune_at_def cont_byte_def)
  qed
  then show "\<forall>x \<in> set (take (utf8_front s) s). 128 \<le> (code x :: nat)" and "128 \<le> rune_at s" by blast+
qed

lemma rune_at_low: "s \<noteq> [] \<Longrightarrow> utf8_front s = 1 \<Longrightarrow> rune_at s = code (hd s)"
  by (cases s) (simp_all add: rune_at_def)

lemma rune_at_bad: "utf8_front s = 0 \<Longrightarrow> rune_at s = 65533"
  by (simp add: rune_at_def)

text \<open>One character read.\<close>

lemma advance_text:
  assumes "advance c = Some (r, d)"
  obtains w where "behind c = w @ behind d" and "w \<noteq> []" and "\<And>P. P r \<Longrightarrow> spelled P w" and "r < 128 \<Longrightarrow> length w = 1"
    and "before d = Some r"
proof -
  let ?s = "behind c" and ?n = "utf8_front (behind c)"
  have s: "?s \<noteq> []" and r: "r = rune_at ?s" and d: "behind d = drop (max 1 ?n) ?s" "before d = Some r"
    using assms by (auto simp: advance_def split: if_splits)
  show thesis
  proof (cases "2 \<le> ?n")
    case True
    have high: "128 \<le> r" using front_high(2) [OF True] r by simp
    show thesis
    proof (rule that [of "take ?n ?s"])
      show "?s = take ?n ?s @ behind d" using True d(1) by (simp add: max_def)
      show "take ?n ?s \<noteq> []" using True s by simp
      show "spelled P (take ?n ?s)" if "P r" for P
        using front_high(1) [OF True] that high unfolding spelled_def by force
    qed (use high d(2) in simp_all)
  next
    case False
    then have low: "?n = 1 \<and> (code (hd ?s) :: nat) < 128 \<or> ?n = 0 \<and> 128 \<le> (code (hd ?s) :: nat)"
      using front_low [OF s] by simp
    have r': "(code (hd ?s) :: nat) < 128 \<Longrightarrow> r = code (hd ?s)" "128 \<le> (code (hd ?s) :: nat) \<Longrightarrow> 128 \<le> r"
      using low rune_at_low [OF s] rune_at_bad [of ?s] r by auto
    show thesis
    proof (rule that [of "[hd ?s]"])
      show "?s = [hd ?s] @ behind d" using low d(1) s by (cases ?s) auto
      show "spelled P [hd ?s]" if "P r" for P using r' that unfolding spelled_def by (cases "(code (hd ?s) :: nat) < 128") force+
    qed (use d(2) in simp_all)
  qed
qed

lemma taken_append [simp]: "taken (w @ behind d) d = w"
  by (simp add: taken_def)

fun all_runes :: "(nat \<Rightarrow> bool) \<Rightarrow> re \<Rightarrow> bool" where
  "all_runes P (Rune C) \<longleftrightarrow> (\<forall>r. C r \<longrightarrow> P r)"
| "all_runes P (Group i p) \<longleftrightarrow> list_all (all_runes P) p"
| "all_runes P (Alt p q) \<longleftrightarrow> list_all (all_runes P) p \<and> list_all (all_runes P) q"
| "all_runes P (Loop b p) \<longleftrightarrow> list_all (all_runes P) p"
| "all_runes P (Again n b p) \<longleftrightarrow> list_all (all_runes P) p"
| "all_runes P _ \<longleftrightarrow> True"

lemma eats_spelled:
  "eats p c g d h \<Longrightarrow> list_all (all_runes P) p \<Longrightarrow> \<exists>w. behind c = w @ behind d \<and> spelled P w"
proof (induction rule: eats.induct)
  case (rune c r d C k g c' g')
  from rune.hyps(1) obtain w where "behind c = w @ behind d" "P r \<Longrightarrow> spelled P w" by (rule advance_text) metis
  with rune show ?case by auto
qed fastforce+

lemma all_runes_True: "list_all (all_runes (\<lambda>_. True)) p"
proof -
  have "all_runes (\<lambda>_. True) x" for x by (induction x) (auto simp: list_all_iff)
  then show ?thesis by (simp add: list_all_iff)
qed

lemma eats_behind: "eats p c g d h \<Longrightarrow> behind c = taken (behind c) d @ behind d"
  using eats_spelled [OF _ all_runes_True] by fastforce

lemma eats_text: "eats p c g d h \<Longrightarrow> list_all (all_runes P) p \<Longrightarrow> spelled P (taken (behind c) d)"
  by (metis eats_spelled taken_append)

text \<open>A pattern of single ASCII characters has matches of its own length.\<close>

lemma eats_exact:
  "eats p c g d h \<Longrightarrow> (\<And>x. x \<in> set p \<Longrightarrow> \<exists>C. x = Rune C \<and> (\<forall>r. C r \<longrightarrow> r < 128)) \<Longrightarrow>
     length (taken (behind c) d) = length p"
proof (induction rule: eats.induct)
  case (nothing c g)
  then show ?case by (simp add: taken_def)
next
  case (rune c r d C k g c' g')
  then have "r < 128" by auto
  obtain w where w: "behind c = w @ behind d" "length w = 1"
    by (rule advance_text [OF rune.hyps(1)]) (use \<open>r < 128\<close> in metis)
  have "behind d = taken (behind d) c' @ behind c'" by (rule eats_behind [OF rune.hyps(3)])
  with w have "taken (behind c) c' = w @ taken (behind d) c'" by (metis append.assoc taken_append)
  with w(2) rune show ?case by auto
qed fastforce+


subsection \<open>The groups of a match\<close>

fun groups_ok :: "nat \<Rightarrow> (string \<Rightarrow> bool) \<Rightarrow> re \<Rightarrow> bool" where
  "groups_ok i Q (Group j p) \<longleftrightarrow> (i = j \<longrightarrow> (\<forall>c g d h. eats p c g d h \<longrightarrow> Q (taken (behind c) d))) \<and> list_all (groups_ok i Q) p"
| "groups_ok i Q (Alt p q) \<longleftrightarrow> list_all (groups_ok i Q) p \<and> list_all (groups_ok i Q) q"
| "groups_ok i Q (Loop b p) \<longleftrightarrow> list_all (groups_ok i Q) p"
| "groups_ok i Q (Again n b p) \<longleftrightarrow> list_all (groups_ok i Q) p"
| "groups_ok i Q (Close j s) \<longleftrightarrow> False"
| "groups_ok i Q _ \<longleftrightarrow> True"

lemma eats_groups:
  "eats p c g d h \<Longrightarrow> list_all (groups_ok i Q) p \<Longrightarrow> (i, u) \<in> set h \<Longrightarrow> (i, u) \<in> set g \<or> Q u"
  by (induction rule: eats.induct) (fastforce)+

lemma eats_grow: "eats p c g d h \<Longrightarrow> set g \<subseteq> set h"
  by (induction rule: eats.induct) auto

lemma eats_has_group: "eats p c g d h \<Longrightarrow> Group i q \<in> set p \<Longrightarrow> \<exists>u. (i, u) \<in> set h"
proof (induction rule: eats.induct)
  case (group p c g d h k i' c' g')
  from eats_grow [OF group.hyps(2)] group show ?case by auto
qed auto

lemma group_of_in: "\<exists>u. (i, u) \<in> set g \<Longrightarrow> (i, group_of g i) \<in> set g"
proof -
  assume "\<exists>u. (i, u) \<in> set g"
  then have "i \<in> fst ` set g" by force
  then obtain u where "map_of g i = Some u" by (metis map_of_eq_None_iff not_Some_eq)
  then show ?thesis by (simp add: group_of_def map_of_SomeD)
qed

text \<open>What a group of a found match holds.\<close>

lemma find_group:
  assumes "find_at p c = Some m" and "list_all (groups_ok i Q) p" and "Group i q \<in> set p" and "i \<noteq> 0"
  shows "Q (submatch m i)"
proof -
  obtain a b g where m: "m = (a, b, g)" by (cases m)
  have e: "eats p a [] b g" using assms(1) m find_at_sound by blast
  have "(i, group_of g i) \<in> set g" by (rule group_of_in [OF eats_has_group [OF e assms(3)]])
  with eats_groups [OF e assms(2)] m assms(4) show ?thesis by (auto simp: submatch_def)
qed

lemma FindStringSubmatch_group:
  "FindStringSubmatch p s = Some f \<Longrightarrow> list_all (groups_ok i Q) p \<Longrightarrow> Group i q \<in> set p \<Longrightarrow> i \<noteq> 0 \<Longrightarrow> Q (f i)"
  by (auto simp: FindStringSubmatch_def dest: find_group)

lemma all_found_found: "m \<in> set (all_found p l c) \<Longrightarrow> \<exists>d. find_at p d = Some m"
proof (induction p l c rule: all_found.induct)
  case (1 p l c)
  show ?case
  proof (cases "find_at p c")
    case None
    with 1(3) show ?thesis by (subst (asm) all_found.simps) simp
  next
    case (Some x)
    obtain a b g where x: "x = (a, b, g)" by (cases x)
    note at = Some [unfolded x]
    show ?thesis
    proof (cases "length (behind b) < length (behind c)")
      case True
      with 1(3) at have "m = (a, b, g) \<or> m \<in> set (all_found p (Some (length (behind b))) b)"
        by (subst (asm) all_found.simps) simp
      then show ?thesis using at 1(1) [OF at refl refl True] by blast
    next
      case False
      then have "all_found p l c = (if l = Some (length (behind a)) then [] else [(a, b, g)]) @
          (case advance c of None \<Rightarrow> [] | Some (r, d) \<Rightarrow> all_found p (Some (length (behind b))) d)"
        using at by (subst all_found.simps) simp
      with 1(3) consider "m = (a, b, g)" | r d where "advance c = Some (r, d)" "m \<in> set (all_found p (Some (length (behind b))) d)"
        by (auto split: option.splits if_splits)
      then show ?thesis
      proof cases
        case 1
        with at show ?thesis by blast
      next
        case 2
        from "1"(2) [OF at refl refl False 2(1) refl 2(2)] show ?thesis .
      qed
    qed
  qed
qed

lemma FindAllStringSubmatch_group:
  "f \<in> set (FindAllStringSubmatch p s) \<Longrightarrow> list_all (groups_ok i Q) p \<Longrightarrow> Group i q \<in> set p \<Longrightarrow> i \<noteq> 0 \<Longrightarrow> Q (f i)"
  by (auto simp: FindAllStringSubmatch_def dest!: all_found_found dest: find_group)

text \<open>Atoms hold no group, and the pattern builders keep what holds of their parts.\<close>

lemma groups_ok_atoms [simp]:
  "list_all (groups_ok i Q) (lit s)" "list_all (groups_ok i Q) dq" "list_all (groups_ok i Q) (one s)"
  "list_all (groups_ok i Q) (but s)" "list_all (groups_ok i Q) unquoted" "list_all (groups_ok i Q) (between a b)"
  "list_all (groups_ok i Q) decimal" "list_all (groups_ok i Q) blank" "list_all (groups_ok i Q) rune"
  by (simp_all add: lit_def dq_def one_def but_def unquoted_def between_def decimal_def blank_def rune_def list_all_iff)

lemma groups_ok_builders [simp]:
  "list_all (groups_ok i Q) (many p) \<longleftrightarrow> list_all (groups_ok i Q) p"
  "list_all (groups_ok i Q) (few p) \<longleftrightarrow> list_all (groups_ok i Q) p"
  "list_all (groups_ok i Q) (some_of p) \<longleftrightarrow> list_all (groups_ok i Q) p"
  "list_all (groups_ok i Q) (opt p) \<longleftrightarrow> list_all (groups_ok i Q) p"
  "list_all (groups_ok i Q) p \<Longrightarrow> list_all (groups_ok i Q) (times n p)"
  by (auto simp: many_def few_def some_of_def opt_def times_def list_all_iff)

lemma all_runes_builders [simp]:
  "list_all (all_runes P) (many p) \<longleftrightarrow> list_all (all_runes P) p"
  "list_all (all_runes P) (few p) \<longleftrightarrow> list_all (all_runes P) p"
  "list_all (all_runes P) (some_of p) \<longleftrightarrow> list_all (all_runes P) p"
  "list_all (all_runes P) (opt p) \<longleftrightarrow> list_all (all_runes P) p"
  "list_all (all_runes P) p \<Longrightarrow> list_all (all_runes P) (times n p)"
  by (auto simp: many_def few_def some_of_def opt_def times_def list_all_iff)

lemma caseless_simps [simp]:
  "caseless [] = []" "caseless (p @ q) = caseless p @ caseless q" "caseless (many p) = many (caseless p)"
  "caseless (few p) = few (caseless p)" "caseless (some_of p) = some_of (caseless p)" "caseless (opt p) = opt (caseless p)"
  "caseless (group i p) = group i (caseless p)" "caseless (times n p) = times n (caseless p)"
  by (simp_all add: caseless_def many_def few_def some_of_def opt_def group_def times_def map_concat)

lemma groups_ok_caseless [simp]:
  "list_all (groups_ok i Q) (caseless (lit s))" "list_all (groups_ok i Q) (caseless dq)"
  "list_all (groups_ok i Q) (caseless (one s))" "list_all (groups_ok i Q) (caseless (but s))"
  "list_all (groups_ok i Q) (caseless unquoted)" "list_all (groups_ok i Q) (caseless (between a b))"
  "list_all (groups_ok i Q) (caseless decimal)" "list_all (groups_ok i Q) (caseless blank)" "list_all (groups_ok i Q) (caseless rune)"
  by (simp_all add: caseless_def lit_def dq_def one_def but_def unquoted_def between_def decimal_def blank_def rune_def list_all_iff)

definition digit_rune :: "nat \<Rightarrow> bool" where
  "digit_rune r \<longleftrightarrow> 48 \<le> r \<and> r \<le> 57"

lemma all_runes_decimal [simp]:
  "list_all (all_runes digit_rune) decimal" "list_all (all_runes digit_rune) (caseless decimal)"
  by (auto simp: decimal_def between_def caseless_def digit_rune_def orbit_def split: if_splits)

lemma all_runes_but:
  assumes "\<not> (65 \<le> code x \<and> code x \<le> (90 :: nat)) \<and> \<not> (97 \<le> code x \<and> code x \<le> (122 :: nat))" and "x \<in> set s"
  shows "list_all (all_runes (\<lambda>r. r \<noteq> code x)) (but s)" and "list_all (all_runes (\<lambda>r. r \<noteq> code x)) (caseless (but s))"
proof -
  have less: "(code x :: nat) < 256" by simp
  have "(code x :: nat) \<noteq> 383" "(code x :: nat) \<noteq> 8490" using less by linarith+
  then have "orbit (code x) = [code x]" using assms(1) by (auto simp: orbit_def)
  then show "list_all (all_runes (\<lambda>r. r \<noteq> code x)) (but s)" and "list_all (all_runes (\<lambda>r. r \<noteq> code x)) (caseless (but s))"
    using assms(2) by (auto simp: but_def caseless_def list_ex_iff)
qed

lemma spelled_digits: "spelled digit_rune w \<longleftrightarrow> list_all is_digit w"
  by (auto simp: spelled_def digit_rune_def is_digit_def list_all_iff)

lemma spelled_without: "spelled (\<lambda>r. r \<noteq> code x) w \<Longrightarrow> (code x :: nat) < 128 \<Longrightarrow> x \<notin> set w"
  by (auto simp: spelled_def)

lemma group_item [simp]:
  "Group i p \<in> set (group i p)" "i \<noteq> j \<Longrightarrow> list_all (groups_ok i Q) (group j p) \<longleftrightarrow> list_all (groups_ok i Q) p"
  by (simp_all add: group_def)

lemma group_ok: "list_all (groups_ok i Q) (group i p) \<longleftrightarrow>
    (\<forall>c g d h. eats p c g d h \<longrightarrow> Q (taken (behind c) d)) \<and> list_all (groups_ok i Q) p"
  by (simp add: group_def)


subsection \<open>Anchored patterns\<close>

lemma find_at_start: "find_at p c = Some (a, b, g) \<Longrightarrow> before a = None \<Longrightarrow> before c = None \<Longrightarrow> a = c"
proof (induction p c rule: find_at.induct)
  case (1 p c)
  have later: "find_at p d = Some (a, b, g) \<Longrightarrow> before d \<noteq> None \<Longrightarrow> before a \<noteq> None" for d
  proof (induction p d rule: find_at.induct)
    case (1 p d)
    show ?case
    proof (cases "run p d []")
      case None
      with 1(2) obtain r e where e: "advance d = Some (r, e)" "find_at p e = Some (a, b, g)"
        by (subst (asm) find_at.simps) (auto split: option.splits)
      have "before e \<noteq> None" by (rule advance_text [OF e(1)]) simp
      with 1(1) [OF None e(1) refl e(2)] show ?thesis by blast
    next
      case (Some x)
      with 1(2,3) show ?thesis by (subst (asm) find_at.simps) (auto split: prod.splits)
    qed
  qed
  show ?case
  proof (cases "run p c []")
    case None
    with 1(2) obtain r d where d: "advance c = Some (r, d)" "find_at p d = Some (a, b, g)"
      by (subst (asm) find_at.simps) (auto split: option.splits)
    have "before d \<noteq> None" by (rule advance_text [OF d(1)]) simp
    with later [OF d(2)] 1(3) show ?thesis by blast
  next
    case (Some x)
    with 1(2) show ?thesis by (subst (asm) find_at.simps) (auto split: prod.splits)
  qed
qed

lemma eats_end: "eats (p @ [Finish]) c g d h \<longleftrightarrow> eats p c g d h \<and> behind d = []"
  by (auto simp: eats_append_iff intro: eats.intros elim: eats_FinishE eats_NilE)

text \<open>A pattern between \<open>^\<close> and \<open>$\<close> has to match the whole text.\<close>

lemma MatchString_anchored:
  "MatchString (Begin # p @ [Finish]) s \<longleftrightarrow> (\<exists>d h. eats p (At None s) [] d h \<and> behind d = [])"
proof
  assume "MatchString (Begin # p @ [Finish]) s"
  then obtain a b g where f: "find_at (Begin # p @ [Finish]) (At None s) = Some (a, b, g)"
    by (auto simp: MatchString_def)
  have e: "eats (Begin # p @ [Finish]) a [] b g" by (rule find_at_sound [OF f])
  then have "before a = None" and e': "eats (p @ [Finish]) a [] b g" by (auto elim: eats_BeginE)
  then have "a = At None s" using find_at_start [OF f] by simp
  with e' show "\<exists>d h. eats p (At None s) [] d h \<and> behind d = []" by (auto simp: eats_end)
next
  assume "\<exists>d h. eats p (At None s) [] d h \<and> behind d = []"
  then obtain d h where "eats (p @ [Finish]) (At None s) [] d h" by (auto simp: eats_end)
  then have "eats (Begin # p @ [Finish]) (At None s) [] d h" by (auto intro: eats.front)
  then show "MatchString (Begin # p @ [Finish]) s" unfolding MatchString_def by (rule find_at_complete)
qed

definition ascii_class :: "(nat \<Rightarrow> bool) \<Rightarrow> bool" where
  "ascii_class C \<longleftrightarrow> (\<forall>r. C r \<longrightarrow> r < 128)"

lemma front_ascii: "(code x :: nat) < 128 \<Longrightarrow> utf8_front (x # s) = 1"
  by (simp add: utf8_front_def byte_in_def)

lemma advance_Nil [simp]: "advance (At q []) = None"
  by (simp add: advance_def)

lemma advance_ascii: "(code x :: nat) < 128 \<Longrightarrow> advance (At q (x # s)) = Some (code x, At (Some (code x)) s)"
  by (simp add: advance_def front_ascii rune_at_def)

text \<open>Runs of one class of ASCII characters.\<close>

lemma eats_class:
  "ascii_class C \<Longrightarrow> list_all (\<lambda>x. C (code x)) u \<Longrightarrow> \<exists>q'. eats (times (length u) [Rune C]) (At q (u @ r)) g (At q' r) g"
proof (induction u arbitrary: q)
  case Nil
  then show ?case by (auto simp: times_def intro: eats.nothing)
next
  case (Cons x u)
  from Cons obtain q' where "eats (times (length u) [Rune C]) (At (Some (code x)) (u @ r)) g (At q' r) g" by fastforce
  moreover have "advance (At q (x # u @ r)) = Some (code x, At (Some (code x)) (u @ r))"
    using Cons.prems by (intro advance_ascii) (auto simp: ascii_class_def)
  ultimately show ?case using Cons.prems by (auto simp: times_def intro: eats.rune)
qed

lemma eats_many_class:
  "ascii_class C \<Longrightarrow> list_all (\<lambda>x. C (code x)) u \<Longrightarrow> \<exists>q'. eats (many [Rune C]) (At q (u @ r)) g (At q' r) g"
proof (induction u arbitrary: q)
  case Nil
  then show ?case by (auto simp: many_def intro: eats.leave eats.nothing)
next
  case (Cons x u)
  from Cons obtain q' where m: "eats [Loop True [Rune C]] (At (Some (code x)) (u @ r)) g (At q' r) g" by (fastforce simp: many_def)
  have "advance (At q (x # u @ r)) = Some (code x, At (Some (code x)) (u @ r))"
    using Cons.prems by (intro advance_ascii) (auto simp: ascii_class_def)
  then have "eats [Rune C] (At q (x # u @ r)) g (At (Some (code x)) (u @ r)) g"
    using Cons.prems by (auto intro: eats.rune eats.nothing)
  from eats.pass [OF this _ m] show ?case by (auto simp: many_def)
qed

lemma ascii_spelled: "ascii_class C \<Longrightarrow> spelled C w \<longleftrightarrow> list_all (\<lambda>x. C (code x)) w"
  by (auto simp: spelled_def ascii_class_def list_all_iff)

lemma eats_whole: "eats p (At q s) g d h \<Longrightarrow> behind d = [] \<Longrightarrow> taken s d = s"
  using eats_behind [of p "At q s" g d h] by simp

lemma MatchString_times:
  assumes C: "ascii_class C"
  shows "MatchString (Begin # times n [Rune C] @ [Finish]) s \<longleftrightarrow> length s = n \<and> list_all (\<lambda>x. C (code x)) s"
proof
  assume "MatchString (Begin # times n [Rune C] @ [Finish]) s"
  then obtain d h where e: "eats (times n [Rune C]) (At None s) [] d h" "behind d = []" by (auto simp: MatchString_anchored)
  have "length (taken s d) = length (times n [Rune C])"
    using eats_exact [OF e(1)] C by (auto simp: times_def ascii_class_def)
  moreover have "spelled C (taken s d)" using eats_text [OF e(1), of C] by (auto simp: times_def list_all_iff)
  ultimately show "length s = n \<and> list_all (\<lambda>x. C (code x)) s"
    using eats_whole [OF e] ascii_spelled [OF C] by (auto simp: times_def length_concat sum_list_replicate)
next
  assume "length s = n \<and> list_all (\<lambda>x. C (code x)) s"
  with eats_class [OF C, of s None "[]" "[]"] show "MatchString (Begin # times n [Rune C] @ [Finish]) s"
    by (auto simp: MatchString_anchored)
qed

lemma MatchString_some:
  assumes C: "ascii_class C"
  shows "MatchString (Begin # some_of [Rune C] @ [Finish]) s \<longleftrightarrow> s \<noteq> [] \<and> list_all (\<lambda>x. C (code x)) s"
proof
  assume "MatchString (Begin # some_of [Rune C] @ [Finish]) s"
  then obtain d h where e: "eats (some_of [Rune C]) (At None s) [] d h" "behind d = []" by (auto simp: MatchString_anchored)
  have "spelled C (taken s d)" using eats_text [OF e(1), of C] by (auto simp: some_of_def many_def)
  moreover have "s \<noteq> []" using e(1) by (auto simp: some_of_def elim!: eats_RuneE)
  ultimately show "s \<noteq> [] \<and> list_all (\<lambda>x. C (code x)) s" using eats_whole [OF e] ascii_spelled [OF C] by simp
next
  assume s: "s \<noteq> [] \<and> list_all (\<lambda>x. C (code x)) s"
  then obtain x t where t: "s = x # t" "C (code x)" "list_all (\<lambda>x. C (code x)) t" by (cases s) auto
  obtain q' where "eats (many [Rune C]) (At (Some (code x)) t) [] (At q' []) []"
    using eats_many_class [OF C t(3), of "Some (code x)" "[]"] by auto
  moreover have "advance (At None s) = Some (code x, At (Some (code x)) t)"
    unfolding t(1) using C t(2) by (intro advance_ascii) (auto simp: ascii_class_def)
  ultimately have "eats (some_of [Rune C]) (At None s) [] (At q' []) []"
    using t(2) by (auto simp: some_of_def intro: eats.rune)
  then show "MatchString (Begin # some_of [Rune C] @ [Finish]) s" by (auto simp: MatchString_anchored)
qed

lemma MatchString_digits: "MatchString (Begin # some_of decimal @ [Finish]) s \<longleftrightarrow> s \<noteq> [] \<and> list_all is_digit s"
  using MatchString_some [of "\<lambda>r. code (CHR ''0'') \<le> r \<and> r \<le> code (CHR ''9'')" s]
  by (simp add: decimal_def between_def ascii_class_def is_digit_def list_all_iff)

subsection \<open>Evaluation on ASCII text\<close>

lemma run_ascii:
  "(code x :: nat) < 128 \<Longrightarrow> run (Rune C # k) (At q (x # s)) g = (if C (code x) then run k (At (Some (code x)) s) g else None)"
  by (simp add: advance_ascii)

lemma run_end: "run (Rune C # k) (At q []) g = None"
  by simp

lemma find_at_end: "find_at p (At q []) = (case run p (At q []) [] of Some (c', g) \<Rightarrow> Some (At q [], c', g) | None \<Rightarrow> None)"
  by (subst find_at.simps) (simp split: option.split)

lemma find_at_ascii:
  "(code x :: nat) < 128 \<Longrightarrow> find_at p (At q (x # s)) = (case run p (At q (x # s)) [] of
     Some (c', g) \<Rightarrow> Some (At q (x # s), c', g) | None \<Rightarrow> find_at p (At (Some (code x)) s))"
  by (subst find_at.simps) (simp add: advance_ascii split: option.split)

lemma all_found_eval:
  "all_found p l (At q s) = (case find_at p (At q s) of
     None \<Rightarrow> []
   | Some (a, b, g) \<Rightarrow>
       if length (behind b) < length s then (a, b, g) # all_found p (Some (length (behind b))) b
       else (if l = Some (length (behind a)) then [] else [(a, b, g)]) @
         (case advance (At q s) of None \<Rightarrow> [] | Some (r, d) \<Rightarrow> all_found p (Some (length (behind b))) d))"
  by (subst all_found.simps) (simp split: option.split)

lemmas regexp_eval = lit_def dq_def one_def but_def unquoted_def between_def decimal_def blank_def blank_rune_def rune_def
  many_def few_def some_of_def times_def opt_def group_def orbit_def caseless_def advance_ascii run_ascii run_end
  find_at_end find_at_ascii all_found_eval submatch_def whole_def group_of_def taken_def FindStringSubmatch_def
  FindAllStringSubmatch_def FindAllString_def MatchString_def ReplaceAllString_def ReplaceAllStringFunc_def
  at_edge_def word_rune_def rune_at_def front_ascii

end
