(* ===== verification/HtmlText.thy ===== *)
theory HtmlText
  imports SourceHttp GoRegexp
begin

text \<open>
  What the HTML adapters of \<open>internal/metadata/sources\<close> share: the query encoding, the first submatch of a
  pattern, the flattening of markup (tags, entities, white space) and the tag of a candidate. Each adapter has
  its own copy of these helpers; here the copies are instances of one definition.
\<close>

definition encodeQuery :: "string \<Rightarrow> string" where
  "encodeQuery q = ReplaceByte q (CHR '' '') (CHR ''+'')"

definition FirstSubmatch :: "re list \<Rightarrow> string \<Rightarrow> string" where
  "FirstSubmatch p s = (case FindStringSubmatch p s of None \<Rightarrow> [] | Some f \<Rightarrow> f 1)"

text \<open>A class of characters; any character but a newline; a quoted word; the rest of a tag; text up to a tag.\<close>

definition cls :: "(nat \<Rightarrow> bool) \<Rightarrow> re list" where "cls C = [Rune C]"

definition dot :: "re list" where "dot = but [CHR 0x0A]"

definition quoted :: "string \<Rightarrow> re list" where "quoted w = dq @ lit w @ dq"

definition to_end :: "re list" where "to_end = many (but ''>'') @ lit ''>''"

definition chars :: "re list" where "chars = some_of (but ''<'')"

definition colon_or_blank :: "re list" where "colon_or_blank = cls (\<lambda>r. r = code (CHR '':'') \<or> blank_rune r)"

definition year_digits :: "re list" where "year_digits = times 4 decimal"

text \<open>Characters by code point, one of several words, and a page count.\<close>

definition runes :: "nat list \<Rightarrow> re list" where "runes ns = map (\<lambda>n. Rune (\<lambda>r. r = n)) ns"

fun any_of :: "string list \<Rightarrow> re list" where
  "any_of [] = []"
| "any_of [w] = lit w"
| "any_of (w # ws) = [Alt (lit w) (any_of ws)]"

definition positive_number :: "string \<Rightarrow> int option" where
  "positive_number s = (if snd (Atoi s) \<and> fst (Atoi s) > 0 then Some (fst (Atoi s)) else None)"

text \<open>\<open>^(?:\d{9}[\dXx]|\d{13})$\<close>\<close>

definition isbn_pattern :: "re list" where
  "isbn_pattern = Begin # [Alt (times 9 decimal @ cls (\<lambda>r. 48 \<le> r \<and> r \<le> 57 \<or> r = 88 \<or> r = 120)) (times 13 decimal)] @ [Finish]"

text \<open>\<open>strings.Split\<close> with a longer separator.\<close>

function SplitOn :: "string \<Rightarrow> string \<Rightarrow> string list" where
  "SplitOn sep s = (if s = [] \<or> sep = [] then [s]
     else if prefix sep s then [] # SplitOn sep (drop (length sep) s)
     else (case SplitOn sep (tl s) of [] \<Rightarrow> [] | p # ps \<Rightarrow> (hd s # p) # ps))"
  by pat_completeness auto
termination
  by (relation "measure (\<lambda>(sep, s). length s)") auto

declare SplitOn.simps [simp del]

subsection \<open>Entities\<close>

text \<open>\<open>strings.NewReplacer\<close>: one pass from left to right; at each place the first pair that fits.\<close>

fun replacement :: "(string \<times> string) list \<Rightarrow> string \<Rightarrow> (string \<times> string) option" where
  "replacement [] s = None"
| "replacement ((old, new) # ps) s =
    (if old \<noteq> [] \<and> prefix old s then Some (new, drop (length old) s) else replacement ps s)"

lemma replacement_shorter: "replacement ps s = Some (t, r) \<Longrightarrow> length r < length s"
  by (induction ps s rule: replacement.induct) (auto split: if_splits simp: prefix_def)

function Replacer :: "(string \<times> string) list \<Rightarrow> string \<Rightarrow> string" where
  "Replacer ps [] = []"
| "Replacer ps (x # s) = (case replacement ps (x # s) of Some (t, r) \<Rightarrow> t @ Replacer ps r | None \<Rightarrow> x # Replacer ps s)"
  by pat_completeness auto
termination
  by (relation "measure (\<lambda>(ps, s). length s)") (auto dest: replacement_shorter)

definition named_entities :: "(string \<times> string) list" where
  "named_entities = [(''&nbsp;'', '' ''), (''&amp;'', ''&''), (''&quot;'', [CHR 0x22]), (''&apos;'', [CHR 0x27]),
     (''&#39;'', [CHR 0x27]), (''&lt;'', ''<''), (''&gt;'', ''>'')]"

text \<open>The conversion of a code point to a string; surrogates become U+FFFD.\<close>

definition rune_string :: "nat \<Rightarrow> string" where
  "rune_string n =
    (if n < 128 then [byte n]
     else if n < 2048 then [byte (192 + n div 64), byte (128 + n mod 64)]
     else if 55296 \<le> n \<and> n \<le> 57343 \<or> n > 1114111 then [byte 239, byte 191, byte 189]
     else if n < 65536 then [byte (224 + n div 4096), byte (128 + n div 64 mod 64), byte (128 + n mod 64)]
     else [byte (240 + n div 262144), byte (128 + n div 4096 mod 64), byte (128 + n div 64 mod 64), byte (128 + n mod 64)])"

definition numeric_entity :: "re list \<Rightarrow> string \<Rightarrow> string" where
  "numeric_entity p m = (case FindStringSubmatch p m of
     None \<Rightarrow> m
   | Some f \<Rightarrow> if \<not> snd (Atoi (f 1)) \<or> fst (Atoi (f 1)) \<le> 0 \<or> fst (Atoi (f 1)) > 1114111 then m
       else rune_string (nat (fst (Atoi (f 1)))))"

definition DecodeEntities :: "re list \<Rightarrow> string \<Rightarrow> string" where
  "DecodeEntities num s = ReplaceAllStringFunc num (Replacer named_entities s) (numeric_entity num)"

definition StripText :: "re list \<Rightarrow> (string \<Rightarrow> string) \<Rightarrow> re list \<Rightarrow> string \<Rightarrow> string" where
  "StripText tags decode ws s =
    (if s = [] then [] else TrimSpace (ReplaceAllString ws (decode (ReplaceAllString tags s '' '')) '' ''))"

definition tags_pattern :: "re list" where
  "tags_pattern = caseless (lit ''<'' @ some_of (but ''>'') @ lit ''>'')"

definition spaces_pattern :: "re list" where
  "spaces_pattern = some_of blank"

definition entity_pattern :: "re list" where
  "entity_pattern = lit ''&#'' @ group 1 (some_of decimal) @ lit '';''"

subsection \<open>Candidates\<close>

definition tag :: "string \<Rightarrow> string \<Rightarrow> raw_message \<Rightarrow> candidate \<Rightarrow> candidate" where
  "tag i region raw c = c\<lparr>c_source := i, c_region := region, c_raw := raw\<rparr>"

definition html_tagged :: "string \<Rightarrow> string \<Rightarrow> candidate \<Rightarrow> bool" where
  "html_tagged i g c \<longleftrightarrow> c_source c = i \<and> c_region c = g \<and> c_title c \<noteq> []"

lemma tag_fields [simp]:
  "c_source (tag i g r c) = i" "c_region (tag i g r c) = g" "c_raw (tag i g r c) = r" "c_title (tag i g r c) = c_title c"
  "c_external_id (tag i g r c) = c_external_id c" "c_published_at (tag i g r c) = c_published_at c"
  by (simp_all add: tag_def)

lemma html_tagged_tag [simp]: "html_tagged i g (tag i g r c) \<longleftrightarrow> c_title c \<noteq> []"
  by (simp add: html_tagged_def)

text \<open>The members of a list, each once, in the order of their first occurrence, without the empty one.\<close>

fun distinct_names :: "string list \<Rightarrow> string list \<Rightarrow> string list" where
  "distinct_names seen [] = []"
| "distinct_names seen (n # ns) = (if n = [] \<or> n \<in> set seen then distinct_names seen ns else n # distinct_names (n # seen) ns)"

lemma distinct_names_set: "set (distinct_names seen ns) = set ns - insert [] (set seen)"
  by (induction seen ns rule: distinct_names.induct) auto

lemma distinct_names_distinct: "distinct (distinct_names seen ns)"
  by (induction seen ns rule: distinct_names.induct) (auto simp: distinct_names_set)

subsection \<open>Shape of a scrape\<close>

text \<open>One page asked for, one candidate cut out of it.\<close>

definition page_get :: "source_env \<Rightarrow> string \<Rightarrow> (string \<Rightarrow> candidate option) \<Rightarrow> (source_error, candidate option) res" where
  "page_get E url parse = bind_res (GetJSON E url) (\<lambda>body. case parse body of None \<Rightarrow> Err SourceNotFound | Some c \<Rightarrow> Ok (Some c))"

text \<open>One page asked for, a list cut out of it; nothing is asked for a blank query.\<close>

definition page_search :: "source_env \<Rightarrow> (string \<Rightarrow> string) \<Rightarrow> (string \<Rightarrow> candidate list) \<Rightarrow> string \<Rightarrow> (source_error, candidate list) res" where
  "page_search E url parse query = (let q = TrimSpace query in
     if q = [] then Ok [] else not_found_empty (bind_res (GetJSON E (url q)) (\<lambda>body. Ok (parse body))))"

lemma page_get_Ok: "page_get E url parse = Ok (Some c) \<longleftrightarrow> (\<exists>body. GetJSON E url = Ok body \<and> parse body = Some c)"
  by (auto simp: page_get_def bind_res_Ok split: option.splits)

lemma page_search_Ok: "page_search E url parse query = Ok cs \<Longrightarrow> cs = [] \<or> (\<exists>q body. GetJSON E (url q) = Ok body \<and> cs = parse body)"
  by (auto simp: page_search_def Let_def not_found_empty_Ok bind_res_Ok split: if_splits)


subsection \<open>White space\<close>

text \<open>The reference for replacing every run of a class of ASCII characters by one text.\<close>

function collapse :: "(char \<Rightarrow> bool) \<Rightarrow> string \<Rightarrow> string \<Rightarrow> string" where
  "collapse B t [] = []"
| "collapse B t (x # s) = (if B x then t @ collapse B t (dropWhile B s) else x # collapse B t s)"
  by pat_completeness auto
termination
  by (relation "measure (\<lambda>(B, t, s). length s)") (auto simp: less_Suc_eq_le length_dropWhile_le)

lemma advance_class:
  assumes C: "ascii_class C" and a: "advance c = Some (r, d)"
  shows "\<exists>w. behind c = w @ behind d \<and> w \<noteq> [] \<and> (if C r then \<exists>x. w = [x] \<and> C (code x) else list_all (\<lambda>x. \<not> C (code x)) w)"
proof -
  obtain w where w: "behind c = w @ behind d" "w \<noteq> []" "spelled (\<lambda>n. n = r) w" "r < 128 \<Longrightarrow> length w = 1"
    by (rule advance_text [OF a]) auto
  show ?thesis
  proof (cases "r < 128")
    case True
    then obtain x where x: "w = [x]" using w(4) by (auto simp: length_Suc_conv)
    then have "(code x :: nat) = r" using w(3) True by (auto simp: spelled_def)
    with w(1) x show ?thesis by auto
  next
    case False
    then have "\<not> C r" using C by (auto simp: ascii_class_def)
    moreover have "\<not> C (code x)" if "x \<in> set w" for x
    proof
      assume "C (code x)"
      then have "(code x :: nat) < 128" using C by (simp add: ascii_class_def)
      then show False using w(3) that False by (auto simp: spelled_def)
    qed
    ultimately show ?thesis using w(1,2) by (auto simp: list_all_iff)
  qed
qed

lemma advance_None: "advance c = None \<longleftrightarrow> behind c = []"
  by (simp add: advance_def)

lemma run_loop_class:
  assumes C: "ascii_class C"
  shows "\<exists>q. run [Loop True [Rune C]] c g = Some (At q (dropWhile (\<lambda>x. C (code x)) (behind c)), g)"
proof (induction "length (behind c)" arbitrary: c rule: less_induct)
  case less
  show ?case
  proof (cases "advance c")
    case None
    then show ?thesis by (cases c) (auto simp: advance_None)
  next
    case (Some y)
    obtain r d where y: "y = (r, d)" by (cases y)
    note a = Some [unfolded y]
    obtain w where w: "behind c = w @ behind d" "w \<noteq> []" "if C r then \<exists>x. w = [x] \<and> C (code x) else list_all (\<lambda>x. \<not> C (code x)) w"
      using advance_class [OF C a] by blast
    show ?thesis
    proof (cases "C r")
      case True
      with w obtain x where x: "w = [x]" "C (code x)" by auto
      have "length (behind d) < length (behind c)" using w(1,2) by simp
      then obtain q where "run [Loop True [Rune C]] d g = Some (At q (dropWhile (\<lambda>x. C (code x)) (behind d)), g)"
        using less by blast
      with a True w(1) x show ?thesis by auto
    next
      case False
      then have "dropWhile (\<lambda>x. C (code x)) (behind c) = behind c" using w by (cases w) auto
      with a False show ?thesis by (cases c) auto
    qed
  qed
qed

lemma taken_dropWhile: "taken s (At q (dropWhile P s)) = takeWhile P s"
  by (metis taken_append takeWhile_dropWhile_id cursor.sel(2))

text \<open>The pattern finds the runs of the class.\<close>

lemma find_class:
  assumes C: "ascii_class C"
  defines "B \<equiv> \<lambda>x. C (code x)"
  shows "if \<exists>x \<in> set (behind c). B x
     then \<exists>q q'. find_at (some_of [Rune C]) c = Some (At q (dropWhile (\<lambda>x. \<not> B x) (behind c)),
       At q' (dropWhile B (dropWhile (\<lambda>x. \<not> B x) (behind c))), [])
     else find_at (some_of [Rune C]) c = None"
proof (induction "length (behind c)" arbitrary: c rule: less_induct)
  case less
  have p: "some_of [Rune C] = [Rune C, Loop True [Rune C]]" by (simp add: some_of_def many_def)
  show ?case
  proof (cases "advance c")
    case None
    then have "find_at (some_of [Rune C]) c = None" unfolding p by (subst find_at.simps) simp
    with None show ?thesis by (simp add: advance_None)
  next
    case (Some y)
    obtain r d where y: "y = (r, d)" by (cases y)
    note a = Some [unfolded y]
    obtain w where w: "behind c = w @ behind d" "w \<noteq> []" "if C r then \<exists>x. w = [x] \<and> C (code x) else list_all (\<lambda>x. \<not> C (code x)) w"
      using advance_class [OF C a] by blast
    show ?thesis
    proof (cases "C r")
      case True
      with w obtain x where x: "w = [x]" "B x" by (auto simp: B_def)
      obtain q where "run [Loop True [Rune C]] d [] = Some (At q (dropWhile B (behind d)), [])"
        using run_loop_class [OF C] unfolding B_def by blast
      then have "run (some_of [Rune C]) c [] = Some (At q (dropWhile B (behind d)), [])" using a True unfolding p by simp
      then have "find_at (some_of [Rune C]) c = Some (c, At q (dropWhile B (behind d)), [])" by (subst find_at.simps) simp
      moreover have "c = At (before c) (dropWhile (\<lambda>x. \<not> B x) (behind c))" using w(1) x by (cases c) auto
      ultimately show ?thesis using w(1) x by auto
    next
      case False
      then have n: "list_all (\<lambda>x. \<not> B x) w" using w(3) by (simp add: B_def)
      have "run (some_of [Rune C]) c [] = None" using a False unfolding p by simp
      then have f: "find_at (some_of [Rune C]) c = find_at (some_of [Rune C]) d" using a by (subst find_at.simps) simp
      have "length (behind d) < length (behind c)" using w(1,2) by simp
      then have i: "if \<exists>x \<in> set (behind d). B x
        then \<exists>q q'. find_at (some_of [Rune C]) d = Some (At q (dropWhile (\<lambda>x. \<not> B x) (behind d)),
          At q' (dropWhile B (dropWhile (\<lambda>x. \<not> B x) (behind d))), [])
        else find_at (some_of [Rune C]) d = None" by (rule less)
      have "(\<exists>x \<in> set (behind c). B x) = (\<exists>x \<in> set (behind d). B x)" using n w(1) by (auto simp: list_all_iff)
      moreover have "dropWhile (\<lambda>x. \<not> B x) (behind c) = dropWhile (\<lambda>x. \<not> B x) (behind d)"
        using n w(1) by (simp add: list_all_iff dropWhile_append)
      ultimately show ?thesis using i f by simp
    qed
  qed
qed

lemma collapse_step:
  "collapse B t s = takeWhile (\<lambda>x. \<not> B x) s @ (case dropWhile (\<lambda>x. \<not> B x) s of [] \<Rightarrow> [] | x # r \<Rightarrow> t @ collapse B t (dropWhile B r))"
  by (induction s) auto

lemma splice_class:
  assumes C: "ascii_class C"
  defines "B \<equiv> \<lambda>x. C (code x)"
  shows "splice (behind c) (all_found (some_of [Rune C]) l c) (\<lambda>_. t) = collapse B t (behind c)"
proof (induction "length (behind c)" arbitrary: c l rule: less_induct)
  case less
  let ?p = "some_of [Rune C]" and ?s = "behind c"
  show ?case
  proof (cases "\<exists>x \<in> set ?s. B x")
    case False
    then have "find_at ?p c = None" using find_class [OF C, of c] unfolding B_def by (simp split: if_splits)
    then have "all_found ?p l c = []" by (subst all_found.simps) simp
    have none: "takeWhile (\<lambda>x. \<not> B x) ?s = ?s" "dropWhile (\<lambda>x. \<not> B x) ?s = []"
      using False by (auto simp: takeWhile_eq_all_conv dropWhile_eq_Nil_conv)
    have "collapse B t ?s = ?s" using collapse_step [of B t ?s] unfolding none by simp
    with \<open>all_found ?p l c = []\<close> show ?thesis by simp
  next
    case True
    obtain q q' where f: "find_at ?p c = Some (At q (dropWhile (\<lambda>x. \<not> B x) ?s), At q' (dropWhile B (dropWhile (\<lambda>x. \<not> B x) ?s)), [])"
      using find_class [OF C, of c] True unfolding B_def by (auto split: if_splits)
    obtain x r where x: "dropWhile (\<lambda>x. \<not> B x) ?s = x # r" "B x"
      using True by (metis dropWhile_eq_Nil_conv hd_dropWhile list.collapse)
    have less': "length (dropWhile B r) < length ?s"
    proof -
      have "length (dropWhile B r) \<le> length r" by (rule length_dropWhile_le)
      also have "\<dots> < length (dropWhile (\<lambda>x. \<not> B x) ?s)" using x(1) by simp
      also have "\<dots> \<le> length ?s" by (rule length_dropWhile_le)
      finally show ?thesis .
    qed
    have "all_found ?p l c = (At q (x # r), At q' (dropWhile B r), []) # all_found ?p (Some (length (dropWhile B r))) (At q' (dropWhile B r))"
      using f x less' by (subst all_found.simps) simp
    moreover have "splice (dropWhile B r) (all_found ?p l' (At q' (dropWhile B r))) (\<lambda>_. t) = collapse B t (dropWhile B r)" for l'
      using less.hyps [of "At q' (dropWhile B r)" l'] less' by simp
    moreover have "taken ?s (At q (x # r)) = takeWhile (\<lambda>x. \<not> B x) ?s" using taken_dropWhile [of ?s q "\<lambda>x. \<not> B x"] x(1) by simp
    ultimately show ?thesis using x by (simp add: collapse_step [of B t ?s])
  qed
qed

lemma ReplaceAll_class:
  "ascii_class C \<Longrightarrow> ReplaceAllString (some_of [Rune C]) s t = collapse (\<lambda>x. C (code x)) t s"
  using splice_class [of C "At None s" None t] by (simp add: ReplaceAllString_def ReplaceAllStringFunc_def)


text \<open>A text on one line, without two spaces in a row.\<close>

definition blank_byte :: "char \<Rightarrow> bool" where
  "blank_byte x \<longleftrightarrow> blank_rune (code x)"

definition tidy :: "string \<Rightarrow> bool" where
  "tidy s \<longleftrightarrow> list_all (\<lambda>x. blank_byte x \<longrightarrow> x = CHR '' '') s \<and> successively (\<lambda>x y. \<not> (x = CHR '' '' \<and> y = CHR '' '')) s"

lemma tidy_Nil [simp]: "tidy []"
  by (simp add: tidy_def)

lemma tidy_sublist: "sublist t s \<Longrightarrow> tidy s \<Longrightarrow> tidy t"
  by (auto simp: tidy_def sublist_def successively_append_iff)

lemma tidy_Cons: "tidy (x # s) \<longleftrightarrow> (blank_byte x \<longrightarrow> x = CHR '' '') \<and> \<not> (x = CHR '' '' \<and> s \<noteq> [] \<and> hd s = CHR '' '') \<and> tidy s"
  by (cases s) (auto simp: tidy_def)

lemma blank_space [simp]: "blank_byte (CHR '' '')"
  by (simp add: blank_byte_def blank_rune_def)

lemma collapse_hd: "collapse B t s \<noteq> [] \<Longrightarrow> \<not> B (hd s) \<Longrightarrow> hd (collapse B t s) = hd s"
  by (cases s) auto

lemma tidy_collapse: "tidy (collapse blank_byte '' '' s)"
proof (induction "blank_byte" "'' ''" s rule: collapse.induct)
  case (2 x s)
  show ?case
  proof (cases "blank_byte x")
    case True
    let ?r = "dropWhile blank_byte s"
    have "collapse blank_byte '' '' ?r \<noteq> [] \<Longrightarrow> hd (collapse blank_byte '' '' ?r) \<noteq> CHR '' ''"
    proof -
      assume ne: "collapse blank_byte '' '' ?r \<noteq> []"
      then have "?r \<noteq> []" by (cases ?r) simp_all
      then have "\<not> blank_byte (hd ?r)" by (rule hd_dropWhile)
      with collapse_hd [OF ne] show "hd (collapse blank_byte '' '' ?r) \<noteq> CHR '' ''" by auto
    qed
    with 2(1) [OF True] True show ?thesis by (auto simp: tidy_Cons)
  next
    case False
    then have "x \<noteq> CHR '' ''" by auto
    with 2(2) [OF False] False show ?thesis by (simp add: tidy_Cons)
  qed
qed simp

lemma spaces_collapse: "ReplaceAllString spaces_pattern s '' '' = collapse blank_byte '' '' s"
proof -
  have "ascii_class blank_rune" by (simp add: ascii_class_def blank_rune_def)
  moreover have "blank_byte = (\<lambda>x. blank_rune (code x))" by (simp add: blank_byte_def fun_eq_iff)
  ultimately show ?thesis using ReplaceAll_class [of blank_rune s "'' ''"] by (simp add: spaces_pattern_def blank_def)
qed

lemma tidy_StripText: "tidy (StripText tags decode spaces_pattern s)"
  using tidy_sublist [OF TrimSpace_sublist tidy_collapse] by (simp add: StripText_def spaces_collapse)

lemma tidy_TrimSpace: "tidy s \<Longrightarrow> tidy (TrimSpace s)"
  using tidy_sublist TrimSpace_sublist by blast

lemma tidy_TrimSuffix: "tidy s \<Longrightarrow> tidy (TrimSuffix s t)"
  by (rule tidy_sublist) (auto simp: TrimSuffix_def)


subsection \<open>Numbers and identifiers cut out of a page\<close>

definition number :: "string \<Rightarrow> bool" where
  "number u \<longleftrightarrow> u \<noteq> [] \<and> list_all is_digit u"

definition four_digits :: "string \<Rightarrow> bool" where
  "four_digits u \<longleftrightarrow> length u = 4 \<and> list_all is_digit u"

lemma eats_Rune_text: "eats (Rune C # k) c g d h \<Longrightarrow> taken (behind c) d \<noteq> []"
proof -
  assume "eats (Rune C # k) c g d h"
  then obtain r e where e: "advance c = Some (r, e)" "eats k e g d h" by (elim eats_RuneE)
  obtain w where "behind c = w @ behind e" "w \<noteq> []" by (rule advance_text [OF e(1)]) auto
  moreover have "behind e = taken (behind e) d @ behind d" by (rule eats_behind [OF e(2)])
  ultimately show ?thesis by (metis append.assoc append_is_Nil_conv taken_append)
qed

lemma eats_some_text: "list_all (all_runes P) [Rune C] \<Longrightarrow> eats (some_of [Rune C]) c g d h \<Longrightarrow>
    taken (behind c) d \<noteq> [] \<and> spelled P (taken (behind c) d)"
  using eats_text [of "some_of [Rune C]" c g d h P] eats_Rune_text [of C "many [Rune C]" c g d h] by (simp add: some_of_def many_def)

lemma eats_times_text:
  assumes "ascii_class C" and "eats (times n [Rune C]) c g d h"
  shows "length (taken (behind c) d) = n \<and> list_all (\<lambda>x. C (code x)) (taken (behind c) d)"
proof -
  have "length (taken (behind c) d) = length (times n [Rune C])"
    using assms by (intro eats_exact) (auto simp: times_def ascii_class_def)
  moreover have "spelled C (taken (behind c) d)" using assms(2) by (rule eats_text) (simp add: times_def list_all_iff)
  ultimately show ?thesis using ascii_spelled [OF assms(1)] by (auto simp: times_def length_concat sum_list_replicate)
qed

text \<open>Groups of digits, in a pattern with and without the flag \<open>i\<close>.\<close>

lemma decimal_rune: "\<exists>C. decimal = [Rune C] \<and> (\<forall>r. C r = digit_rune r)" "\<exists>C. caseless decimal = [Rune C] \<and> (\<forall>r. C r = digit_rune r)"
  by (auto simp: decimal_def between_def caseless_def digit_rune_def orbit_def)

lemma digits_number:
  assumes "\<exists>C. p = [Rune C] \<and> (\<forall>r. C r = digit_rune r)" and "eats (some_of p) c g d h"
  shows "number (taken (behind c) d)"
proof -
  obtain C where C: "p = [Rune C]" "\<And>r. C r = digit_rune r" using assms(1) by blast
  have "taken (behind c) d \<noteq> [] \<and> spelled digit_rune (taken (behind c) d)"
    using assms(2) C by (intro eats_some_text) simp_all
  then show ?thesis by (simp add: number_def spelled_digits)
qed

lemma digits_year:
  assumes "\<exists>C. p = [Rune C] \<and> (\<forall>r. C r = digit_rune r)" and "eats (times 4 p) c g d h"
  shows "four_digits (taken (behind c) d)"
proof -
  obtain C where C: "p = [Rune C]" "\<And>r. C r = digit_rune r" using assms(1) by blast
  have "ascii_class C" using C(2) by (simp add: ascii_class_def digit_rune_def)
  from eats_times_text [OF this] assms(2) C(1)
  have "length (taken (behind c) d) = 4 \<and> list_all (\<lambda>x. C (code x)) (taken (behind c) d)" by blast
  then show ?thesis using C(2) by (simp add: four_digits_def digit_rune_def is_digit_def list_all_iff)
qed

lemma number_group [simp]:
  "list_all (groups_ok i number) (group i (some_of decimal))" "list_all (groups_ok i number) (group i (some_of (caseless decimal)))"
  using digits_number [OF decimal_rune(1)] digits_number [OF decimal_rune(2)] by (auto simp: group_ok)

lemma year_group [simp]:
  "list_all (groups_ok i four_digits) (group i year_digits)" "list_all (groups_ok i four_digits) (group i (caseless year_digits))"
  using digits_year [OF decimal_rune(1)] digits_year [OF decimal_rune(2)] by (auto simp: year_digits_def group_ok)

lemma groups_ok_shapes [simp]:
  "list_all (groups_ok i Q) (quoted w)" "list_all (groups_ok i Q) (caseless (quoted w))" "list_all (groups_ok i Q) to_end"
  "list_all (groups_ok i Q) (caseless to_end)" "list_all (groups_ok i Q) chars" "list_all (groups_ok i Q) (caseless chars)"
  by (simp_all add: quoted_def to_end_def chars_def)

lemma set_group [simp]: "set (group i p) = {Group i p}"
  by (simp add: group_def)

lemma FirstSubmatch_group:
  "list_all (groups_ok 1 Q) p \<Longrightarrow> Group 1 q \<in> set p \<Longrightarrow> FirstSubmatch p s = [] \<or> Q (FirstSubmatch p s)"
  using FindStringSubmatch_group [of p s _ 1 Q q] by (auto simp: FirstSubmatch_def split: option.split)

text \<open>Identifiers made of letters and digits stay as they are.\<close>

lemma plain_alnum: "alnum x \<Longrightarrow> plain x"
  by (auto simp: alnum_def plain_def ascii_space_def is_digit_def is_upper_def is_lower_def)

lemma TrimSpace_alnum: "list_all alnum s \<Longrightarrow> TrimSpace s = s"
  by (cases "s = []") (auto simp: list_all_iff intro!: TrimSpace_plain plain_alnum)

lemma number_alnum: "number s \<Longrightarrow> list_all alnum s"
  by (auto simp: number_def list_all_iff alnum_def)

subsection \<open>The page a Get asks for\<close>

text \<open>A result that is decided by the answer to one URL.\<close>

definition asks :: "source_env \<Rightarrow> string \<Rightarrow> (source_error, candidate option) res \<Rightarrow> bool" where
  "asks E url r \<longleftrightarrow> (case GetJSON E url of Inl e \<Rightarrow> r = Err e | Inr body \<Rightarrow> r = Err SourceNotFound \<or> (\<exists>c. r = Ok (Some c)))"

lemma page_get_asks: "asks E url (page_get E url parse)"
  by (auto simp: asks_def page_get_def bind_res_def split: sum.split option.split)

end
