(* ===== verification/Goodreads.thy ===== *)
theory Goodreads
  imports HtmlText
begin

text \<open>
  \<open>goodreads.go\<close>: a book page is read from its JSON-LD block, else from the \<open>__NEXT_DATA__\<close> tree; a
  search page by patterns. \<open>ord\<close> is the order in which Go ranges over a map, \<open>fl\<close> the reading of a JSON
  number as a \<open>float64\<close>, a fraction with a positive denominator.
\<close>

definition goodreadsID :: string where "goodreadsID = ''goodreads''"

definition grMaxResults :: nat where "grMaxResults = 10"

definition numericRE :: "re list" where
  "numericRE = Begin # some_of decimal @ [Finish]"

definition grSearchRowRE :: "re list" where
  "grSearchRowRE = caseless (lit ''href='' @ dq @ lit ''/book/show/'' @ group 1 (some_of decimal) @ many unquoted @ dq @ to_end @
     many blank @ lit ''<span'' @ many (but ''>'') @ lit ''itemprop='' @ quoted ''name'' @ to_end @ group 2 chars @ lit ''</span>'')"

definition grAuthorRE :: "re list" where
  "grAuthorRE = caseless (lit ''class='' @ quoted ''authorName'' @ to_end @ many (but ''<'') @ lit ''<span'' @ many (but ''>'') @
     lit ''itemprop='' @ quoted ''name'' @ to_end @ group 1 chars @ lit ''</span>'')"

definition grCoverRE :: "re list" where
  "grCoverRE = caseless (lit ''<img'' @ many (but ''>'') @ lit ''class='' @ quoted ''bookCover'' @ many (but ''>'') @ lit ''src='' @
     dq @ group 1 (some_of unquoted) @ dq)"

definition grJSONLDRE :: "re list" where
  "grJSONLDRE = caseless (lit ''<script'' @ many (but ''>'') @ lit ''type='' @ quoted ''application/ld+json'' @ to_end @
     group 1 (few rune) @ lit ''</script>'')"

definition grNextDataRE :: "re list" where
  "grNextDataRE = caseless (lit ''<script'' @ many (but ''>'') @ lit ''id='' @ quoted ''__NEXT_DATA__'' @ to_end @
     group 1 (few rune) @ lit ''</script>'')"

subsection \<open>JSON-LD\<close>

text \<open>A Go map from a JSON object: of members with one name the last.\<close>

type_synonym json_map = "(string \<times> json) list"

definition object_map :: "(string \<times> json) list \<Rightarrow> json_map" where
  "object_map ms = foldl (\<lambda>m x. AList.update (fst x) (snd x) m) [] ms"

definition str_member :: "json_map \<Rightarrow> string \<Rightarrow> string" where
  "str_member m k = (case Option.bind (map_of m k) (dec_str []) of Some s \<Rightarrow> s | None \<Rightarrow> [])"

definition dec_name :: "json \<Rightarrow> string option" where
  "dec_name v = dec_struct [(''name'', \<lambda>x r. dec_str r x)] v []"

definition grExtractNames :: "json \<Rightarrow> string list" where
  "grExtractNames raw =
    (let names = (case dec_list dec_name raw of Some ns \<Rightarrow> filter (\<lambda>n. n \<noteq> []) ns | None \<Rightarrow> []) in
     if names \<noteq> [] then names
     else case dec_name raw of
       Some (x # n) \<Rightarrow> [x # n]
     | _ \<Rightarrow> (case dec_str [] raw of Some (x # n) \<Rightarrow> [x # n] | _ \<Rightarrow> []))"

definition goodreadsIDFromURL :: "string \<Rightarrow> string" where
  "goodreadsIDFromURL u =
    (let seg = last (Split (TrimSuffix u [slash]) slash);
         seg = (case IndexByte seg (CHR ''-'') of Some i \<Rightarrow> take i seg | None \<Rightarrow> seg)
     in if MatchString numericRE seg then seg else [])"

definition publisher_name :: "json_map \<Rightarrow> string" where
  "publisher_name m = (case map_of m ''publisher'' of
     None \<Rightarrow> []
   | Some v \<Rightarrow> (case dec_str [] v of Some s \<Rightarrow> s | None \<Rightarrow> (case dec_name v of Some s \<Rightarrow> s | None \<Rightarrow> [])))"

definition page_number :: "json_map \<Rightarrow> int" where
  "page_number m = (case Option.bind (map_of m ''numberOfPages'') (dec_int 0) of Some n \<Rightarrow> if n > 0 then n else 0 | None \<Rightarrow> 0)"

definition ld_candidate :: "json_map \<Rightarrow> candidate" where
  "ld_candidate m = empty_candidate\<lparr>
     c_title := str_member m ''name'', c_description := str_member m ''description'', c_isbn := str_member m ''isbn'',
     c_cover_url := str_member m ''image'', c_published_at := take 10 (str_member m ''datePublished''),
     c_language := str_member m ''inLanguage'', c_publisher := publisher_name m,
     c_authors := (case map_of m ''author'' of Some v \<Rightarrow> grExtractNames v | None \<Rightarrow> []), c_page_count := page_number m,
     c_external_id := (case Option.bind (map_of m ''url'') (dec_str []) of Some u \<Rightarrow> goodreadsIDFromURL u | None \<Rightarrow> [])\<rparr>"

text \<open>The first block that is an object of type Book.\<close>

fun book_block :: "source_env \<Rightarrow> (nat \<Rightarrow> string) list \<Rightarrow> json_map option" where
  "book_block E [] = None"
| "book_block E (f # fs) = (case sv_json E (f 1) of
     Some (JObj ms) \<Rightarrow>
       if Option.bind (map_of (object_map ms) ''@type'') (dec_str []) = Some ''Book'' then Some (object_map ms) else book_block E fs
   | _ \<Rightarrow> book_block E fs)"

definition parseGoodreadsJSONLD :: "source_env \<Rightarrow> string \<Rightarrow> candidate option" where
  "parseGoodreadsJSONLD E html = (case book_block E (FindAllStringSubmatch grJSONLDRE html) of
     None \<Rightarrow> None
   | Some m \<Rightarrow> if c_title (ld_candidate m) = [] then None else Some (ld_candidate m))"

subsection \<open>The tree of the page\<close>

definition grStringField :: "json_map \<Rightarrow> string \<Rightarrow> string" where
  "grStringField m k = (case map_of m k of Some (JStr s) \<Rightarrow> s | _ \<Rightarrow> [])"

text \<open>\<open>int\<close> of a \<open>float64\<close>, as amd64 converts.\<close>

definition float_int :: "int \<times> int \<Rightarrow> int" where
  "float_int x = (let n = quot (fst x) (snd x) in if int64_range n then n else min_int64)"

definition member_float :: "(json \<Rightarrow> (int \<times> int) option) \<Rightarrow> json_map \<Rightarrow> string \<Rightarrow> (int \<times> int) option" where
  "member_float fl m k = (case map_of m k of Some v \<Rightarrow> fl v | None \<Rightarrow> None)"

definition author_names :: "json_map \<Rightarrow> string list" where
  "author_names m = (case map_of m ''authors'' of
     Some (JArr vs) \<Rightarrow> filter (\<lambda>n. n \<noteq> []) (map (\<lambda>v. case v of JObj ms \<Rightarrow> grStringField (object_map ms) ''name'' | _ \<Rightarrow> []) vs)
   | _ \<Rightarrow> [])"

definition genre_names :: "json_map \<Rightarrow> string list" where
  "genre_names m = (case map_of m ''genres'' of
     Some (JArr vs) \<Rightarrow> filter (\<lambda>n. n \<noteq> [])
       (map (\<lambda>v. case v of JStr s \<Rightarrow> s | JObj ms \<Rightarrow> grStringField (object_map ms) ''name'' | _ \<Rightarrow> []) vs)
   | _ \<Rightarrow> [])"

definition goodreadsNextDataBookToCandidate :: "(json \<Rightarrow> (int \<times> int) option) \<Rightarrow> json_map \<Rightarrow> candidate option" where
  "goodreadsNextDataBookToCandidate fl m =
    (if grStringField m ''title'' = [] then None
     else if map_of m ''description'' = None \<and> map_of m ''imageUrl'' = None \<and> map_of m ''isbn'' = None \<and> map_of m ''genres'' = None then None
     else Some (empty_candidate\<lparr>
       c_title := grStringField m ''title'', c_description := grStringField m ''description'', c_isbn := grStringField m ''isbn'',
       c_cover_url := grStringField m ''imageUrl'', c_publisher := grStringField m ''publisher'', c_language := grStringField m ''language'',
       c_published_at := take 10 (grStringField m ''publicationDate''),
       c_external_id := (case member_float fl m ''legacyId'' of Some x \<Rightarrow> Itoa (float_int x) | None \<Rightarrow> grStringField m ''id''),
       c_page_count := (case member_float fl m ''numPages'' of Some x \<Rightarrow> if fst x > 0 then float_int x else 0 | None \<Rightarrow> 0),
       c_authors := author_names m, c_genres := genre_names m\<rparr>))"

definition maxGoodreadsTraverseDepth :: nat where "maxGoodreadsTraverseDepth = 64"

function traverseGoodreadsNextData ::
  "(json_map \<Rightarrow> json_map) \<Rightarrow> (json \<Rightarrow> (int \<times> int) option) \<Rightarrow> json \<Rightarrow> nat \<Rightarrow> candidate list" where
  "traverseGoodreadsNextData ord fl v depth =
    (if depth > maxGoodreadsTraverseDepth then []
     else case v of
       JArr vs \<Rightarrow> concat (map (\<lambda>x. traverseGoodreadsNextData ord fl x (depth + 1)) vs)
     | JObj ms \<Rightarrow> (case goodreadsNextDataBookToCandidate fl (object_map ms) of
         Some c \<Rightarrow> [c]
       | None \<Rightarrow> concat (map (\<lambda>x. traverseGoodreadsNextData ord fl (snd x) (depth + 1)) (ord (object_map ms))))
     | _ \<Rightarrow> [])"
  by pat_completeness auto
termination
  by (relation "measure (\<lambda>(ord, fl, v, depth). 65 - depth)") (auto simp: maxGoodreadsTraverseDepth_def)

declare traverseGoodreadsNextData.simps [simp del]

text \<open>The values \<open>d\<close> steps below a value, on paths that pass through no book.\<close>

inductive reaches :: "(json \<Rightarrow> (int \<times> int) option) \<Rightarrow> json \<Rightarrow> nat \<Rightarrow> json \<Rightarrow> bool" for fl where
  here: "reaches fl v 0 v"
| item: "x \<in> set vs \<Longrightarrow> reaches fl x d w \<Longrightarrow> reaches fl (JArr vs) (Suc d) w"
| child: "goodreadsNextDataBookToCandidate fl (object_map ms) = None \<Longrightarrow> (k, x) \<in> set (object_map ms) \<Longrightarrow> reaches fl x d w \<Longrightarrow>
    reaches fl (JObj ms) (Suc d) w"

inductive_cases reaches_ArrE: "reaches fl (JArr vs) d w"
inductive_cases reaches_ObjE: "reaches fl (JObj ms) d w"

definition books_within :: "(json \<Rightarrow> (int \<times> int) option) \<Rightarrow> json \<Rightarrow> nat \<Rightarrow> candidate set" where
  "books_within fl v n = {c. \<exists>d < n. \<exists>ms. reaches fl v d (JObj ms) \<and> goodreadsNextDataBookToCandidate fl (object_map ms) = Some c}"

lemma books_within_none:
  "books_within fl v 0 = {}" "(\<And>vs. v \<noteq> JArr vs) \<Longrightarrow> (\<And>ms. v \<noteq> JObj ms) \<Longrightarrow> books_within fl v n = {}"
proof -
  show "books_within fl v 0 = {}" by (simp add: books_within_def)
  assume v: "\<And>vs. v \<noteq> JArr vs" "\<And>ms. v \<noteq> JObj ms"
  have "reaches fl v d (JObj ms) \<Longrightarrow> False" for d ms
  proof (erule reaches.cases)
    show "v = w \<Longrightarrow> d = 0 \<Longrightarrow> JObj ms = w \<Longrightarrow> False" for w using v(2) [of ms] by simp
  qed (use v in simp_all)
  then show "books_within fl v n = {}" unfolding books_within_def by blast
qed

lemma books_within_Arr: "books_within fl (JArr vs) (Suc n) = (\<Union>x \<in> set vs. books_within fl x n)"
proof (intro equalityI subsetI)
  fix c
  assume "c \<in> books_within fl (JArr vs) (Suc n)"
  then obtain d ms where d: "d < Suc n" "reaches fl (JArr vs) d (JObj ms)" "goodreadsNextDataBookToCandidate fl (object_map ms) = Some c"
    unfolding books_within_def by blast
  from d(2) obtain x e where "d = Suc e" "x \<in> set vs" "reaches fl x e (JObj ms)" by (auto elim: reaches_ArrE)
  with d(1,3) show "c \<in> (\<Union>x \<in> set vs. books_within fl x n)" unfolding books_within_def by blast
next
  fix c
  assume "c \<in> (\<Union>x \<in> set vs. books_within fl x n)"
  then obtain x d ms where "x \<in> set vs" "d < n" "reaches fl x d (JObj ms)" "goodreadsNextDataBookToCandidate fl (object_map ms) = Some c"
    unfolding books_within_def by blast
  then show "c \<in> books_within fl (JArr vs) (Suc n)" unfolding books_within_def by (blast intro: item)
qed

lemma books_within_Obj:
  assumes "goodreadsNextDataBookToCandidate fl (object_map ms) = None"
  shows "books_within fl (JObj ms) (Suc n) = (\<Union>x \<in> set (object_map ms). books_within fl (snd x) n)"
proof (intro equalityI subsetI)
  fix c
  assume "c \<in> books_within fl (JObj ms) (Suc n)"
  then obtain d us where d: "d < Suc n" "reaches fl (JObj ms) d (JObj us)" "goodreadsNextDataBookToCandidate fl (object_map us) = Some c"
    unfolding books_within_def by blast
  then obtain k x e where "d = Suc e" "(k, x) \<in> set (object_map ms)" "reaches fl x e (JObj us)"
    using assms by (auto elim: reaches_ObjE)
  with d(1,3) show "c \<in> (\<Union>x \<in> set (object_map ms). books_within fl (snd x) n)" unfolding books_within_def by force
next
  fix c
  assume "c \<in> (\<Union>x \<in> set (object_map ms). books_within fl (snd x) n)"
  then obtain k x d us where "(k, x) \<in> set (object_map ms)" "d < n" "reaches fl x d (JObj us)"
    "goodreadsNextDataBookToCandidate fl (object_map us) = Some c" unfolding books_within_def by auto
  then show "c \<in> books_within fl (JObj ms) (Suc n)" unfolding books_within_def using child [OF assms] by blast
qed

lemma books_within_book: "goodreadsNextDataBookToCandidate fl (object_map ms) = Some c \<Longrightarrow> books_within fl (JObj ms) (Suc n) = {c}"
  unfolding books_within_def by (auto intro: here elim: reaches_ObjE)

lemma traverse_books:
  assumes "\<And>m. set (ord m) = set m"
  shows "set (traverseGoodreadsNextData ord fl v (65 - n)) = (if n \<le> 65 then books_within fl v n else set (traverseGoodreadsNextData ord fl v 0))"
proof (induction n arbitrary: v)
  case 0
  then show ?case by (subst traverseGoodreadsNextData.simps) (simp add: maxGoodreadsTraverseDepth_def books_within_none)
next
  case (Suc n)
  show ?case
  proof (cases "Suc n \<le> 65")
    case True
    then have n: "Suc (65 - Suc n) = 65 - n" "\<not> 64 < 65 - Suc n" by auto
    have IH: "set (traverseGoodreadsNextData ord fl w (65 - n)) = books_within fl w n" for w using Suc True by simp
    note T = traverseGoodreadsNextData.simps [of ord fl v "65 - Suc n"]
    show ?thesis
    proof (cases v)
      case (JArr vs)
      with T n IH True show ?thesis by (simp add: maxGoodreadsTraverseDepth_def books_within_Arr)
    next
      case (JObj ms)
      with T n IH True assms show ?thesis
        by (cases "goodreadsNextDataBookToCandidate fl (object_map ms)")
          (simp_all add: maxGoodreadsTraverseDepth_def books_within_Obj books_within_book)
    qed (use T True in \<open>simp_all add: maxGoodreadsTraverseDepth_def books_within_none\<close>)
  qed simp
qed

text \<open>
  C13. The bounded walk through the __NEXT_DATA__ tree finds exactly the book objects at most 64
  levels deep that lie below no other book object, in whatever order Go iterates over maps.
\<close>

theorem next_data_books:
  assumes "\<And>m. set (ord m) = set m"
  shows "set (traverseGoodreadsNextData ord fl v 0) =
    {c. \<exists>d \<le> 64. \<exists>ms. reaches fl v d (JObj ms) \<and> goodreadsNextDataBookToCandidate fl (object_map ms) = Some c}"
proof -
  have "set (traverseGoodreadsNextData ord fl v 0) = books_within fl v 65" using traverse_books [OF assms, of fl v 65] by simp
  also have "\<dots> = {c. \<exists>d \<le> 64. \<exists>ms. reaches fl v d (JObj ms) \<and> goodreadsNextDataBookToCandidate fl (object_map ms) = Some c}"
    by (auto simp: books_within_def less_Suc_eq_le [of _ 64, simplified])
  finally show ?thesis .
qed

definition demo_book :: json where
  "demo_book = JObj [(''title'', JStr ''Dune''), (''isbn'', JStr ''0441013597'')]"

lemma next_data_books_witness:
  "\<exists>d \<le> 64. \<exists>ms. reaches (\<lambda>v. None) (JObj [(''a'', JNull), (''b'', JArr [demo_book])]) d (JObj ms) \<and>
     goodreadsNextDataBookToCandidate (\<lambda>v. None) (object_map ms) = Some (empty_candidate\<lparr>c_title := ''Dune'', c_isbn := ''0441013597''\<rparr>)"
proof -
  let ?v = "JObj [(''a'', JNull), (''b'', JArr [demo_book])]"
  let ?c = "empty_candidate\<lparr>c_title := ''Dune'', c_isbn := ''0441013597''\<rparr>"
  have "traverseGoodreadsNextData rev (\<lambda>v. None) ?v 0 = [?c]"
    by (simp add: traverseGoodreadsNextData.simps demo_book_def object_map_def goodreadsNextDataBookToCandidate_def grStringField_def
      maxGoodreadsTraverseDepth_def member_float_def author_names_def genre_names_def empty_candidate_def)
  then have "?c \<in> set (traverseGoodreadsNextData rev (\<lambda>v. None) ?v 0)" by simp
  also have "\<dots> = {c. \<exists>d \<le> 64. \<exists>ms. reaches (\<lambda>v. None) ?v d (JObj ms) \<and>
      goodreadsNextDataBookToCandidate (\<lambda>v. None) (object_map ms) = Some c}"
    by (rule next_data_books) simp
  finally show ?thesis by simp
qed

definition parseGoodreadsNextData ::
  "source_env \<Rightarrow> (json_map \<Rightarrow> json_map) \<Rightarrow> (json \<Rightarrow> (int \<times> int) option) \<Rightarrow> string \<Rightarrow> candidate option" where
  "parseGoodreadsNextData E ord fl html = (case FindStringSubmatch grNextDataRE html of
     None \<Rightarrow> None
   | Some f \<Rightarrow> (case sv_json E (f 1) of
       None \<Rightarrow> None
     | Some v \<Rightarrow> (case traverseGoodreadsNextData ord fl v 0 of [] \<Rightarrow> None | c # _ \<Rightarrow> Some c)))"

definition parseGoodreadsBookPage ::
  "source_env \<Rightarrow> (json_map \<Rightarrow> json_map) \<Rightarrow> (json \<Rightarrow> (int \<times> int) option) \<Rightarrow> string \<Rightarrow> candidate option" where
  "parseGoodreadsBookPage E ord fl html = (case parseGoodreadsJSONLD E html of
     Some c \<Rightarrow> Some c
   | None \<Rightarrow> parseGoodreadsNextData E ord fl html)"

subsection \<open>Search pages\<close>

definition gr_row :: "(nat \<Rightarrow> string) list \<Rightarrow> (nat \<Rightarrow> string) list \<Rightarrow> nat \<Rightarrow> (nat \<Rightarrow> string) \<Rightarrow> candidate list" where
  "gr_row authors images i tm =
    (let bookID = TrimSpace (tm 1); title = TrimSpace (tm 2) in
     if title = [] \<or> bookID = [] then []
     else [empty_candidate\<lparr>c_external_id := bookID, c_title := title,
       c_authors := (if i < length authors \<and> TrimSpace ((authors ! i) 1) \<noteq> [] then [TrimSpace ((authors ! i) 1)] else []),
       c_cover_url := (if i < length images then TrimSpace ((images ! i) 1) else [])\<rparr>])"

definition parseGoodreadsSearchPage :: "string \<Rightarrow> candidate list" where
  "parseGoodreadsSearchPage s =
    (let titles = take grMaxResults (FindAllStringSubmatch grSearchRowRE s);
         authors = FindAllStringSubmatch grAuthorRE s; images = FindAllStringSubmatch grCoverRE s
     in concat (map (\<lambda>x. gr_row authors images (fst x) (snd x)) (enumerate 0 titles)))"

definition gr_Get ::
  "source_env \<Rightarrow> (json_map \<Rightarrow> json_map) \<Rightarrow> (json \<Rightarrow> (int \<times> int) option) \<Rightarrow> string \<Rightarrow> string \<Rightarrow> string \<Rightarrow> (source_error, candidate option) res" where
  "gr_Get E ord fl base i region = (let i = TrimSpace i in
     if \<not> MatchString numericRE i then Ok None
     else page_get E (base @ ''/book/show/'' @ i) (\<lambda>body. map_option (\<lambda>c.
       tag goodreadsID region (raw_body E body) (if c_external_id c = [] then c\<lparr>c_external_id := i\<rparr> else c))
         (parseGoodreadsBookPage E ord fl body)))"

definition gr_Search :: "source_env \<Rightarrow> string \<Rightarrow> string \<Rightarrow> string \<Rightarrow> (source_error, candidate list) res" where
  "gr_Search E base query region = page_search E (\<lambda>q. base @ ''/search?q='' @ encodeQuery q)
     (\<lambda>body. map (tag goodreadsID region (raw_body E body)) (parseGoodreadsSearchPage body)) query"

definition Goodreads ::
  "source_env \<Rightarrow> (json_map \<Rightarrow> json_map) \<Rightarrow> (json \<Rightarrow> (int \<times> int) option) \<Rightarrow> string \<Rightarrow> source" where
  "Goodreads E ord fl base = \<lparr>s_id = goodreadsID, s_enabled = (\<lambda>f. f goodreadsID), s_search = gr_Search E base,
     s_get = gr_Get E ord fl base\<rparr>"

end
