(* ===== verification/Amazon.thy ===== *)
theory Amazon
  imports HtmlText
begin

text \<open>\<open>amazon.go\<close>: a product page is fetched by its ASIN; a search that is no ASIN asks nothing.\<close>

definition amazonID :: string where "amazonID = ''amazon''"

definition amazonBaseURL :: string where "amazonBaseURL = ''https://www.amazon.com''"

definition asin_rune :: "nat \<Rightarrow> bool" where
  "asin_rune r \<longleftrightarrow> 65 \<le> r \<and> r \<le> 90 \<or> 48 \<le> r \<and> r \<le> 57"

definition asinRE :: "re list" where
  "asinRE = Begin # times 10 [Rune asin_rune] @ [Finish]"

definition amTitleRE :: "re list" where
  "amTitleRE = caseless (lit ''<span'' @ many (but ''>'') @ [Edge] @ lit ''id='' @ quoted ''productTitle'' @ to_end @ group 1 chars @ lit ''</span>'')"

definition amAuthorsBlockRE :: "re list" where
  "amAuthorsBlockRE = caseless (lit ''<span'' @ many (but ''>'') @ [Edge] @ lit ''class='' @ dq @ many unquoted @ [Edge] @ lit ''author'' @
     [Edge] @ many unquoted @ dq @ to_end @ group 1 (few rune) @ lit ''</span>'')"

definition amAuthorLinkRE :: "re list" where
  "amAuthorLinkRE = caseless (lit ''<a'' @ many (but ''>'') @ [Edge] @ lit ''class='' @ dq @ many unquoted @ [Edge] @ lit ''a-link-normal'' @
     [Edge] @ many unquoted @ dq @ to_end @ group 1 chars @ lit ''</a>'')"

definition amDescNoscriptRE :: "re list" where
  "amDescNoscriptRE = caseless (lit ''<div'' @ many (but ''>'') @ [Edge] @ lit ''id='' @ quoted ''bookDescription_feature_div'' @ to_end @
     few rune @ lit ''<noscript>'' @ group 1 (few rune) @ lit ''</noscript>'')"

definition amDescSpanRE :: "re list" where
  "amDescSpanRE = caseless (lit ''<div'' @ many (but ''>'') @ [Edge] @ lit ''id='' @ quoted ''bookDescription_feature_div'' @ to_end @
     few rune @ lit ''<span'' @ to_end @ group 1 (few rune) @ lit ''</span>'')"

definition am_cover_pattern :: "string \<Rightarrow> re list" where
  "am_cover_pattern i = caseless (lit ''<img'' @ many (but ''>'') @ [Edge] @ lit ''id='' @ quoted i @ many (but ''>'') @ [Edge] @ lit ''src='' @
     dq @ group 1 (some_of unquoted) @ dq)"

definition amCoverREs :: "re list list" where
  "amCoverREs = map am_cover_pattern [''imgBlkFront'', ''ebooksImgBlkFront'', ''main-image'']"

definition amDetailLiRE :: "re list" where
  "amDetailLiRE = caseless (lit ''<li'' @ [Edge] @ to_end @ group 1 (few rune) @ lit ''</li>'')"

definition amPublisherRE :: "re list" where
  "amPublisherRE = caseless (lit ''Publisher'' @ some_of colon_or_blank @ group 1 (dot @ few dot) @ many blank @ lit ''('')"

definition amPubDateRE :: "re list" where
  "amPubDateRE = lit ''('' @ group 1 (some_of (but '')'')) @ lit '')''"

definition amLanguageRE :: "re list" where
  "amLanguageRE = caseless (lit ''Language'' @ some_of colon_or_blank @ group 1 (some_of dot))"

definition amPagesRE :: "re list" where
  "amPagesRE = group 1 (some_of decimal) @ some_of blank @ lit ''pages''"

definition amISBN10RE :: "re list" where
  "amISBN10RE = caseless (lit ''ISBN-10'' @ some_of colon_or_blank @ group 1 (times 10 decimal))"

definition amISBN13RE :: "re list" where
  "amISBN13RE = caseless (lit ''ISBN-13'' @ some_of colon_or_blank @
     group 1 (some_of (cls (\<lambda>r. 48 \<le> r \<and> r \<le> 57 \<or> r = code (CHR ''-'')))))"

definition amTagStripRE :: "re list" where "amTagStripRE = tags_pattern"

definition amWSRE :: "re list" where "amWSRE = spaces_pattern"

text \<open>The host never contains text of the region.\<close>

definition amazon_hosts :: "(string \<times> string) list" where
  "amazon_hosts = [(''us'', ''https://www.amazon.com''), ([], ''https://www.amazon.com''), (''uk'', ''https://www.amazon.co.uk''),
     (''de'', ''https://www.amazon.de''), (''fr'', ''https://www.amazon.fr''), (''jp'', ''https://www.amazon.co.jp''),
     (''ca'', ''https://www.amazon.ca''), (''au'', ''https://www.amazon.com.au''), (''es'', ''https://www.amazon.es''),
     (''it'', ''https://www.amazon.it''), (''nl'', ''https://www.amazon.nl''), (''mx'', ''https://www.amazon.com.mx''),
     (''br'', ''https://www.amazon.com.br''), (''in'', ''https://www.amazon.in'')]"

definition amazonHostFor :: "uni \<Rightarrow> string \<Rightarrow> string \<Rightarrow> string" where
  "amazonHostFor U base region =
    (if base \<noteq> amazonBaseURL then base
     else case map_of amazon_hosts (ToLower U region) of Some h \<Rightarrow> h | None \<Rightarrow> ''https://www.amazon.com'')"

definition amFirstSubmatch :: "re list \<Rightarrow> string \<Rightarrow> string" where "amFirstSubmatch = FirstSubmatch"

definition amStripText :: "string \<Rightarrow> string" where
  "amStripText = StripText amTagStripRE (Replacer named_entities) amWSRE"

subsection \<open>Product pages\<close>

definition am_authors :: "string \<Rightarrow> string list" where
  "am_authors s = concat (map (\<lambda>block. filter (\<lambda>n. n \<noteq> [] \<and> \<not> Contains n ''('')
     (map (\<lambda>m. amStripText (m 1)) (FindAllStringSubmatch amAuthorLinkRE (block 1)))) (FindAllStringSubmatch amAuthorsBlockRE s))"

definition am_description :: "string \<Rightarrow> string" where
  "am_description s = (let d = amStripText (amFirstSubmatch amDescNoscriptRE s) in
     if d \<noteq> [] then d else amStripText (amFirstSubmatch amDescSpanRE s))"

fun am_cover :: "re list list \<Rightarrow> string \<Rightarrow> string" where
  "am_cover [] s = []"
| "am_cover (p # ps) s = (let u = TrimSpace (amFirstSubmatch p s) in if u \<noteq> [] then u else am_cover ps s)"

text \<open>Each field of a detail bullet.\<close>

definition bullet_publisher :: "string \<Rightarrow> candidate \<Rightarrow> candidate" where
  "bullet_publisher text c = (if c_publisher c = [] then case FindStringSubmatch amPublisherRE text of
     Some f \<Rightarrow> c\<lparr>c_publisher := TrimSpace (f 1)\<rparr> | None \<Rightarrow> c else c)"

definition bullet_date :: "string \<Rightarrow> candidate \<Rightarrow> candidate" where
  "bullet_date text c = (if c_published_at c = [] then case FindStringSubmatch amPubDateRE text of
     Some f \<Rightarrow> c\<lparr>c_published_at := TrimSpace (f 1)\<rparr> | None \<Rightarrow> c else c)"

definition bullet_language :: "string \<Rightarrow> candidate \<Rightarrow> candidate" where
  "bullet_language text c = (if c_language c = [] \<and> Contains text ''Language'' then case FindStringSubmatch amLanguageRE text of
     Some f \<Rightarrow> c\<lparr>c_language := TrimSpace (f 1)\<rparr> | None \<Rightarrow> c else c)"

definition bullet_pages :: "string \<Rightarrow> candidate \<Rightarrow> candidate" where
  "bullet_pages text c =
    (if c_page_count c = 0 \<and> (Contains text ''Paperback'' \<or> Contains text ''Hardcover'' \<or> Contains text ''pages'') then
       case Option.bind (FindStringSubmatch amPagesRE text) (\<lambda>f. positive_number (f 1)) of
         Some n \<Rightarrow> c\<lparr>c_page_count := n\<rparr> | None \<Rightarrow> c
     else c)"

definition bullet_isbn :: "string \<Rightarrow> candidate \<Rightarrow> candidate" where
  "bullet_isbn text c =
    (if Contains text ''ISBN-13'' then case FindStringSubmatch amISBN13RE text of
        Some f \<Rightarrow> if no_dashes (f 1) \<noteq> [] then c\<lparr>c_isbn := no_dashes (f 1)\<rparr> else c | None \<Rightarrow> c
     else if c_isbn c = [] \<and> Contains text ''ISBN-10'' then case FindStringSubmatch amISBN10RE text of
        Some f \<Rightarrow> c\<lparr>c_isbn := f 1\<rparr> | None \<Rightarrow> c
     else c)"

definition am_bullet :: "candidate \<Rightarrow> string \<Rightarrow> candidate" where
  "am_bullet c text =
    (if text = [] then c
     else bullet_isbn text (bullet_pages text (bullet_language text
       (if Contains text ''Publisher'' then bullet_date text (bullet_publisher text c) else c))))"

definition parseAmazonProductPage :: "string \<Rightarrow> candidate option" where
  "parseAmazonProductPage s =
    (let title = amStripText (amFirstSubmatch amTitleRE s) in
     if title = [] then None
     else Some (foldl am_bullet
       (empty_candidate\<lparr>c_title := title, c_authors := am_authors s, c_description := am_description s, c_cover_url := am_cover amCoverREs s\<rparr>)
       (map (\<lambda>m. amStripText (m 1)) (FindAllStringSubmatch amDetailLiRE s))))"

definition am_Get :: "source_env \<Rightarrow> string \<Rightarrow> string \<Rightarrow> string \<Rightarrow> (source_error, candidate option) res" where
  "am_Get E base i region = (let i = TrimSpace i in
     if \<not> MatchString asinRE i then Ok None
     else page_get E (amazonHostFor (sv_uni E) base region @ ''/dp/'' @ i) (\<lambda>body. map_option (\<lambda>c.
       tag amazonID region (raw_body E body)
         (let d = c\<lparr>c_asin := i\<rparr> in if c_external_id d = [] then d\<lparr>c_external_id := i\<rparr> else d)) (parseAmazonProductPage body)))"

definition am_Search :: "source_env \<Rightarrow> string \<Rightarrow> string \<Rightarrow> string \<Rightarrow> (source_error, candidate list) res" where
  "am_Search E base query region = (let q = TrimSpace query in
     if q = [] \<or> \<not> MatchString asinRE q then Ok []
     else not_found_empty (bind_res (am_Get E base q region) (\<lambda>x. case x of None \<Rightarrow> Ok [] | Some c \<Rightarrow> Ok [c])))"

definition Amazon :: "source_env \<Rightarrow> string \<Rightarrow> source" where
  "Amazon E base = \<lparr>s_id = amazonID, s_enabled = (\<lambda>f. f amazonID), s_search = am_Search E base, s_get = am_Get E base\<rparr>"

end
