(* ===== verification/FantasticFiction.thy ===== *)
theory FantasticFiction
  imports HtmlText
begin

text \<open>\<open>fantasticfiction.go\<close>: a title search only; there is no page to get by id.\<close>

definition fantasticFictionID :: string where "fantasticFictionID = ''fantasticfiction''"

definition ffMaxResults :: nat where "ffMaxResults = 10"

definition ffBookBlockRE :: "re list" where
  "ffBookBlockRE = caseless (lit ''<div'' @ many (but ''>'') @ lit ''class='' @ dq @ many unquoted @ lit ''book'' @ many unquoted @ dq @ to_end @
     few rune @ lit ''</div>'')"

definition ffTitleRE :: "re list" where
  "ffTitleRE = caseless (lit ''<a'' @ many (but ''>'') @ lit ''href='' @ dq @ many unquoted @ dq @ to_end @ group 1 chars @ lit ''</a>'')"

definition ffAuthorRE :: "re list" where
  "ffAuthorRE = caseless (lit ''by'' @ some_of blank @ lit ''<a'' @ to_end @ group 1 chars @ lit ''</a>'')"

definition ffYearRE :: "re list" where
  "ffYearRE = lit ''('' @ group 1 year_digits @ lit '')''"

definition ffSeriesRE :: "re list" where
  "ffSeriesRE = caseless (lit ''Series:'' @ many blank @ lit ''<a'' @ to_end @ group 1 chars @ lit ''</a>'')"

definition ffTagStripRE :: "re list" where "ffTagStripRE = tags_pattern"

definition ffWSRE :: "re list" where "ffWSRE = spaces_pattern"

definition ffNumEntityRE :: "re list" where "ffNumEntityRE = entity_pattern"

definition ffFirstSubmatch :: "re list \<Rightarrow> string \<Rightarrow> string" where "ffFirstSubmatch = FirstSubmatch"

definition ffStripText :: "string \<Rightarrow> string" where
  "ffStripText = StripText ffTagStripRE (DecodeEntities ffNumEntityRE) ffWSRE"

definition ff_block :: "string \<Rightarrow> candidate list" where
  "ff_block block =
    (let title = ffStripText (ffFirstSubmatch ffTitleRE block); author = ffStripText (ffFirstSubmatch ffAuthorRE block) in
     if title = [] then []
     else [empty_candidate\<lparr>c_title := title, c_authors := (if author \<noteq> [] then [author] else []),
       c_published_at := ffFirstSubmatch ffYearRE block, c_series := ffStripText (ffFirstSubmatch ffSeriesRE block)\<rparr>])"

definition parseFantasticFictionSearchPage :: "string \<Rightarrow> candidate list" where
  "parseFantasticFictionSearchPage s = concat (map ff_block (take ffMaxResults (FindAllString ffBookBlockRE s)))"

definition ff_Get :: "string \<Rightarrow> string \<Rightarrow> (source_error, candidate option) res" where
  "ff_Get i region = Ok None"

definition ff_Search :: "source_env \<Rightarrow> string \<Rightarrow> string \<Rightarrow> string \<Rightarrow> (source_error, candidate list) res" where
  "ff_Search E base query region = page_search E (\<lambda>q. base @ ''/search/?searchfor=book&keywords='' @ encodeQuery q)
     (\<lambda>body. map (tag fantasticFictionID region (raw_body E body)) (parseFantasticFictionSearchPage body)) query"

definition FantasticFiction :: "source_env \<Rightarrow> string \<Rightarrow> source" where
  "FantasticFiction E base = \<lparr>s_id = fantasticFictionID, s_enabled = (\<lambda>f. f fantasticFictionID), s_search = ff_Search E base, s_get = ff_Get\<rparr>"

end
