(* ===== verification/Isfdb.thy ===== *)
theory Isfdb
  imports HtmlText
begin

text \<open>\<open>isfdb.go\<close>: title search and title page of the speculative fiction database.\<close>

definition isfdbID :: string where "isfdbID = ''isfdb''"

definition isMaxResults :: nat where "isMaxResults = 10"

definition isNumericIDRE :: "re list" where "isNumericIDRE = Begin # some_of decimal @ [Finish]"

definition isRowRE :: "re list" where
  "isRowRE = caseless (lit ''<tr'' @ to_end @ few rune @ lit ''</tr>'')"

definition isTitleLinkRE :: "re list" where
  "isTitleLinkRE = caseless (lit ''<a'' @ some_of blank @ lit ''href='' @ dq @ many unquoted @ lit ''/title.cgi?'' @ group 1 (some_of decimal) @ dq @
     to_end @ group 2 chars @ lit ''</a>'')"

definition isAuthorLinkRE :: "re list" where
  "isAuthorLinkRE = caseless (lit ''<a'' @ some_of blank @ lit ''href='' @ dq @ many unquoted @ lit ''/ea.cgi?'' @ some_of decimal @ dq @
     to_end @ group 1 chars @ lit ''</a>'')"

definition isYearParenRE :: "re list" where
  "isYearParenRE = lit ''('' @ group 1 year_digits @ lit '')''"

definition isDetailTitleRE :: "re list" where
  "isDetailTitleRE = caseless (lit ''<div class='' @ quoted ''contentheader'' @ lit ''>'' @ many blank @ lit ''<h1>'' @ group 1 chars @ lit ''</h1>'')"

definition isDetailFallbackTitleRE :: "re list" where
  "isDetailFallbackTitleRE = caseless (lit ''<title>'' @ group 1 chars @ lit '' - ISFDB</title>'')"

text \<open>A bold label and what follows it.\<close>

definition is_label :: "string \<Rightarrow> re list" where
  "is_label w = lit w @ many blank @ lit ''</b>'' @ many blank"

definition isDetailDateRE :: "re list" where "isDetailDateRE = caseless (is_label ''Date:'' @ group 1 year_digits)"

definition isDetailYearRE :: "re list" where "isDetailYearRE = caseless (is_label ''Year:'' @ group 1 year_digits)"

definition isDetailPublisherRE :: "re list" where
  "isDetailPublisherRE = caseless (is_label ''Publisher:'' @ lit ''<a'' @ to_end @ group 1 chars @ lit ''</a>'')"

definition isDetailPagesRE :: "re list" where "isDetailPagesRE = caseless (is_label ''Pages:'' @ group 1 (some_of decimal))"

definition isDetailISBNRE :: "re list" where
  "isDetailISBNRE = caseless (is_label ''ISBN:'' @ group 1 (some_of (cls (\<lambda>r. 48 \<le> r \<and> r \<le> 57 \<or> r = code (CHR ''-'') \<or> r = code (CHR ''X'')))))"

definition isDetailSeriesRE :: "re list" where
  "isDetailSeriesRE = caseless (is_label ''Series:'' @ lit ''<a'' @ to_end @ group 1 chars @ lit ''</a>'')"

definition isDetailSeriesNumRE :: "re list" where
  "isDetailSeriesNumRE = caseless (is_label ''Series Number:'' @ group 1 (some_of decimal))"

definition isDetailCoverRE :: "re list" where
  "isDetailCoverRE = caseless (lit ''<img'' @ some_of (but ''>'') @ lit ''src='' @ dq @ group 1 (some_of unquoted) @ dq @ many (but ''>'') @
     lit ''class='' @ dq @ many unquoted @ lit ''scan'' @ many unquoted @ dq)"

definition isDetailCoverFallbackRE :: "re list" where
  "isDetailCoverFallbackRE = caseless (lit ''<img'' @ some_of (but ''>'') @ lit ''src='' @ dq @
     group 1 (lit ''http'' @ opt (lit ''s'') @ lit ''://'' @ some_of unquoted @ lit ''/images/'' @ some_of unquoted) @ dq)"

definition isTagStripRE :: "re list" where "isTagStripRE = tags_pattern"

definition isWSRE :: "re list" where "isWSRE = spaces_pattern"

definition isNumEntityRE :: "re list" where "isNumEntityRE = entity_pattern"

definition isFirstSubmatch :: "re list \<Rightarrow> string \<Rightarrow> string" where "isFirstSubmatch = FirstSubmatch"

definition isStripText :: "string \<Rightarrow> string" where
  "isStripText = StripText isTagStripRE (DecodeEntities isNumEntityRE) isWSRE"

subsection \<open>Search page\<close>

definition is_row :: "string \<Rightarrow> candidate list" where
  "is_row row = (case FindStringSubmatch isTitleLinkRE row of
     None \<Rightarrow> []
   | Some tm \<Rightarrow> if isStripText (tm 2) = [] then []
       else [empty_candidate\<lparr>c_external_id := tm 1, c_title := isStripText (tm 2),
         c_authors := filter (\<lambda>n. n \<noteq> []) (map (\<lambda>a. isStripText (a 1)) (FindAllStringSubmatch isAuthorLinkRE row)),
         c_published_at := isFirstSubmatch isYearParenRE row\<rparr>])"

definition parseISFDBSearchResults :: "string \<Rightarrow> candidate list" where
  "parseISFDBSearchResults s = concat (map is_row (take isMaxResults (FindAllString isRowRE s)))"

subsection \<open>Title page\<close>

definition is_title :: "string \<Rightarrow> string" where
  "is_title s = (let title = isStripText (isFirstSubmatch isDetailTitleRE s) in
     if title \<noteq> [] then title else TrimSpace (TrimSuffix (isStripText (isFirstSubmatch isDetailFallbackTitleRE s)) '' - ISFDB''))"

definition is_year :: "string \<Rightarrow> string" where
  "is_year s = (case FindStringSubmatch isDetailDateRE s of Some f \<Rightarrow> f 1 | None \<Rightarrow> isFirstSubmatch isDetailYearRE s)"

definition is_cover :: "string \<Rightarrow> string" where
  "is_cover s = (let u = isFirstSubmatch isDetailCoverRE s in if u \<noteq> [] then u else isFirstSubmatch isDetailCoverFallbackRE s)"

definition parseISFDBTitlePage :: "string \<Rightarrow> candidate option" where
  "parseISFDBTitlePage s =
    (if is_title s = [] then None
     else Some (empty_candidate\<lparr>c_title := is_title s,
       c_authors := distinct_names [] (map (\<lambda>a. isStripText (a 1)) (FindAllStringSubmatch isAuthorLinkRE s)),
       c_published_at := is_year s, c_publisher := isStripText (isFirstSubmatch isDetailPublisherRE s),
       c_page_count := (case Option.bind (FindStringSubmatch isDetailPagesRE s) (\<lambda>f. positive_number (f 1)) of Some n \<Rightarrow> n | None \<Rightarrow> 0),
       c_isbn := no_dashes (isFirstSubmatch isDetailISBNRE s), c_series := isStripText (isFirstSubmatch isDetailSeriesRE s),
       c_series_pos := isFirstSubmatch isDetailSeriesNumRE s, c_cover_url := is_cover s\<rparr>))"

definition is_Get :: "source_env \<Rightarrow> string \<Rightarrow> string \<Rightarrow> string \<Rightarrow> (source_error, candidate option) res" where
  "is_Get E base i region = (let i = TrimSpace i in
     if \<not> MatchString isNumericIDRE i then Ok None
     else page_get E (base @ ''/cgi-bin/title.cgi?'' @ i) (\<lambda>body. map_option (\<lambda>c.
       tag isfdbID region (raw_body E body) (c\<lparr>c_external_id := i\<rparr>)) (parseISFDBTitlePage body)))"

definition is_Search :: "source_env \<Rightarrow> string \<Rightarrow> string \<Rightarrow> string \<Rightarrow> (source_error, candidate list) res" where
  "is_Search E base query region = page_search E (\<lambda>q. base @ ''/cgi-bin/se.cgi?arg='' @ encodeQuery q @ ''&type=All+Titles'')
     (\<lambda>body. map (tag isfdbID region (raw_body E body)) (parseISFDBSearchResults body)) query"

definition ISFDB :: "source_env \<Rightarrow> string \<Rightarrow> source" where
  "ISFDB E base = \<lparr>s_id = isfdbID, s_enabled = (\<lambda>f. f isfdbID), s_search = is_Search E base, s_get = is_Get E base\<rparr>"

end
