(* ===== verification/LibraryThing.thy ===== *)
theory LibraryThing
  imports HtmlText
begin

text \<open>\<open>librarything.go\<close>: search rows without ids, and a work page by ISBN.\<close>

definition libraryThingID :: string where "libraryThingID = ''librarything''"

definition ltMaxResults :: nat where "ltMaxResults = 10"

definition ltISBNRE :: "re list" where "ltISBNRE = isbn_pattern"

definition ltSearchRowRE :: "re list" where
  "ltSearchRowRE = caseless (lit ''<tr'' @ many (but ''>'') @ lit ''class='' @ dq @ many unquoted @ lit ''searchresult'' @ many unquoted @ dq @
     to_end @ few rune @ lit ''</tr>'')"

definition ltSearchTitleRE :: "re list" where
  "ltSearchTitleRE = caseless (lit ''<a'' @ many (but ''>'') @ lit ''href='' @ dq @ lit ''/work/'' @ some_of decimal @ many unquoted @ dq @
     to_end @ group 1 chars @ lit ''</a>'')"

definition ltAuthorLinkRE :: "re list" where
  "ltAuthorLinkRE = caseless (lit ''<a'' @ many (but ''>'') @ lit ''href='' @ dq @ lit ''/author/'' @ many unquoted @ dq @
     to_end @ group 1 chars @ lit ''</a>'')"

definition ltYearParenRE :: "re list" where
  "ltYearParenRE = lit ''('' @ group 1 year_digits @ lit '')''"

definition ltDetailTitleRE :: "re list" where
  "ltDetailTitleRE = caseless (lit ''<h1'' @ to_end @ group 1 chars @ lit ''</h1>'')"

text \<open>A \<open>meta\<close> element with a property.\<close>

definition og_pattern :: "string \<Rightarrow> re list" where
  "og_pattern w = caseless (lit ''<meta'' @ some_of blank @ lit ''property='' @ quoted w @ some_of blank @ lit ''content='' @
     dq @ group 1 (some_of unquoted) @ dq)"

definition ltDetailOGTitleRE :: "re list" where "ltDetailOGTitleRE = og_pattern ''og:title''"

definition ltDescriptionBlockRE :: "re list" where
  "ltDescriptionBlockRE = caseless (lit ''<div'' @ many (but ''>'') @ lit ''id='' @ dq @ many unquoted @ lit ''description'' @ many unquoted @ dq @
     to_end @ group 1 (few rune) @ lit ''</div>'')"

definition ltCoverRE :: "re list" where
  "ltCoverRE = caseless (lit ''<img'' @ many (but ''>'') @ lit ''class='' @ dq @ many unquoted @ lit ''cover'' @ many unquoted @ dq @
     many (but ''>'') @ lit ''src='' @ dq @ group 1 (some_of unquoted) @ dq)"

definition ltCoverOGRE :: "re list" where "ltCoverOGRE = og_pattern ''og:image''"

definition ltSeriesRE :: "re list" where
  "ltSeriesRE = caseless (lit ''Series:'' @ many blank @ lit ''<a'' @ to_end @ group 1 chars @ lit ''</a>'')"

definition ltBrRE :: "re list" where
  "ltBrRE = caseless (lit ''<br'' @ many blank @ opt (lit ''/'') @ lit ''>'')"

definition ltTagStripRE :: "re list" where "ltTagStripRE = tags_pattern"

definition ltWSRE :: "re list" where "ltWSRE = spaces_pattern"

definition ltMultiNLRE :: "re list" where
  "ltMultiNLRE = times 3 (lit [CHR 0x0A]) @ many (lit [CHR 0x0A])"

definition ltNumEntityRE :: "re list" where "ltNumEntityRE = entity_pattern"

definition ltFirstSubmatch :: "re list \<Rightarrow> string \<Rightarrow> string" where "ltFirstSubmatch = FirstSubmatch"

definition ltDecodeEntities :: "string \<Rightarrow> string" where "ltDecodeEntities = DecodeEntities ltNumEntityRE"

definition ltStripText :: "string \<Rightarrow> string" where
  "ltStripText = StripText ltTagStripRE ltDecodeEntities ltWSRE"

definition ltCleanDescription :: "string \<Rightarrow> string" where
  "ltCleanDescription s =
    (if s = [] then []
     else TrimSpace (ReplaceAllString ltMultiNLRE (ltDecodeEntities (ReplaceAllString ltTagStripRE
       (ReplaceAllString ltBrRE s [CHR 0x0A]) [])) [CHR 0x0A, CHR 0x0A]))"

subsection \<open>Search page\<close>

definition lt_row :: "string \<Rightarrow> candidate list" where
  "lt_row row = (case FindStringSubmatch ltSearchTitleRE row of
     None \<Rightarrow> []
   | Some tm \<Rightarrow> let title = ltStripText (tm 1); name = ltStripText (ltFirstSubmatch ltAuthorLinkRE row) in
       if title = [] then []
       else [empty_candidate\<lparr>c_title := title, c_authors := (if name \<noteq> [] then [name] else []),
         c_published_at := ltFirstSubmatch ltYearParenRE row\<rparr>])"

definition parseLibraryThingSearchResults :: "string \<Rightarrow> candidate list" where
  "parseLibraryThingSearchResults s = concat (map lt_row (take ltMaxResults (FindAllString ltSearchRowRE s)))"

subsection \<open>Work page\<close>

definition lt_title :: "string \<Rightarrow> string" where
  "lt_title s = (let title = ltStripText (ltFirstSubmatch ltDetailTitleRE s) in
     if title \<noteq> [] then title else ltStripText (ltFirstSubmatch ltDetailOGTitleRE s))"

definition lt_cover :: "string \<Rightarrow> string" where
  "lt_cover s = (let u = ltFirstSubmatch ltCoverRE s in if u \<noteq> [] then u else ltFirstSubmatch ltCoverOGRE s)"

definition parseLibraryThingWorkPage :: "string \<Rightarrow> candidate option" where
  "parseLibraryThingWorkPage s =
    (if lt_title s = [] then None
     else Some (empty_candidate\<lparr>c_title := lt_title s,
       c_authors := distinct_names [] (map (\<lambda>a. ltStripText (a 1)) (FindAllStringSubmatch ltAuthorLinkRE s)),
       c_description := ltCleanDescription (ltFirstSubmatch ltDescriptionBlockRE s),
       c_cover_url := lt_cover s, c_series := ltStripText (ltFirstSubmatch ltSeriesRE s)\<rparr>))"

definition lt_Get :: "source_env \<Rightarrow> string \<Rightarrow> string \<Rightarrow> string \<Rightarrow> (source_error, candidate option) res" where
  "lt_Get E base isbn region = (let bare = no_dashes (TrimSpace isbn) in
     if \<not> MatchString ltISBNRE bare then Ok None
     else page_get E (base @ ''/isbn/'' @ bare) (\<lambda>body. map_option (\<lambda>c.
       tag libraryThingID region (raw_body E body) (c\<lparr>c_external_id := bare, c_isbn := bare\<rparr>)) (parseLibraryThingWorkPage body)))"

definition lt_Search :: "source_env \<Rightarrow> string \<Rightarrow> string \<Rightarrow> string \<Rightarrow> (source_error, candidate list) res" where
  "lt_Search E base query region = page_search E (\<lambda>q. base @ ''/search.php?search='' @ encodeQuery q @ ''&searchtype=newwork_titles'')
     (\<lambda>body. map (tag libraryThingID region (raw_body E body)) (parseLibraryThingSearchResults body)) query"

definition LibraryThing :: "source_env \<Rightarrow> string \<Rightarrow> source" where
  "LibraryThing E base = \<lparr>s_id = libraryThingID, s_enabled = (\<lambda>f. f libraryThingID), s_search = lt_Search E base, s_get = lt_Get E base\<rparr>"

end
