(* ===== verification/WorldCat.thy ===== *)
theory WorldCat
  imports HtmlText
begin

text \<open>\<open>worldcat.go\<close>: keyword search without ids, and a record page by ISBN.\<close>

definition worldCatID :: string where "worldCatID = ''worldcat''"

definition wcMaxResults :: nat where "wcMaxResults = 10"

definition wcISBNRE :: "re list" where "wcISBNRE = isbn_pattern"

text \<open>An attribute whose value contains a word, and the rest of the tag.\<close>

definition with_word :: "string \<Rightarrow> re list \<Rightarrow> re list" where
  "with_word a w = many (but ''>'') @ lit a @ dq @ many unquoted @ w @ many unquoted @ dq"

definition wcResultBlockRE :: "re list" where
  "wcResultBlockRE = caseless (lit ''<div'' @ with_word ''class='' [Alt (lit ''result'') (lit ''record'')] @ to_end @ few rune @ lit ''</div>'' @
     many blank @ lit ''</div>'')"

definition wcResultTitleRE :: "re list" where
  "wcResultTitleRE = caseless (lit ''<a'' @ with_word ''class='' (lit ''title'') @ to_end @ group 1 chars @ lit ''</a>'')"

definition wcResultHeadingRE :: "re list" where
  "wcResultHeadingRE = caseless (lit ''<h'' @ one ''234'' @ to_end @ group 1 chars @ lit ''</h'' @ one ''234'' @ lit ''>'')"

definition wcResultAuthorByRE :: "re list" where
  "wcResultAuthorByRE = caseless (lit ''by'' @ some_of blank @ lit ''<'' @ to_end @ group 1 chars @ lit ''</a>'')"

definition wcResultAuthorSpanRE :: "re list" where
  "wcResultAuthorSpanRE = caseless (lit ''<span'' @ with_word ''class='' (lit ''author'') @ to_end @ group 1 chars @ lit ''</span>'')"

definition wcResultYearRE :: "re list" where "wcResultYearRE = group 1 year_digits"

definition wcResultLanguageRE :: "re list" where
  "wcResultLanguageRE = caseless (lit ''Language:'' @ many blank @ group 1 chars)"

definition wcDetailTitleRE :: "re list" where
  "wcDetailTitleRE = caseless (lit ''<h1'' @ with_word ''class='' (lit ''title'') @ to_end @ group 1 chars @ lit ''</h1>'')"

definition wc_og_pattern :: "string \<Rightarrow> re list" where
  "wc_og_pattern w = caseless (lit ''<meta'' @ some_of blank @ lit ''property='' @ quoted w @ some_of blank @ lit ''content='' @
     dq @ group 1 (some_of unquoted) @ dq)"

definition wcDetailOGTitleRE :: "re list" where "wcDetailOGTitleRE = wc_og_pattern ''og:title''"

definition wcDetailAuthorRE :: "re list" where
  "wcDetailAuthorRE = caseless (lit ''<a'' @ with_word ''href='' (lit ''/author/'') @ to_end @ group 1 chars @ lit ''</a>'')"

definition wcDetailPublisherLabelRE :: "re list" where
  "wcDetailPublisherLabelRE = caseless (lit ''Publisher:'' @ many blank @ group 1 chars)"

definition wcDetailPublisherSpanRE :: "re list" where
  "wcDetailPublisherSpanRE = caseless (lit ''<span'' @ with_word ''class='' (lit ''publisher'') @ to_end @ group 1 chars @ lit ''</span>'')"

definition wcDetailYearLabelRE :: "re list" where
  "wcDetailYearLabelRE = caseless ([Alt (lit ''Year'') (lit ''Date'')] @ lit '':'' @ many blank @ group 1 year_digits)"

definition wcDetailCopyrightYearRE :: "re list" where
  "wcDetailCopyrightYearRE = runes [169] @ many blank @ group 1 year_digits"

definition wcDetailLanguageRE :: "re list" where
  "wcDetailLanguageRE = caseless (lit ''Language:'' @ many blank @ group 1 chars)"

definition wcDetailSummaryIDRE :: "re list" where
  "wcDetailSummaryIDRE = caseless (lit ''<div'' @ with_word ''id='' (lit ''summary'') @ to_end @ group 1 (few rune) @ lit ''</div>'')"

definition wcDetailDescriptionClassRE :: "re list" where
  "wcDetailDescriptionClassRE = caseless (lit ''<div'' @ with_word ''class='' (lit ''description'') @ to_end @ group 1 (few rune) @ lit ''</div>'')"

definition wcDetailCoverImgRE :: "re list" where
  "wcDetailCoverImgRE = caseless (lit ''<img'' @ with_word ''class='' (lit ''cover'') @ many (but ''>'') @ lit ''src='' @ dq @
     group 1 (some_of unquoted) @ dq)"

definition wcDetailOGImageRE :: "re list" where "wcDetailOGImageRE = wc_og_pattern ''og:image''"

definition wcTagStripRE :: "re list" where "wcTagStripRE = tags_pattern"

definition wcWSRE :: "re list" where "wcWSRE = spaces_pattern"

definition wcNumEntityRE :: "re list" where "wcNumEntityRE = entity_pattern"

definition wcFirstSubmatch :: "re list \<Rightarrow> string \<Rightarrow> string" where "wcFirstSubmatch = FirstSubmatch"

definition wcStripText :: "string \<Rightarrow> string" where
  "wcStripText = StripText wcTagStripRE (DecodeEntities wcNumEntityRE) wcWSRE"

text \<open>The text of the first pattern that has one.\<close>

definition wc_first :: "re list \<Rightarrow> re list \<Rightarrow> string \<Rightarrow> string" where
  "wc_first p q s = (let t = wcStripText (wcFirstSubmatch p s) in if t \<noteq> [] then t else wcStripText (wcFirstSubmatch q s))"

definition wc_block :: "string \<Rightarrow> candidate list" where
  "wc_block block =
    (let title = wc_first wcResultTitleRE wcResultHeadingRE block; author = wc_first wcResultAuthorByRE wcResultAuthorSpanRE block in
     if title = [] then []
     else [empty_candidate\<lparr>c_title := title, c_authors := (if author \<noteq> [] then [author] else []),
       c_published_at := wcFirstSubmatch wcResultYearRE block, c_language := wcStripText (wcFirstSubmatch wcResultLanguageRE block)\<rparr>])"

definition parseWorldCatSearchResults :: "string \<Rightarrow> candidate list" where
  "parseWorldCatSearchResults s = concat (map wc_block (take wcMaxResults (FindAllString wcResultBlockRE s)))"

definition wc_year :: "string \<Rightarrow> string" where
  "wc_year s = (case FindStringSubmatch wcDetailYearLabelRE s of Some f \<Rightarrow> f 1 | None \<Rightarrow> wcFirstSubmatch wcDetailCopyrightYearRE s)"

definition wc_cover :: "string \<Rightarrow> string" where
  "wc_cover s = (let u = wcFirstSubmatch wcDetailCoverImgRE s in if u \<noteq> [] then u else wcFirstSubmatch wcDetailOGImageRE s)"

definition parseWorldCatItemPage :: "string \<Rightarrow> candidate option" where
  "parseWorldCatItemPage s =
    (let title = wc_first wcDetailTitleRE wcDetailOGTitleRE s in
     if title = [] then None
     else Some (empty_candidate\<lparr>c_title := title,
       c_authors := take 5 (distinct_names [] (map (\<lambda>a. wcStripText (a 1)) (FindAllStringSubmatch wcDetailAuthorRE s))),
       c_publisher := wc_first wcDetailPublisherLabelRE wcDetailPublisherSpanRE s, c_published_at := wc_year s,
       c_language := wcStripText (wcFirstSubmatch wcDetailLanguageRE s),
       c_description := wc_first wcDetailSummaryIDRE wcDetailDescriptionClassRE s, c_cover_url := wc_cover s\<rparr>))"

definition wc_Get :: "source_env \<Rightarrow> string \<Rightarrow> string \<Rightarrow> string \<Rightarrow> (source_error, candidate option) res" where
  "wc_Get E base isbn region = (let cleaned = no_dashes (TrimSpace isbn) in
     if \<not> MatchString wcISBNRE cleaned then Ok None
     else page_get E (base @ ''/isbn/'' @ cleaned) (\<lambda>body. map_option (\<lambda>c.
       tag worldCatID region (raw_body E body) (c\<lparr>c_external_id := cleaned, c_isbn := cleaned\<rparr>)) (parseWorldCatItemPage body)))"

definition wc_Search :: "source_env \<Rightarrow> string \<Rightarrow> string \<Rightarrow> string \<Rightarrow> (source_error, candidate list) res" where
  "wc_Search E base query region = page_search E (\<lambda>q. base @ ''/search?q='' @ encodeQuery q)
     (\<lambda>body. map (tag worldCatID region (raw_body E body)) (parseWorldCatSearchResults body)) query"

definition WorldCat :: "source_env \<Rightarrow> string \<Rightarrow> source" where
  "WorldCat E base = \<lparr>s_id = worldCatID, s_enabled = (\<lambda>f. f worldCatID), s_search = wc_Search E base, s_get = wc_Get E base\<rparr>"

end
