(* ===== verification/AnnasArchive.thy ===== *)
theory AnnasArchive
  imports HtmlText
begin

text \<open>\<open>annasarchive.go\<close>: search rows and detail pages under the MD5 of a file; only ebook formats count.\<close>

definition annasArchiveID :: string where "annasArchiveID = ''annasarchive''"

definition hex_rune :: "nat \<Rightarrow> bool" where
  "hex_rune r \<longleftrightarrow> 97 \<le> r \<and> r \<le> 102 \<or> 48 \<le> r \<and> r \<le> 57"

definition aaMD5RE :: "re list" where "aaMD5RE = Begin # times 32 [Rune hex_rune] @ [Finish]"

definition aaEbookExtensions :: "string list" where
  "aaEbookExtensions = [''epub'', ''pdf'', ''mobi'', ''azw3'', ''cbr'', ''cbz'', ''fb2'', ''djvu'', ''txt'']"

definition aaTrRowRE :: "re list" where
  "aaTrRowRE = caseless (lit ''<tr'' @ to_end @ few rune @ lit ''</tr>'')"

definition aaMD5HrefRE :: "re list" where
  "aaMD5HrefRE = lit ''href='' @ dq @ lit ''/md5/'' @ group 1 (times 32 [Rune hex_rune]) @ dq"

definition aaSearchImgRE :: "re list" where
  "aaSearchImgRE = caseless (lit ''<img'' @ many (but ''>'') @ lit ''src='' @ dq @ group 1 (some_of unquoted) @ dq)"

definition aaSearchTitleRE :: "re list" where
  "aaSearchTitleRE = caseless (lit ''<a'' @ many (but ''>'') @ lit ''href='' @ dq @ lit ''/md5/'' @ many unquoted @ dq @ to_end @ few rune @
     lit ''<span'' @ to_end @ group 1 chars @ lit ''</span>'')"

definition aaSearchTitleAltRE :: "re list" where
  "aaSearchTitleAltRE = caseless (lit ''class='' @ dq @ many unquoted @ lit ''js-vim-focus'' @ many unquoted @ dq @ to_end @ group 1 chars @ lit ''<'')"

definition aaSearchAuthorRE :: "re list" where
  "aaSearchAuthorRE = caseless (lit ''search?q=author:'' @ many unquoted @ dq @ to_end @ lit ''<span'' @ to_end @ group 1 chars @ lit ''</span>'')"

definition aaSearchPublisherRE :: "re list" where
  "aaSearchPublisherRE = caseless (lit ''publisher:'' @ many unquoted @ dq @ to_end @ lit ''<span'' @ to_end @ group 1 chars @ lit ''</span>'')"

definition aaYearRE :: "re list" where
  "aaYearRE = [Edge] @ group 1 [Alt (lit ''19'') (lit ''20'')] @ times 2 decimal @ [Edge]"

definition aaISBN13RE :: "re list" where
  "aaISBN13RE = [Edge] @ group 1 (lit ''97'' @ one ''89'' @ times 10 decimal) @ [Edge]"

definition check_digit :: "re list" where
  "check_digit = cls (\<lambda>r. 48 \<le> r \<and> r \<le> 57 \<or> r = 88 \<or> r = 120)"

definition aaISBN10RE :: "re list" where
  "aaISBN10RE = [Edge] @ group 1 (times 9 decimal @ check_digit) @ [Edge]"

definition aaFileFormatRE :: "re list" where
  "aaFileFormatRE = caseless ([Edge] @ group 1 (any_of (aaEbookExtensions @ [''mp3'', ''m4b''])) @ [Edge])"

definition aaLangCodeRE :: "re list" where
  "aaLangCodeRE = caseless (lit ''['' @ group 1 (times 2 (between (CHR ''a'') (CHR ''z''))) @ lit '']'')"

definition aaDetailH1RE :: "re list" where
  "aaDetailH1RE = caseless (lit ''<h1'' @ to_end @ group 1 chars @ lit ''</h1>'')"

definition aaDetailTitleTagRE :: "re list" where
  "aaDetailTitleTagRE = caseless (lit ''<title>'' @ group 1 chars @ lit ''</title>'')"

definition aaDetailCoverRE :: "re list" where
  "aaDetailCoverRE = caseless (lit ''<img'' @ many (but ''>'') @ lit ''src='' @ dq @ group 1 (some_of unquoted) @ dq @ many (but ''>'') @
     lit ''alt='' @ quoted ''cover'')"

text \<open>The text of the tag behind a label.\<close>

definition aa_label :: "re list \<Rightarrow> re list" where
  "aa_label w = w @ lit '':'' @ many blank @ lit ''<'' @ to_end @ group 1 chars @ lit ''<''"

definition aaDetailAuthorRE :: "re list" where "aaDetailAuthorRE = caseless (aa_label (lit ''Author'' @ opt (lit ''s'')))"

definition aaDetailPublisherRE :: "re list" where "aaDetailPublisherRE = caseless (aa_label (lit ''Publisher''))"

definition aaDetailYearRE :: "re list" where
  "aaDetailYearRE = caseless (lit ''Year:'' @ many blank @ group 1 year_digits)"

definition aaDetailISBN13RE :: "re list" where
  "aaDetailISBN13RE = caseless (lit ''ISBN-13:'' @ many blank @ group 1 (times 13 decimal))"

definition aaDetailISBN10RE :: "re list" where
  "aaDetailISBN10RE = caseless (lit ''ISBN-10:'' @ many blank @ group 1 (times 9 decimal @ check_digit))"

definition aaDetailLanguageRE :: "re list" where "aaDetailLanguageRE = caseless (aa_label (lit ''Language''))"

definition aaDetailPagesRE :: "re list" where
  "aaDetailPagesRE = caseless (lit ''Page'' @ opt (lit ''s'') @ lit '':'' @ many blank @ group 1 (some_of decimal))"

definition aaDetailDescRE :: "re list" where
  "aaDetailDescRE = caseless (lit ''<div'' @ many (but ''>'') @ lit ''class='' @ dq @ many unquoted @ lit ''description'' @ many unquoted @ dq @
     to_end @ group 1 (few rune) @ lit ''</div>'')"

definition aaDetailExtensionRE :: "re list" where
  "aaDetailExtensionRE = caseless (lit ''Extension:'' @ many blank @
     group 1 (some_of (cls (\<lambda>r. 97 \<le> r \<and> r \<le> 122 \<or> 48 \<le> r \<and> r \<le> 57))))"

definition aaTagStripRE :: "re list" where "aaTagStripRE = tags_pattern"

definition aaWSRE :: "re list" where "aaWSRE = spaces_pattern"

definition aaNumEntityRE :: "re list" where "aaNumEntityRE = entity_pattern"

definition aaFirstSubmatch :: "re list \<Rightarrow> string \<Rightarrow> string" where "aaFirstSubmatch = FirstSubmatch"

definition aaStripText :: "string \<Rightarrow> string" where
  "aaStripText = StripText aaTagStripRE (DecodeEntities aaNumEntityRE) aaWSRE"

definition aaResolveURL :: "string \<Rightarrow> string \<Rightarrow> string" where
  "aaResolveURL u base = (let u = TrimSpace u in
     if u = [] then []
     else if HasPrefix u ''http://'' \<or> HasPrefix u ''https://'' then u
     else if HasPrefix u ''//'' then (if HasPrefix base ''http://'' then ''http:'' @ u else ''https:'' @ u)
     else if HasPrefix u ''/'' then rev (dropWhile (\<lambda>c. c = slash) (rev base)) @ u
     else u)"

definition known_author :: "uni \<Rightarrow> string \<Rightarrow> string list" where
  "known_author U a = (if a \<noteq> [] \<and> \<not> EqualFold U a ''unknown'' then [a] else [])"

definition find_string :: "re list \<Rightarrow> string \<Rightarrow> string" where
  "find_string p s = (case FindStringSubmatch p s of Some f \<Rightarrow> f 0 | None \<Rightarrow> [])"

subsection \<open>Search page\<close>

definition aa_title :: "string \<Rightarrow> string" where
  "aa_title row = (let t = aaStripText (aaFirstSubmatch aaSearchTitleRE row) in
     if t \<noteq> [] then t else aaStripText (aaFirstSubmatch aaSearchTitleAltRE row))"

text \<open>A detected format that is no ebook.\<close>

definition aa_other_format :: "uni \<Rightarrow> string \<Rightarrow> bool" where
  "aa_other_format U row \<longleftrightarrow> (case FindStringSubmatch aaFileFormatRE row of
     Some f \<Rightarrow> ToLower U (f 1) \<notin> set aaEbookExtensions | None \<Rightarrow> False)"

definition aa_row_isbn :: "string \<Rightarrow> string" where
  "aa_row_isbn row = (case FindStringSubmatch aaISBN13RE row of Some f \<Rightarrow> f 1 | None \<Rightarrow> aaFirstSubmatch aaISBN10RE row)"

definition aa_cover :: "re list \<Rightarrow> string \<Rightarrow> string \<Rightarrow> string" where
  "aa_cover p base s = (let u = aaFirstSubmatch p s in if u \<noteq> [] then aaResolveURL u base else [])"

definition aa_row_candidate :: "uni \<Rightarrow> string \<Rightarrow> string \<Rightarrow> string \<Rightarrow> candidate" where
  "aa_row_candidate U base md5 row = empty_candidate\<lparr>c_external_id := md5, c_title := aa_title row,
     c_authors := known_author U (aaStripText (aaFirstSubmatch aaSearchAuthorRE row)),
     c_publisher := aaStripText (aaFirstSubmatch aaSearchPublisherRE row), c_published_at := find_string aaYearRE row,
     c_isbn := aa_row_isbn row, c_language := ToLower U (aaFirstSubmatch aaLangCodeRE row),
     c_cover_url := aa_cover aaSearchImgRE base row\<rparr>"

fun aa_rows :: "uni \<Rightarrow> string \<Rightarrow> string list \<Rightarrow> string list \<Rightarrow> candidate list" where
  "aa_rows U base seen [] = []"
| "aa_rows U base seen (row # rows) = (case FindStringSubmatch aaMD5HrefRE row of
     None \<Rightarrow> aa_rows U base seen rows
   | Some f \<Rightarrow>
       let md5 = ToLower U (f 1) in
       if md5 \<in> set seen \<or> length (aa_title row) < 2 \<or> aa_other_format U row then aa_rows U base seen rows
       else aa_row_candidate U base md5 row # aa_rows U base (md5 # seen) rows)"

definition parseAnnasArchiveSearchPage :: "uni \<Rightarrow> string \<Rightarrow> string \<Rightarrow> candidate list" where
  "parseAnnasArchiveSearchPage U base s = aa_rows U base [] (FindAllString aaTrRowRE s)"

subsection \<open>Detail page\<close>

text \<open>The title element is cut before the first \<open>-\<close> or \<open>|\<close>, unless it begins with one.\<close>

definition aa_site_title :: "string \<Rightarrow> string" where
  "aa_site_title raw = (let n = length (takeWhile (\<lambda>c. c \<notin> set ''-|'') raw) in
     if 0 < n \<and> n < length raw then TrimSpace (take n raw) else raw)"

definition aa_detail_title :: "string \<Rightarrow> string" where
  "aa_detail_title s = (let t = aaStripText (aaFirstSubmatch aaDetailH1RE s) in
     if t \<noteq> [] then t else aa_site_title (aaStripText (aaFirstSubmatch aaDetailTitleTagRE s)))"

definition aa_year :: "string \<Rightarrow> string" where
  "aa_year s = (case FindStringSubmatch aaDetailYearRE s of Some f \<Rightarrow> f 1 | None \<Rightarrow> find_string aaYearRE s)"

definition aa_detail_isbn :: "string \<Rightarrow> string" where
  "aa_detail_isbn s = (case FindStringSubmatch aaDetailISBN13RE s of Some f \<Rightarrow> f 1 | None \<Rightarrow>
     (case FindStringSubmatch aaISBN13RE s of Some f \<Rightarrow> f 1 | None \<Rightarrow>
       (case FindStringSubmatch aaDetailISBN10RE s of Some f \<Rightarrow> f 1 | None \<Rightarrow> aaFirstSubmatch aaISBN10RE s)))"

definition aa_language :: "uni \<Rightarrow> string \<Rightarrow> string" where
  "aa_language U s = (let l = aaStripText (aaFirstSubmatch aaDetailLanguageRE s) in
     if l \<noteq> [] then take 2 (ToLower U l) else ToLower U (aaFirstSubmatch aaLangCodeRE s))"

definition parseAnnasArchiveDetailPage :: "uni \<Rightarrow> string \<Rightarrow> string \<Rightarrow> candidate option \<times> string" where
  "parseAnnasArchiveDetailPage U base s =
    (if aa_detail_title s = [] then (None, [])
     else (Some (empty_candidate\<lparr>c_title := aa_detail_title s, c_cover_url := aa_cover aaDetailCoverRE base s,
       c_authors := known_author U (aaStripText (aaFirstSubmatch aaDetailAuthorRE s)),
       c_publisher := aaStripText (aaFirstSubmatch aaDetailPublisherRE s), c_published_at := aa_year s,
       c_isbn := aa_detail_isbn s, c_language := aa_language U s,
       c_page_count := (case Option.bind (FindStringSubmatch aaDetailPagesRE s) (\<lambda>f. positive_number (f 1)) of Some n \<Rightarrow> n | None \<Rightarrow> 0),
       c_description := aaStripText (aaFirstSubmatch aaDetailDescRE s)\<rparr>),
      ToLower U (aaFirstSubmatch aaDetailExtensionRE s)))"

definition aa_Get :: "source_env \<Rightarrow> string \<Rightarrow> string \<Rightarrow> string \<Rightarrow> (source_error, candidate option) res" where
  "aa_Get E base i region = (let i = TrimSpace (ToLower (sv_uni E) i) in
     if \<not> MatchString aaMD5RE i then Ok None
     else page_get E (base @ ''/md5/'' @ i) (\<lambda>body. case parseAnnasArchiveDetailPage (sv_uni E) base body of
       (None, ext) \<Rightarrow> None
     | (Some c, ext) \<Rightarrow> if ext \<noteq> [] \<and> ext \<notin> set aaEbookExtensions then None
         else Some (tag annasArchiveID region (raw_body E body) (c\<lparr>c_external_id := i\<rparr>))))"

definition aa_Search :: "source_env \<Rightarrow> string \<Rightarrow> string \<Rightarrow> string \<Rightarrow> (source_error, candidate list) res" where
  "aa_Search E base query region = page_search E (\<lambda>q. base @ ''/search?q='' @ encodeQuery q @ ''&display=table'')
     (\<lambda>body. map (tag annasArchiveID region (raw_body E body)) (parseAnnasArchiveSearchPage (sv_uni E) base body)) query"

definition AnnasArchive :: "source_env \<Rightarrow> string \<Rightarrow> source" where
  "AnnasArchive E base = \<lparr>s_id = annasArchiveID, s_enabled = (\<lambda>f. f annasArchiveID), s_search = aa_Search E base, s_get = aa_Get E base\<rparr>"

end
