(* ===== verification/Douban.thy ===== *)
theory Douban
  imports HtmlText
begin

text \<open>
  \<open>douban.go\<close>: the search page carries a JSON document, the subject page labelled lines. The Chinese labels
  are given by their code points.
\<close>

definition doubanID :: string where "doubanID = ''douban''"

definition dbMaxResults :: nat where "dbMaxResults = 10"

definition dbNumericIDRE :: "re list" where "dbNumericIDRE = Begin # some_of decimal @ [Finish]"

definition dbDataBlockRE :: "re list" where
  "dbDataBlockRE = lit ''window.__DATA__'' @ many blank @ lit ''='' @ many blank @ group 1 (lit ''{'' @ few rune @ lit ''}'') @ lit '';''"

definition dbSubjectIDInURLRE :: "re list" where
  "dbSubjectIDInURLRE = lit ''/subject/'' @ group 1 (some_of decimal) @ lit ''/''"

definition dbTitleRE :: "re list" where
  "dbTitleRE = caseless (lit ''<span'' @ some_of blank @ lit ''property='' @ quoted ''v:itemreviewed'' @ to_end @ group 1 chars @ lit ''</span>'')"

definition dbTitleFallbackRE :: "re list" where
  "dbTitleFallbackRE = caseless (lit ''<title>'' @ many blank @ group 1 (but ''<'' @ few (but ''<'')) @ many blank @ lit ''</title>'')"

definition dbInfoBlockRE :: "re list" where
  "dbInfoBlockRE = caseless (lit ''<div'' @ some_of blank @ lit ''id='' @ quoted ''info'' @ to_end @ group 1 (few rune) @ lit ''</div>'')"

definition colon_rune :: "re list" where "colon_rune = cls (\<lambda>r. r = 58 \<or> r = 65306)"

text \<open>A line with a label, a colon and a value.\<close>

definition db_label :: "re list \<Rightarrow> re list \<Rightarrow> re list" where
  "db_label w p = Begin # many blank @ w @ many blank @ colon_rune @ many blank @ group 1 p @ many blank @ [Finish]"

definition dbInfoAuthorRE :: "re list" where "dbInfoAuthorRE = db_label (runes [20316, 32773]) (dot @ few dot)"

definition dbInfoPublisherRE :: "re list" where "dbInfoPublisherRE = db_label (runes [20986, 29256, 31038]) (dot @ few dot)"

definition dbInfoYearRE :: "re list" where "dbInfoYearRE = db_label (runes [20986, 29256, 24180]) (dot @ few dot)"

definition dbInfoISBNRE :: "re list" where
  "dbInfoISBNRE = db_label (lit ''ISBN'') (some_of (cls (\<lambda>r. 48 \<le> r \<and> r \<le> 57 \<or> r = 88 \<or> r = 120 \<or> r = code (CHR ''-''))))"

definition dbInfoSeriesRE :: "re list" where "dbInfoSeriesRE = db_label (runes [19995, 20070]) (dot @ few dot)"

definition dbAuthorAnchorRE :: "re list" where
  "dbAuthorAnchorRE = caseless (runes [20316, 32773] @ colon_rune @ many blank @
     group 1 (some_of (lit ''<a'' @ to_end @ chars @ lit ''</a>'' @ many blank @ opt (lit ''/'') @ many blank)))"

definition dbAnchorTextRE :: "re list" where
  "dbAnchorTextRE = caseless (lit ''<a'' @ to_end @ group 1 chars @ lit ''</a>'')"

definition dbDescRE :: "re list" where
  "dbDescRE = caseless (lit ''<span'' @ some_of blank @ lit ''class='' @ dq @ lit ''all'' @ some_of blank @ lit ''hidden'' @ dq @ to_end @
     group 1 (few rune) @ lit ''</span>'')"

definition dbDescFallbackRE :: "re list" where
  "dbDescFallbackRE = caseless (lit ''<div'' @ some_of blank @ lit ''class='' @ quoted ''intro'' @ to_end @ group 1 (few rune) @ lit ''</div>'')"

definition dbCoverRE :: "re list" where
  "dbCoverRE = caseless (lit ''<a'' @ some_of (but ''>'') @ lit ''class='' @ quoted ''nbg'' @ to_end @ many blank @ lit ''<img'' @
     some_of (but ''>'') @ lit ''src='' @ dq @ group 1 (some_of unquoted) @ dq)"

definition dbCoverFallbackRE :: "re list" where
  "dbCoverFallbackRE = caseless (lit ''<div'' @ some_of blank @ lit ''id='' @ quoted ''mainpic'' @ to_end @ few rune @ lit ''<img'' @
     some_of (but ''>'') @ lit ''src='' @ dq @ group 1 (some_of unquoted) @ dq)"

definition dbYearExtractRE :: "re list" where "dbYearExtractRE = group 1 year_digits"

definition dbTagStripRE :: "re list" where "dbTagStripRE = tags_pattern"

definition dbWSRE :: "re list" where "dbWSRE = spaces_pattern"

definition dbNumEntityRE :: "re list" where "dbNumEntityRE = entity_pattern"

definition dbFirstSubmatch :: "re list \<Rightarrow> string \<Rightarrow> string" where "dbFirstSubmatch = FirstSubmatch"

definition dbStripText :: "string \<Rightarrow> string" where
  "dbStripText = StripText dbTagStripRE (DecodeEntities dbNumEntityRE) dbWSRE"

subsection \<open>Search page\<close>

record db_item =
  di_title :: string
  di_url :: string
  di_cover :: string
  di_abstract :: string

definition empty_db_item :: db_item where
  "empty_db_item = \<lparr>di_title = [], di_url = [], di_cover = [], di_abstract = []\<rparr>"

definition item_fields :: "db_item fields" where
  "item_fields = [
     (''title'', str_field di_title (\<lambda>x. di_title_update (\<lambda>_. x))), (''url'', str_field di_url (\<lambda>x. di_url_update (\<lambda>_. x))),
     (''cover_url'', str_field di_cover (\<lambda>x. di_cover_update (\<lambda>_. x))),
     (''abstract'', str_field di_abstract (\<lambda>x. di_abstract_update (\<lambda>_. x)))]"

definition dec_items :: "json \<Rightarrow> db_item list option" where
  "dec_items v = dec_struct [(''items'', put_field (dec_list (\<lambda>x. dec_struct item_fields x empty_db_item)) (\<lambda>x r. x))] v []"

definition abstract_parts :: "string \<Rightarrow> string list" where
  "abstract_parts s = filter (\<lambda>p. p \<noteq> []) (map TrimSpace (SplitOn '' / '' s))"

definition db_abstract :: "string \<Rightarrow> candidate \<Rightarrow> candidate" where
  "db_abstract s c =
    (if s = [] then c
     else let ps = abstract_parts s; n = length ps in
       if n \<ge> 4 then c\<lparr>c_authors := take (n - 3) ps, c_publisher := ps ! (n - 3), c_published_at := dbFirstSubmatch dbYearExtractRE (ps ! (n - 2))\<rparr>
       else if n \<ge> 2 then c\<lparr>c_authors := take 1 ps, c_publisher := (if n \<ge> 3 then ps ! 1 else [])\<rparr>
       else c)"

definition db_item_candidate :: "db_item \<Rightarrow> candidate list" where
  "db_item_candidate it =
    (let title = dbStripText (di_title it) in
     if title = [] then []
     else [db_abstract (di_abstract it) (empty_candidate\<lparr>c_title := title, c_cover_url := di_cover it,
       c_external_id := dbFirstSubmatch dbSubjectIDInURLRE (di_url it)\<rparr>)])"

definition parseDoubanSearchPage :: "source_env \<Rightarrow> string \<Rightarrow> candidate list" where
  "parseDoubanSearchPage E html = (case FindStringSubmatch dbDataBlockRE html of
     None \<Rightarrow> []
   | Some f \<Rightarrow> (case Option.bind (sv_json E (f 1)) dec_items of
       None \<Rightarrow> []
     | Some items \<Rightarrow> concat (map db_item_candidate (take dbMaxResults items))))"

subsection \<open>Subject page\<close>

definition br_pattern :: "re list" where
  "br_pattern = caseless (lit ''<br'' @ many blank @ opt (lit ''/'') @ lit ''>'')"

definition dbInfoLinesFrom :: "string \<Rightarrow> string list" where
  "dbInfoLinesFrom infoRaw =
    (if infoRaw = [] then []
     else filter (\<lambda>l. l \<noteq> []) (map dbStripText (SplitOn ''__DB_BR__'' (ReplaceAllString br_pattern infoRaw ''__DB_BR__''))))"

definition douban_suffix :: string where
  "douban_suffix = '' ('' @ rune_string 35910 @ rune_string 29923 @ '')''"

definition db_title :: "string \<Rightarrow> string" where
  "db_title s = (let title = dbStripText (dbFirstSubmatch dbTitleRE s) in
     if title \<noteq> [] then title else TrimSpace (TrimSuffix (dbStripText (dbFirstSubmatch dbTitleFallbackRE s)) douban_suffix))"

definition anchor_authors :: "string \<Rightarrow> string list" where
  "anchor_authors info = (case FindStringSubmatch dbAuthorAnchorRE info of
     None \<Rightarrow> []
   | Some f \<Rightarrow> distinct_names [] (map (\<lambda>a. dbStripText (a 1)) (FindAllStringSubmatch dbAnchorTextRE (f 1))))"

text \<open>The first line with the author label decides.\<close>

fun line_authors :: "string list \<Rightarrow> string list" where
  "line_authors [] = []"
| "line_authors (l # ls) = (case FindStringSubmatch dbInfoAuthorRE l of
     Some f \<Rightarrow> distinct_names [] (map TrimSpace (Split (f 1) slash))
   | None \<Rightarrow> line_authors ls)"

definition db_publisher :: "string \<Rightarrow> candidate \<Rightarrow> candidate" where
  "db_publisher l c = (if c_publisher c = [] then case FindStringSubmatch dbInfoPublisherRE l of
     Some f \<Rightarrow> c\<lparr>c_publisher := TrimSpace (f 1)\<rparr> | None \<Rightarrow> c else c)"

definition db_year :: "string \<Rightarrow> candidate \<Rightarrow> candidate" where
  "db_year l c = (if c_published_at c = [] then case Option.bind (FindStringSubmatch dbInfoYearRE l) (\<lambda>f. FindStringSubmatch dbYearExtractRE (f 1)) of
     Some y \<Rightarrow> c\<lparr>c_published_at := y 1\<rparr> | None \<Rightarrow> c else c)"

definition db_isbn :: "string \<Rightarrow> candidate \<Rightarrow> candidate" where
  "db_isbn l c = (if c_isbn c = [] then case FindStringSubmatch dbInfoISBNRE l of
     Some f \<Rightarrow> c\<lparr>c_isbn := no_dashes (f 1)\<rparr> | None \<Rightarrow> c else c)"

definition db_series :: "string \<Rightarrow> candidate \<Rightarrow> candidate" where
  "db_series l c = (if c_series c = [] then case FindStringSubmatch dbInfoSeriesRE l of
     Some f \<Rightarrow> c\<lparr>c_series := TrimSpace (f 1)\<rparr> | None \<Rightarrow> c else c)"

definition db_line :: "candidate \<Rightarrow> string \<Rightarrow> candidate" where
  "db_line c l = db_series l (db_isbn l (db_year l (db_publisher l c)))"

definition db_description :: "string \<Rightarrow> string" where
  "db_description s = (let d = dbStripText (dbFirstSubmatch dbDescRE s) in
     if d \<noteq> [] then d else dbStripText (dbFirstSubmatch dbDescFallbackRE s))"

definition db_cover :: "string \<Rightarrow> string" where
  "db_cover s = (let u = dbFirstSubmatch dbCoverRE s in if u \<noteq> [] then u else dbFirstSubmatch dbCoverFallbackRE s)"

definition parseDoubanSubjectPage :: "string \<Rightarrow> candidate option" where
  "parseDoubanSubjectPage s =
    (if db_title s = [] then None
     else let info = dbFirstSubmatch dbInfoBlockRE s; ls = dbInfoLinesFrom info; as = anchor_authors info in
       Some (foldl db_line (empty_candidate\<lparr>c_title := db_title s, c_authors := (if as \<noteq> [] then as else line_authors ls)\<rparr>) ls
         \<lparr>c_description := db_description s, c_cover_url := db_cover s\<rparr>))"

definition db_Get :: "source_env \<Rightarrow> string \<Rightarrow> string \<Rightarrow> string \<Rightarrow> (source_error, candidate option) res" where
  "db_Get E base i region = (let i = TrimSpace i in
     if \<not> MatchString dbNumericIDRE i then Ok None
     else page_get E (base @ ''/subject/'' @ i @ ''/'') (\<lambda>body. map_option (\<lambda>c.
       tag doubanID region (raw_body E body) (c\<lparr>c_external_id := i, c_language := ''zh''\<rparr>)) (parseDoubanSubjectPage body)))"

definition db_Search :: "source_env \<Rightarrow> string \<Rightarrow> string \<Rightarrow> string \<Rightarrow> (source_error, candidate list) res" where
  "db_Search E base query region = page_search E (\<lambda>q. base @ ''/subject_search?search_text='' @ encodeQuery q)
     (\<lambda>body. map (\<lambda>c. tag doubanID region (raw_body E body) (c\<lparr>c_language := ''zh''\<rparr>)) (parseDoubanSearchPage E body)) query"

definition Douban :: "source_env \<Rightarrow> string \<Rightarrow> source" where
  "Douban E base = \<lparr>s_id = doubanID, s_enabled = (\<lambda>f. f doubanID), s_search = db_Search E base, s_get = db_Get E base\<rparr>"

end
