(* ===== verification/SourcesHtml.thy ===== *)
theory SourcesHtml
  imports Goodreads Amazon FantasticFiction Isfdb LibraryThing WorldCat AnnasArchive Douban
begin

text \<open>
  The eight HTML adapters together, as \<open>configureMetadata\<close> registers them: where their requests go, what their
  search results look like, and which of them can be looked up again.
\<close>

definition html_source ::
  "source_env \<Rightarrow> (json_map \<Rightarrow> json_map) \<Rightarrow> (json \<Rightarrow> (int \<times> int) option) \<Rightarrow> string \<Rightarrow> source option" where
  "html_source E ord fl i =
    (if i = goodreadsID then Some (Goodreads E ord fl ''https://www.goodreads.com'')
     else if i = amazonID then Some (Amazon E amazonBaseURL)
     else if i = annasArchiveID then Some (AnnasArchive E ''https://annas-archive.org'')
     else if i = fantasticFictionID then Some (FantasticFiction E ''https://www.fantasticfiction.com'')
     else if i = isfdbID then Some (ISFDB E ''https://www.isfdb.org'')
     else if i = libraryThingID then Some (LibraryThing E ''https://www.librarything.com'')
     else if i = worldCatID then Some (WorldCat E ''https://www.worldcat.org'')
     else if i = doubanID then Some (Douban E ''https://book.douban.com'')
     else None)"

lemmas html_ids = goodreadsID_def amazonID_def annasArchiveID_def fantasticFictionID_def isfdbID_def libraryThingID_def worldCatID_def doubanID_def

lemmas html_adapters = Goodreads_def Amazon_def AnnasArchive_def FantasticFiction_def ISFDB_def LibraryThing_def WorldCat_def Douban_def

subsection \<open>Valid identifiers\<close>

lemma valid_numbers:
  "MatchString numericRE s \<longleftrightarrow> number s" "MatchString isNumericIDRE s \<longleftrightarrow> number s" "MatchString dbNumericIDRE s \<longleftrightarrow> number s"
  by (simp_all add: numericRE_def isNumericIDRE_def dbNumericIDRE_def MatchString_digits number_def)

lemma valid_asin: "MatchString asinRE s \<longleftrightarrow> length s = 10 \<and> list_all (\<lambda>x. asin_rune (code x)) s"
  unfolding asinRE_def by (rule MatchString_times) (simp add: ascii_class_def asin_rune_def)

lemma valid_md5: "MatchString aaMD5RE s \<longleftrightarrow> length s = 32 \<and> list_all (\<lambda>x. hex_rune (code x)) s"
  unfolding aaMD5RE_def by (rule MatchString_times) (simp add: ascii_class_def hex_rune_def)

lemma valid_isbn: "MatchString isbn_pattern s \<Longrightarrow> s \<noteq> [] \<and> list_all alnum s"
proof -
  let ?X = "\<lambda>r::nat. 48 \<le> r \<and> r \<le> 57 \<or> r = 88 \<or> r = 120"
  assume "MatchString isbn_pattern s"
  then obtain d h where e: "eats [Alt (times 9 decimal @ cls ?X) (times 13 decimal)] (At None s) [] d h" "behind d = []"
    unfolding isbn_pattern_def MatchString_anchored by blast
  have "list_all (all_runes ?X) [Alt (times 9 decimal @ cls ?X) (times 13 decimal)]"
    by (auto simp: times_def decimal_def between_def cls_def list_all_iff)
  then have "spelled ?X (taken (behind (At None s)) d)" by (rule eats_text [OF e(1)])
  then have "spelled ?X s" using eats_whole [OF e] by simp
  then have "list_all (\<lambda>x. ?X (code x)) s" using ascii_spelled [of ?X s] by (auto simp: ascii_class_def)
  then have "list_all alnum s" by (auto simp: list_all_iff alnum_def is_digit_def is_upper_def is_lower_def)
  moreover have "s \<noteq> []"
  proof
    assume "s = []"
    with e(1) show False
      by (auto simp: times_def decimal_def between_def numeral_eq_Suc elim!: eats_AltE eats_RuneE)
  qed
  ultimately show ?thesis by blast
qed


subsection \<open>What the search pages give\<close>

lemmas strip_defs = ffStripText_def isStripText_def ltStripText_def wcStripText_def dbStripText_def aaStripText_def amStripText_def
  ffWSRE_def isWSRE_def ltWSRE_def wcWSRE_def dbWSRE_def aaWSRE_def amWSRE_def

lemma tidy_strips [simp]:
  "tidy (ffStripText s)" "tidy (isStripText s)" "tidy (ltStripText s)" "tidy (wcStripText s)" "tidy (dbStripText s)"
  "tidy (aaStripText s)" "tidy (amStripText s)"
  by (simp_all add: strip_defs tidy_StripText)

definition year_text :: "string \<Rightarrow> bool" where
  "year_text u \<longleftrightarrow> u = [] \<or> four_digits u"

definition row_ok :: "candidate \<Rightarrow> bool" where
  "row_ok c \<longleftrightarrow> c_title c \<noteq> [] \<and> tidy (c_title c) \<and> year_text (c_published_at c)"

lemma year_submatch: "list_all (groups_ok 1 four_digits) p \<Longrightarrow> Group 1 q \<in> set p \<Longrightarrow> year_text (FirstSubmatch p s)"
  using FirstSubmatch_group [of four_digits p q s] by (simp add: year_text_def)

lemma search_years [simp]:
  "year_text (FirstSubmatch ffYearRE s)" "year_text (FirstSubmatch isYearParenRE s)" "year_text (FirstSubmatch ltYearParenRE s)"
  "year_text (FirstSubmatch wcResultYearRE s)" "year_text (FirstSubmatch dbYearExtractRE s)" "year_text []"
  by (auto intro!: year_submatch simp: ffYearRE_def isYearParenRE_def ltYearParenRE_def wcResultYearRE_def dbYearExtractRE_def)
    (simp add: year_text_def)

lemma length_concat_le: "(\<And>x. x \<in> set xs \<Longrightarrow> length x \<le> 1) \<Longrightarrow> length (concat xs) \<le> length xs"
proof (induction xs)
  case (Cons x xs)
  then have "length x \<le> 1" and "length (concat xs) \<le> length xs" by auto
  then show ?case by simp
qed simp

lemma page_limit: "(\<And>x. length (f x) \<le> 1) \<Longrightarrow> length (concat (map f (take 10 xs))) \<le> 10"
  using length_concat_le [of "map f (take 10 xs)"] by fastforce

lemma ff_row_ok: "length (ff_block b) \<le> 1" "c \<in> set (ff_block b) \<Longrightarrow> row_ok c"
  by (simp_all add: ff_block_def ffFirstSubmatch_def Let_def row_ok_def split: if_splits)

lemma ff_page: "length (parseFantasticFictionSearchPage s) \<le> 10" "c \<in> set (parseFantasticFictionSearchPage s) \<Longrightarrow> row_ok c"
  using ff_row_ok page_limit [of ff_block] by (auto simp: parseFantasticFictionSearchPage_def ffMaxResults_def)

lemma is_row_ok: "length (is_row b) \<le> 1" "c \<in> set (is_row b) \<Longrightarrow> row_ok c"
  by (auto simp: is_row_def isFirstSubmatch_def Let_def row_ok_def split: option.splits if_splits)

lemma is_page: "length (parseISFDBSearchResults s) \<le> 10" "c \<in> set (parseISFDBSearchResults s) \<Longrightarrow> row_ok c"
  using is_row_ok page_limit [of is_row] by (auto simp: parseISFDBSearchResults_def isMaxResults_def)

lemma lt_row_ok: "length (lt_row b) \<le> 1" "c \<in> set (lt_row b) \<Longrightarrow> row_ok c"
  by (auto simp: lt_row_def ltFirstSubmatch_def Let_def row_ok_def split: option.splits if_splits)

lemma lt_page: "length (parseLibraryThingSearchResults s) \<le> 10" "c \<in> set (parseLibraryThingSearchResults s) \<Longrightarrow> row_ok c"
  using lt_row_ok page_limit [of lt_row] by (auto simp: parseLibraryThingSearchResults_def ltMaxResults_def)

lemma wc_row_ok: "length (wc_block b) \<le> 1" "c \<in> set (wc_block b) \<Longrightarrow> row_ok c"
  by (simp_all add: wc_block_def wc_first_def wcFirstSubmatch_def Let_def row_ok_def split: if_splits)

lemma wc_page: "length (parseWorldCatSearchResults s) \<le> 10" "c \<in> set (parseWorldCatSearchResults s) \<Longrightarrow> row_ok c"
  using wc_row_ok page_limit [of wc_block] by (auto simp: parseWorldCatSearchResults_def wcMaxResults_def)

lemma db_abstract_keeps [simp]:
  "c_title (db_abstract a c) = c_title c" "c_external_id (db_abstract a c) = c_external_id c"
  "year_text (c_published_at c) \<Longrightarrow> year_text (c_published_at (db_abstract a c))"
  by (simp_all add: db_abstract_def Let_def dbFirstSubmatch_def)

lemma db_row_ok: "length (db_item_candidate x) \<le> 1" "c \<in> set (db_item_candidate x) \<Longrightarrow> row_ok c"
  by (simp_all add: db_item_candidate_def Let_def row_ok_def empty_candidate_def split: if_splits)

lemma db_page: "length (parseDoubanSearchPage E s) \<le> 10" "c \<in> set (parseDoubanSearchPage E s) \<Longrightarrow> row_ok c"
  using db_row_ok page_limit [of db_item_candidate] by (auto simp: parseDoubanSearchPage_def dbMaxResults_def split: option.splits)

lemma gr_page: "length (parseGoodreadsSearchPage s) \<le> 10" "c \<in> set (parseGoodreadsSearchPage s) \<Longrightarrow> c_title c \<noteq> []"
proof -
  have "length (gr_row a b (fst x) (snd x)) \<le> 1" for a b x by (simp add: gr_row_def Let_def)
  then show "length (parseGoodreadsSearchPage s) \<le> 10"
    unfolding parseGoodreadsSearchPage_def Let_def grMaxResults_def
    by (intro order_trans [OF length_concat_le]) (auto simp: length_enumerate)
  show "c \<in> set (parseGoodreadsSearchPage s) \<Longrightarrow> c_title c \<noteq> []"
    by (auto simp: parseGoodreadsSearchPage_def gr_row_def Let_def split: if_splits)
qed

lemma aa_title_tidy: "tidy (aa_title row)"
  by (simp add: aa_title_def Let_def)

lemma aa_rows_ok: "c \<in> set (aa_rows U b seen rows) \<Longrightarrow> c_title c \<noteq> [] \<and> tidy (c_title c)"
  by (induction U b seen rows rule: aa_rows.induct)
    (auto simp: Let_def aa_row_candidate_def aa_title_tidy split: option.splits if_splits)

lemma am_fields_title [simp]:
  "c_title (bullet_isbn t c) = c_title c" "c_title (bullet_pages t c) = c_title c" "c_title (bullet_language t c) = c_title c"
  "c_title (bullet_date t c) = c_title c" "c_title (bullet_publisher t c) = c_title c"
  by (simp_all add: bullet_isbn_def bullet_pages_def bullet_language_def bullet_date_def bullet_publisher_def split: option.split)

lemma am_bullet_title [simp]: "c_title (am_bullet c t) = c_title c"
  by (simp add: am_bullet_def)

lemma am_bullets_title [simp]: "c_title (foldl am_bullet c ts) = c_title c"
  by (induction ts arbitrary: c) simp_all

lemma am_page: "parseAmazonProductPage s = Some c \<Longrightarrow> c_title c \<noteq> [] \<and> tidy (c_title c)"
  by (auto simp: parseAmazonProductPage_def Let_def split: if_splits)

lemma am_Get_title: "am_Get E b i g = Ok (Some c) \<Longrightarrow> html_tagged amazonID g c \<and> tidy (c_title c)"
  by (auto simp: am_Get_def Let_def page_get_Ok dest!: am_page split: if_splits)


lemma html_cases:
  assumes "html_source E ord fl i = Some s"
  obtains (gr) "i = goodreadsID" "s = Goodreads E ord fl ''https://www.goodreads.com''" | (am) "i = amazonID" "s = Amazon E amazonBaseURL"
  | (aa) "i = annasArchiveID" "s = AnnasArchive E ''https://annas-archive.org''"
  | (ff) "i = fantasticFictionID" "s = FantasticFiction E ''https://www.fantasticfiction.com''"
  | (sf) "i = isfdbID" "s = ISFDB E ''https://www.isfdb.org''"
  | (lt) "i = libraryThingID" "s = LibraryThing E ''https://www.librarything.com''"
  | (wc) "i = worldCatID" "s = WorldCat E ''https://www.worldcat.org''" | (db) "i = doubanID" "s = Douban E ''https://book.douban.com''"
  using assms by (auto simp: html_source_def split: if_splits)

definition html_hit :: "string \<Rightarrow> string \<Rightarrow> candidate \<Rightarrow> bool" where
  "html_hit i g c \<longleftrightarrow> html_tagged i g c \<and> (i \<noteq> goodreadsID \<longrightarrow> tidy (c_title c)) \<and>
     (i \<in> {fantasticFictionID, isfdbID, libraryThingID, worldCatID, doubanID} \<longrightarrow> year_text (c_published_at c))"

lemma row_hit: "row_ok c \<Longrightarrow> html_hit i g (tag i g r c)"
  by (simp add: row_ok_def html_hit_def)

lemma page_hits:
  assumes "page_search E url (\<lambda>body. map (tag i g (raw_body E body)) (parse body)) q = Ok cs"
    and "\<And>body. length (parse body) \<le> 10" and "\<And>body c. c \<in> set (parse body) \<Longrightarrow> row_ok c"
  shows "length cs \<le> 10 \<and> list_all (html_hit i g) cs"
proof -
  consider "cs = []" | body where "cs = map (tag i g (raw_body E body)) (parse body)" using page_search_Ok [OF assms(1)] by blast
  then show ?thesis
  proof cases
    case 2
    have "html_hit i g (tag i g (raw_body E body) c)" if "c \<in> set (parse body)" for c by (rule row_hit [OF assms(3) [OF that]])
    with 2 assms(2) show ?thesis by (simp add: list_all_iff)
  qed simp
qed

lemma html_search_hits:
  assumes "html_source E ord fl i = Some s" and "s_search s q g = Ok cs"
  shows "(i \<noteq> annasArchiveID \<longrightarrow> length cs \<le> 10) \<and> list_all (html_hit i g) cs"
  using assms(1)
proof (cases rule: html_cases)
  case gr
  then have "cs = [] \<or> (\<exists>body. cs = map (tag goodreadsID g (raw_body E body)) (parseGoodreadsSearchPage body))"
    using assms(2) by (auto simp: Goodreads_def gr_Search_def dest!: page_search_Ok)
  then show ?thesis using gr gr_page by (auto simp: list_all_iff html_hit_def html_ids)
next
  case am
  then have "am_Search E amazonBaseURL q g = Ok cs" using assms(2) by (simp add: Amazon_def)
  then have "cs = [] \<or> (\<exists>q' c. cs = [c] \<and> am_Get E amazonBaseURL q' g = Ok (Some c))"
    by (auto simp: am_Search_def Let_def not_found_empty_Ok bind_res_Ok split: if_splits option.splits)
  then show ?thesis using am am_Get_title [of E amazonBaseURL _ g] by (auto simp: html_hit_def html_ids)
next
  case aa
  then have "cs = [] \<or> (\<exists>body. cs = map (tag annasArchiveID g (raw_body E body))
      (parseAnnasArchiveSearchPage (sv_uni E) ''https://annas-archive.org'' body))"
    using assms(2) by (auto simp: AnnasArchive_def aa_Search_def dest!: page_search_Ok)
  then show ?thesis using aa by (auto simp: parseAnnasArchiveSearchPage_def list_all_iff html_hit_def html_ids dest!: aa_rows_ok)
next
  case ff
  then show ?thesis using assms(2) page_hits [OF _ ff_page(1) ff_page(2)] by (simp add: FantasticFiction_def ff_Search_def)
next
  case sf
  then show ?thesis using assms(2) page_hits [OF _ is_page(1) is_page(2)] by (simp add: ISFDB_def is_Search_def)
next
  case lt
  then show ?thesis using assms(2) page_hits [OF _ lt_page(1) lt_page(2)] by (simp add: LibraryThing_def lt_Search_def)
next
  case wc
  then show ?thesis using assms(2) page_hits [OF _ wc_page(1) wc_page(2)] by (simp add: WorldCat_def wc_Search_def)
next
  case db
  then have "page_search E (\<lambda>q. ''https://book.douban.com'' @ ''/subject_search?search_text='' @ encodeQuery q)
      (\<lambda>body. map (tag doubanID g (raw_body E body)) (map (\<lambda>c. c\<lparr>c_language := ''zh''\<rparr>) (parseDoubanSearchPage E body))) q = Ok cs"
    using assms(2) by (simp add: Douban_def db_Search_def comp_def)
  moreover have "length (map (\<lambda>c. c\<lparr>c_language := ''zh''\<rparr>) (parseDoubanSearchPage E body)) \<le> 10" for body
    by (simp add: db_page(1))
  moreover have "row_ok c" if "c \<in> set (map (\<lambda>c. c\<lparr>c_language := ''zh''\<rparr>) (parseDoubanSearchPage E body))" for c body
    using that db_page(2) by (fastforce simp: row_ok_def)
  ultimately have "length cs \<le> 10 \<and> list_all (html_hit doubanID g) cs" by (rule page_hits)
  then show ?thesis using db by simp
qed

text \<open>
  C12. Whatever page comes back, an HTML source (but Annas Archive) returns at most ten hits;
  each carries the id of the source, the region asked for and a title that is not empty, without
  line breaks and double spaces (Goodreads apart), and a year is four digits or empty where the
  source cuts one out.
\<close>

theorem html_search_rows:
  assumes "html_source E ord fl i = Some s" and "s_search s q g = Ok cs"
  shows "(i \<noteq> annasArchiveID \<longrightarrow> length cs \<le> 10) \<and>
    (\<forall>c \<in> set cs. c_source c = i \<and> c_region c = g \<and> c_title c \<noteq> [] \<and> (i \<noteq> goodreadsID \<longrightarrow> tidy (c_title c)) \<and>
      (i \<in> {fantasticFictionID, isfdbID, libraryThingID, worldCatID, doubanID} \<longrightarrow>
        c_published_at c = [] \<or> four_digits (c_published_at c)))"
  using html_search_hits [OF assms] by (auto simp: list_all_iff html_hit_def html_tagged_def year_text_def)


subsection \<open>Where a Get goes\<close>

text \<open>The pages of the sources: the text before and after the identifier.\<close>

definition html_pages :: "string \<Rightarrow> (string \<times> string) list" where
  "html_pages i =
    (if i = goodreadsID then [(''https://www.goodreads.com/book/show/'', [])]
     else if i = amazonID then map (\<lambda>h. (snd h @ ''/dp/'', [])) amazon_hosts
     else if i = annasArchiveID then [(''https://annas-archive.org/md5/'', [])]
     else if i = isfdbID then [(''https://www.isfdb.org/cgi-bin/title.cgi?'', [])]
     else if i = libraryThingID then [(''https://www.librarything.com/isbn/'', [])]
     else if i = worldCatID then [(''https://www.worldcat.org/isbn/'', [])]
     else if i = doubanID then [(''https://book.douban.com/subject/'', ''/'')]
     else [])"

definition asks_page :: "source_env \<Rightarrow> string \<Rightarrow> string \<Rightarrow> (source_error, candidate option) res \<Rightarrow> bool" where
  "asks_page E i m r \<longleftrightarrow> (\<exists>p \<in> set (html_pages i). asks E (fst p @ m @ snd p) r)"

lemma amazon_host: "amazonHostFor U amazonBaseURL g \<in> snd ` set amazon_hosts"
proof (cases "map_of amazon_hosts (ToLower U g)")
  case None
  then show ?thesis by (simp add: amazonHostFor_def) (simp add: amazon_hosts_def)
next
  case (Some h)
  from map_of_SomeD [OF this] have "h \<in> snd ` set amazon_hosts" by force
  with Some show ?thesis by (simp add: amazonHostFor_def)
qed

lemma asks_page_known:
  assumes "(h, t) \<in> set (html_pages i)"
  shows "asks_page E i m (page_get E (h @ m @ t) parse)"
  unfolding asks_page_def by (rule bexI [OF _ assms]) (simp add: page_get_asks)

lemma known_pages:
  "(''https://www.goodreads.com/book/show/'', []) \<in> set (html_pages goodreadsID)"
  "(''https://annas-archive.org/md5/'', []) \<in> set (html_pages annasArchiveID)"
  "(''https://www.isfdb.org/cgi-bin/title.cgi?'', []) \<in> set (html_pages isfdbID)"
  "(''https://www.librarything.com/isbn/'', []) \<in> set (html_pages libraryThingID)"
  "(''https://www.worldcat.org/isbn/'', []) \<in> set (html_pages worldCatID)"
  "(''https://book.douban.com/subject/'', ''/'') \<in> set (html_pages doubanID)"
  by (simp_all add: html_pages_def html_ids)

lemma amazon_page: "(amazonHostFor U amazonBaseURL g @ ''/dp/'', []) \<in> set (html_pages amazonID)"
  using amazon_host [of U g] by (auto simp: html_pages_def) (simp add: html_ids)

text \<open>A Get with a valid identifier.\<close>

lemma gr_Get_asks: "number (TrimSpace n) \<Longrightarrow> asks_page E goodreadsID (TrimSpace n) (gr_Get E ord fl ''https://www.goodreads.com'' n g)"
  using asks_page_known [OF known_pages(1), of E "TrimSpace n"] by (simp add: gr_Get_def Let_def valid_numbers)

lemma is_Get_asks: "number (TrimSpace n) \<Longrightarrow> asks_page E isfdbID (TrimSpace n) (is_Get E ''https://www.isfdb.org'' n g)"
  using asks_page_known [OF known_pages(3), of E "TrimSpace n"] by (simp add: is_Get_def Let_def valid_numbers)

lemma db_Get_asks: "number (TrimSpace n) \<Longrightarrow> asks_page E doubanID (TrimSpace n) (db_Get E ''https://book.douban.com'' n g)"
  using asks_page_known [OF known_pages(6), of E "TrimSpace n"] by (simp add: db_Get_def Let_def valid_numbers)

lemma am_Get_asks: "MatchString asinRE (TrimSpace n) \<Longrightarrow> asks_page E amazonID (TrimSpace n) (am_Get E amazonBaseURL n g)"
  using asks_page_known [OF amazon_page, of E "TrimSpace n"] by (simp add: am_Get_def Let_def)

lemma aa_Get_asks:
  "MatchString aaMD5RE (TrimSpace (ToLower (sv_uni E) n)) \<Longrightarrow>
     asks_page E annasArchiveID (TrimSpace (ToLower (sv_uni E) n)) (aa_Get E ''https://annas-archive.org'' n g)"
  using asks_page_known [OF known_pages(2), of E "TrimSpace (ToLower (sv_uni E) n)"] by (simp add: aa_Get_def Let_def)

lemma lt_Get_asks:
  "MatchString isbn_pattern (no_dashes (TrimSpace n)) \<Longrightarrow> asks_page E libraryThingID (no_dashes (TrimSpace n)) (lt_Get E ''https://www.librarything.com'' n g)"
  using asks_page_known [OF known_pages(4), of E "no_dashes (TrimSpace n)"] by (simp add: lt_Get_def Let_def ltISBNRE_def)

lemma wc_Get_asks:
  "MatchString isbn_pattern (no_dashes (TrimSpace n)) \<Longrightarrow> asks_page E worldCatID (no_dashes (TrimSpace n)) (wc_Get E ''https://www.worldcat.org'' n g)"
  using asks_page_known [OF known_pages(5), of E "no_dashes (TrimSpace n)"] by (simp add: wc_Get_def Let_def wcISBNRE_def)

lemma asin_alnum: "MatchString asinRE m \<Longrightarrow> m \<noteq> [] \<and> list_all alnum m"
  by (auto simp: valid_asin list_all_iff asin_rune_def alnum_def is_digit_def is_upper_def is_lower_def)

lemma md5_alnum: "MatchString aaMD5RE m \<Longrightarrow> m \<noteq> [] \<and> list_all alnum m"
  by (auto simp: valid_md5 list_all_iff hex_rune_def alnum_def is_digit_def is_upper_def is_lower_def)

lemma number_named: "number m \<Longrightarrow> m \<noteq> [] \<and> list_all alnum m"
  by (simp add: number_alnum) (simp add: number_def)

text \<open>
  A lookup as a function of the network. \<open>reads_page\<close>: whatever the network, it is one page asked for and cut up
  by one parser.
\<close>

definition html_lookup ::
  "source_env \<Rightarrow> (json_map \<Rightarrow> json_map) \<Rightarrow> (json \<Rightarrow> (int \<times> int) option) \<Rightarrow> string \<Rightarrow> string \<Rightarrow> string \<Rightarrow>
    (http_call \<Rightarrow> http_reply) \<Rightarrow> (source_error, candidate option) res option" where
  "html_lookup E ord fl i n g w = map_option (\<lambda>s. s_get s n g) (html_source (E\<lparr>sv_http := w\<rparr>) ord fl i)"

definition reads_page :: "source_env \<Rightarrow> string \<Rightarrow> string \<Rightarrow> ((http_call \<Rightarrow> http_reply) \<Rightarrow> (source_error, candidate option) res option) \<Rightarrow> bool" where
  "reads_page E i m f \<longleftrightarrow> (\<exists>(h, t) \<in> set (html_pages i). \<exists>parse. \<forall>w. f w = Some (page_get (E\<lparr>sv_http := w\<rparr>) (h @ m @ t) parse))"

lemma reads_page_known:
  "(h, t) \<in> set (html_pages i) \<Longrightarrow> (\<And>w. f w = Some (page_get (E\<lparr>sv_http := w\<rparr>) (h @ m @ t) parse)) \<Longrightarrow> reads_page E i m f"
  unfolding reads_page_def by blast

lemma raw_body_network [simp]: "raw_body (E\<lparr>sv_http := w\<rparr>) body = raw_body E body"
  by (simp add: raw_body_def)

lemma book_block_network: "book_block (E\<lparr>sv_http := w\<rparr>) fs = book_block E fs"
  by (induction fs) (simp_all split: option.split json.split)

lemma next_data_network: "parseGoodreadsNextData (E\<lparr>sv_http := w\<rparr>) ord fl html = parseGoodreadsNextData E ord fl html"
  by (simp add: parseGoodreadsNextData_def split: option.split)

lemma goodreads_network [simp]: "parseGoodreadsBookPage (E\<lparr>sv_http := w\<rparr>) ord fl = parseGoodreadsBookPage E ord fl"
  by (intro ext) (simp add: parseGoodreadsBookPage_def parseGoodreadsJSONLD_def book_block_network next_data_network cong: option.case_cong)

lemma aa_Get_network: "aa_Get (E\<lparr>sv_http := w\<rparr>) base n g = (let m = TrimSpace (ToLower (sv_uni E) n) in
    if \<not> MatchString aaMD5RE m then Ok None
    else page_get (E\<lparr>sv_http := w\<rparr>) (base @ ''/md5/'' @ m) (\<lambda>body. case parseAnnasArchiveDetailPage (sv_uni E) base body of
       (None, ext) \<Rightarrow> None
     | (Some c, ext) \<Rightarrow> if ext \<noteq> [] \<and> ext \<notin> set aaEbookExtensions then None
         else Some (tag annasArchiveID g (raw_body E body) (c\<lparr>c_external_id := m\<rparr>))))"
proof -
  have "(case p of (None, ext) \<Rightarrow> None
      | (Some c, ext) \<Rightarrow> if ext \<noteq> [] \<and> ext \<notin> set aaEbookExtensions then None
         else Some (tag annasArchiveID g (raw_body (E\<lparr>sv_http := w\<rparr>) body) (c\<lparr>c_external_id := m\<rparr>))) =
    (case p of (None, ext) \<Rightarrow> None
      | (Some c, ext) \<Rightarrow> if ext \<noteq> [] \<and> ext \<notin> set aaEbookExtensions then None
         else Some (tag annasArchiveID g (raw_body E body) (c\<lparr>c_external_id := m\<rparr>)))" for p body m
    by (cases p) (auto split: option.split)
  then show ?thesis by (simp add: aa_Get_def Let_def)
qed

lemma html_lookup_cases:
  "html_lookup E ord fl goodreadsID n g w = Some (gr_Get (E\<lparr>sv_http := w\<rparr>) ord fl ''https://www.goodreads.com'' n g)"
  "html_lookup E ord fl amazonID n g w = Some (am_Get (E\<lparr>sv_http := w\<rparr>) amazonBaseURL n g)"
  "html_lookup E ord fl annasArchiveID n g w = Some (aa_Get (E\<lparr>sv_http := w\<rparr>) ''https://annas-archive.org'' n g)"
  "html_lookup E ord fl fantasticFictionID n g w = Some (ff_Get n g)"
  "html_lookup E ord fl isfdbID n g w = Some (is_Get (E\<lparr>sv_http := w\<rparr>) ''https://www.isfdb.org'' n g)"
  "html_lookup E ord fl libraryThingID n g w = Some (lt_Get (E\<lparr>sv_http := w\<rparr>) ''https://www.librarything.com'' n g)"
  "html_lookup E ord fl worldCatID n g w = Some (wc_Get (E\<lparr>sv_http := w\<rparr>) ''https://www.worldcat.org'' n g)"
  "html_lookup E ord fl doubanID n g w = Some (db_Get (E\<lparr>sv_http := w\<rparr>) ''https://book.douban.com'' n g)"
  by (simp_all add: html_lookup_def html_source_def html_adapters) (simp_all add: html_ids)

lemma html_get_reads:
  assumes "html_source E ord fl i = Some s"
  shows "(\<forall>w. html_lookup E ord fl i n g w = Some (Ok None)) \<or>
    (\<exists>m. m \<noteq> [] \<and> list_all alnum m \<and> reads_page E i m (html_lookup E ord fl i n g))"
  using assms
proof (cases rule: html_cases)
  case gr
  then show ?thesis using number_named [of "TrimSpace n"]
    by (cases "number (TrimSpace n)")
      (auto simp: html_lookup_cases gr_Get_def Let_def valid_numbers intro!: exI [of _ "TrimSpace n"] reads_page_known [OF known_pages(1)])
next
  case am
  then show ?thesis using asin_alnum [of "TrimSpace n"]
    by (cases "MatchString asinRE (TrimSpace n)")
      (auto simp: html_lookup_cases am_Get_def Let_def intro!: exI [of _ "TrimSpace n"] reads_page_known [OF amazon_page])
next
  case aa
  let ?m = "TrimSpace (ToLower (sv_uni E) n)"
  show ?thesis using md5_alnum [of ?m] aa
    by (cases "MatchString aaMD5RE ?m")
      (auto simp: html_lookup_cases aa_Get_network Let_def intro!: exI [of _ ?m] reads_page_known [OF known_pages(2)])
next
  case ff
  then show ?thesis by (simp add: html_lookup_cases ff_Get_def)
next
  case sf
  then show ?thesis using number_named [of "TrimSpace n"]
    by (cases "number (TrimSpace n)")
      (auto simp: html_lookup_cases is_Get_def Let_def valid_numbers intro!: exI [of _ "TrimSpace n"] reads_page_known [OF known_pages(3)])
next
  case lt
  let ?m = "no_dashes (TrimSpace n)"
  show ?thesis using valid_isbn [of ?m] lt
    by (cases "MatchString isbn_pattern ?m")
      (auto simp: html_lookup_cases lt_Get_def ltISBNRE_def Let_def intro!: exI [of _ ?m] reads_page_known [OF known_pages(4)])
next
  case wc
  let ?m = "no_dashes (TrimSpace n)"
  show ?thesis using valid_isbn [of ?m] wc
    by (cases "MatchString isbn_pattern ?m")
      (auto simp: html_lookup_cases wc_Get_def wcISBNRE_def Let_def intro!: exI [of _ ?m] reads_page_known [OF known_pages(5)])
next
  case db
  then show ?thesis using number_named [of "TrimSpace n"]
    by (cases "number (TrimSpace n)")
      (auto simp: html_lookup_cases db_Get_def Let_def valid_numbers intro!: exI [of _ "TrimSpace n"] reads_page_known [OF known_pages(6)])
qed

lemma html_lookup_now: "html_source E ord fl i = Some s \<Longrightarrow> html_lookup E ord fl i n g (sv_http E) = Some (s_get s n g)"
  by (simp add: html_lookup_def)

lemma html_get_page:
  assumes "html_source E ord fl i = Some s" and "s_get s n g \<noteq> Ok None"
  shows "\<exists>m. m \<noteq> [] \<and> list_all alnum m \<and> asks_page E i m (s_get s n g)"
proof -
  have "\<not> (\<forall>w. html_lookup E ord fl i n g w = Some (Ok None))" using html_lookup_now [OF assms(1), of n g] assms(2) by (metis option.inject)
  then obtain m where m: "m \<noteq> []" "list_all alnum m" "reads_page E i m (html_lookup E ord fl i n g)"
    using html_get_reads [OF assms(1), of n g] by blast
  then obtain h t parse where "(h, t) \<in> set (html_pages i)" and
      r: "html_lookup E ord fl i n g w = Some (page_get (E\<lparr>sv_http := w\<rparr>) (h @ m @ t) parse)" for w
    unfolding reads_page_def by blast
  with asks_page_known [OF this(1), of E m parse] m(1,2) r [of "sv_http E"] html_lookup_now [OF assms(1), of n g] show ?thesis by auto
qed

text \<open>The request for a page.\<close>

definition page_call :: "source_env \<Rightarrow> string \<Rightarrow> http_call" where
  "page_call E url = \<lparr>hc_method = ''GET'', hc_url = url, hc_headers = ua_header E, hc_body = None\<rparr>"

lemma transport_network: "transport_error (E\<lparr>sv_http := w\<rparr>) V u e = transport_error E V u e"
  by (cases e) (simp_all add: transport_error_def)

lemma GetJSON_network: "GetJSON (E\<lparr>sv_http := w\<rparr>) url =
    answer_body (E\<lparr>sv_http := (\<lambda>c. w (page_call E url))\<rparr>) ''GET'' ''Get'' redactURL (page_call E url)"
  by (simp add: GetJSON_def GetJSONWithHeaders_def answer_body_def page_call_def ua_header_def transport_network split: http_reply.split)

lemma page_get_network:
  "w (page_call E url) = w' (page_call E url) \<Longrightarrow>
    page_get (E\<lparr>sv_http := w\<rparr>) url parse = page_get (E\<lparr>sv_http := w'\<rparr>) url parse"
  by (simp add: page_get_def GetJSON_network)

text \<open>
  C9. A lookup at an HTML source, seen as a function of the network, takes one of two forms: it
  returns nothing whatever the network answers, or there is one page address of this very source
  (for Amazon on one of its national hosts, whatever the region setting says; none for Fantastic
  Fiction) with a non-empty identifier of letters and digits in it, such that the answer to the
  plain GET of this page decides the result: two networks that agree on this one request give
  the same result, a failure of the request is the result, and any page gives a candidate or not
  found. No other request can influence it.
\<close>

theorem html_get_confined:
  assumes "html_source E ord fl i = Some s"
  shows "html_lookup E ord fl i n g (sv_http E) = Some (s_get s n g) \<and>
    ((\<forall>w. html_lookup E ord fl i n g w = Some (Ok None)) \<or>
     (\<exists>(h, t) \<in> set (html_pages i). \<exists>m. m \<noteq> [] \<and> list_all alnum m \<and>
        (\<forall>w. \<exists>r. html_lookup E ord fl i n g w = Some r \<and> asks (E\<lparr>sv_http := w\<rparr>) (h @ m @ t) r) \<and>
        (\<forall>w w'. w (page_call E (h @ m @ t)) = w' (page_call E (h @ m @ t)) \<longrightarrow>
           html_lookup E ord fl i n g w = html_lookup E ord fl i n g w')))"
  using html_get_reads [OF assms, of n g]
proof
  assume "\<exists>m. m \<noteq> [] \<and> list_all alnum m \<and> reads_page E i m (html_lookup E ord fl i n g)"
  then obtain m h t parse where p: "m \<noteq> []" "list_all alnum m" "(h, t) \<in> set (html_pages i)" and
      r: "html_lookup E ord fl i n g w = Some (page_get (E\<lparr>sv_http := w\<rparr>) (h @ m @ t) parse)" for w
    unfolding reads_page_def by blast
  have "\<forall>w w'. w (page_call E (h @ m @ t)) = w' (page_call E (h @ m @ t)) \<longrightarrow>
      html_lookup E ord fl i n g w = html_lookup E ord fl i n g w'"
    unfolding r option.inject by (intro allI impI page_get_network)
  moreover have "\<forall>w. \<exists>x. html_lookup E ord fl i n g w = Some x \<and> asks (E\<lparr>sv_http := w\<rparr>) (h @ m @ t) x"
    using page_get_asks by (simp add: r)
  ultimately show ?thesis using html_lookup_now [OF assms] p by blast
qed (use html_lookup_now [OF assms] in blast)

end
