(* ===== verification/HtmlLookup.thy ===== *)
theory HtmlLookup
  imports SourcesHtml
begin

text \<open>
  What becomes of a search hit of an HTML adapter: whether its identifier can be looked up again
  (\<open>GetMetadata\<close> and the ISBN cascade of the worker call \<open>Get\<close>), and whether the aggregator can cache it.
\<close>

subsection \<open>Identifiers of search hits\<close>

lemma id_groups [simp]:
  "list_all (groups_ok 1 number) grSearchRowRE" "list_all (groups_ok 1 number) isTitleLinkRE" "list_all (groups_ok 1 number) dbSubjectIDInURLRE"
  by (simp_all add: grSearchRowRE_def isTitleLinkRE_def dbSubjectIDInURLRE_def)

lemma gr_row_id: "c \<in> set (gr_row as ms i tm) \<Longrightarrow> c_external_id c = TrimSpace (tm 1)"
  by (simp add: gr_row_def Let_def split: if_splits)

lemma gr_hit_number: "c \<in> set (parseGoodreadsSearchPage s) \<Longrightarrow> number (c_external_id c)"
proof -
  assume "c \<in> set (parseGoodreadsSearchPage s)"
  then obtain x as ms where x: "x \<in> set (enumerate 0 (take grMaxResults (FindAllStringSubmatch grSearchRowRE s)))"
    and c: "c \<in> set (gr_row as ms (fst x) (snd x))" unfolding parseGoodreadsSearchPage_def Let_def by auto
  from x have f: "snd x \<in> set (FindAllStringSubmatch grSearchRowRE s)"
    by (metis enumerate_eq_zip in_set_takeD prod.collapse set_zip_rightD)
  have "number (snd x 1)"
    by (rule FindAllStringSubmatch_group [OF f id_groups(1), where q = "some_of (caseless decimal)"]) (simp_all add: grSearchRowRE_def)
  with gr_row_id [OF c] show ?thesis by (simp add: TrimSpace_alnum [OF number_alnum])
qed

lemma is_row_number: "c \<in> set (is_row row) \<Longrightarrow> number (c_external_id c)"
proof (cases "FindStringSubmatch isTitleLinkRE row")
  case (Some f)
  have "number (f 1)"
    by (rule FindStringSubmatch_group [OF Some id_groups(2), where q = "some_of (caseless decimal)"]) (simp_all add: isTitleLinkRE_def)
  moreover assume "c \<in> set (is_row row)"
  ultimately show ?thesis using Some by (simp add: is_row_def split: if_splits)
qed (simp add: is_row_def)

lemma is_hit_number: "c \<in> set (parseISFDBSearchResults s) \<Longrightarrow> number (c_external_id c)"
  using is_row_number by (auto simp: parseISFDBSearchResults_def)

lemma db_id: "dbFirstSubmatch dbSubjectIDInURLRE u = [] \<or> number (dbFirstSubmatch dbSubjectIDInURLRE u)"
  unfolding dbFirstSubmatch_def
  by (rule FirstSubmatch_group [OF id_groups(3), where q = "some_of decimal"]) (simp add: dbSubjectIDInURLRE_def)

lemma db_item_id: "c \<in> set (db_item_candidate it) \<Longrightarrow> c_external_id c = [] \<or> number (c_external_id c)"
  using db_id [of "di_url it"] by (auto simp: db_item_candidate_def Let_def split: if_splits)

lemma db_hit_number: "c \<in> set (parseDoubanSearchPage E s) \<Longrightarrow> c_external_id c = [] \<or> number (c_external_id c)"
  using db_item_id by (fastforce simp: parseDoubanSearchPage_def split: option.splits)

definition md5_text :: "string \<Rightarrow> bool" where
  "md5_text u \<longleftrightarrow> length u = 32 \<and> list_all (\<lambda>x. hex_rune (code x)) u"

lemma hex_class: "ascii_class hex_rune"
  by (simp add: ascii_class_def hex_rune_def)

lemma md5_groups [simp]: "list_all (groups_ok 1 md5_text) aaMD5HrefRE"
proof -
  have "list_all (groups_ok 1 md5_text) (group 1 (times 32 [Rune hex_rune]))"
    using eats_times_text [OF hex_class, of 32] by (auto simp: group_ok md5_text_def)
  then show ?thesis by (simp add: aaMD5HrefRE_def)
qed

lemma md5_lower: "md5_text u \<Longrightarrow> ToLower U u = u"
proof -
  assume u: "md5_text u"
  then have "is_ascii u" "\<forall>x \<in> set u. lower_byte x = x"
    by (auto simp: md5_text_def list_all_iff is_ascii_def hex_rune_def lower_byte_def is_upper_def)
  then show ?thesis by (simp add: ToLower_def map_idI)
qed

lemma aa_hit_md5: "c \<in> set (aa_rows U b seen rows) \<Longrightarrow> md5_text (c_external_id c)"
proof (induction rows arbitrary: seen)
  case (Cons row rows)
  show ?case
  proof (cases "FindStringSubmatch aaMD5HrefRE row")
    case None
    with Cons show ?thesis by simp
  next
    case (Some f)
    have m: "md5_text (f 1)"
      by (rule FindStringSubmatch_group [OF Some md5_groups, where q = "times 32 [Rune hex_rune]"]) (simp_all add: aaMD5HrefRE_def)
    from Cons.prems Some consider "c \<in> set (aa_rows U b seen rows)" | "c = aa_row_candidate U b (ToLower U (f 1)) row"
      | "c \<in> set (aa_rows U b (ToLower U (f 1) # seen) rows)" by (auto simp: Let_def split: if_splits)
    then show ?thesis using Cons.IH m by cases (auto simp: aa_row_candidate_def md5_lower)
  qed
qed simp

lemma md5_named: "md5_text m \<Longrightarrow> MatchString aaMD5RE m \<and> TrimSpace m = m"
  using TrimSpace_alnum md5_alnum [of m] by (simp add: valid_md5 md5_text_def)

lemma number_kept: "number m \<Longrightarrow> TrimSpace m = m"
  by (rule TrimSpace_alnum [OF number_alnum])

lemma am_fields_id [simp]:
  "c_external_id (bullet_isbn t c) = c_external_id c" "c_external_id (bullet_pages t c) = c_external_id c"
  "c_external_id (bullet_language t c) = c_external_id c" "c_external_id (bullet_date t c) = c_external_id c"
  "c_external_id (bullet_publisher t c) = c_external_id c"
  by (simp_all add: bullet_isbn_def bullet_pages_def bullet_language_def bullet_date_def bullet_publisher_def split: option.split)

lemma am_bullets_id [simp]: "c_external_id (foldl am_bullet c ts) = c_external_id c"
  by (induction ts arbitrary: c) (simp_all add: am_bullet_def)

lemma am_page_id: "parseAmazonProductPage s = Some c \<Longrightarrow> c_external_id c = []"
  by (auto simp: parseAmazonProductPage_def Let_def empty_candidate_def split: if_splits)

lemma am_hit_asin: "am_Get E b i g = Ok (Some c) \<Longrightarrow> MatchString asinRE (c_external_id c)"
proof (cases "MatchString asinRE (TrimSpace i)")
  case True
  assume "am_Get E b i g = Ok (Some c)"
  then obtain body z where "parseAmazonProductPage body = Some z"
    "c = tag amazonID g (raw_body E body) (let d = z\<lparr>c_asin := TrimSpace i\<rparr> in
       if c_external_id d = [] then d\<lparr>c_external_id := TrimSpace i\<rparr> else d)"
    using True unfolding am_Get_def Let_def by (simp add: page_get_Ok) blast
  with am_page_id True show ?thesis by (simp add: Let_def)
qed (simp add: am_Get_def Let_def)

lemma asin_kept: "MatchString asinRE m \<Longrightarrow> TrimSpace m = m"
  using asin_alnum [of m] TrimSpace_alnum by blast

text \<open>A hit without an identifier, or one whose Get asks for the page of exactly this identifier.\<close>

definition leads_back :: "source_env \<Rightarrow> string \<Rightarrow> source \<Rightarrow> string \<Rightarrow> candidate \<Rightarrow> bool" where
  "leads_back E i s g c \<longleftrightarrow> asks_page E i (c_external_id c) (s_get s (c_external_id c) g)"

lemma html_hit_leads_back:
  assumes "html_source E ord fl i = Some s" and "s_search s q g = Ok cs" and "c \<in> set cs"
  shows "if i \<in> {fantasticFictionID, libraryThingID, worldCatID} then c_external_id c = []
    else (i = doubanID \<and> c_external_id c = []) \<or> leads_back E i s g' c"
  using assms(1)
proof (cases rule: html_cases)
  case gr
  then obtain body where "c \<in> tag goodreadsID g (raw_body E body) ` set (parseGoodreadsSearchPage body)"
    using assms(2,3) by (auto simp: Goodreads_def gr_Search_def dest!: page_search_Ok)
  then have n: "number (c_external_id c)" using gr_hit_number by auto
  have "leads_back E i s g' c" using gr_Get_asks [of "c_external_id c" E ord fl g'] n number_kept [OF n] gr
    by (simp add: leads_back_def Goodreads_def)
  then show ?thesis using gr(1) by (simp add: html_ids)
next
  case am
  then have "am_Search E amazonBaseURL q g = Ok cs" using assms(2) by (simp add: Amazon_def)
  then obtain q' where "am_Get E amazonBaseURL q' g = Ok (Some c)"
    using assms(3) by (auto simp: am_Search_def Let_def not_found_empty_Ok bind_res_Ok split: if_splits option.splits)
  note m = am_hit_asin [OF this]
  have "leads_back E i s g' c" using am_Get_asks [of "c_external_id c" E g'] m asin_kept [OF m] am
    by (simp add: leads_back_def Amazon_def)
  then show ?thesis using am(1) by (simp add: html_ids)
next
  case aa
  then obtain body where "c \<in> tag annasArchiveID g (raw_body E body) ` set (aa_rows (sv_uni E) ''https://annas-archive.org'' [] (FindAllString aaTrRowRE body))"
    using assms(2,3) by (auto simp: AnnasArchive_def aa_Search_def parseAnnasArchiveSearchPage_def dest!: page_search_Ok)
  then have m: "md5_text (c_external_id c)" using aa_hit_md5 by auto
  have "leads_back E i s g' c" using aa_Get_asks [of E "c_external_id c" g'] md5_named [OF m] md5_lower [OF m] aa
    by (simp add: leads_back_def AnnasArchive_def)
  then show ?thesis using aa(1) by (simp add: html_ids)
next
  case ff
  then show ?thesis using assms(2,3)
    by (auto simp: FantasticFiction_def ff_Search_def parseFantasticFictionSearchPage_def ff_block_def Let_def empty_candidate_def
        dest!: page_search_Ok split: if_splits)
next
  case sf
  then obtain body where "c \<in> tag isfdbID g (raw_body E body) ` set (parseISFDBSearchResults body)"
    using assms(2,3) by (auto simp: ISFDB_def is_Search_def dest!: page_search_Ok)
  then have n: "number (c_external_id c)" using is_hit_number by auto
  have "leads_back E i s g' c" using is_Get_asks [of "c_external_id c" E g'] n number_kept [OF n] sf
    by (simp add: leads_back_def ISFDB_def)
  then show ?thesis using sf(1) by (simp add: html_ids)
next
  case lt
  then show ?thesis using assms(2,3)
    by (auto simp: LibraryThing_def lt_Search_def parseLibraryThingSearchResults_def lt_row_def Let_def empty_candidate_def
        dest!: page_search_Ok split: if_splits option.splits)
next
  case wc
  then show ?thesis using assms(2,3)
    by (auto simp: WorldCat_def wc_Search_def parseWorldCatSearchResults_def wc_block_def Let_def empty_candidate_def
        dest!: page_search_Ok split: if_splits)
next
  case db
  then obtain body d where "d \<in> set (parseDoubanSearchPage E body)" "c_external_id c = c_external_id d"
    using assms(2,3) by (auto simp: Douban_def db_Search_def dest!: page_search_Ok)
  then have "c_external_id c = [] \<or> number (c_external_id c)" using db_hit_number by auto
  moreover have "leads_back E i s g' c" if n: "number (c_external_id c)"
    using db_Get_asks [of "c_external_id c" E g'] n number_kept [OF n] db by (simp add: leads_back_def Douban_def)
  ultimately show ?thesis using db(1) by (auto simp: html_ids)
qed

text \<open>
  C10. Every search hit of Goodreads, Amazon, Annas Archive and ISFDB, and every Douban hit with
  an identifier, carries an identifier that the Get of its source accepts as it is; the hits of
  Fantastic Fiction, LibraryThing and WorldCat carry none.
\<close>

theorem html_hits_fetchable:
  assumes "html_source E ord fl i = Some s" and "s_search s q g = Ok cs" and "c \<in> set cs"
  shows "if i \<in> {fantasticFictionID, libraryThingID, worldCatID} then c_external_id c = []
    else i = doubanID \<and> c_external_id c = [] \<or>
      (\<exists>(h, t) \<in> set (html_pages i). asks E (h @ c_external_id c @ t) (s_get s (c_external_id c) g'))"
  using html_hit_leads_back [OF assms, of g'] unfolding leads_back_def asks_page_def split_beta .


subsection \<open>The raw page of a hit\<close>

definition from_page :: "source_env \<Rightarrow> candidate \<Rightarrow> bool" where
  "from_page E c \<longleftrightarrow> (\<exists>url body. GetJSON E url = Ok body \<and> c_raw c = raw_body E body)"

lemma from_pageI: "GetJSON E url = Ok body \<Longrightarrow> c_raw c = raw_body E body \<Longrightarrow> from_page E c"
  unfolding from_page_def by blast

lemma page_search_raw:
  "page_search E url (\<lambda>body. map (tag i g (raw_body E body)) (parse body)) q = Ok cs \<Longrightarrow> list_all (from_page E) cs"
  by (auto simp: list_all_iff dest!: page_search_Ok) (rule from_pageI, assumption, simp)

lemma am_Get_raw: "am_Get E b i g = Ok (Some c) \<Longrightarrow> from_page E c"
  by (auto simp: am_Get_def page_get_Ok Let_def intro: from_pageI split: if_splits)

lemma html_search_raw:
  assumes "html_source E ord fl i = Some s" and "s_search s q g = Ok cs"
  shows "list_all (from_page E) cs"
  using assms(1)
proof (cases rule: html_cases)
  case am
  then have "am_Search E amazonBaseURL q g = Ok cs" using assms(2) by (simp add: Amazon_def)
  then have "cs = [] \<or> (\<exists>q' c. cs = [c] \<and> am_Get E amazonBaseURL q' g = Ok (Some c))"
    by (auto simp: am_Search_def Let_def not_found_empty_Ok bind_res_Ok split: if_splits option.splits)
  then show ?thesis using am_Get_raw by auto
next
  case db
  then have "page_search E (\<lambda>q. ''https://book.douban.com'' @ ''/subject_search?search_text='' @ encodeQuery q)
      (\<lambda>body. map (tag doubanID g (raw_body E body)) (map (\<lambda>c. c\<lparr>c_language := ''zh''\<rparr>) (parseDoubanSearchPage E body))) q = Ok cs"
    using assms(2) by (simp add: Douban_def db_Search_def comp_def)
  then show ?thesis by (rule page_search_raw)
qed (use assms(2) in \<open>simp_all add: Goodreads_def gr_Search_def AnnasArchive_def aa_Search_def FantasticFiction_def ff_Search_def
    ISFDB_def is_Search_def LibraryThing_def lt_Search_def WorldCat_def wc_Search_def page_search_raw\<close>)

text \<open>
  C11. When the pages the network delivers are not JSON, a search at an HTML source that finds
  something leaves the cache as it was: the list cannot be marshalled, so every such search asks
  the site again.
\<close>

theorem html_never_cached:
  assumes "html_source E ord fl i = Some s" and "\<And>url body. GetJSON E url = Ok body \<Longrightarrow> sv_json E body = None"
    and "s_search s q g = Ok cs" and "cs \<noteq> []"
  shows "fst (searchOne A s q g orig st) = st"
proof -
  obtain c where c: "c \<in> set cs" using assms(4) by (cases cs) auto
  with html_search_raw [OF assms(1,3)] obtain url body where "GetJSON E url = Ok body" "c_raw c = raw_body E body"
    unfolding list_all_iff from_page_def by blast
  then have "c_raw c = RawInvalid body" using assms(2) by (simp add: raw_body_def)
  then have "marshal_candidates cs = None" by (rule marshal_invalid [OF c])
  with assms(3,4) show ?thesis by (simp add: searchOne_def live_fetch_def Let_def split: option.split)
qed


subsection \<open>Witnesses\<close>

text \<open>A search page of ISFDB with one row.\<close>

definition demo_page :: string where
  "demo_page = ''<tr><a href='' @ [CHR 0x22] @ ''/title.cgi?7'' @ [CHR 0x22] @ ''>Dune</a></tr>''"

definition demo_web :: source_env where
  "demo_web = \<lparr>sv_http = (\<lambda>c. Reply 200 demo_page), sv_json = (\<lambda>s. None), sv_json_error = (\<lambda>s. ''''), sv_quote = (\<lambda>s. s), sv_ua = [],
     sv_uni = \<lparr>u_lower = (\<lambda>s. s), u_fold = (\<lambda>s t. s = t)\<rparr>\<rparr>"

lemma demo_rows: "FindAllString isRowRE demo_page = [demo_page]"
  by (simp add: regexp_eval isRowRE_def demo_page_def to_end_def del: run.simps(2))

lemma trim_words [simp]: "TrimSpace ''dune'' = ''dune''" "TrimSpace ''Dune'' = ''Dune''" "TrimSpace ''7'' = ''7''"
  by (rule TrimSpace_alnum, simp add: alnum_def is_digit_def is_lower_def is_upper_def)+

lemma demo_row: "is_row demo_page = [empty_candidate\<lparr>c_external_id := ''7'', c_title := ''Dune''\<rparr>]"
  by (simp add: regexp_eval is_row_def isTitleLinkRE_def isAuthorLinkRE_def isYearParenRE_def demo_page_def to_end_def chars_def
    isStripText_def StripText_def isTagStripRE_def tags_pattern_def isWSRE_def spaces_pattern_def DecodeEntities_def isNumEntityRE_def
    entity_pattern_def named_entities_def isFirstSubmatch_def FirstSubmatch_def year_digits_def empty_candidate_def del: run.simps(2))

lemma demo_page_got: "GetJSON demo_web u = Ok demo_page"
  by (simp add: GetJSON_def GetJSONWithHeaders_def answer_body_def demo_web_def SoftLimit_def demo_page_def)

lemma demo_hits: "s_search (ISFDB demo_web ''https://www.isfdb.org'') ''dune'' ''us'' =
    Ok [tag isfdbID ''us'' (RawInvalid demo_page) (empty_candidate\<lparr>c_external_id := ''7'', c_title := ''Dune''\<rparr>)]"
  by (simp add: ISFDB_def is_Search_def page_search_def Let_def not_found_empty_def bind_res_def parseISFDBSearchResults_def
      demo_rows demo_row demo_page_got isMaxResults_def raw_body_def) (simp add: demo_web_def)

lemma demo_source: "html_source demo_web ord fl isfdbID = Some (ISFDB demo_web ''https://www.isfdb.org'')"
  by (simp add: html_source_def html_ids)

lemma html_search_rows_witness:
  "\<exists>c. s_search (ISFDB demo_web ''https://www.isfdb.org'') ''dune'' ''us'' = Ok [c] \<and> c_source c = isfdbID \<and> c_region c = ''us'' \<and> tidy (c_title c)"
  using html_search_rows [OF demo_source demo_hits] demo_hits by (simp add: html_ids)

lemma html_get_confined_witness:
  "\<exists>(h, t) \<in> set (html_pages isfdbID). \<exists>m. m \<noteq> [] \<and> (\<forall>w. w (page_call demo_web (h @ m @ t)) = Reply 200 demo_page \<longrightarrow>
     html_lookup demo_web (\<lambda>j. j) (\<lambda>j. None) isfdbID ''7'' ''us'' w = html_lookup demo_web (\<lambda>j. j) (\<lambda>j. None) isfdbID ''7'' ''us'' (sv_http demo_web))"
proof -
  let ?f = "html_lookup demo_web (\<lambda>j. j) (\<lambda>j. None) isfdbID ''7'' ''us''"
  have get: "s_get (ISFDB demo_web ''https://www.isfdb.org'') ''7'' ''us'' \<noteq> Ok None"
    by (simp add: ISFDB_def is_Get_def Let_def valid_numbers number_def is_digit_def page_get_def bind_res_def demo_page_got split: option.split)
  have net: "sv_http demo_web = (\<lambda>c. Reply 200 demo_page)" by (simp add: demo_web_def)
  note conf = html_get_confined [OF demo_source, of "\<lambda>j. j" "\<lambda>j. None" "''7''" "''us''"]
  have "?f (sv_http demo_web) \<noteq> Some (Ok None)" unfolding conf [THEN conjunct1] option.inject by (rule get)
  then have "\<not> (\<forall>w. ?f w = Some (Ok None))" by blast
  then obtain h t m where p: "(h, t) \<in> set (html_pages isfdbID)" "m \<noteq> []"
      and same: "\<forall>w w'. w (page_call demo_web (h @ m @ t)) = w' (page_call demo_web (h @ m @ t)) \<longrightarrow> ?f w = ?f w'"
    using conf [THEN conjunct2] by blast
  have "?f w = ?f (sv_http demo_web)" if "w (page_call demo_web (h @ m @ t)) = Reply 200 demo_page" for w
    by (rule same [rule_format]) (simp only: that net)
  with p show ?thesis by blast
qed

lemma html_hits_fetchable_witness:
  "\<exists>(h, t) \<in> set (html_pages isfdbID). asks demo_web (h @ ''7'' @ t) (s_get (ISFDB demo_web ''https://www.isfdb.org'') ''7'' ''de'')"
  using html_hits_fetchable [OF demo_source demo_hits, of "tag isfdbID ''us'' (RawInvalid demo_page)
    (empty_candidate\<lparr>c_external_id := ''7'', c_title := ''Dune''\<rparr>)" "''de''"]
  by (simp add: html_ids)

lemma html_never_cached_witness:
  "fst (searchOne demo_agg (ISFDB demo_web ''https://www.isfdb.org'') ''dune'' ''us'' None empty_db) = empty_db"
  by (rule html_never_cached [OF demo_source _ demo_hits]) (simp_all add: demo_web_def)

end
