(* ===== verification/SourcesOpen.thy ===== *)
theory SourcesOpen
  imports SourceHttp
begin

text \<open>
  The adapters of the open JSON APIs: \<open>openlibrary.go\<close>, \<open>gutenberg.go\<close>, \<open>bookbrainz.go\<close> and
  \<open>internetarchive.go\<close>. A slice that the program marshals again keeps the difference between absent and
  empty; in the others it makes none.
\<close>

subsection \<open>Open Library\<close>

definition openLibraryID :: string where "openLibraryID = ''openlibrary''"

record ol_edition =
  oe_key :: string
  oe_title :: string
  oe_authors :: "string list"
  oe_description :: json
  oe_publishers :: "string list"
  oe_publish_date :: string
  oe_languages :: "string list"
  oe_subjects :: "string list"
  oe_isbn10 :: "string list"
  oe_isbn13 :: "string list"
  oe_pages :: int
  oe_covers :: "int list"

definition empty_edition :: ol_edition where
  "empty_edition = \<lparr>oe_key = [], oe_title = [], oe_authors = [], oe_description = JNull, oe_publishers = [],
     oe_publish_date = [], oe_languages = [], oe_subjects = [], oe_isbn10 = [], oe_isbn13 = [], oe_pages = 0, oe_covers = []\<rparr>"

text \<open>A struct with the one string member \<open>k\<close>.\<close>

definition dec_one :: "string \<Rightarrow> json \<Rightarrow> string option" where
  "dec_one k v = dec_struct [(k, \<lambda>v r. dec_str r v)] v []"

text \<open>\<open>authors\<close> and \<open>subtitle\<close> are decoded, so that a wrong type fails, but not used.\<close>

definition edition_fields :: "ol_edition fields" where
  "edition_fields = [
     (''key'', str_field oe_key (\<lambda>x. oe_key_update (\<lambda>_. x))),
     (''title'', str_field oe_title (\<lambda>x. oe_title_update (\<lambda>_. x))),
     (''subtitle'', put_field (dec_str []) (\<lambda>x r. r)),
     (''authors'', put_field (dec_list (dec_one ''key'')) (\<lambda>x r. r)),
     (''author_name'', strs_field (\<lambda>x. oe_authors_update (\<lambda>_. x))),
     (''description'', \<lambda>v r. Some (r\<lparr>oe_description := v\<rparr>)),
     (''publishers'', strs_field (\<lambda>x. oe_publishers_update (\<lambda>_. x))),
     (''publish_date'', str_field oe_publish_date (\<lambda>x. oe_publish_date_update (\<lambda>_. x))),
     (''languages'', put_field (dec_list (dec_one ''key'')) (\<lambda>x. oe_languages_update (\<lambda>_. x))),
     (''subjects'', strs_field (\<lambda>x. oe_subjects_update (\<lambda>_. x))),
     (''isbn_10'', strs_field (\<lambda>x. oe_isbn10_update (\<lambda>_. x))),
     (''isbn_13'', strs_field (\<lambda>x. oe_isbn13_update (\<lambda>_. x))),
     (''number_of_pages'', int_field oe_pages (\<lambda>x. oe_pages_update (\<lambda>_. x))),
     (''covers'', put_field (dec_list (dec_int 0)) (\<lambda>x. oe_covers_update (\<lambda>_. x)))]"

definition description_text :: "json \<Rightarrow> string" where
  "description_text d = (case d of
     JStr s \<Rightarrow> s
   | JObj ms \<Rightarrow> (case map_of (rev ms) ''value'' of Some (JStr s) \<Rightarrow> s | _ \<Rightarrow> [])
   | _ \<Rightarrow> [])"

definition cover_url :: "string \<Rightarrow> int \<Rightarrow> string" where
  "cover_url cov n = cov @ ''/b/id/'' @ Itoa n @ ''-L.jpg''"

definition edition_candidate :: "string \<Rightarrow> string \<Rightarrow> raw_message \<Rightarrow> ol_edition \<Rightarrow> candidate" where
  "edition_candidate cov region raw e = empty_candidate\<lparr>
     c_source := openLibraryID, c_external_id := TrimPrefix (oe_key e) ''/books/'', c_title := oe_title e,
     c_authors := oe_authors e, c_description := description_text (oe_description e),
     c_isbn := (if oe_isbn13 e \<noteq> [] then hd (oe_isbn13 e) else first_of (oe_isbn10 e)),
     c_cover_url := (case oe_covers e of [] \<Rightarrow> [] | n # _ \<Rightarrow> cover_url cov n),
     c_published_at := oe_publish_date e, c_publisher := first_of (oe_publishers e),
     c_language := (case oe_languages e of [] \<Rightarrow> [] | l # _ \<Rightarrow> TrimPrefix l ''/languages/''),
     c_genres := oe_subjects e, c_page_count := oe_pages e, c_region := region, c_raw := raw\<rparr>"

record ol_doc =
  od_key :: string
  od_title :: string
  od_author_name :: "string slice"
  od_first_publish :: int
  od_isbn :: "string slice"
  od_language :: "string slice"
  od_subject :: "string slice"
  od_cover :: int
  od_pages :: int
  od_publisher :: "string slice"

definition empty_doc :: ol_doc where
  "empty_doc = \<lparr>od_key = [], od_title = [], od_author_name = None, od_first_publish = 0, od_isbn = None, od_language = None,
     od_subject = None, od_cover = 0, od_pages = 0, od_publisher = None\<rparr>"

definition strs_slice :: "(string slice \<Rightarrow> 'r \<Rightarrow> 'r) \<Rightarrow> json \<Rightarrow> 'r \<Rightarrow> 'r option" where
  "strs_slice put = put_field (dec_slice (dec_str [])) put"

definition doc_fields :: "ol_doc fields" where
  "doc_fields = [
     (''key'', str_field od_key (\<lambda>x. od_key_update (\<lambda>_. x))),
     (''title'', str_field od_title (\<lambda>x. od_title_update (\<lambda>_. x))),
     (''author_name'', strs_slice (\<lambda>x. od_author_name_update (\<lambda>_. x))),
     (''first_publish_year'', int_field od_first_publish (\<lambda>x. od_first_publish_update (\<lambda>_. x))),
     (''isbn'', strs_slice (\<lambda>x. od_isbn_update (\<lambda>_. x))),
     (''language'', strs_slice (\<lambda>x. od_language_update (\<lambda>_. x))),
     (''subject'', strs_slice (\<lambda>x. od_subject_update (\<lambda>_. x))),
     (''cover_i'', int_field od_cover (\<lambda>x. od_cover_update (\<lambda>_. x))),
     (''number_of_pages_median'', int_field od_pages (\<lambda>x. od_pages_update (\<lambda>_. x))),
     (''publisher'', strs_slice (\<lambda>x. od_publisher_update (\<lambda>_. x)))]"

definition enc_doc :: "ol_doc \<Rightarrow> json" where
  "enc_doc d = JObj [(''key'', enc_str (od_key d)), (''title'', enc_str (od_title d)), (''author_name'', enc_slice enc_str (od_author_name d)),
     (''first_publish_year'', JNum (od_first_publish d)), (''isbn'', enc_slice enc_str (od_isbn d)), (''language'', enc_slice enc_str (od_language d)),
     (''subject'', enc_slice enc_str (od_subject d)), (''cover_i'', JNum (od_cover d)), (''number_of_pages_median'', JNum (od_pages d)),
     (''publisher'', enc_slice enc_str (od_publisher d))]"

definition doc_candidate :: "string \<Rightarrow> string \<Rightarrow> ol_doc \<Rightarrow> candidate" where
  "doc_candidate cov region d = empty_candidate\<lparr>
     c_source := openLibraryID, c_external_id := TrimPrefix (od_key d) ''/works/'', c_title := od_title d,
     c_authors := elems (od_author_name d), c_isbn := first_of (elems (od_isbn d)),
     c_cover_url := (if od_cover d > 0 then cover_url cov (od_cover d) else []),
     c_published_at := (if od_first_publish d > 0 then Itoa (od_first_publish d) else []),
     c_publisher := first_of (elems (od_publisher d)), c_language := first_of (elems (od_language d)),
     c_genres := elems (od_subject d), c_page_count := od_pages d, c_region := region, c_raw := RawValid (enc_doc d)\<rparr>"

definition ol_path :: "string \<Rightarrow> string option" where
  "ol_path i = (if isbnRE (no_dashes i) then Some (''/isbn/'' @ PathEscape (no_dashes i) @ ''.json'')
     else if HasPrefix i ''OL'' \<and> HasSuffix i ''M'' then Some (''/books/'' @ PathEscape i @ ''.json'')
     else None)"

definition ol_Get :: "source_env \<Rightarrow> string \<Rightarrow> string \<Rightarrow> string \<Rightarrow> string \<Rightarrow> (source_error, candidate option) res" where
  "ol_Get E base cov i region =
    (let i = TrimSpace i in
     if i = [] then Ok None
     else case ol_path i of
       None \<Rightarrow> Ok None
     | Some p \<Rightarrow> bind_res (GetJSON E (base @ p)) (\<lambda>body.
         bind_res (UnmarshalInto E (\<lambda>v. dec_struct edition_fields v empty_edition) body) (\<lambda>book.
           Ok (Some (edition_candidate cov region (raw_body E body) book)))))"

definition ol_Search :: "source_env \<Rightarrow> string \<Rightarrow> string \<Rightarrow> string \<Rightarrow> string \<Rightarrow> (source_error, candidate list) res" where
  "ol_Search E base cov query region =
    (let q = TrimSpace query in
     if q = [] then Ok []
     else if isbnRE (no_dashes q) then
       not_found_empty (bind_res (ol_Get E base cov (no_dashes q) region) (\<lambda>c. Ok (case c of None \<Rightarrow> [] | Some c \<Rightarrow> [c])))
     else not_found_empty (bind_res (GetJSON E (base @ ''/search.json?q='' @ QueryEscape q @ ''&limit=20'')) (\<lambda>body.
         bind_res (UnmarshalInto E (\<lambda>v. dec_struct [(''docs'', put_field (dec_list (\<lambda>v. dec_struct doc_fields v empty_doc)) (\<lambda>x r. x))] v []) body)
           (\<lambda>docs. Ok (map (doc_candidate cov region) docs)))))"

definition OpenLibrary :: "source_env \<Rightarrow> string \<Rightarrow> string \<Rightarrow> source" where
  "OpenLibrary E base cov = \<lparr>s_id = openLibraryID, s_enabled = (\<lambda>cfg. cfg openLibraryID),
     s_search = ol_Search E base cov, s_get = ol_Get E base cov\<rparr>"

subsection \<open>Gutenberg\<close>

definition gutenbergID :: string where "gutenbergID = ''gutenberg''"

record gut_book =
  gu_id :: int
  gu_title :: string
  gu_authors :: "string list"
  gu_subjects :: "string list"
  gu_languages :: "string list"
  gu_formats :: "(string \<times> string) list"

definition empty_gut_book :: gut_book where
  "empty_gut_book = \<lparr>gu_id = 0, gu_title = [], gu_authors = [], gu_subjects = [], gu_languages = [], gu_formats = []\<rparr>"

definition gut_fields :: "gut_book fields" where
  "gut_fields = [
     (''id'', int_field gu_id (\<lambda>x. gu_id_update (\<lambda>_. x))),
     (''title'', str_field gu_title (\<lambda>x. gu_title_update (\<lambda>_. x))),
     (''authors'', put_field (dec_list (dec_one ''name'')) (\<lambda>x. gu_authors_update (\<lambda>_. x))),
     (''subjects'', strs_field (\<lambda>x. gu_subjects_update (\<lambda>_. x))),
     (''languages'', strs_field (\<lambda>x. gu_languages_update (\<lambda>_. x))),
     (''formats'', put_field dec_map (\<lambda>x. gu_formats_update (\<lambda>_. x)))]"

definition gut_candidate :: "string \<Rightarrow> raw_message \<Rightarrow> gut_book \<Rightarrow> candidate" where
  "gut_candidate region raw b =
    (let cov = value_get (gu_formats b) ''image/jpeg'' in empty_candidate\<lparr>
     c_source := gutenbergID, c_external_id := Itoa (gu_id b), c_title := gu_title b,
     c_authors := filter (\<lambda>a. a \<noteq> []) (gu_authors b), c_language := first_of (gu_languages b),
     c_genres := take 5 (gu_subjects b),
     c_cover_url := (if cov = [] then value_get (gu_formats b) ''image/png'' else cov),
     c_region := region, c_raw := raw\<rparr>)"

definition numeric :: "string \<Rightarrow> bool" where
  "numeric s \<longleftrightarrow> s \<noteq> [] \<and> list_all is_digit s"

definition gut_Get :: "source_env \<Rightarrow> string \<Rightarrow> string \<Rightarrow> string \<Rightarrow> (source_error, candidate option) res" where
  "gut_Get E base i region =
    (let i = TrimSpace i in
     if \<not> numeric i then Ok None
     else bind_res (GetJSON E (base @ ''/books/'' @ PathEscape i)) (\<lambda>body.
       bind_res (UnmarshalInto E (\<lambda>v. dec_struct gut_fields v empty_gut_book) body) (\<lambda>b.
         Ok (Some (gut_candidate region (raw_body E body) b)))))"

definition gut_response :: "json \<Rightarrow> gut_book list option" where
  "gut_response v = dec_struct [(''count'', put_field (dec_int 0) (\<lambda>x r. r)),
     (''results'', put_field (dec_list (\<lambda>v. dec_struct gut_fields v empty_gut_book)) (\<lambda>x r. x))] v []"

definition gut_Search :: "source_env \<Rightarrow> string \<Rightarrow> string \<Rightarrow> string \<Rightarrow> (source_error, candidate list) res" where
  "gut_Search E base query region =
    (let q = TrimSpace query in
     if q = [] then Ok []
     else not_found_empty (bind_res (GetJSON E (base @ ''/books?search='' @ QueryEscape q)) (\<lambda>body.
       bind_res (UnmarshalInto E gut_response body) (\<lambda>bs. Ok (map (gut_candidate region (raw_body E body)) bs)))))"

definition Gutenberg :: "source_env \<Rightarrow> string \<Rightarrow> source" where
  "Gutenberg E base = \<lparr>s_id = gutenbergID, s_enabled = (\<lambda>cfg. cfg gutenbergID), s_search = gut_Search E base, s_get = gut_Get E base\<rparr>"

subsection \<open>BookBrainz\<close>

definition bookbrainzID :: string where "bookbrainzID = ''bookbrainz''"

record bb_alias =
  bl_name :: string
  bl_language :: "string option"

record bb_entity =
  bx_bbid :: string
  bx_alias :: "bb_alias option"
  bx_disambiguation :: string
  bx_annotation :: "string option"
  bx_identifiers :: "(string \<times> string) list"
  bx_authors :: "bb_alias option list"
  bx_publishers :: "bb_alias option list"
  bx_dates :: "string list"

definition empty_entity :: bb_entity where
  "empty_entity = \<lparr>bx_bbid = [], bx_alias = None, bx_disambiguation = [], bx_annotation = None, bx_identifiers = [],
     bx_authors = [], bx_publishers = [], bx_dates = []\<rparr>"

definition alias_fields :: "bb_alias fields" where
  "alias_fields = [
     (''name'', str_field bl_name (\<lambda>x. bl_name_update (\<lambda>_. x))),
     (''sortName'', put_field (dec_str []) (\<lambda>x r. r)),
     (''language'', put_field (dec_ptr (dec_one ''name'')) (\<lambda>x. bl_language_update (\<lambda>_. x)))]"

definition dec_alias :: "json \<Rightarrow> bb_alias option option" where
  "dec_alias = dec_ptr (\<lambda>v. dec_struct alias_fields v \<lparr>bl_name = [], bl_language = None\<rparr>)"

text \<open>A struct with one member that is an array, behind a pointer: absent, null and empty read the same.\<close>

definition dec_set :: "string \<Rightarrow> (json \<Rightarrow> 'a option) \<Rightarrow> json \<Rightarrow> 'a list option" where
  "dec_set k dec v = map_option (\<lambda>p. case p of None \<Rightarrow> [] | Some l \<Rightarrow> l)
     (dec_ptr (\<lambda>v. dec_struct [(k, put_field (dec_list dec) (\<lambda>x r. x))] v []) v)"

definition with_alias :: "json \<Rightarrow> bb_alias option option" where
  "with_alias v = dec_struct [(''defaultAlias'', put_field dec_alias (\<lambda>x r. x))] v None"

definition dec_identifier :: "json \<Rightarrow> (string \<times> string) option" where
  "dec_identifier v = dec_struct [
     (''type'', \<lambda>v r. map_option (\<lambda>l. (l, snd r)) (dec_struct [(''label'', \<lambda>v r. dec_str r v)] v (fst r))),
     (''value'', \<lambda>v r. map_option (Pair (fst r)) (dec_str (snd r) v))] v ([], [])"

definition entity_fields :: "bb_entity fields" where
  "entity_fields = [
     (''bbid'', str_field bx_bbid (\<lambda>x. bx_bbid_update (\<lambda>_. x))),
     (''type'', put_field (dec_str []) (\<lambda>x r. r)),
     (''defaultAlias'', put_field dec_alias (\<lambda>x. bx_alias_update (\<lambda>_. x))),
     (''disambiguation'', str_field bx_disambiguation (\<lambda>x. bx_disambiguation_update (\<lambda>_. x))),
     (''annotation'', put_field (dec_ptr (dec_one ''content'')) (\<lambda>x. bx_annotation_update (\<lambda>_. x))),
     (''identifierSet'', put_field (dec_set ''identifiers'' dec_identifier) (\<lambda>x. bx_identifiers_update (\<lambda>_. x))),
     (''authorCredit'', put_field (dec_set ''names'' (\<lambda>v. dec_struct [(''author'', put_field with_alias (\<lambda>x r. x))] v None))
        (\<lambda>x. bx_authors_update (\<lambda>_. x))),
     (''publisherSet'', put_field (dec_set ''publishers'' with_alias) (\<lambda>x. bx_publishers_update (\<lambda>_. x))),
     (''releaseEventSet'', put_field (dec_set ''releaseEvents'' (dec_one ''date'')) (\<lambda>x. bx_dates_update (\<lambda>_. x)))]"

definition bb_isbn_step :: "uni \<Rightarrow> string \<times> string \<Rightarrow> string \<times> string \<Rightarrow> string \<times> string" where
  "bb_isbn_step u acc x =
    (let label = ToLower u (fst x) in
     if Contains label ''isbn-13'' then (if fst acc = [] then (snd x, snd acc) else acc)
     else if Contains label ''isbn-10'' then (if snd acc = [] then (fst acc, snd x) else acc)
     else acc)"

definition bb_candidate :: "source_env \<Rightarrow> string \<Rightarrow> raw_message \<Rightarrow> bb_entity \<Rightarrow> candidate" where
  "bb_candidate E region raw e =
    (let isbns = foldl (bb_isbn_step (sv_uni E)) ([], []) (bx_identifiers e);
         description = (case bx_annotation e of None \<Rightarrow> [] | Some a \<Rightarrow> a) in
     empty_candidate\<lparr>c_source := bookbrainzID, c_external_id := bx_bbid e,
       c_title := (case bx_alias e of None \<Rightarrow> [] | Some a \<Rightarrow> bl_name a),
       c_authors := List.map_filter (\<lambda>a. case a of None \<Rightarrow> None | Some a \<Rightarrow> if bl_name a \<noteq> [] then Some (bl_name a) else None) (bx_authors e),
       c_description := (if description = [] then bx_disambiguation e else description),
       c_isbn := (if fst isbns = [] then snd isbns else fst isbns),
       c_published_at := (case bx_dates e of [] \<Rightarrow> [] | d # _ \<Rightarrow> year_in d),
       c_publisher := (case bx_publishers e of Some a # _ \<Rightarrow> bl_name a | _ \<Rightarrow> []),
       c_language := (case bx_alias e of Some a \<Rightarrow> (case bl_language a of Some l \<Rightarrow> l | None \<Rightarrow> []) | None \<Rightarrow> []),
       c_region := region, c_raw := raw\<rparr>)"

definition bb_uuid :: "string \<Rightarrow> bool" where
  "bb_uuid s \<longleftrightarrow> map length (Split s (CHR ''-'')) = [8, 4, 4, 4, 12] \<and> list_all (\<lambda>c. hex_val c \<noteq> None) (no_dashes s)"

definition bb_Get :: "source_env \<Rightarrow> string \<Rightarrow> string \<Rightarrow> string \<Rightarrow> (source_error, candidate option) res" where
  "bb_Get E base i region =
    (let i = TrimSpace i in
     if \<not> bb_uuid i then Ok None
     else bind_res (GetJSON E (base @ ''/edition/'' @ PathEscape i)) (\<lambda>body.
       bind_res (UnmarshalInto E (\<lambda>v. dec_struct entity_fields v empty_entity) body) (\<lambda>e.
         let c = bb_candidate E region (raw_body E body) e in
         if c_title c = [] then Err SourceNotFound else Ok (Some c))))"

definition bb_response :: "json \<Rightarrow> bb_entity list option" where
  "bb_response v = dec_struct [(''count'', put_field (dec_int 0) (\<lambda>x r. r)), (''offset'', put_field (dec_int 0) (\<lambda>x r. r)),
     (''results'', put_field (dec_list (\<lambda>v. dec_struct entity_fields v empty_entity)) (\<lambda>x r. x))] v []"

definition bb_Search :: "source_env \<Rightarrow> string \<Rightarrow> string \<Rightarrow> string \<Rightarrow> (source_error, candidate list) res" where
  "bb_Search E base query region =
    (let q = TrimSpace query in
     if q = [] then Ok []
     else not_found_empty (bind_res (GetJSON E (base @ ''/search?q='' @ QueryEscape q @ ''&type=edition&limit=10'')) (\<lambda>body.
       bind_res (UnmarshalInto E bb_response body) (\<lambda>es.
         Ok (filter (\<lambda>c. c_title c \<noteq> []) (map (bb_candidate E region (raw_body E body)) es))))))"

definition BookBrainz :: "source_env \<Rightarrow> string \<Rightarrow> source" where
  "BookBrainz E base = \<lparr>s_id = bookbrainzID, s_enabled = (\<lambda>cfg. cfg bookbrainzID), s_search = bb_Search E base, s_get = bb_Get E base\<rparr>"

subsection \<open>Internet Archive\<close>

definition internetArchiveID :: string where "internetArchiveID = ''internetarchive''"

record ia_item =
  ia_identifier :: string
  ia_title :: string
  ia_creator :: "json option"
  ia_publisher :: "json option"
  ia_date :: string
  ia_language :: "json option"
  ia_description :: "json option"
  ia_isbn :: "json option"

definition empty_item :: ia_item where
  "empty_item = \<lparr>ia_identifier = [], ia_title = [], ia_creator = None, ia_publisher = None, ia_date = [],
     ia_language = None, ia_description = None, ia_isbn = None\<rparr>"

definition ia_fields :: "ia_item fields" where
  "ia_fields = [
     (''identifier'', str_field ia_identifier (\<lambda>x. ia_identifier_update (\<lambda>_. x))),
     (''title'', str_field ia_title (\<lambda>x. ia_title_update (\<lambda>_. x))),
     (''creator'', \<lambda>v r. Some (r\<lparr>ia_creator := Some v\<rparr>)),
     (''publisher'', \<lambda>v r. Some (r\<lparr>ia_publisher := Some v\<rparr>)),
     (''date'', str_field ia_date (\<lambda>x. ia_date_update (\<lambda>_. x))),
     (''language'', \<lambda>v r. Some (r\<lparr>ia_language := Some v\<rparr>)),
     (''description'', \<lambda>v r. Some (r\<lparr>ia_description := Some v\<rparr>)),
     (''isbn'', \<lambda>v r. Some (r\<lparr>ia_isbn := Some v\<rparr>))]"

fun new_strings :: "string list \<Rightarrow> string list \<Rightarrow> string list" where
  "new_strings seen [] = []"
| "new_strings seen (s # ss) = (let s = TrimSpace s in
     if s = [] \<or> s \<in> set seen then new_strings seen ss else s # new_strings (s # seen) ss)"

definition iaStrings :: "json option \<Rightarrow> string list" where
  "iaStrings raw = (case raw of
     None \<Rightarrow> []
   | Some v \<Rightarrow> (case dec_strs v of
       Some arr \<Rightarrow> new_strings [] arr
     | None \<Rightarrow> (case dec_str [] v of
         Some s \<Rightarrow> if TrimSpace s = [] then [] else [TrimSpace s]
       | None \<Rightarrow> [])))"

definition iaFirstString :: "json option \<Rightarrow> string" where
  "iaFirstString raw = first_of (iaStrings raw)"

definition iaCleanHTML :: "string \<Rightarrow> string" where
  "iaCleanHTML s =
    (let s = ReplaceAll ''<br>'' [CHR 10] s; s = ReplaceAll ''<br/>'' [CHR 10] s; s = ReplaceAll ''<br />'' [CHR 10] s;
         s = strip_tags s;
         s = ReplaceAll ''&nbsp;'' '' '' s; s = ReplaceAll ''&amp;'' ''&'' s; s = ReplaceAll ''&lt;'' ''<'' s;
         s = ReplaceAll ''&gt;'' ''>'' s; s = ReplaceAll ''&quot;'' [CHR 0x22] s; s = ReplaceAll ''&#39;'' [CHR 0x27] s
     in TrimSpace s)"

definition iaToCandidate :: "string \<Rightarrow> string \<Rightarrow> raw_message \<Rightarrow> ia_item \<Rightarrow> candidate" where
  "iaToCandidate base region raw it = empty_candidate\<lparr>
     c_source := internetArchiveID, c_external_id := ia_identifier it, c_title := ia_title it,
     c_authors := iaStrings (ia_creator it),
     c_description := (case iaStrings (ia_description it) of [] \<Rightarrow> [] | ds \<Rightarrow> iaCleanHTML (Join ds [CHR 10, CHR 10])),
     c_isbn := iaFirstString (ia_isbn it), c_published_at := year_in (ia_date it),
     c_publisher := iaFirstString (ia_publisher it), c_language := iaFirstString (ia_language it),
     c_cover_url := (if ia_identifier it = [] then [] else base @ ''/services/img/'' @ PathEscape (ia_identifier it)),
     c_region := region, c_raw := raw\<rparr>"

definition ia_answer :: "source_env \<Rightarrow> string \<Rightarrow> string \<Rightarrow> string \<Rightarrow> string \<Rightarrow> json \<Rightarrow> (source_error, candidate option) res" where
  "ia_answer E base region i body v = (case dec_struct ia_fields v empty_item of
     None \<Rightarrow> Err (SourceFailed (''source: json decode: '' @ sv_json_error E body))
   | Some it \<Rightarrow> Ok (Some (iaToCandidate base region (raw_body E body)
       (if ia_identifier it = [] then it\<lparr>ia_identifier := i\<rparr> else it))))"

definition ia_Get :: "source_env \<Rightarrow> string \<Rightarrow> string \<Rightarrow> string \<Rightarrow> (source_error, candidate option) res" where
  "ia_Get E base i region =
    (let i = TrimSpace i in
     if i = [] then Ok None
     else bind_res (GetJSON E (base @ ''/metadata/'' @ PathEscape i)) (\<lambda>body.
       bind_res (UnmarshalInto E (\<lambda>v. dec_struct [(''metadata'', \<lambda>v r. Some (Some v))] v None) body) (\<lambda>m.
         case m of None \<Rightarrow> Err SourceNotFound
         | Some v \<Rightarrow> ia_answer E base region i body v)))"

definition ia_query :: "string \<Rightarrow> string" where
  "ia_query q = Encode ([(''q'', q @ '' AND mediatype:texts'')] @ map (Pair ''fl[]'') [''identifier'', ''title'', ''creator'',
     ''publisher'', ''date'', ''language'', ''description'', ''isbn'', ''imagecount''] @ [(''output'', ''json''), (''rows'', ''10'')])"

definition ia_response :: "json \<Rightarrow> ia_item list option" where
  "ia_response v = dec_struct [(''response'', \<lambda>v r. dec_struct [(''numFound'', put_field (dec_int 0) (\<lambda>x r. r)),
     (''docs'', put_field (dec_list (\<lambda>v. dec_struct ia_fields v empty_item)) (\<lambda>x r. x))] v r)] v []"

definition ia_Search :: "source_env \<Rightarrow> string \<Rightarrow> string \<Rightarrow> string \<Rightarrow> (source_error, candidate list) res" where
  "ia_Search E base query region =
    (let q = TrimSpace query in
     if q = [] then Ok []
     else not_found_empty (bind_res (GetJSON E (base @ ''/advancedsearch.php?'' @ ia_query q)) (\<lambda>body.
       bind_res (UnmarshalInto E ia_response body) (\<lambda>ds. Ok (map (iaToCandidate base region (raw_body E body)) ds)))))"

definition InternetArchive :: "source_env \<Rightarrow> string \<Rightarrow> source" where
  "InternetArchive E base = \<lparr>s_id = internetArchiveID, s_enabled = (\<lambda>cfg. cfg internetArchiveID),
     s_search = ia_Search E base, s_get = ia_Get E base\<rparr>"

end
