(* ===== verification/AppConfig.thy ===== *)
theory AppConfig
  imports StoreDb
begin

text \<open>
  The stored application configuration (\<open>internal/store/app_config.go\<close>): defaults, validation, and
  the single \<open>JSONB\<close> row it lives in.
\<close>

record app_config =
  ac_sources :: "string list"
  ac_region :: string
  ac_ttl_days :: int
  ac_rps :: int
  ac_inline :: bool
  ac_scan_source :: string
  ac_google_key :: string
  ac_isbndb_key :: string
  ac_hardcover_key :: string

definition metadata_sources :: "string list" where
  "metadata_sources = [''openlibrary'', ''googlebooks'', ''isbndb'', ''hardcover'', ''goodreads'',
     ''amazon'', ''annasarchive'', ''gutenberg'', ''bookbrainz'', ''fantasticfiction'',
     ''isfdb'', ''librarything'', ''internetarchive'', ''worldcat'', ''douban'']"

definition DefaultAppConfig :: app_config where
  "DefaultAppConfig = \<lparr>ac_sources = metadata_sources, ac_region = ''us'', ac_ttl_days = 30,
     ac_rps = 5, ac_inline = False, ac_scan_source = ''openlibrary'', ac_google_key = [],
     ac_isbndb_key = [], ac_hardcover_key = []\<rparr>"

definition WithDefaults :: "app_config \<Rightarrow> app_config" where
  "WithDefaults c = c\<lparr>
     ac_sources := (if ac_sources c = [] then ac_sources DefaultAppConfig else ac_sources c),
     ac_region := (if ac_region c = [] then ac_region DefaultAppConfig else ac_region c),
     ac_ttl_days := (if ac_ttl_days c \<le> 0 then ac_ttl_days DefaultAppConfig else ac_ttl_days c),
     ac_rps := (if ac_rps c \<le> 0 then ac_rps DefaultAppConfig else ac_rps c),
     ac_scan_source := (if ac_scan_source c = [] then ac_scan_source DefaultAppConfig
       else ac_scan_source c)\<rparr>"

definition validMetadataSource :: "string \<Rightarrow> bool" where
  "validMetadataSource i \<longleftrightarrow> i \<in> set metadata_sources"

definition Validate :: "app_config \<Rightarrow> db_error option" where
  "Validate c = (let c = WithDefaults c in
     if \<not> list_all validMetadataSource (ac_sources c)
     then Some (ErrInvalid ''metadata_sources_enabled contains unknown source'')
     else if \<not> validMetadataSource (ac_scan_source c)
     then Some (ErrInvalid ''metadata_scan_source is not a valid source'')
     else None)"

definition enc_app_config :: "app_config \<Rightarrow> json" where
  "enc_app_config c = JObj [
     (''metadata_sources_enabled'', enc_strs (ac_sources c)),
     (''metadata_default_region'', enc_str (ac_region c)),
     (''metadata_cache_ttl_days'', JNum (ac_ttl_days c)),
     (''metadata_rate_limit_rps'', JNum (ac_rps c)),
     (''scan_inline_enrich'', JBool (ac_inline c)),
     (''metadata_scan_source'', enc_str (ac_scan_source c)),
     (''googlebooks_api_key'', enc_str (ac_google_key c)),
     (''isbndb_api_key'', enc_str (ac_isbndb_key c)),
     (''hardcover_api_key'', enc_str (ac_hardcover_key c))]"

definition app_fields :: "app_config fields" where
  "app_fields = [
     (''metadata_sources_enabled'', \<lambda>v r. map_option (\<lambda>x. r\<lparr>ac_sources := x\<rparr>) (dec_strs v)),
     (''metadata_default_region'', \<lambda>v r. map_option (\<lambda>x. r\<lparr>ac_region := x\<rparr>) (dec_str (ac_region r) v)),
     (''metadata_cache_ttl_days'', \<lambda>v r. map_option (\<lambda>x. r\<lparr>ac_ttl_days := x\<rparr>) (dec_int (ac_ttl_days r) v)),
     (''metadata_rate_limit_rps'', \<lambda>v r. map_option (\<lambda>x. r\<lparr>ac_rps := x\<rparr>) (dec_int (ac_rps r) v)),
     (''scan_inline_enrich'', \<lambda>v r. map_option (\<lambda>x. r\<lparr>ac_inline := x\<rparr>) (dec_bool (ac_inline r) v)),
     (''metadata_scan_source'', \<lambda>v r. map_option (\<lambda>x. r\<lparr>ac_scan_source := x\<rparr>) (dec_str (ac_scan_source r) v)),
     (''googlebooks_api_key'', \<lambda>v r. map_option (\<lambda>x. r\<lparr>ac_google_key := x\<rparr>) (dec_str (ac_google_key r) v)),
     (''isbndb_api_key'', \<lambda>v r. map_option (\<lambda>x. r\<lparr>ac_isbndb_key := x\<rparr>) (dec_str (ac_isbndb_key r) v)),
     (''hardcover_api_key'', \<lambda>v r. map_option (\<lambda>x. r\<lparr>ac_hardcover_key := x\<rparr>) (dec_str (ac_hardcover_key r) v))]"

definition GetAppConfig :: "app_config stmt" where
  "GetAppConfig d = (case d_app_config d of
     None \<Rightarrow> (d, Ok DefaultAppConfig)
   | Some v \<Rightarrow> (case dec_struct app_fields v DefaultAppConfig of
       None \<Rightarrow> (d, Err ErrJSON)
     | Some c \<Rightarrow> (d, Ok (WithDefaults c))))"

definition PutAppConfig :: "app_config \<Rightarrow> unit stmt" where
  "PutAppConfig c d = (let c = WithDefaults c in
     case Validate c of
       Some e \<Rightarrow> (d, Err e)
     | None \<Rightarrow> if \<not> jsonb_ok (enc_app_config c) then (d, Err ErrEncoding)
         else (d\<lparr>d_app_config := Some (enc_app_config c)\<rparr>, Ok ()))"

definition ImportLegacyAppConfig :: "app_config \<Rightarrow> bool stmt" where
  "ImportLegacyAppConfig cfg d = (case GetAppConfig d of
     (d, Inl e) \<Rightarrow> (d, Err e)
   | (d, Inr current) \<Rightarrow>
       if current \<noteq> DefaultAppConfig then (d, Ok False)
       else (let legacy = WithDefaults cfg in
         if legacy = current then (d, Ok False)
         else (case PutAppConfig legacy d of
             (d, Inl e) \<Rightarrow> (d, Err e)
           | (d, Inr x) \<Rightarrow> (d, Ok True))))"

text \<open>The row migration 0005 inserts.\<close>

definition seeded_app_config :: json where
  "seeded_app_config = JObj [
     (''metadata_sources_enabled'', JArr (map JStr metadata_sources)),
     (''metadata_default_region'', JStr ''us''),
     (''metadata_cache_ttl_days'', JNum 30),
     (''metadata_rate_limit_rps'', JNum 5),
     (''scan_inline_enrich'', JBool False),
     (''metadata_scan_source'', JStr ''openlibrary''),
     (''googlebooks_api_key'', JStr []),
     (''isbndb_api_key'', JStr []),
     (''hardcover_api_key'', JStr [])]"

subsection \<open>Defaults\<close>

lemma metadata_sources_nonempty [simp]: "metadata_sources \<noteq> []"
  by (simp add: metadata_sources_def)

lemma WithDefaults_idem [simp]: "WithDefaults (WithDefaults c) = WithDefaults c"
  by (simp add: WithDefaults_def DefaultAppConfig_def)

lemma WithDefaults_Default [simp]: "WithDefaults DefaultAppConfig = DefaultAppConfig"
  by (simp add: WithDefaults_def DefaultAppConfig_def)

definition config_ok :: "app_config \<Rightarrow> bool" where
  "config_ok c \<longleftrightarrow> ac_sources c \<noteq> [] \<and> set (ac_sources c) \<subseteq> set metadata_sources \<and> ac_region c \<noteq> [] \<and>
     0 < ac_ttl_days c \<and> 0 < ac_rps c \<and> ac_scan_source c \<in> set metadata_sources"

lemma config_ok_fixed: "config_ok c \<Longrightarrow> WithDefaults c = c"
  by (auto simp: config_ok_def WithDefaults_def metadata_sources_def)

lemma Validate_None: "Validate c = None \<longleftrightarrow> config_ok (WithDefaults c)"
  by (auto simp: Validate_def Let_def config_ok_def WithDefaults_def DefaultAppConfig_def
      validMetadataSource_def list_all_iff)

subsection \<open>The stored row\<close>

definition coerce_config :: "app_config \<Rightarrow> app_config" where
  "coerce_config c = c\<lparr>ac_sources := map coerce_utf8 (ac_sources c), ac_region := coerce_utf8 (ac_region c),
     ac_scan_source := coerce_utf8 (ac_scan_source c), ac_google_key := coerce_utf8 (ac_google_key c),
     ac_isbndb_key := coerce_utf8 (ac_isbndb_key c), ac_hardcover_key := coerce_utf8 (ac_hardcover_key c)\<rparr>"

definition ints_ok :: "app_config \<Rightarrow> bool" where
  "ints_ok c \<longleftrightarrow> int64_range (ac_ttl_days c) \<and> int64_range (ac_rps c)"

lemma dec_enc_app_config:
  assumes "ints_ok c"
  shows "dec_struct app_fields (enc_app_config c) base = Some (coerce_config c)"
  using assms
  by (simp add: dec_struct_def enc_app_config_def app_fields_def find_field_def ints_ok_def
      coerce_config_def)

lemma metadata_sources_ascii: "i \<in> set metadata_sources \<Longrightarrow> coerce_utf8 i = i"
  by (rule coerce_utf8_valid, rule utf8_valid_ascii) (auto simp: metadata_sources_def is_ascii_def)

lemma coerce_config_ok:
  assumes "config_ok c"
  shows "config_ok (coerce_config c)"
proof -
  have "map coerce_utf8 (ac_sources c) = ac_sources c"
    using assms by (intro map_idI metadata_sources_ascii) (auto simp: config_ok_def)
  moreover have "coerce_utf8 (ac_scan_source c) = ac_scan_source c"
    using assms by (intro metadata_sources_ascii) (simp add: config_ok_def)
  ultimately show ?thesis using assms by (simp add: config_ok_def coerce_config_def)
qed

lemma PutAppConfig_Ok:
  assumes "PutAppConfig c d = (d', Ok x)"
  shows "d' = d\<lparr>d_app_config := Some (enc_app_config (WithDefaults c))\<rparr> \<and> config_ok (WithDefaults c)"
  using assms by (auto simp: PutAppConfig_def Let_def Validate_None split: option.splits if_splits)

text \<open>What the row decodes to is a valid configuration, if it decodes at all.\<close>

definition stored_ok :: "db \<Rightarrow> bool" where
  "stored_ok d \<longleftrightarrow> (case snd (GetAppConfig d) of Inl e \<Rightarrow> True | Inr c \<Rightarrow> config_ok c)"

lemma stored_ok_cong: "d_app_config d' = d_app_config d \<Longrightarrow> stored_ok d' = stored_ok d"
  by (simp add: stored_ok_def GetAppConfig_def split: option.split)

lemma dec_enc_bad: "\<not> ints_ok c \<Longrightarrow> dec_struct app_fields (enc_app_config c) base = None"
  by (auto simp: dec_struct_def enc_app_config_def app_fields_def find_field_def ints_ok_def dec_int_def)

lemma GetAppConfig_Put:
  assumes "ints_ok c" and "PutAppConfig c d = (d', Ok x)"
  shows "GetAppConfig d' = (d', Ok (coerce_config (WithDefaults c)))"
proof -
  from PutAppConfig_Ok [OF assms(2)] have d': "d_app_config d' = Some (enc_app_config (WithDefaults c))"
    and ok: "config_ok (coerce_config (WithDefaults c))" by (simp_all add: coerce_config_ok)
  have "ints_ok (WithDefaults c)"
    using assms(1) by (simp add: ints_ok_def WithDefaults_def DefaultAppConfig_def int64_range_def
        min_int64_def max_int64_def)
  then show ?thesis
    by (simp add: GetAppConfig_def d' dec_enc_app_config config_ok_fixed [OF ok])
qed

lemma PutAppConfig_stored: "stored_ok d \<Longrightarrow> stored_ok (fst (PutAppConfig c d))"
proof -
  assume d: "stored_ok d"
  obtain d' r where p: "PutAppConfig c d = (d', r)" by (cases "PutAppConfig c d")
  show ?thesis
  proof (cases r)
    case (Inl e)
    with p d show ?thesis by (auto simp: PutAppConfig_def Let_def split: option.splits if_splits)
  next
    case (Inr u)
    with p have p': "PutAppConfig c d = (d', Ok u)" by simp
    from PutAppConfig_Ok [OF this] have d': "d_app_config d' = Some (enc_app_config (WithDefaults c))"
      and ok: "config_ok (WithDefaults c)" by simp_all
    show ?thesis
    proof (cases "ints_ok (WithDefaults c)")
      case True
      with d' show ?thesis using p config_ok_fixed [OF coerce_config_ok [OF ok]] coerce_config_ok [OF ok]
        by (simp add: stored_ok_def GetAppConfig_def dec_enc_app_config)
    next
      case False
      with d' p show ?thesis by (simp add: stored_ok_def GetAppConfig_def dec_enc_bad)
    qed
  qed
qed

text \<open>
  A configuration PutAppConfig accepts is read back by GetAppConfig as it was stored: with
  its defaults filled in and invalid UTF-8 replaced, and it is valid.
\<close>

theorem app_config_roundtrip:
  assumes "ints_ok c" and "PutAppConfig c d = (d', Ok x)"
  shows "GetAppConfig d' = (d', Ok (coerce_config (WithDefaults c))) \<and>
    config_ok (coerce_config (WithDefaults c)) \<and>
    PutAppConfig (WithDefaults c) d = (d', Ok x)"
  using GetAppConfig_Put [OF assms] PutAppConfig_Ok [OF assms(2)] assms(2)
  by (simp add: coerce_config_ok) (simp add: PutAppConfig_def)

theorem app_config_roundtrip_witness:
  "\<exists>d'. PutAppConfig (DefaultAppConfig\<lparr>ac_region := ''gb'', ac_rps := 0\<rparr>) empty_db = (d', Ok ()) \<and>
     GetAppConfig d' = (d', Ok (DefaultAppConfig\<lparr>ac_region := ''gb''\<rparr>))"
proof -
  let ?c = "DefaultAppConfig\<lparr>ac_region := ''gb'', ac_rps := 0\<rparr>"
  have w: "WithDefaults ?c = DefaultAppConfig\<lparr>ac_region := ''gb''\<rparr>"
    by (simp add: WithDefaults_def DefaultAppConfig_def)
  have as: "coerce_utf8 ''gb'' = ''gb''"
    by (rule coerce_utf8_valid, rule utf8_valid_ascii) (simp add: is_ascii_def)
  have src: "map coerce_utf8 metadata_sources = metadata_sources"
    by (rule map_idI) (rule metadata_sources_ascii)
  have ol: "coerce_utf8 ''openlibrary'' = ''openlibrary''"
    by (rule metadata_sources_ascii) (simp add: metadata_sources_def)
  have co: "coerce_config (WithDefaults ?c) = WithDefaults ?c"
    unfolding w by (simp add: coerce_config_def DefaultAppConfig_def as src ol)
  have nn: "list_all (\<lambda>v. jsonb_ok (enc_str v)) metadata_sources"
    by (simp add: list_all_iff enc_str_def metadata_sources_ascii)
      (simp add: metadata_sources_def no_nul_def)
  have "jsonb_ok (enc_app_config (WithDefaults ?c))"
    unfolding w
    by (simp add: enc_app_config_def DefaultAppConfig_def enc_strs_def list.pred_map comp_def nn)
      (simp add: enc_str_def as ol no_nul_def)
  moreover have "Validate (WithDefaults ?c) = None"
    unfolding Validate_None WithDefaults_idem unfolding w
    by (simp add: config_ok_def DefaultAppConfig_def metadata_sources_def)
  ultimately have run: "PutAppConfig ?c empty_db =
      (empty_db\<lparr>d_app_config := Some (enc_app_config (WithDefaults ?c))\<rparr>, Ok ())"
    by (simp add: PutAppConfig_def)
  have "ints_ok ?c" by (simp add: ints_ok_def DefaultAppConfig_def int64_range_def min_int64_def max_int64_def)
  from app_config_roundtrip [OF this run] run show ?thesis
    by (simp add: co [unfolded w] w)
qed

text \<open>
  The row migration 0005 inserts, and a missing row, are both read as the default
  configuration.
\<close>

theorem seeded_config_is_default:
  "GetAppConfig (d\<lparr>d_app_config := Some seeded_app_config\<rparr>) =
     (d\<lparr>d_app_config := Some seeded_app_config\<rparr>, Ok DefaultAppConfig) \<and>
   GetAppConfig (d\<lparr>d_app_config := None\<rparr>) = (d\<lparr>d_app_config := None\<rparr>, Ok DefaultAppConfig)"
proof -
  have e: "enc_str i = JStr i" if "i \<in> set metadata_sources" for i
    using that by (simp add: enc_str_def metadata_sources_ascii)
  have us: "enc_str ''us'' = JStr ''us''" "enc_str [] = JStr []"
    by (simp_all add: enc_str_def coerce_utf8_valid utf8_valid_ascii is_ascii_def)
  have "enc_strs metadata_sources = JArr (map JStr metadata_sources)"
    by (simp add: enc_strs_def e)
  moreover have "enc_str ''openlibrary'' = JStr ''openlibrary''"
    by (rule e) (simp add: metadata_sources_def)
  ultimately have seed: "seeded_app_config = enc_app_config DefaultAppConfig"
    by (simp add: seeded_app_config_def enc_app_config_def DefaultAppConfig_def us)
  have ints: "ints_ok DefaultAppConfig"
    by (simp add: ints_ok_def DefaultAppConfig_def int64_range_def min_int64_def max_int64_def)
  have "coerce_config DefaultAppConfig = DefaultAppConfig"
  proof -
    have "map coerce_utf8 metadata_sources = metadata_sources"
      by (rule map_idI) (rule metadata_sources_ascii)
    moreover have "coerce_utf8 ''us'' = ''us''"
      by (simp add: coerce_utf8_valid utf8_valid_ascii is_ascii_def)
    moreover have "coerce_utf8 ''openlibrary'' = ''openlibrary''"
      by (rule metadata_sources_ascii) (simp add: metadata_sources_def)
    ultimately show ?thesis by (simp add: coerce_config_def DefaultAppConfig_def)
  qed
  then show ?thesis by (simp add: GetAppConfig_def seed dec_enc_app_config [OF ints])
qed

text \<open>
  The legacy import writes only over a configuration that equals the defaults: a customised
  or unreadable one is left as it is, and a reported import is a PutAppConfig of the legacy
  values.
\<close>

theorem ImportLegacy_spec:
  assumes "ImportLegacyAppConfig cfg d = (d', r)"
  shows "(snd (GetAppConfig d) \<noteq> Ok DefaultAppConfig \<longrightarrow> d' = d \<and> r \<noteq> Ok True) \<and>
    (r = Ok False \<longrightarrow> d' = d) \<and>
    (r = Ok True \<longrightarrow> snd (GetAppConfig d) = Ok DefaultAppConfig \<and> PutAppConfig cfg d = (d', Ok ()))"
proof -
  have get: "GetAppConfig d = (d, snd (GetAppConfig d))"
    by (simp add: GetAppConfig_def split: option.split)
  have put: "PutAppConfig (WithDefaults cfg) d = PutAppConfig cfg d" by (simp add: PutAppConfig_def)
  show ?thesis
  proof (cases "snd (GetAppConfig d)")
    case (Inl e)
    with assms get show ?thesis by (auto simp: ImportLegacyAppConfig_def split: prod.splits)
  next
    case (Inr cur)
    then have g: "GetAppConfig d = (d, Ok cur)" using get by simp
    with assms show ?thesis
      by (auto simp: ImportLegacyAppConfig_def Let_def put split: prod.splits sum.splits if_splits)
  qed
qed

theorem ImportLegacy_spec_witness:
  "\<exists>d'. ImportLegacyAppConfig DefaultAppConfig empty_db = (d', Ok False) \<and> d' = empty_db"
proof -
  have run: "ImportLegacyAppConfig DefaultAppConfig empty_db = (empty_db, Ok False)"
    by (simp add: ImportLegacyAppConfig_def GetAppConfig_def empty_db_def)
  with ImportLegacy_spec [OF run] show ?thesis by blast
qed

lemma GetAppConfig_ok: "keeps_ok GetAppConfig"
  by (simp add: keeps_ok_def GetAppConfig_def split: option.split)

lemma set_app_config_ok: "db_ok d \<Longrightarrow> db_ok (d\<lparr>d_app_config := v\<rparr>)"
  by (simp add: db_ok_defs)

lemma PutAppConfig_ok: "keeps_ok (PutAppConfig c)"
  by (simp add: keeps_ok_def PutAppConfig_def Let_def set_app_config_ok split: option.split)

end
