(* ===== verification/SourcesKeyed.thy ===== *)
theory SourcesKeyed
  imports SourcesOpen AppConfig
begin

text \<open>
  The adapters whose API wants a key: \<open>googlebooks.go\<close>, \<open>isbndb.go\<close> and \<open>hardcover.go\<close>. Google takes
  the key from the query of the URL, the other two from a header.
\<close>

subsection \<open>Google Books\<close>

definition googleBooksID :: string where "googleBooksID = ''googlebooks''"

record gb_links =
  gl_small_thumbnail :: string
  gl_thumbnail :: string
  gl_small :: string
  gl_medium :: string
  gl_large :: string
  gl_extra_large :: string

record gb_info =
  gi_title :: string
  gi_authors :: "string slice"
  gi_publisher :: string
  gi_published :: string
  gi_description :: string
  gi_pages :: int
  gi_categories :: "string slice"
  gi_language :: string
  gi_links :: "gb_links option"
  gi_identifiers :: "(string \<times> string) slice"

record gb_volume =
  gv_id :: string
  gv_info :: gb_info

definition empty_links :: gb_links where
  "empty_links = \<lparr>gl_small_thumbnail = [], gl_thumbnail = [], gl_small = [], gl_medium = [], gl_large = [], gl_extra_large = []\<rparr>"

definition empty_volume :: gb_volume where
  "empty_volume = \<lparr>gv_id = [], gv_info = \<lparr>gi_title = [], gi_authors = None, gi_publisher = [], gi_published = [],
     gi_description = [], gi_pages = 0, gi_categories = None, gi_language = [], gi_links = None, gi_identifiers = None\<rparr>\<rparr>"

definition links_fields :: "gb_links fields" where
  "links_fields = [
     (''smallThumbnail'', str_field gl_small_thumbnail (\<lambda>x. gl_small_thumbnail_update (\<lambda>_. x))),
     (''thumbnail'', str_field gl_thumbnail (\<lambda>x. gl_thumbnail_update (\<lambda>_. x))),
     (''small'', str_field gl_small (\<lambda>x. gl_small_update (\<lambda>_. x))),
     (''medium'', str_field gl_medium (\<lambda>x. gl_medium_update (\<lambda>_. x))),
     (''large'', str_field gl_large (\<lambda>x. gl_large_update (\<lambda>_. x))),
     (''extraLarge'', str_field gl_extra_large (\<lambda>x. gl_extra_large_update (\<lambda>_. x)))]"

definition pair_fields :: "string \<Rightarrow> string \<Rightarrow> (string \<times> string) fields" where
  "pair_fields a b = [(a, \<lambda>v r. map_option (\<lambda>x. (x, snd r)) (dec_str (fst r) v)), (b, \<lambda>v r. map_option (Pair (fst r)) (dec_str (snd r) v))]"

definition info_fields :: "gb_info fields" where
  "info_fields = [
     (''title'', str_field gi_title (\<lambda>x. gi_title_update (\<lambda>_. x))),
     (''authors'', strs_slice (\<lambda>x. gi_authors_update (\<lambda>_. x))),
     (''publisher'', str_field gi_publisher (\<lambda>x. gi_publisher_update (\<lambda>_. x))),
     (''publishedDate'', str_field gi_published (\<lambda>x. gi_published_update (\<lambda>_. x))),
     (''description'', str_field gi_description (\<lambda>x. gi_description_update (\<lambda>_. x))),
     (''pageCount'', int_field gi_pages (\<lambda>x. gi_pages_update (\<lambda>_. x))),
     (''categories'', strs_slice (\<lambda>x. gi_categories_update (\<lambda>_. x))),
     (''language'', str_field gi_language (\<lambda>x. gi_language_update (\<lambda>_. x))),
     (''imageLinks'', put_field (dec_ptr (\<lambda>v. dec_struct links_fields v empty_links)) (\<lambda>x. gi_links_update (\<lambda>_. x))),
     (''industryIdentifiers'', put_field (dec_slice (\<lambda>v. dec_struct (pair_fields ''type'' ''identifier'') v ([], [])))
        (\<lambda>x. gi_identifiers_update (\<lambda>_. x)))]"

definition volume_fields :: "gb_volume fields" where
  "volume_fields = [
     (''id'', str_field gv_id (\<lambda>x. gv_id_update (\<lambda>_. x))),
     (''volumeInfo'', \<lambda>v r. map_option (\<lambda>x. r\<lparr>gv_info := x\<rparr>) (dec_struct info_fields v (gv_info r)))]"

definition enc_links :: "gb_links \<Rightarrow> json" where
  "enc_links l = JObj [(''smallThumbnail'', enc_str (gl_small_thumbnail l)), (''thumbnail'', enc_str (gl_thumbnail l)),
     (''small'', enc_str (gl_small l)), (''medium'', enc_str (gl_medium l)), (''large'', enc_str (gl_large l)),
     (''extraLarge'', enc_str (gl_extra_large l))]"

definition enc_pair :: "string \<Rightarrow> string \<Rightarrow> string \<times> string \<Rightarrow> json" where
  "enc_pair a b x = JObj [(a, enc_str (fst x)), (b, enc_str (snd x))]"

definition enc_volume :: "gb_volume \<Rightarrow> json" where
  "enc_volume v = (let i = gv_info v in JObj [(''id'', enc_str (gv_id v)), (''volumeInfo'', JObj [(''title'', enc_str (gi_title i)),
     (''authors'', enc_slice enc_str (gi_authors i)), (''publisher'', enc_str (gi_publisher i)),
     (''publishedDate'', enc_str (gi_published i)), (''description'', enc_str (gi_description i)), (''pageCount'', JNum (gi_pages i)),
     (''categories'', enc_slice enc_str (gi_categories i)), (''language'', enc_str (gi_language i)),
     (''imageLinks'', (case gi_links i of None \<Rightarrow> JNull | Some l \<Rightarrow> enc_links l)),
     (''industryIdentifiers'', enc_slice (enc_pair ''type'' ''identifier'') (gi_identifiers i))])])"

definition identifier_of :: "string \<Rightarrow> (string \<times> string) list \<Rightarrow> string" where
  "identifier_of t ids = (case find (\<lambda>x. fst x = t) ids of None \<Rightarrow> [] | Some x \<Rightarrow> snd x)"

definition best_link :: "gb_links option \<Rightarrow> string" where
  "best_link l = (case l of None \<Rightarrow> []
     | Some l \<Rightarrow> (case find (\<lambda>u. u \<noteq> []) [gl_extra_large l, gl_large l, gl_medium l, gl_small l, gl_thumbnail l, gl_small_thumbnail l] of
         None \<Rightarrow> [] | Some u \<Rightarrow> ReplaceAll ''http://'' ''https://'' u))"

definition volume_candidate :: "string \<Rightarrow> raw_message \<Rightarrow> gb_volume \<Rightarrow> candidate" where
  "volume_candidate region raw v =
    (let i = gv_info v; isbn = identifier_of ''ISBN_13'' (elems (gi_identifiers i)) in
     empty_candidate\<lparr>c_source := googleBooksID, c_external_id := gv_id v, c_title := gi_title i, c_authors := elems (gi_authors i),
       c_description := gi_description i, c_publisher := gi_publisher i, c_published_at := gi_published i, c_language := gi_language i,
       c_genres := elems (gi_categories i), c_isbn := (if isbn = [] then identifier_of ''ISBN_10'' (elems (gi_identifiers i)) else isbn),
       c_cover_url := best_link (gi_links i), c_page_count := gi_pages i, c_region := region, c_raw := raw\<rparr>)"

definition gbVolumeID :: "string \<Rightarrow> bool" where
  "gbVolumeID s \<longleftrightarrow> length s = 12 \<and> list_all (\<lambda>c. alnum c \<or> c \<in> set ''_-'') s"

definition volume_url :: "string \<Rightarrow> string \<Rightarrow> string \<Rightarrow> string" where
  "volume_url base key i = base @ ''/volumes/'' @ PathEscape i @ ''?key='' @ QueryEscape key"

definition gbooks_Get :: "source_env \<Rightarrow> string \<Rightarrow> string \<Rightarrow> string \<Rightarrow> string \<Rightarrow> (source_error, candidate option) res" where
  "gbooks_Get E base key i region =
    (let i = TrimSpace i in
     if \<not> gbVolumeID i then Ok None
     else bind_res (GetJSON E (volume_url base key i)) (\<lambda>body.
       bind_res (UnmarshalInto E (\<lambda>v. dec_struct volume_fields v empty_volume) body) (\<lambda>vol.
         Ok (Some (volume_candidate region (raw_body E body) vol)))))"

definition gbooks_response :: "json \<Rightarrow> gb_volume list option" where
  "gbooks_response v = dec_struct [(''totalItems'', put_field (dec_int 0) (\<lambda>x r. r)),
     (''items'', put_field (dec_list (\<lambda>v. dec_struct volume_fields v empty_volume)) (\<lambda>x r. x))] v []"

definition volumes_url :: "string \<Rightarrow> string \<Rightarrow> string \<Rightarrow> string" where
  "volumes_url base key q = base @ ''/volumes?q='' @ QueryEscape q @ ''&maxResults=20&key='' @ QueryEscape key"

definition gbooks_Search :: "source_env \<Rightarrow> string \<Rightarrow> string \<Rightarrow> string \<Rightarrow> string \<Rightarrow> (source_error, candidate list) res" where
  "gbooks_Search E base key query region =
    (let q = TrimSpace query in
     if q = [] then Ok []
     else let q = (if isbnRE (no_dashes q) then ''isbn:'' @ no_dashes q else q) in
       not_found_empty (bind_res (GetJSON E (volumes_url base key q)) (\<lambda>body.
         bind_res (UnmarshalInto E gbooks_response body) (\<lambda>vs.
           Ok (map (\<lambda>v. volume_candidate region (RawValid (enc_volume v)) v) vs)))))"

definition GoogleBooks :: "source_env \<Rightarrow> string \<Rightarrow> string \<Rightarrow> source" where
  "GoogleBooks E base key = \<lparr>s_id = googleBooksID, s_enabled = (\<lambda>cfg. cfg googleBooksID \<and> key \<noteq> []),
     s_search = gbooks_Search E base key, s_get = gbooks_Get E base key\<rparr>"

subsection \<open>ISBNdb\<close>

definition isbndbID :: string where "isbndbID = ''isbndb''"

record isbndb_book =
  ib_title :: string
  ib_isbn :: string
  ib_isbn13 :: string
  ib_publisher :: string
  ib_language :: string
  ib_published :: string
  ib_synopsis :: string
  ib_overview :: string
  ib_image :: string
  ib_authors :: "string slice"
  ib_subjects :: "string slice"
  ib_pages :: int

definition empty_isbndb :: isbndb_book where
  "empty_isbndb = \<lparr>ib_title = [], ib_isbn = [], ib_isbn13 = [], ib_publisher = [], ib_language = [], ib_published = [],
     ib_synopsis = [], ib_overview = [], ib_image = [], ib_authors = None, ib_subjects = None, ib_pages = 0\<rparr>"

definition isbndb_fields :: "isbndb_book fields" where
  "isbndb_fields = [
     (''title'', str_field ib_title (\<lambda>x. ib_title_update (\<lambda>_. x))), (''isbn'', str_field ib_isbn (\<lambda>x. ib_isbn_update (\<lambda>_. x))),
     (''isbn13'', str_field ib_isbn13 (\<lambda>x. ib_isbn13_update (\<lambda>_. x))),
     (''publisher'', str_field ib_publisher (\<lambda>x. ib_publisher_update (\<lambda>_. x))),
     (''language'', str_field ib_language (\<lambda>x. ib_language_update (\<lambda>_. x))),
     (''date_published'', str_field ib_published (\<lambda>x. ib_published_update (\<lambda>_. x))),
     (''synopsis'', str_field ib_synopsis (\<lambda>x. ib_synopsis_update (\<lambda>_. x))),
     (''overview'', str_field ib_overview (\<lambda>x. ib_overview_update (\<lambda>_. x))), (''image'', str_field ib_image (\<lambda>x. ib_image_update (\<lambda>_. x))),
     (''authors'', strs_slice (\<lambda>x. ib_authors_update (\<lambda>_. x))), (''subjects'', strs_slice (\<lambda>x. ib_subjects_update (\<lambda>_. x))),
     (''pages'', int_field ib_pages (\<lambda>x. ib_pages_update (\<lambda>_. x)))]"

definition enc_isbndb :: "isbndb_book \<Rightarrow> json" where
  "enc_isbndb b = JObj [(''title'', enc_str (ib_title b)), (''isbn'', enc_str (ib_isbn b)), (''isbn13'', enc_str (ib_isbn13 b)),
     (''publisher'', enc_str (ib_publisher b)), (''language'', enc_str (ib_language b)), (''date_published'', enc_str (ib_published b)),
     (''synopsis'', enc_str (ib_synopsis b)), (''overview'', enc_str (ib_overview b)), (''image'', enc_str (ib_image b)),
     (''authors'', enc_slice enc_str (ib_authors b)), (''subjects'', enc_slice enc_str (ib_subjects b)), (''pages'', JNum (ib_pages b))]"

definition isbndb_candidate :: "string \<Rightarrow> raw_message \<Rightarrow> isbndb_book \<Rightarrow> candidate" where
  "isbndb_candidate region raw b =
    (let isbn = (if ib_isbn13 b = [] then ib_isbn b else ib_isbn13 b) in
     empty_candidate\<lparr>c_source := isbndbID, c_external_id := isbn, c_title := ib_title b, c_authors := elems (ib_authors b),
       c_description := (if ib_synopsis b = [] then ib_overview b else ib_synopsis b), c_publisher := ib_publisher b,
       c_published_at := ib_published b, c_language := ib_language b, c_genres := elems (ib_subjects b), c_isbn := isbn,
       c_cover_url := ib_image b, c_page_count := ib_pages b, c_region := region, c_raw := raw\<rparr>)"

definition authHeaders :: "string \<Rightarrow> header" where
  "authHeaders key = [(''Authorization'', key)]"

definition isbndb_Get :: "source_env \<Rightarrow> string \<Rightarrow> string \<Rightarrow> string \<Rightarrow> string \<Rightarrow> (source_error, candidate option) res" where
  "isbndb_Get E base key i region =
    (let i = TrimSpace i in
     if i = [] \<or> \<not> isbnRE (no_dashes i) then Ok None
     else bind_res (GetJSONWithHeaders E (authHeaders key) (base @ ''/book/'' @ PathEscape (no_dashes i))) (\<lambda>body.
       bind_res (UnmarshalInto E (\<lambda>v. dec_struct [(''book'', put_field (dec_ptr (\<lambda>v. dec_struct isbndb_fields v empty_isbndb)) (\<lambda>x r. x))] v None) body)
         (\<lambda>b. case b of None \<Rightarrow> Err SourceNotFound | Some b \<Rightarrow> Ok (Some (isbndb_candidate region (raw_body E body) b)))))"

definition isbndb_response :: "json \<Rightarrow> isbndb_book list option" where
  "isbndb_response v = dec_struct [(''total'', put_field (dec_int 0) (\<lambda>x r. r)),
     (''books'', put_field (dec_list (\<lambda>v. dec_struct isbndb_fields v empty_isbndb)) (\<lambda>x r. x))] v []"

definition isbndb_Search :: "source_env \<Rightarrow> string \<Rightarrow> string \<Rightarrow> string \<Rightarrow> string \<Rightarrow> (source_error, candidate list) res" where
  "isbndb_Search E base key query region =
    (let q = TrimSpace query in
     if q = [] then Ok []
     else not_found_empty (bind_res (GetJSONWithHeaders E (authHeaders key) (base @ ''/books/'' @ PathEscape q @ ''?pageSize=20'')) (\<lambda>body.
       bind_res (UnmarshalInto E isbndb_response body) (\<lambda>bs. Ok (map (\<lambda>b. isbndb_candidate region (RawValid (enc_isbndb b)) b) bs)))))"

definition ISBNdb :: "source_env \<Rightarrow> string \<Rightarrow> string \<Rightarrow> source" where
  "ISBNdb E base key = \<lparr>s_id = isbndbID, s_enabled = (\<lambda>cfg. cfg isbndbID \<and> key \<noteq> []),
     s_search = isbndb_Search E base key, s_get = isbndb_Get E base key\<rparr>"

subsection \<open>Hardcover\<close>

definition hardcoverID :: string where "hardcoverID = ''hardcover''"

record hc_book =
  hb_id :: int
  hb_title :: string
  hb_description :: string
  hb_release :: string
  hb_pages :: int
  hb_authors :: "string slice"
  hb_editions :: "(string \<times> string) slice"
  hb_image :: "string option"
  hb_slug :: string

definition empty_hc :: hc_book where
  "empty_hc = \<lparr>hb_id = 0, hb_title = [], hb_description = [], hb_release = [], hb_pages = 0, hb_authors = None,
     hb_editions = None, hb_image = None, hb_slug = []\<rparr>"

definition hc_fields :: "hc_book fields" where
  "hc_fields = [
     (''id'', int_field hb_id (\<lambda>x. hb_id_update (\<lambda>_. x))), (''title'', str_field hb_title (\<lambda>x. hb_title_update (\<lambda>_. x))),
     (''description'', str_field hb_description (\<lambda>x. hb_description_update (\<lambda>_. x))),
     (''release_date'', str_field hb_release (\<lambda>x. hb_release_update (\<lambda>_. x))),
     (''pages'', int_field hb_pages (\<lambda>x. hb_pages_update (\<lambda>_. x))),
     (''contributions'', put_field (dec_slice (\<lambda>v. dec_struct [(''author'', \<lambda>v r. dec_struct [(''name'', \<lambda>v r. dec_str r v)] v r)] v []))
        (\<lambda>x. hb_authors_update (\<lambda>_. x))),
     (''editions'', put_field (dec_slice (\<lambda>v. dec_struct (pair_fields ''isbn_13'' ''isbn_10'') v ([], []))) (\<lambda>x. hb_editions_update (\<lambda>_. x))),
     (''image'', put_field (dec_ptr (dec_one ''url'')) (\<lambda>x. hb_image_update (\<lambda>_. x))),
     (''slug'', str_field hb_slug (\<lambda>x. hb_slug_update (\<lambda>_. x)))]"

definition enc_hc :: "hc_book \<Rightarrow> json" where
  "enc_hc b = JObj [(''id'', JNum (hb_id b)), (''title'', enc_str (hb_title b)), (''description'', enc_str (hb_description b)),
     (''release_date'', enc_str (hb_release b)), (''pages'', JNum (hb_pages b)),
     (''contributions'', enc_slice (\<lambda>n. JObj [(''author'', JObj [(''name'', enc_str n)])]) (hb_authors b)),
     (''editions'', enc_slice (enc_pair ''isbn_13'' ''isbn_10'') (hb_editions b)),
     (''image'', (case hb_image b of None \<Rightarrow> JNull | Some u \<Rightarrow> JObj [(''url'', enc_str u)])), (''slug'', enc_str (hb_slug b))]"

definition hc_candidate :: "string \<Rightarrow> raw_message \<Rightarrow> hc_book \<Rightarrow> candidate" where
  "hc_candidate region raw b =
    (let nonempty = (\<lambda>ss. first_of (filter (\<lambda>s. s \<noteq> []) ss)); isbn = nonempty (map fst (elems (hb_editions b))) in
     empty_candidate\<lparr>c_source := hardcoverID, c_external_id := Itoa (hb_id b), c_title := hb_title b,
       c_authors := filter (\<lambda>a. a \<noteq> []) (elems (hb_authors b)), c_description := hb_description b,
       c_isbn := (if isbn = [] then nonempty (map snd (elems (hb_editions b))) else isbn),
       c_cover_url := (case hb_image b of None \<Rightarrow> [] | Some u \<Rightarrow> u), c_published_at := hb_release b,
       c_page_count := hb_pages b, c_region := region, c_raw := raw\<rparr>)"

definition gqlQuery :: "source_env \<Rightarrow> string \<Rightarrow> string \<Rightarrow> string \<Rightarrow> (string \<times> json) list \<Rightarrow> (source_error, string) res" where
  "gqlQuery E base key query vars = answer_body E ''POST'' ''Post'' id
     \<lparr>hc_method = ''POST'', hc_url = base,
       hc_headers = [(''Content-Type'', ''application/json''), (''Authorization'', ''Bearer '' @ key)] @ ua_header E,
       hc_body = Some (JObj [(''query'', enc_str query), (''variables'', JObj vars)])\<rparr>"

definition hardcoverBookFields :: string where
  "hardcoverBookFields = [CHR 10] @ concat (map (\<lambda>l. ''  '' @ l @ [CHR 10]) [''id'', ''title'', ''description'', ''release_date'',
     ''pages'', ''contributions { author { name } }'', ''editions { isbn_13 isbn_10 }'', ''image { url }'', ''slug''])"

definition book_query :: string where
  "book_query = ''query GetBook($id: Int!) { books_by_pk(id: $id) {'' @ hardcoverBookFields @ ''} }''"

definition search_query :: string where
  "search_query = ''query SearchBooks($q: String!) { books(where: {title: {_ilike: $q}}, limit: 20) {'' @ hardcoverBookFields @ ''} }''"

text \<open>Digits outside ASCII pass \<open>isNumeric\<close>, but \<open>Atoi\<close> refuses them.\<close>

definition hc_Get :: "source_env \<Rightarrow> string \<Rightarrow> string \<Rightarrow> string \<Rightarrow> string \<Rightarrow> (source_error, candidate option) res" where
  "hc_Get E base key i region =
    (if \<not> numeric i then Ok None
     else let (n, ok) = Atoi i in
       if \<not> ok then Ok None
       else bind_res (gqlQuery E base key book_query [(''id'', JNum n)]) (\<lambda>body.
         bind_res (UnmarshalInto E (\<lambda>v. dec_struct [(''data'', \<lambda>v r. dec_struct [(''books_by_pk'',
             put_field (dec_ptr (\<lambda>v. dec_struct hc_fields v empty_hc)) (\<lambda>x r. x))] v r)] v None) body)
           (\<lambda>b. case b of None \<Rightarrow> Err SourceNotFound | Some b \<Rightarrow> Ok (Some (hc_candidate region (raw_body E body) b)))))"

definition hc_Search :: "source_env \<Rightarrow> string \<Rightarrow> string \<Rightarrow> string \<Rightarrow> string \<Rightarrow> (source_error, candidate list) res" where
  "hc_Search E base key query region =
    (if query = [] then Ok []
     else bind_res (gqlQuery E base key search_query [(''q'', enc_str (''%'' @ query @ ''%''))]) (\<lambda>body.
       bind_res (UnmarshalInto E (\<lambda>v. dec_struct [(''data'', \<lambda>v r. dec_struct [(''books'',
           put_field (dec_list (\<lambda>v. dec_struct hc_fields v empty_hc)) (\<lambda>x r. x))] v r)] v []) body)
         (\<lambda>bs. Ok (map (\<lambda>b. hc_candidate region (RawValid (enc_hc b)) b) bs))))"

definition Hardcover :: "source_env \<Rightarrow> string \<Rightarrow> string \<Rightarrow> source" where
  "Hardcover E base key = \<lparr>s_id = hardcoverID, s_enabled = (\<lambda>cfg. cfg hardcoverID \<and> key \<noteq> []),
     s_search = hc_Search E base key, s_get = hc_Get E base key\<rparr>"

subsection \<open>The adapters as the program builds them\<close>

definition json_source :: "source_env \<Rightarrow> app_config \<Rightarrow> string \<Rightarrow> source option" where
  "json_source E cfg i =
    (if i = openLibraryID then Some (OpenLibrary E ''https://openlibrary.org'' ''https://covers.openlibrary.org'')
     else if i = googleBooksID then Some (GoogleBooks E ''https://www.googleapis.com/books/v1'' (ac_google_key cfg))
     else if i = isbndbID then Some (ISBNdb E ''https://api2.isbndb.com'' (ac_isbndb_key cfg))
     else if i = hardcoverID then Some (Hardcover E ''https://api.hardcover.app/v1/graphql'' (ac_hardcover_key cfg))
     else if i = gutenbergID then Some (Gutenberg E ''https://gutendex.com'')
     else if i = bookbrainzID then Some (BookBrainz E ''https://api.bookbrainz.org/1'')
     else if i = internetArchiveID then Some (InternetArchive E ''https://archive.org'')
     else None)"

lemmas source_ids = openLibraryID_def googleBooksID_def isbndbID_def hardcoverID_def gutenbergID_def bookbrainzID_def internetArchiveID_def

lemmas adapters = OpenLibrary_def GoogleBooks_def ISBNdb_def Hardcover_def Gutenberg_def BookBrainz_def InternetArchive_def

subsection \<open>What an adapter returns\<close>

definition tagged :: "string \<Rightarrow> string \<Rightarrow> candidate \<Rightarrow> bool" where
  "tagged i g c \<longleftrightarrow> c_source c = i \<and> c_region c = g \<and> (\<exists>v. c_raw c = RawValid v)"

lemma Unmarshal_raw: "UnmarshalInto E dec body = Ok x \<Longrightarrow> \<exists>v. raw_body E body = RawValid v"
  by (cases "sv_json E body") (simp_all add: UnmarshalInto_def raw_body_def)

lemma candidates_tagged:
  "tagged openLibraryID g (edition_candidate cov g (RawValid v) e)" "tagged openLibraryID g (doc_candidate cov g d)"
  "tagged gutenbergID g (gut_candidate g (RawValid v) b)" "tagged bookbrainzID g (bb_candidate E g (RawValid v) n)"
  "tagged internetArchiveID g (iaToCandidate base g (RawValid v) it)" "tagged googleBooksID g (volume_candidate g (RawValid v) vol)"
  "tagged isbndbID g (isbndb_candidate g (RawValid v) ib)" "tagged hardcoverID g (hc_candidate g (RawValid v) hb)"
  by (simp_all add: tagged_def edition_candidate_def doc_candidate_def gut_candidate_def bb_candidate_def iaToCandidate_def
      volume_candidate_def isbndb_candidate_def hc_candidate_def Let_def)

lemma ia_answer_tagged: "ia_answer E base g i body v = Ok (Some c) \<Longrightarrow> raw_body E body = RawValid w \<Longrightarrow> tagged internetArchiveID g c"
  using candidates_tagged(5) by (cases "dec_struct ia_fields v empty_item") (auto simp: ia_answer_def)

lemmas get_defs = Let_def bind_res_Ok candidates_tagged

lemma ol_get_tagged: "ol_Get E b cov i g = Ok (Some c) \<Longrightarrow> tagged openLibraryID g c"
  by (auto simp: ol_Get_def get_defs split: option.splits if_splits dest!: Unmarshal_raw)

lemma open_get_tagged:
  "gut_Get E b i g = Ok (Some c) \<Longrightarrow> tagged gutenbergID g c" "bb_Get E b i g = Ok (Some c) \<Longrightarrow> tagged bookbrainzID g c"
  by (auto simp: gut_Get_def bb_Get_def get_defs split: if_splits dest!: Unmarshal_raw)

lemma ia_get_tagged: "ia_Get E b i g = Ok (Some c) \<Longrightarrow> tagged internetArchiveID g c"
  by (auto simp: ia_Get_def Let_def bind_res_Ok split: option.splits if_splits dest!: Unmarshal_raw intro: ia_answer_tagged)

lemma keyed_get_tagged:
  "gbooks_Get E b k i g = Ok (Some c) \<Longrightarrow> tagged googleBooksID g c" "isbndb_Get E b k i g = Ok (Some c) \<Longrightarrow> tagged isbndbID g c"
  "hc_Get E b k i g = Ok (Some c) \<Longrightarrow> tagged hardcoverID g c"
  by (auto simp: gbooks_Get_def isbndb_Get_def hc_Get_def get_defs split: option.splits if_splits prod.splits dest!: Unmarshal_raw)

lemma mapped_tagged:
  assumes "not_found_empty (bind_res G (\<lambda>body. bind_res (UnmarshalInto E dec body) (\<lambda>xs. Ok (f body xs)))) = Ok cs" and "c \<in> set cs"
    and "\<And>body v xs. raw_body E body = RawValid v \<Longrightarrow> c \<in> set (f body xs) \<Longrightarrow> tagged i g c"
  shows "tagged i g c"
proof -
  have "bind_res G (\<lambda>body. bind_res (UnmarshalInto E dec body) (\<lambda>xs. Ok (f body xs))) = Ok cs"
    using assms(1,2) by (auto simp: not_found_empty_Ok)
  then obtain body xs where "UnmarshalInto E dec body = Ok xs" "cs = f body xs" by (auto simp: bind_res_Ok)
  with assms(2,3) Unmarshal_raw show ?thesis by metis
qed

lemma open_search_tagged:
  assumes "c \<in> set cs"
  shows "gut_Search E b q g = Ok cs \<Longrightarrow> tagged gutenbergID g c" "bb_Search E b q g = Ok cs \<Longrightarrow> tagged bookbrainzID g c"
    "ia_Search E b q g = Ok cs \<Longrightarrow> tagged internetArchiveID g c"
  using assms unfolding gut_Search_def bb_Search_def ia_Search_def Let_def
  by (auto split: if_splits simp: candidates_tagged elim!: mapped_tagged)

lemma ol_search_tagged:
  assumes "c \<in> set cs" and "ol_Search E b cov q g = Ok cs"
  shows "tagged openLibraryID g c"
proof (cases "isbnRE (no_dashes (TrimSpace q))")
  case True
  with assms have "ol_Get E b cov (no_dashes (TrimSpace q)) g = Ok (Some c)"
    by (auto simp: ol_Search_def Let_def not_found_empty_Ok bind_res_Ok split: if_splits option.splits)
  then show ?thesis by (rule ol_get_tagged)
next
  case False
  with assms show ?thesis
    unfolding ol_Search_def Let_def by (auto split: if_splits simp: candidates_tagged elim!: mapped_tagged)
qed

lemma keyed_search_tagged:
  assumes "c \<in> set cs"
  shows "gbooks_Search E b k q g = Ok cs \<Longrightarrow> tagged googleBooksID g c" "isbndb_Search E b k q g = Ok cs \<Longrightarrow> tagged isbndbID g c"
  using assms unfolding gbooks_Search_def isbndb_Search_def Let_def
  by (auto split: if_splits simp: candidates_tagged elim!: mapped_tagged)

lemma hc_search_tagged:
  assumes "c \<in> set cs" and "hc_Search E b k q g = Ok cs"
  shows "tagged hardcoverID g c"
  using assms by (auto simp: hc_Search_def bind_res_Ok candidates_tagged split: if_splits)

lemma tagged_marshals: "list_all (\<lambda>c. \<exists>v. c_raw c = RawValid v) cs \<Longrightarrow> marshal_candidates cs \<noteq> None"
proof -
  assume "list_all (\<lambda>c. \<exists>v. c_raw c = RawValid v) cs"
  then have "sequence (map enc_candidate cs) \<noteq> None"
    by (induction cs) (auto simp: enc_candidate_def enc_raw_def)
  then show ?thesis by (auto simp: marshal_candidates_def)
qed

lemma adapter_cases:
  assumes "json_source E cfg i = Some s"
  obtains (ol) b cov where "i = openLibraryID" "s = OpenLibrary E b cov"
  | (gb) b k where "i = googleBooksID" "s = GoogleBooks E b k" | (ib) b k where "i = isbndbID" "s = ISBNdb E b k"
  | (hc) b k where "i = hardcoverID" "s = Hardcover E b k" | (gu) b where "i = gutenbergID" "s = Gutenberg E b"
  | (bb) b where "i = bookbrainzID" "s = BookBrainz E b" | (ia) b where "i = internetArchiveID" "s = InternetArchive E b"
  using assms by (auto simp: json_source_def split: if_splits)

lemma adapter_tagged:
  assumes "json_source E cfg i = Some s"
  shows "s_search s q g = Ok cs \<Longrightarrow> c \<in> set cs \<Longrightarrow> tagged i g c" and "s_get s n g = Ok (Some c) \<Longrightarrow> tagged i g c"
  using assms
  by (cases rule: adapter_cases; auto simp: adapters dest: ol_search_tagged open_search_tagged keyed_search_tagged hc_search_tagged
      ol_get_tagged open_get_tagged ia_get_tagged keyed_get_tagged)+

text \<open>The texts of a candidate. A JSONB column refuses a document with a NUL in one of its strings.\<close>

definition candidate_texts :: "candidate \<Rightarrow> string list" where
  "candidate_texts c = [c_source c, c_external_id c, c_title c, c_description c, c_asin c, c_isbn c, c_cover_url c,
     c_published_at c, c_publisher c, c_language c, c_series c, c_series_pos c, c_region c] @ c_authors c @ c_genres c"

definition storable :: "candidate \<Rightarrow> bool" where
  "storable c \<longleftrightarrow> list_all no_nul (candidate_texts c) \<and> (case c_raw c of RawValid v \<Rightarrow> jsonb_ok v | _ \<Rightarrow> True)"

lemma no_nul_simps [simp]: "no_nul []" "no_nul (s @ t) \<longleftrightarrow> no_nul s \<and> no_nul t"
  by (simp_all add: no_nul_def)

lemma no_nul_coerce: "no_nul (coerce_utf8 s) = no_nul s"
proof (induction s rule: coerce_utf8.induct)
  case (1 s)
  consider "s = []" | "s \<noteq> []" "utf8_front s = 0" | "s \<noteq> []" "utf8_front s \<noteq> 0" by blast
  then show ?case
  proof cases
    case 2
    obtain c r where s: "s = c # r" using 2(1) by (cases s) auto
    have "code c \<noteq> (0::nat)" using 2(2) unfolding s by (auto simp: utf8_front_def byte_in_def split: if_splits)
    moreover have "no_nul [byte 239, byte 191, byte 189]" by (simp add: no_nul_def)
    ultimately show ?thesis using 1(1) 2 by (simp add: coerce_utf8.simps [of s] no_nul_def) (simp add: s)
  next
    case 3
    have "no_nul s = (no_nul (take (utf8_front s) s) \<and> no_nul (drop (utf8_front s) s))"
      by (metis append_take_drop_id no_nul_simps(2))
    then show ?thesis using 1(2) 3 by (simp add: coerce_utf8.simps [of s])
  qed simp
qed

lemma jsonb_str: "jsonb_ok (enc_str s) = no_nul s"
  by (simp add: enc_str_def no_nul_coerce)

lemma jsonb_member: "no_nul k \<Longrightarrow> jsonb_ok (JObj (omit_str k s @ ms)) = (no_nul s \<and> jsonb_ok (JObj ms))"
  "no_nul k \<Longrightarrow> jsonb_ok (JObj (omit_strs k ss @ ms)) = (list_all no_nul ss \<and> jsonb_ok (JObj ms))"
  "no_nul k \<Longrightarrow> jsonb_ok (JObj (omit_int k n @ ms)) = jsonb_ok (JObj ms)"
  "no_nul k \<Longrightarrow> jsonb_ok (JObj ((k, enc_str s) # ms)) = (no_nul s \<and> jsonb_ok (JObj ms))"
  by (auto simp: omit_str_def omit_strs_def omit_int_def enc_strs_def jsonb_str list_all_iff)

lemma enc_candidate_storable:
  assumes "enc_candidate c = Some v"
  shows "jsonb_ok v = storable c"
proof -
  have keys: "list_all no_nul [''source'', ''external_id'', ''title'', ''authors'', ''description'', ''asin'', ''isbn'', ''cover_url'',
      ''published_at'', ''publisher'', ''language'', ''genres'', ''page_count'', ''series'', ''series_pos'', ''region'', ''raw'']"
    by (simp add: no_nul_def)
  obtain raw where raw: "enc_raw ''raw'' (c_raw c) = Some raw" using assms by (auto simp: enc_candidate_def)
  have "jsonb_ok (JObj raw) = (case c_raw c of RawValid v \<Rightarrow> jsonb_ok v | _ \<Rightarrow> True)"
    using raw keys by (cases "c_raw c") (auto simp: enc_raw_def)
  moreover have "jsonb_ok v = (list_all no_nul (candidate_texts c) \<and> jsonb_ok (JObj raw))"
    using assms raw keys
    by (auto simp del: jsonb_ok.simps simp: enc_candidate_def jsonb_member candidate_texts_def)
  ultimately show ?thesis by (simp add: storable_def)
qed

lemma marshal_storable: "marshal_candidates cs = Some v \<Longrightarrow> jsonb_ok v = list_all storable cs"
proof -
  have seq: "sequence (map enc_candidate cs) = Some vs \<Longrightarrow> list_all jsonb_ok vs = list_all storable cs" for vs
    by (induction cs arbitrary: vs) (auto simp: enc_candidate_storable split: bind_splits)
  assume "marshal_candidates cs = Some v"
  then show ?thesis using seq by (auto simp: marshal_candidates_def)
qed

lemma hit_cached:
  assumes "marshal_candidates cs = Some v" and "list_all pg_text [k, i, g]" and "0 \<le> ttl"
  shows "if list_all storable cs
    then \<exists>d' e. PutHit k i g v d = (d', Ok ()) \<and> CacheGet ttl (d_now d * 1000) k d' = (d', Ok e) \<and> en_response e = v \<and> \<not> en_not_found e
    else PutHit k i g v d = (d, Err ErrEncoding)"
proof (cases "list_all storable cs")
  case True
  then have "snd (PutHit k i g v d) = Ok ()"
    using assms marshal_storable [OF assms(1)] by (auto simp: PutHit_def put_cache_def split: option.split)
  then obtain d' where p: "PutHit k i g v d = (d', Ok ())" by (cases "PutHit k i g v d") auto
  from CacheGet_after_put [OF p [unfolded PutHit_def], of ttl "d_now d * 1000"] assms(3) True p show ?thesis by auto
next
  case False
  then show ?thesis using marshal_storable [OF assms(1)] by (simp add: PutHit_def put_cache_def)
qed

lemma json_ids_text: "json_source E cfg i = Some s \<Longrightarrow> pg_text i"
  by (rule pg_text_ascii) (auto simp: json_source_def source_ids split: if_splits)


subsection \<open>The key in error messages\<close>

definition gbooks_query :: "string \<Rightarrow> string" where
  "gbooks_query q = (let q = TrimSpace q in if isbnRE (no_dashes q) then ''isbn:'' @ no_dashes q else q)"

definition gbooks_call :: "source_env \<Rightarrow> string \<Rightarrow> string \<Rightarrow> string \<Rightarrow> http_call" where
  "gbooks_call E base key q = \<lparr>hc_method = ''GET'', hc_url = volumes_url base key (gbooks_query q), hc_headers = ua_header E, hc_body = None\<rparr>"

text \<open>
  C7. A Google Books error for a bad status names the URL without its query, but a failed
  connection puts the whole URL, API key included, into the error text.
\<close>

theorem api_key_in_errors:
  assumes "TrimSpace q \<noteq> []" and "CHR ''?'' \<notin> set base"
  shows "(\<forall>st body. sv_http E (gbooks_call E base key q) = Reply st body \<and> st \<noteq> 404 \<and> (st < 200 \<or> 300 \<le> st) \<longrightarrow>
      s_search (GoogleBooks E base key) q g = Err (SourceFailed (''source: GET '' @ base @ ''/volumes?<redacted> status '' @ Itoa st))) \<and>
    (\<forall>m. sv_http E (gbooks_call E base key q) = NoReply (SourceFailed m) \<longrightarrow>
      s_search (GoogleBooks E base key) q g =
        Err (SourceFailed (''Get '' @ sv_quote E (volumes_url base key (gbooks_query q)) @ '': '' @ m)))"
proof -
  have "volumes_url base key r = (base @ ''/volumes'') @ CHR ''?'' # ''q='' @ QueryEscape r @ ''&maxResults=20&key='' @ QueryEscape key" for r
    by (simp add: volumes_url_def)
  then have red: "redactURL (volumes_url base key r) = base @ ''/volumes?<redacted>''" for r
    using redactURL_query [of "base @ ''/volumes''"] assms(2) by simp
  have "s_search (GoogleBooks E base key) q g = not_found_empty (bind_res (GetJSON E (volumes_url base key (gbooks_query q)))
      (\<lambda>body. bind_res (UnmarshalInto E gbooks_response body) (\<lambda>vs. Ok (map (\<lambda>v. volume_candidate g (RawValid (enc_volume v)) v) vs))))"
    using assms(1) by (simp add: GoogleBooks_def gbooks_Search_def gbooks_query_def Let_def)
  then show ?thesis
    by (auto simp: GetJSON_def GetJSONWithHeaders_def answer_body_def gbooks_call_def red not_found_empty_def bind_res_def transport_error_def)
qed

subsection \<open>Ids that can be fetched again\<close>

lemma isbnRE_chars: "isbnRE s \<Longrightarrow> c \<in> set s \<Longrightarrow> is_digit c \<or> c = CHR ''X''"
proof -
  assume s: "isbnRE s" and c: "c \<in> set s"
  show ?thesis
  proof (cases "isbn_core s")
    case True
    then have "length s = 10" by (simp add: isbn_core_def)
    then have "s = take 9 s @ [s ! 9]" using take_Suc_conv_app_nth [of 9 s] by simp
    then have "c \<in> set (take 9 s) \<or> c = s ! 9" using c by (metis Un_iff empty_iff insert_iff list.set(1) list.set(2) set_append)
    then show ?thesis using True by (auto simp: isbn_core_def list_all_iff)
  qed (use s c in \<open>auto simp: isbnRE_def list_all_iff\<close>)
qed

lemma Itoa_digits: "0 \<le> n \<Longrightarrow> numeric (Itoa n)"
  using nat_digits_digits nat_digits_nonempty by (auto simp: numeric_def Itoa_def list_all_iff)

lemma numeric_plain: "numeric s \<Longrightarrow> TrimSpace s = s"
proof (rule TrimSpace_plain)
  assume s: "numeric s"
  then show "s \<noteq> []" by (simp add: numeric_def)
  have "plain c" if "c \<in> set s" for c
    using s that by (auto simp: numeric_def list_all_iff is_digit_def plain_def ascii_space_def)
  with \<open>s \<noteq> []\<close> show "plain (hd s)" "plain (last s)" by simp_all
qed

lemma numeric_escape: "numeric s \<Longrightarrow> PathEscape s = s"
proof -
  assume "numeric s"
  then have "list_all is_digit s" by (simp add: numeric_def)
  then show ?thesis
    by (induction s) (auto simp: PathEscape_def escape_def escape_byte_def unreserved_def alnum_def)
qed

text \<open>
  The id of a Gutenberg search hit is fetched by Get under the number of the book, while the
  work id of an Open Library search hit is refused by Get without a request.
\<close>

theorem search_ids_fetchable:
  assumes "0 \<le> gu_id b" and "od_key d = ''/works/'' @ w" and "HasSuffix w ''W''" and "TrimSpace w = w"
  shows "s_get (Gutenberg E base) (c_external_id (gut_candidate g raw b)) g' =
      bind_res (GetJSON E (base @ ''/books/'' @ Itoa (gu_id b))) (\<lambda>body.
        bind_res (UnmarshalInto E (\<lambda>v. dec_struct gut_fields v empty_gut_book) body)
          (\<lambda>b. Ok (Some (gut_candidate g' (raw_body E body) b)))) \<and>
    s_get (OpenLibrary E base cov) (c_external_id (doc_candidate cov g d)) g' = Ok None"
proof
  have n: "numeric (Itoa (gu_id b))" using assms(1) by (rule Itoa_digits)
  then show "s_get (Gutenberg E base) (c_external_id (gut_candidate g raw b)) g' =
      bind_res (GetJSON E (base @ ''/books/'' @ Itoa (gu_id b))) (\<lambda>body.
        bind_res (UnmarshalInto E (\<lambda>v. dec_struct gut_fields v empty_gut_book) body)
          (\<lambda>b. Ok (Some (gut_candidate g' (raw_body E body) b))))"
    by (simp add: Gutenberg_def gut_Get_def gut_candidate_def Let_def numeric_plain numeric_escape)
next
  have i: "c_external_id (doc_candidate cov g d) = w" by (simp add: doc_candidate_def assms(2) TrimPrefix_def)
  have W: "CHR ''W'' \<in> set (no_dashes w)" using assms(3) by (auto simp: no_dashes_def suffix_def)
  have "\<not> isbnRE (no_dashes w)"
    using isbnRE_chars [OF _ W] by (auto simp: is_digit_def)
  moreover have "\<not> HasSuffix w ''M''" using assms(3) by (auto simp: suffix_def)
  ultimately show "s_get (OpenLibrary E base cov) (c_external_id (doc_candidate cov g d)) g' = Ok None"
    by (simp add: OpenLibrary_def ol_Get_def ol_path_def i assms(4))
qed

subsection \<open>Witnesses\<close>

definition quoted_url :: "string \<Rightarrow> string" where
  "quoted_url s = CHR 0x22 # s @ [CHR 0x22]"

definition sample_sources :: source_env where
  "sample_sources = \<lparr>sv_http = (\<lambda>c. NoReply (SourceFailed ''connection refused'')), sv_json = (\<lambda>s. None),
     sv_json_error = (\<lambda>s. ''syntax''), sv_quote = quoted_url, sv_ua = ''ua'', sv_uni = \<lparr>u_lower = (\<lambda>s. s), u_fold = (=)\<rparr>\<rparr>"


theorem api_key_in_errors_witness:
  "s_search (GoogleBooks sample_sources ''https://api'' ''secret'') ''q'' ''us'' =
    Err (SourceFailed (''Get '' @ quoted_url ''https://api/volumes?q=q&maxResults=20&key=secret'' @ '': connection refused''))"
proof -
  have q: "TrimSpace ''q'' = ''q''" by (rule TrimSpace_plain) (simp_all add: plain_def ascii_space_def)
  have url: "volumes_url ''https://api'' ''secret'' (gbooks_query ''q'') = ''https://api/volumes?q=q&maxResults=20&key=secret''"
    by (simp add: volumes_url_def gbooks_query_def q isbnRE_def isbn_core_def no_dashes_def QueryEscape_def escape_def escape_byte_def
        ReplaceByte_def unreserved_def alnum_def is_digit_def is_upper_def is_lower_def)
  have "sv_http sample_sources (gbooks_call sample_sources ''https://api'' ''secret'' ''q'') = NoReply (SourceFailed ''connection refused'')"
    by (simp add: sample_sources_def)
  moreover have "TrimSpace ''q'' \<noteq> []" "CHR ''?'' \<notin> set ''https://api''" by (simp_all add: q)
  moreover have "sv_quote sample_sources = quoted_url" by (simp add: sample_sources_def)
  ultimately show ?thesis using api_key_in_errors [of "''q''" "''https://api''" sample_sources "''secret''" "''us''"] by (simp add: url)
qed

theorem search_ids_fetchable_witness:
  "s_get (OpenLibrary sample_sources ''b'' ''c'') (c_external_id (doc_candidate ''c'' ''us'' (empty_doc\<lparr>od_key := ''/works/OL1W''\<rparr>))) ''us'' = Ok None"
proof -
  have "TrimSpace ''OL1W'' = ''OL1W''" by (rule TrimSpace_plain) (simp_all add: plain_def ascii_space_def)
  moreover have "0 \<le> gu_id empty_gut_book" "od_key (empty_doc\<lparr>od_key := ''/works/OL1W''\<rparr>) = ''/works/'' @ ''OL1W''" "HasSuffix ''OL1W'' ''W''"
    by (simp_all add: empty_gut_book_def suffix_def)
  ultimately show ?thesis by (blast dest: search_ids_fetchable [THEN conjunct2])
qed

end
