(* ===== verification/EbookParse.thy ===== *)
theory EbookParse
  imports GoTime
begin

text \<open>
  Package \<open>internal/ebookparse\<close>: the parsed record (\<open>types.go\<close>), the dispatch on the file
  extension (\<open>parse.go\<close>) and the bounds put on every untrusted field (\<open>sanitize.go\<close>). The format
  parsers are in the theories Mobi, Epub and SimpleFormats.
\<close>

record cover =
  cv_type :: string
  cv_bytes :: string

record parsed =
  p_format :: string
  p_title :: string
  p_authors :: "string list"
  p_description :: string
  p_publisher :: string
  p_published_at :: gotime
  p_language :: string
  p_isbn :: string
  p_asin :: string
  p_series :: string
  p_series_pos :: string
  p_genres :: "string list"
  p_page_count :: int
  p_cover :: "cover option"

definition empty_parsed :: parsed where
  "empty_parsed = \<lparr>p_format = [], p_title = [], p_authors = [], p_description = [],
     p_publisher = [], p_published_at = zero_time, p_language = [], p_isbn = [], p_asin = [],
     p_series = [], p_series_pos = [], p_genres = [], p_page_count = 0, p_cover = None\<rparr>"

datatype parse_error =
    ErrUnsupportedFormat string
  | ParseFailed string
  | ParsePanic

subsection \<open>File extensions\<close>

text \<open>\<open>extOf\<close> scans from the end for a dot, and gives up at a slash.\<close>

fun ext_scan :: "string \<Rightarrow> string \<Rightarrow> string" where
  "ext_scan [] acc = []"
| "ext_scan (c # rev_path) acc =
     (if c = CHR ''.'' then c # acc else if c = CHR ''/'' then [] else ext_scan rev_path (c # acc))"

definition extOf :: "string \<Rightarrow> string" where
  "extOf path = ext_scan (rev path) []"

definition supported_exts :: "string list" where
  "supported_exts = [''.epub'', ''.pdf'', ''.mobi'', ''.azw'', ''.azw3'', ''.fb2'']"

definition IsSupported :: "uni \<Rightarrow> string \<Rightarrow> bool" where
  "IsSupported u path \<longleftrightarrow> ToLower u (extOf path) \<in> set supported_exts"

text \<open>The format parsers, as \<open>parseByExt\<close> calls them.\<close>

record parsers =
  parse_epub :: "string \<Rightarrow> (parse_error, parsed) res"
  parse_pdf :: "string \<Rightarrow> (parse_error, parsed) res"
  parse_mobi :: "string \<Rightarrow> string \<Rightarrow> (parse_error, parsed) res"
  parse_fb2 :: "string \<Rightarrow> (parse_error, parsed) res"

definition parseByExt :: "uni \<Rightarrow> parsers \<Rightarrow> string \<Rightarrow> (parse_error, parsed) res" where
  "parseByExt u ps path =
    (let ext = ToLower u (extOf path)
     in if ext = ''.epub'' then parse_epub ps path
        else if ext = ''.pdf'' then parse_pdf ps path
        else if ext = ''.mobi'' \<or> ext = ''.azw'' \<or> ext = ''.azw3'' then parse_mobi ps path ext
        else if ext = ''.fb2'' then parse_fb2 ps path
        else Err (ErrUnsupportedFormat ext))"

subsection \<open>Sanitizing\<close>

definition maxFieldBytes :: nat where "maxFieldBytes = 4 * 2 ^ 10"
definition maxDescriptionBytes :: nat where "maxDescriptionBytes = 64 * 2 ^ 10"
definition maxStoredCoverBytes :: nat where "maxStoredCoverBytes = 8 * 2 ^ 20"
definition maxListItems :: nat where "maxListItems = 64"

definition allowedCoverTypes :: "string list" where
  "allowedCoverTypes = [''image/jpeg'', ''image/jpg'', ''image/png'', ''image/gif'',
     ''image/webp'', ''image/avif'']"

definition clampStr :: "string \<Rightarrow> nat \<Rightarrow> string" where
  "clampStr s m = (if length s > m then take m s else s)"

definition clampList :: "string list \<Rightarrow> string list" where
  "clampList xs =
    (let xs = (if length xs > maxListItems then take maxListItems xs else xs)
     in map (\<lambda>s. clampStr s maxFieldBytes) xs)"

definition normalizeCoverType :: "uni \<Rightarrow> string \<Rightarrow> string" where
  "normalizeCoverType u ct =
    (let ct = (case IndexByte ct (CHR '';'') of Some i \<Rightarrow> take i ct | None \<Rightarrow> ct)
     in ToLower u (TrimSpace ct))"

definition sanitize_cover :: "uni \<Rightarrow> cover option \<Rightarrow> cover option" where
  "sanitize_cover u cv = (case cv of None \<Rightarrow> None
    | Some c \<Rightarrow> (let ct = normalizeCoverType u (cv_type c)
        in if cv_bytes c = [] \<or> length (cv_bytes c) > maxStoredCoverBytes
              \<or> ct \<notin> set allowedCoverTypes
           then None else Some (c\<lparr>cv_type := ct\<rparr>)))"

definition sanitize :: "uni \<Rightarrow> parsed \<Rightarrow> parsed" where
  "sanitize u p = p\<lparr>
     p_title := clampStr (p_title p) maxFieldBytes,
     p_description := clampStr (p_description p) maxDescriptionBytes,
     p_publisher := clampStr (p_publisher p) maxFieldBytes,
     p_language := clampStr (p_language p) maxFieldBytes,
     p_isbn := clampStr (p_isbn p) maxFieldBytes,
     p_asin := clampStr (p_asin p) maxFieldBytes,
     p_series := clampStr (p_series p) maxFieldBytes,
     p_series_pos := clampStr (p_series_pos p) maxFieldBytes,
     p_authors := clampList (p_authors p),
     p_genres := clampList (p_genres p),
     p_cover := sanitize_cover u (p_cover p)\<rparr>"

definition Parse :: "uni \<Rightarrow> parsers \<Rightarrow> string \<Rightarrow> (parse_error, parsed) res" where
  "Parse u ps path = (case parseByExt u ps path of
     Inl e \<Rightarrow> Err e
   | Inr p \<Rightarrow> Ok (sanitize u p))"

subsection \<open>What sanitizing guarantees\<close>

definition cover_ok :: "cover option \<Rightarrow> bool" where
  "cover_ok cv = (case cv of None \<Rightarrow> True
    | Some c \<Rightarrow> cv_bytes c \<noteq> [] \<and> length (cv_bytes c) \<le> maxStoredCoverBytes
        \<and> cv_type c \<in> set allowedCoverTypes)"

definition list_ok :: "string list \<Rightarrow> bool" where
  "list_ok xs \<longleftrightarrow> length xs \<le> maxListItems \<and> list_all (\<lambda>s. length s \<le> maxFieldBytes) xs"

definition parsed_ok :: "parsed \<Rightarrow> bool" where
  "parsed_ok p \<longleftrightarrow>
     list_all (\<lambda>f. length (f p) \<le> maxFieldBytes)
       [p_title, p_publisher, p_language, p_isbn, p_asin, p_series, p_series_pos] \<and>
     length (p_description p) \<le> maxDescriptionBytes \<and>
     list_ok (p_authors p) \<and> list_ok (p_genres p) \<and> cover_ok (p_cover p)"

lemma clampStr_length [simp]: "length (clampStr s m) \<le> m"
  by (simp add: clampStr_def)

lemma clampStr_id: "length s \<le> m \<Longrightarrow> clampStr s m = s"
  by (simp add: clampStr_def)

lemma clampList_ok [simp]: "list_ok (clampList xs)"
  by (simp add: clampList_def list_ok_def list_all_iff Let_def)

lemma clampList_id: "list_ok xs \<Longrightarrow> clampList xs = xs"
  by (simp add: clampList_def list_ok_def list_all_iff clampStr_id map_idI)

lemma normalizeCoverType_allowed:
  "ct \<in> set allowedCoverTypes \<Longrightarrow> normalizeCoverType u ct = ct"
proof -
  have "list_all (\<lambda>ct. is_ascii ct \<and> map lower_byte ct = ct \<and> IndexByte ct (CHR '';'') = None
      \<and> TrimSpace ct = ct) allowedCoverTypes"
    by (simp add: allowedCoverTypes_def is_ascii_def lower_byte_def is_upper_def TrimSpace_plain
        plain_def ascii_space_def)
  then show "ct \<in> set allowedCoverTypes \<Longrightarrow> normalizeCoverType u ct = ct"
    by (simp add: list_all_iff normalizeCoverType_def ToLower_def)
qed

lemma sanitize_cover_ok [simp]: "cover_ok (sanitize_cover u cv)"
  by (auto simp: cover_ok_def sanitize_cover_def Let_def split: option.splits if_splits)

lemma sanitize_cover_id: "cover_ok cv \<Longrightarrow> sanitize_cover u cv = cv"
  by (auto simp: cover_ok_def sanitize_cover_def Let_def normalizeCoverType_allowed
      split: option.splits)

lemma sanitize_ok: "parsed_ok (sanitize u p)"
  by (simp add: parsed_ok_def sanitize_def)

lemma sanitize_id: "parsed_ok p \<Longrightarrow> sanitize u p = p"
  by (cases p) (simp add: parsed_ok_def sanitize_def clampStr_id clampList_id sanitize_cover_id)

lemma Parse_ok: "Parse u ps path = Ok p \<Longrightarrow> parsed_ok p"
  by (auto simp: Parse_def sanitize_ok split: sum.splits)

subsection \<open>Extensions\<close>

lemma ext_scan_app:
  "CHR ''.'' \<notin> set e \<Longrightarrow> CHR ''/'' \<notin> set e \<Longrightarrow> ext_scan (e @ r) acc = ext_scan r (rev e @ acc)"
  by (induction e arbitrary: acc) auto

lemma extOf_dot: "CHR ''.'' \<notin> set e \<Longrightarrow> CHR ''/'' \<notin> set e \<Longrightarrow> extOf (d @ ''.'' @ e) = ''.'' @ e"
  using ext_scan_app [of "rev e" "CHR ''.'' # rev d" "[]"] by (simp add: extOf_def)

lemma extOf_none: "CHR ''.'' \<notin> set e \<Longrightarrow> CHR ''/'' \<notin> set e \<Longrightarrow> extOf (d @ ''/'' @ e) = []"
  using ext_scan_app [of "rev e" "CHR ''/'' # rev d" "[]"] by (simp add: extOf_def)

lemma extOf_bare: "CHR ''.'' \<notin> set e \<Longrightarrow> CHR ''/'' \<notin> set e \<Longrightarrow> extOf e = []"
  using ext_scan_app [of "rev e" "[]" "[]"] by (simp add: extOf_def)

text \<open>A file the dispatcher calls supported never takes the \<open>ErrUnsupportedFormat\<close> branch.\<close>

lemma IsSupported_dispatch:
  "IsSupported u path \<Longrightarrow> parseByExt u ps path \<in> {parse_epub ps path, parse_pdf ps path,
     parse_mobi ps path (ToLower u (extOf path)), parse_fb2 ps path}"
  by (auto simp: IsSupported_def supported_exts_def parseByExt_def Let_def)

lemma not_IsSupported_dispatch:
  "\<not> IsSupported u path \<Longrightarrow>
   Parse u ps path = Err (ErrUnsupportedFormat (ToLower u (extOf path)))"
  by (simp add: IsSupported_def supported_exts_def Parse_def parseByExt_def Let_def)

end
