(* ===== verification/StoreEbook.thy ===== *)
theory StoreEbook
  imports StoreDb EbookParse
begin

text \<open>
  \<open>internal/store/store.go\<close>: what the scanner writes. \<open>UpsertEbook\<close> keeps the id and every
  non-empty field of the row that already has the (library, path) pair.
\<close>

definition find_book :: "db \<Rightarrow> string \<Rightarrow> book_row option" where
  "find_book d i = find (\<lambda>b. eb_id b = i) (d_books d)"

definition find_book_key :: "db \<Rightarrow> int \<Rightarrow> string \<Rightarrow> book_row option" where
  "find_book_key d lp path = find (\<lambda>b. book_key b = (lp, path)) (d_books d)"

text \<open>The row proposed by the \<open>INSERT\<close>. \<open>mtime\<close> is in nanoseconds, a \<open>TIMESTAMPTZ\<close> in
  microseconds.\<close>

definition excluded ::
  "db \<Rightarrow> int \<Rightarrow> string \<Rightarrow> string \<Rightarrow> string \<Rightarrow> int \<Rightarrow> int \<Rightarrow> string \<Rightarrow> parsed \<Rightarrow> book_row" where
  "excluded d lp ebookID path format fileSize mtime contentSig p =
     \<lparr>eb_id = ebookID, eb_lib = lp, eb_path = path, eb_format = format, eb_file_size = fileSize,
      eb_mtime = mtime div 1000, eb_title = p_title p, eb_author = Join (p_authors p) '', '',
      eb_publisher = p_publisher p, eb_year = yearOf (p_published_at p),
      eb_language = p_language p, eb_genre = Join (p_genres p) '', '', eb_isbn = p_isbn p,
      eb_asin = p_asin p, eb_description = p_description p, eb_page_count = p_page_count p,
      eb_series = p_series p, eb_series_pos = p_series_pos p, eb_deleted = False,
      eb_deleted_at = None, eb_content_sig = contentSig, eb_scanned_at = d_now d,
      eb_updated_at = d_now d\<rparr>"

definition keep :: "string \<Rightarrow> string \<Rightarrow> string" where
  "keep old new = (if old = [] then new else old)"

definition merge_row :: "book_row \<Rightarrow> book_row \<Rightarrow> book_row" where
  "merge_row x b = b\<lparr>eb_mtime := eb_mtime x, eb_file_size := eb_file_size x,
     eb_content_sig := eb_content_sig x, eb_format := eb_format x,
     eb_title := keep (eb_title b) (eb_title x),
     eb_author := keep (eb_author b) (eb_author x),
     eb_publisher := keep (eb_publisher b) (eb_publisher x),
     eb_year := keep (eb_year b) (eb_year x),
     eb_language := keep (eb_language b) (eb_language x),
     eb_genre := keep (eb_genre b) (eb_genre x),
     eb_isbn := keep (eb_isbn b) (eb_isbn x),
     eb_asin := keep (eb_asin b) (eb_asin x),
     eb_description := keep (eb_description b) (eb_description x),
     eb_page_count := (if eb_page_count b = 0 then eb_page_count x else eb_page_count b),
     eb_series := keep (eb_series b) (eb_series x),
     eb_series_pos := keep (eb_series_pos b) (eb_series_pos x),
     eb_deleted := False, eb_deleted_at := None,
     eb_scanned_at := eb_scanned_at x, eb_updated_at := eb_updated_at x\<rparr>"

definition row_texts :: "book_row \<Rightarrow> string list" where
  "row_texts b = [eb_id b, eb_path b, eb_format b, eb_title b, eb_author b, eb_publisher b, eb_year b,
     eb_language b, eb_genre b, eb_isbn b, eb_asin b, eb_description b, eb_series b,
     eb_series_pos b, eb_content_sig b]"

text \<open>The arbiter index is (library_path_id, path): a conflict there updates; a clash on the primary
  key alone is an error. The foreign key is checked for an inserted row only.\<close>

definition UpsertEbook ::
  "int \<Rightarrow> string \<Rightarrow> string \<Rightarrow> string \<Rightarrow> int \<Rightarrow> int \<Rightarrow> string \<Rightarrow> parsed \<Rightarrow> (string \<times> bool) stmt" where
  "UpsertEbook lp ebookID path format fileSize mtime contentSig p d =
    (let x = excluded d lp ebookID path format fileSize mtime contentSig p
     in if \<not> list_all pg_text (row_texts x) \<or> \<not> int4_ok (eb_page_count x) then (d, Err ErrEncoding)
        else case find_book_key d lp path of
          Some b \<Rightarrow> (d\<lparr>d_books := upd_where (\<lambda>r. book_key r = (lp, path)) (merge_row x) (d_books d)\<rparr>,
                     Ok (eb_id b, True))
        | None \<Rightarrow>
            if find_book d ebookID \<noteq> None then (d, Err ErrUnique)
            else if find_lib d lp = None then (d, Err ErrForeignKey)
            else (d\<lparr>d_books := d_books d @ [x]\<rparr>, Ok (ebookID, False)))"

definition cover_sources :: "string list" where
  "cover_sources = [''embedded'', ''sidecar'']"

definition UpsertCover :: "string \<Rightarrow> string \<Rightarrow> string \<Rightarrow> string \<Rightarrow> unit stmt" where
  "UpsertCover ebookID contentType source bytes d =
    (let x = \<lparr>cr_ebook = ebookID, cr_type = contentType, cr_bytes = bytes, cr_source = source\<rparr>
     in if \<not> list_all pg_text [ebookID, contentType, source] then (d, Err ErrEncoding)
        else if source \<notin> set cover_sources then (d, Err ErrCheck)
        else if ebookID \<in> cr_ebook ` set (d_covers d)
        then (d\<lparr>d_covers := upd_where (\<lambda>c. cr_ebook c = ebookID) (\<lambda>c. x) (d_covers d)\<rparr>, Ok ())
        else if find_book d ebookID = None then (d, Err ErrForeignKey)
        else (d\<lparr>d_covers := d_covers d @ [x]\<rparr>, Ok ()))"

record file_ref =
  rf_id :: string
  rf_path :: string
  rf_content_sig :: string

definition ref_of :: "book_row \<Rightarrow> file_ref" where
  "ref_of b = \<lparr>rf_id = eb_id b, rf_path = eb_path b, rf_content_sig = eb_content_sig b\<rparr>"

definition ListEbookRefs :: "int \<Rightarrow> file_ref list stmt" where
  "ListEbookRefs lp d =
     (d, Ok (map ref_of (filter (\<lambda>b. eb_lib b = lp \<and> \<not> eb_deleted b) (d_books d))))"

definition SoftDelete :: "string \<Rightarrow> unit stmt" where
  "SoftDelete ebookID d =
    (if \<not> pg_text ebookID then (d, Err ErrEncoding)
     else (d\<lparr>d_books := upd_where (\<lambda>b. eb_id b = ebookID)
       (\<lambda>b. b\<lparr>eb_deleted := True, eb_deleted_at := Some (d_now d), eb_updated_at := d_now d\<rparr>)
       (d_books d)\<rparr>, Ok ()))"

subsection \<open>Integrity\<close>

lemma find_book_None: "find_book d i = None \<longleftrightarrow> i \<notin> eb_id ` set (d_books d)"
  by (auto simp: find_book_def find_None_iff')

lemma find_book_Some: "find_book d i = Some b \<Longrightarrow> b \<in> set (d_books d) \<and> eb_id b = i"
  unfolding find_book_def by (rule find_Some_iff')

lemma find_book_key_None: "find_book_key d lp path = None \<longleftrightarrow> (lp, path) \<notin> book_key ` set (d_books d)"
  by (force simp: find_book_key_def find_None_iff')

lemma find_book_key_Some:
  "find_book_key d lp path = Some b \<Longrightarrow> b \<in> set (d_books d) \<and> book_key b = (lp, path)"
  unfolding find_book_key_def by (rule find_Some_iff')

lemma merge_row_key [simp]:
  "eb_id (merge_row x b) = eb_id b" "eb_lib (merge_row x b) = eb_lib b"
  "eb_path (merge_row x b) = eb_path b" "book_key (merge_row x b) = book_key b"
  "eb_deleted (merge_row x b) = False" "eb_content_sig (merge_row x b) = eb_content_sig x"
  by (simp_all add: merge_row_def book_key_def)

lemma upd_books_ok:
  assumes "db_ok d" and "\<And>b. eb_id (f b) = eb_id b" and "\<And>b. book_key (f b) = book_key b"
  shows "db_ok (d\<lparr>d_books := upd_where p f (d_books d)\<rparr>)"
proof -
  have ids: "eb_id ` set (upd_where p f (d_books d)) = eb_id ` set (d_books d)"
    by (simp add: set_map [symmetric] map_upd_where assms del: set_map)
  have keys: "map eb_id (upd_where p f (d_books d)) = map eb_id (d_books d)"
    "map book_key (upd_where p f (d_books d)) = map book_key (d_books d)"
    by (simp_all add: map_upd_where assms)
  have libs: "eb_lib (f b) = eb_lib b" for b
    using assms(3) [of b] by (simp add: book_key_def)
  have "\<forall>b \<in> set (upd_where p f (d_books d)). eb_lib b \<in> lp_id ` set (d_libs d) \<and> pg_text (eb_id b)"
    using assms(1,2) libs by (auto simp: set_upd_where db_ok_def books_ok_def)
  with assms(1) keys ids show ?thesis by (simp add: db_ok_defs)
qed

lemma insert_book_ok:
  assumes "db_ok d" and "eb_id x \<notin> eb_id ` set (d_books d)"
    and "book_key x \<notin> book_key ` set (d_books d)" and "eb_lib x \<in> lp_id ` set (d_libs d)"
    and "pg_text (eb_id x)"
  shows "db_ok (d\<lparr>d_books := d_books d @ [x]\<rparr>)"
  using assms by (fastforce simp: db_ok_defs)

lemma excluded_simps [simp]:
  "eb_id (excluded d lp i path f sz mt sig p) = i"
  "eb_lib (excluded d lp i path f sz mt sig p) = lp"
  "eb_path (excluded d lp i path f sz mt sig p) = path"
  "eb_content_sig (excluded d lp i path f sz mt sig p) = sig"
  "eb_deleted (excluded d lp i path f sz mt sig p) = False"
  "book_key (excluded d lp i path f sz mt sig p) = (lp, path)"
  by (simp_all add: excluded_def book_key_def)

text \<open>The three ways an upsert can end.\<close>

lemma UpsertEbook_cases:
  obtains (refused) e where "UpsertEbook lp i path f sz mt sig p d = (d, Err e)"
  | (known) b where "find_book_key d lp path = Some b"
      "UpsertEbook lp i path f sz mt sig p d =
        (d\<lparr>d_books := upd_where (\<lambda>r. book_key r = (lp, path))
           (merge_row (excluded d lp i path f sz mt sig p)) (d_books d)\<rparr>, Ok (eb_id b, True))"
  | (fresh) "find_book_key d lp path = None" "find_book d i = None" "find_lib d lp \<noteq> None"
      "pg_text i"
      "UpsertEbook lp i path f sz mt sig p d =
        (d\<lparr>d_books := d_books d @ [excluded d lp i path f sz mt sig p]\<rparr>, Ok (i, False))"
proof (cases "list_all pg_text (row_texts (excluded d lp i path f sz mt sig p)) \<and>
    int4_ok (eb_page_count (excluded d lp i path f sz mt sig p))")
  case False
  then show ?thesis by (intro refused) (simp add: UpsertEbook_def Let_def)
next
  case valid: True
  show ?thesis
  proof (cases "find_book_key d lp path")
    case (Some b)
    with valid show ?thesis by (intro known) (simp_all add: UpsertEbook_def Let_def)
  next
    case None
    show ?thesis
    proof (cases "find_book d i = None \<and> find_lib d lp \<noteq> None")
      case True
      moreover have "pg_text i" using valid by (simp add: row_texts_def)
      ultimately show ?thesis using valid None by (intro fresh) (auto simp: UpsertEbook_def Let_def)
    next
      case False
      with valid None show ?thesis
        by (intro refused [of "if find_book d i \<noteq> None then ErrUnique else ErrForeignKey"])
          (auto simp: UpsertEbook_def Let_def)
    qed
  qed
qed

lemma UpsertEbook_ok: "keeps_ok (UpsertEbook lp i path f sz mt sig p)"
  unfolding keeps_ok_def
proof (intro allI impI)
  fix d assume d: "db_ok d"
  show "db_ok (fst (UpsertEbook lp i path f sz mt sig p d))"
  proof (cases rule: UpsertEbook_cases [of lp i path f sz mt sig p d])
    case (refused e)
    with d show ?thesis by simp
  next
    case (known b)
    with d show ?thesis by (simp add: upd_books_ok)
  next
    case fresh
    with d show ?thesis
      using find_book_None find_book_key_None find_lib_None by (simp add: insert_book_ok)
  qed
qed

lemma UpsertCover_ok: "keeps_ok (UpsertCover i ct src bs)"
proof -
  have "db_ok (d\<lparr>d_covers := upd_where (\<lambda>c. cr_ebook c = i)
       (\<lambda>c. \<lparr>cr_ebook = i, cr_type = ct, cr_bytes = bs, cr_source = src\<rparr>) (d_covers d)\<rparr>)"
    if "db_ok d" and "src \<in> set cover_sources" for d
    using that by (auto simp: db_ok_defs set_upd_where map_upd_where cover_sources_def)
  moreover have "db_ok (d\<lparr>d_covers := d_covers d @
       [\<lparr>cr_ebook = i, cr_type = ct, cr_bytes = bs, cr_source = src\<rparr>]\<rparr>)"
    if "db_ok d" and "src \<in> set cover_sources" and "i \<notin> cr_ebook ` set (d_covers d)"
      and "i \<in> eb_id ` set (d_books d)" for d
    using that by (fastforce simp: db_ok_defs cover_sources_def)
  ultimately show ?thesis
    by (simp add: keeps_ok_def UpsertCover_def Let_def find_book_None)
qed

lemma ListEbookRefs_ok: "keeps_ok (ListEbookRefs lp)"
  by (simp add: keeps_ok_def ListEbookRefs_def)

lemma SoftDelete_ok: "keeps_ok (SoftDelete i)"
  by (auto simp: keeps_ok_def SoftDelete_def book_key_def intro!: upd_books_ok)

subsection \<open>What an upsert may change\<close>

definition kept_fields :: "(book_row \<Rightarrow> string) list" where
  "kept_fields = [eb_title, eb_author, eb_publisher, eb_year, eb_language, eb_genre, eb_isbn, eb_asin,
     eb_description, eb_series, eb_series_pos]"

definition kept_texts :: "book_row \<Rightarrow> string list" where
  "kept_texts b = map (\<lambda>f. f b) kept_fields"

text \<open>What a parsed file says in the order of these columns, and the columns that are the file's alone.\<close>

definition parsed_texts :: "parsed \<Rightarrow> string list" where
  "parsed_texts p = [p_title p, Join (p_authors p) '', '', p_publisher p, yearOf (p_published_at p), p_language p,
     Join (p_genres p) '', '', p_isbn p, p_asin p, p_description p, p_series p, p_series_pos p]"

definition file_part :: "book_row \<Rightarrow> string \<times> int \<times> int \<times> string \<times> bool \<times> int option \<times> int \<times> int" where
  "file_part b = (eb_format b, eb_file_size b, eb_mtime b, eb_content_sig b, eb_deleted b, eb_deleted_at b,
     eb_scanned_at b, eb_updated_at b)"

lemma excluded_columns:
  "file_part (excluded d lp i path fmt sz mt sig p) = (fmt, sz, mt div 1000, sig, False, None, d_now d, d_now d)"
  "kept_texts (excluded d lp i path fmt sz mt sig p) = parsed_texts p"
  "eb_page_count (excluded d lp i path fmt sz mt sig p) = p_page_count p"
  by (simp_all add: file_part_def kept_texts_def kept_fields_def parsed_texts_def excluded_def)

lemma merged_columns:
  "file_part (merge_row (excluded d lp i path fmt sz mt sig p) b) = (fmt, sz, mt div 1000, sig, False, None, d_now d, d_now d)"
  "kept_texts (merge_row (excluded d lp i path fmt sz mt sig p) b) =
     map2 (\<lambda>old new. if old = [] then new else old) (kept_texts b) (parsed_texts p)"
  "eb_page_count (merge_row (excluded d lp i path fmt sz mt sig p) b) =
     (if eb_page_count b = 0 then p_page_count p else eb_page_count b)"
  by (simp_all add: file_part_def kept_texts_def kept_fields_def parsed_texts_def merge_row_def excluded_def keep_def)

text \<open>
  C36. A successful UpsertEbook reports wasKnown exactly when a row with that (library, path)
  existed; afterwards there is exactly one such row, with the returned id, live, and with
  format, size, modification time, content signature and the time of the scan as given. A new
  row has the id given and all texts and the page count of the parsed file; an existing row
  keeps its id, every non-empty text and every non-zero page count, and exactly the empty ones
  are filled from the parsed file; no other row and no other table changes.
\<close>

theorem UpsertEbook_spec:
  assumes "db_ok d" and "UpsertEbook lp i path fmt sz mt sig p d = (d', Ok (rowID, wasKnown))"
  shows "(wasKnown \<longleftrightarrow> (lp, path) \<in> book_key ` set (d_books d)) \<and>
    {b \<in> set (d_books d'). book_key b \<noteq> (lp, path)} = {b \<in> set (d_books d). book_key b \<noteq> (lp, path)} \<and>
    d'\<lparr>d_books := d_books d\<rparr> = d \<and>
    (\<exists>b'. {b \<in> set (d_books d'). book_key b = (lp, path)} = {b'} \<and> eb_id b' = rowID \<and>
       file_part b' = (fmt, sz, mt div 1000, sig, False, None, d_now d, d_now d) \<and>
       (\<not> wasKnown \<longrightarrow> rowID = i \<and> kept_texts b' = parsed_texts p \<and> eb_page_count b' = p_page_count p) \<and>
       (\<forall>b \<in> set (d_books d). book_key b = (lp, path) \<longrightarrow> eb_id b = rowID \<and>
          kept_texts b' = map2 (\<lambda>old new. if old = [] then new else old) (kept_texts b) (parsed_texts p) \<and>
          eb_page_count b' = (if eb_page_count b = 0 then p_page_count p else eb_page_count b)))"
proof (cases rule: UpsertEbook_cases [of lp i path fmt sz mt sig p d])
  case (refused e)
  with assms show ?thesis by simp
next
  case (known b)
  let ?m = "merge_row (excluded d lp i path fmt sz mt sig p)"
  have d': "d' = d\<lparr>d_books := upd_where (\<lambda>r. book_key r = (lp, path)) ?m (d_books d)\<rparr>"
    and r: "rowID = eb_id b" "wasKnown" using known assms(2) by auto
  have b: "b \<in> set (d_books d)" "book_key b = (lp, path)"
    using find_book_key_Some [OF known(1)] by auto
  have uniq: "c = b" if "c \<in> set (d_books d)" "book_key c = (lp, path)" for c
    using that b assms(1) distinct_map_inj [of book_key "d_books d" c b]
    by (simp add: db_ok_def books_ok_def)
  have at: "{c \<in> set (d_books d'). book_key c = (lp, path)} = {?m b}"
    using assms(1) b by (simp add: d' upd_where_at_key db_ok_def books_ok_def)
  have off: "{c \<in> set (d_books d'). book_key c \<noteq> (lp, path)} =
      {c \<in> set (d_books d). book_key c \<noteq> (lp, path)}"
    by (simp add: d' upd_where_off_key)
  have known_key: "(lp, path) \<in> book_key ` set (d_books d)" using b by (metis imageI)
  show ?thesis
  proof (intro conjI exI [of _ "?m b"])
    show "wasKnown \<longleftrightarrow> (lp, path) \<in> book_key ` set (d_books d)" using known_key r by simp
    show "d'\<lparr>d_books := d_books d\<rparr> = d" by (simp add: d')
  qed (use at off merged_columns uniq r in auto)
next
  case fresh
  let ?x = "excluded d lp i path fmt sz mt sig p"
  have d': "d' = d\<lparr>d_books := d_books d @ [?x]\<rparr>" and r: "rowID = i" "\<not> wasKnown"
    using fresh assms(2) by auto
  have n: "(lp, path) \<notin> book_key ` set (d_books d)" using fresh(1) find_book_key_None by blast
  then have no: "book_key b \<noteq> (lp, path)" if "b \<in> set (d_books d)" for b
    using that by (metis imageI)
  have at: "{b \<in> set (d_books d'). book_key b = (lp, path)} = {?x}" using no by (auto simp: d')
  have off: "{b \<in> set (d_books d'). book_key b \<noteq> (lp, path)} =
      {b \<in> set (d_books d). book_key b \<noteq> (lp, path)}" by (auto simp: d')
  show ?thesis
  proof (intro conjI exI [of _ ?x])
    show "wasKnown \<longleftrightarrow> (lp, path) \<in> book_key ` set (d_books d)" using n r by simp
    show "d'\<lparr>d_books := d_books d\<rparr> = d" by (simp add: d')
  qed (use at off no r excluded_columns in simp_all)
qed

theorem UpsertEbook_spec_witness:
  "\<exists>d'. UpsertEbook 1 ''new'' ''/a/x.fb2'' ''fb2'' 11 0 ''s2''
      (empty_parsed\<lparr>p_title := ''Other''\<rparr>) sample_db = (d', Ok (''b1'', True)) \<and>
    ((1, ''/a/x.fb2'') \<in> book_key ` set (d_books sample_db))"
proof -
  have "\<exists>d'. UpsertEbook 1 ''new'' ''/a/x.fb2'' ''fb2'' 11 0 ''s2''
      (empty_parsed\<lparr>p_title := ''Other''\<rparr>) sample_db = (d', Ok (''b1'', True))"
    by (simp add: UpsertEbook_def Let_def row_texts_def excluded_def empty_parsed_def pg_text_ascii
        yearOf_def zero_time_def int4_ok_def find_book_key_def book_key_def sample_defs)
  then obtain d' where run: "UpsertEbook 1 ''new'' ''/a/x.fb2'' ''fb2'' 11 0 ''s2''
      (empty_parsed\<lparr>p_title := ''Other''\<rparr>) sample_db = (d', Ok (''b1'', True))" by blast
  from UpsertEbook_spec [OF sample_db_ok run] run show ?thesis by blast
qed

end
