(* ===== verification/StoreCatalog.thy ===== *)
theory StoreCatalog
  imports StoreEbook
begin

text \<open>
  \<open>internal/store/catalog.go\<close>: the listing, detail, cover, path, browse and statistics queries. The
  two queries of a listing (count and page) see the same database here. \<open>ilike\<close> is the server's
  case-insensitive pattern match, \<open>coll\<close> the sort key of its collation.
\<close>

subsection \<open>Limits, pages, separated fields\<close>

definition normalizeLimit :: "int \<Rightarrow> int" where
  "normalizeLimit n = (if n \<le> 0 then 50 else if n > 200 then 200 else n)"

definition normalizePage :: "int \<Rightarrow> int" where
  "normalizePage n = (if n < 1 then 1 else n)"

definition page_offset :: "int \<Rightarrow> int \<Rightarrow> int" where
  "page_offset page limit = wrap64 (wrap64 (page - 1) * limit)"

definition splitCSV :: "string \<Rightarrow> string list" where
  "splitCSV s = (if s = [] then [] else
     filter (\<lambda>t. t \<noteq> []) (map TrimSpace (Split (ReplaceByte s (CHR '';'') (CHR '','')) (CHR '',''))))"

record 'a paged =
  pa_items :: "'a list"
  pa_total :: int
  pa_page :: int
  pa_limit :: int

record list_params =
  lq_page :: int
  lq_limit :: int
  lq_search :: string
  lq_library_id :: int
  lq_library :: string

definition like_pattern :: "string \<Rightarrow> string" where
  "like_pattern s = ''%'' @ s @ ''%''"

definition params_text_ok :: "list_params \<Rightarrow> bool" where
  "params_text_ok p \<longleftrightarrow> (lq_search p \<noteq> [] \<longrightarrow> pg_text (like_pattern (lq_search p))) \<and>
     (lq_library p \<noteq> [] \<longrightarrow> pg_text (lq_library p))"

subsection \<open>Visible books\<close>

text \<open>Every catalog query joins the book with its library and keeps live books of enabled
  libraries.\<close>

definition joined :: "db \<Rightarrow> (book_row \<times> lib_row) list" where
  "joined d = concat (map (\<lambda>b. map (Pair b) (filter (\<lambda>l. lp_id l = eb_lib b) (d_libs d))) (d_books d))"

definition visible :: "book_row \<times> lib_row \<Rightarrow> bool" where
  "visible x \<longleftrightarrow> \<not> eb_deleted (fst x) \<and> lp_enabled (snd x)"

definition library_filter :: "list_params \<Rightarrow> book_row \<times> lib_row \<Rightarrow> bool" where
  "library_filter p x \<longleftrightarrow> (lq_library p \<noteq> [] \<longrightarrow> lp_path (snd x) = lq_library p) \<and>
     (lq_library_id p > 0 \<longrightarrow> lp_id (snd x) = lq_library_id p)"

definition search_filter :: "(string \<Rightarrow> string \<Rightarrow> bool) \<Rightarrow> list_params \<Rightarrow> book_row \<times> lib_row \<Rightarrow> bool" where
  "search_filter ilike p x \<longleftrightarrow> (lq_search p \<noteq> [] \<longrightarrow>
     ilike (eb_title (fst x)) (like_pattern (lq_search p)) \<or>
     ilike (eb_author (fst x)) (like_pattern (lq_search p)))"

record ebook_item =
  ei_id :: string
  ei_library_id :: int
  ei_library_name :: string
  ei_media_type :: string
  ei_title :: string
  ei_authors :: "string list"
  ei_series :: string
  ei_series_index :: string
  ei_year :: string
  ei_language :: string
  ei_has_cover :: bool
  ei_format :: string

record ebook_detail = ebook_item +
  ed_description :: string
  ed_isbn :: string
  ed_asin :: string
  ed_publisher :: string
  ed_genres :: "string list"
  ed_page_count :: int
  ed_file_size :: int
  ed_path :: string

definition has_cover :: "db \<Rightarrow> string \<Rightarrow> bool" where
  "has_cover d i = list_ex (\<lambda>c. cr_ebook c = i) (d_covers d)"

definition summary :: "db \<Rightarrow> book_row \<times> lib_row \<Rightarrow> ebook_item" where
  "summary d x = (let b = fst x; l = snd x in
     \<lparr>ei_id = eb_id b, ei_library_id = lp_id l, ei_library_name = lp_name l,
      ei_media_type = lp_media_type l, ei_title = eb_title b, ei_authors = splitCSV (eb_author b),
      ei_series = eb_series b, ei_series_index = eb_series_pos b, ei_year = eb_year b,
      ei_language = eb_language b, ei_has_cover = has_cover d (eb_id b), ei_format = eb_format b\<rparr>)"

definition detail :: "db \<Rightarrow> book_row \<times> lib_row \<Rightarrow> ebook_detail" where
  "detail d x = (let b = fst x; l = snd x in
     \<lparr>ei_id = eb_id b, ei_library_id = lp_id l, ei_library_name = lp_name l,
      ei_media_type = lp_media_type l, ei_title = eb_title b, ei_authors = splitCSV (eb_author b),
      ei_series = eb_series b, ei_series_index = eb_series_pos b, ei_year = eb_year b,
      ei_language = eb_language b, ei_has_cover = has_cover d (eb_id b), ei_format = eb_format b,
      ed_description = eb_description b, ed_isbn = eb_isbn b, ed_asin = eb_asin b,
      ed_publisher = eb_publisher b, ed_genres = splitCSV (eb_genre b),
      ed_page_count = eb_page_count b, ed_file_size = eb_file_size b, ed_path = eb_path b\<rparr>)"

subsection \<open>Listing\<close>

definition catalog_rows ::
  "(string \<Rightarrow> string \<Rightarrow> bool) \<Rightarrow> list_params \<Rightarrow> db \<Rightarrow> (book_row \<times> lib_row) list" where
  "catalog_rows ilike p d =
     filter (\<lambda>x. visible x \<and> search_filter ilike p x \<and> library_filter p x) (joined d)"

definition title_order :: "(string \<Rightarrow> string) \<Rightarrow> book_row \<times> lib_row \<Rightarrow> string \<times> string" where
  "title_order coll x = (coll (eb_title (fst x)), coll (eb_id (fst x)))"

definition ListEbooks ::
  "(string \<Rightarrow> string \<Rightarrow> bool) \<Rightarrow> (string \<Rightarrow> string) \<Rightarrow> list_params \<Rightarrow> ebook_item paged stmt" where
  "ListEbooks ilike coll p d =
    (let limit = normalizeLimit (lq_limit p); page = normalizePage (lq_page p);
         offset = page_offset page limit; rows = catalog_rows ilike p d
     in if \<not> params_text_ok p then (d, Err ErrEncoding)
        else if offset < 0 then (d, Err ErrOffset)
        else (d, Ok \<lparr>pa_items = map (summary d)
                       (take (nat limit) (drop (nat offset) (sort_key (title_order coll) rows))),
                     pa_total = int (length rows), pa_page = page, pa_limit = limit\<rparr>))"

definition visible_book :: "db \<Rightarrow> string \<Rightarrow> (book_row \<times> lib_row) option" where
  "visible_book d i = find (\<lambda>x. eb_id (fst x) = i \<and> visible x) (joined d)"

definition GetEbookByID :: "string \<Rightarrow> ebook_detail stmt" where
  "GetEbookByID i d =
    (if \<not> pg_text i then (d, Err ErrEncoding)
     else case visible_book d i of None \<Rightarrow> (d, Err ErrNotFound) | Some x \<Rightarrow> (d, Ok (detail d x)))"

definition GetCover :: "string \<Rightarrow> (string \<times> string) stmt" where
  "GetCover i d =
    (if \<not> pg_text i then (d, Err ErrEncoding)
     else case find (\<lambda>c. cr_ebook c = i) (d_covers d) of
       None \<Rightarrow> (d, Err ErrNotFound)
     | Some c \<Rightarrow> (case visible_book d i of
         None \<Rightarrow> (d, Err ErrNotFound)
       | Some x \<Rightarrow> (d, Ok (cr_bytes c, if cr_type c = [] then ''image/jpeg'' else cr_type c))))"

definition GetEbookPath :: "string \<Rightarrow> (string \<times> string) stmt" where
  "GetEbookPath i d =
    (if \<not> pg_text i then (d, Err ErrEncoding)
     else case visible_book d i of
       None \<Rightarrow> (d, Err ErrNotFound)
     | Some x \<Rightarrow> (d, Ok (eb_path (fst x), eb_format (fst x))))"

subsection \<open>Browse aggregates\<close>

record name_count =
  nc_name :: string
  nc_count :: int

text \<open>SQL's \<open>trim\<close> removes spaces only.\<close>

definition sql_trim :: "string \<Rightarrow> string" where
  "sql_trim s = rev (dropWhile (\<lambda>c. c = CHR '' '') (rev (dropWhile (\<lambda>c. c = CHR '' '') s)))"

definition group_count :: "string list \<Rightarrow> name_count list" where
  "group_count names =
     map (\<lambda>n. \<lparr>nc_name = n, nc_count = int (count_list names n)\<rparr>) (remdups names)"

definition aggregate_rows :: "list_params \<Rightarrow> db \<Rightarrow> book_row list" where
  "aggregate_rows p d = map fst (filter (\<lambda>x. visible x \<and> library_filter p x) (joined d))"

definition splitColumn :: "(book_row \<Rightarrow> string) \<Rightarrow> list_params \<Rightarrow> db \<Rightarrow> name_count list" where
  "splitColumn col p d = group_count (filter (\<lambda>n. n \<noteq> []) (concat (map
     (\<lambda>b. map sql_trim (Split (ReplaceByte (col b) (CHR '';'') (CHR '','')) (CHR '','')))
     (filter (\<lambda>b. col b \<noteq> []) (aggregate_rows p d)))))"

definition paginateAggregate ::
  "(string \<Rightarrow> string \<Rightarrow> bool) \<Rightarrow> (string \<Rightarrow> string) \<Rightarrow> (list_params \<Rightarrow> db \<Rightarrow> name_count list) \<Rightarrow>
   list_params \<Rightarrow> name_count paged stmt" where
  "paginateAggregate ilike coll inner p d =
    (let limit = normalizeLimit (lq_limit p); page = normalizePage (lq_page p);
         offset = page_offset page limit;
         rows = filter (\<lambda>r. lq_search p \<noteq> [] \<longrightarrow> ilike (nc_name r) (like_pattern (lq_search p)))
           (inner p d)
     in if \<not> params_text_ok p then (d, Err ErrEncoding)
        else if offset < 0 then (d, Err ErrOffset)
        else (d, Ok \<lparr>pa_items = take (nat limit) (drop (nat offset) (sort_key (\<lambda>r. coll (nc_name r)) rows)),
                     pa_total = int (length rows), pa_page = page, pa_limit = limit\<rparr>))"

definition ListAuthors where
  "ListAuthors ilike coll = paginateAggregate ilike coll (splitColumn eb_author)"

definition ListGenres where
  "ListGenres ilike coll = paginateAggregate ilike coll (splitColumn eb_genre)"

definition series_counts :: "list_params \<Rightarrow> db \<Rightarrow> name_count list" where
  "series_counts p d = group_count (filter (\<lambda>n. n \<noteq> []) (map eb_series (aggregate_rows p d)))"

definition ListSeries where
  "ListSeries ilike coll = paginateAggregate ilike coll series_counts"

subsection \<open>Statistics\<close>

record catalog_stats =
  cs_total :: int
  cs_active :: int
  cs_deleted :: int
  cs_with_covers :: int
  cs_by_format :: "string \<rightharpoonup> int"
  cs_by_media_type :: "string \<rightharpoonup> int"
  cs_by_library :: "string \<rightharpoonup> int"

definition book_covers :: "db \<Rightarrow> (book_row \<times> cover_row option) list" where
  "book_covers d = concat (map (\<lambda>b. case filter (\<lambda>c. cr_ebook c = eb_id b) (d_covers d) of
     [] \<Rightarrow> [(b, None)] | c # cs \<Rightarrow> map (\<lambda>c. (b, Some c)) (c # cs)) (d_books d))"

definition count_map :: "name_count list \<Rightarrow> (string \<rightharpoonup> int)" where
  "count_map rows = foldl (\<lambda>m r. m(nc_name r \<mapsto> nc_count r)) Map.empty rows"

definition library_counts :: "(string \<Rightarrow> string) \<Rightarrow> db \<Rightarrow> name_count list" where
  "library_counts coll d = map (\<lambda>l. \<lparr>nc_name = lp_name l,
       nc_count = int (count_where (\<lambda>b. eb_lib b = lp_id l \<and> \<not> eb_deleted b) (d_books d))\<rparr>)
     (sort_key (\<lambda>l. coll (lp_name l)) (d_libs d))"

definition CatalogStats :: "(string \<Rightarrow> string) \<Rightarrow> catalog_stats stmt" where
  "CatalogStats coll d =
    (let bc = book_covers d; live = filter (\<lambda>b. \<not> eb_deleted b) (d_books d)
     in (d, Ok \<lparr>cs_total = int (length bc),
         cs_active = int (count_where (\<lambda>x. \<not> eb_deleted (fst x)) bc),
         cs_deleted = int (count_where (\<lambda>x. eb_deleted (fst x)) bc),
         cs_with_covers = int (count_where (\<lambda>x. snd x \<noteq> None) bc),
         cs_by_format = count_map (group_count (map eb_format live)),
         cs_by_media_type = count_map (group_count (map (\<lambda>x. lp_media_type (snd x))
           (filter (\<lambda>x. \<not> eb_deleted (fst x)) (joined d)))),
         cs_by_library = count_map (library_counts coll d)\<rparr>))"

subsection \<open>The join\<close>

lemma filter_key_eq:
  assumes "distinct (map k rs)" and "r \<in> set rs" and "k r = x"
  shows "filter (\<lambda>s. k s = x) rs = [r]"
  using assms
proof (induction rs)
  case Nil
  then show ?case by simp
next
  case (Cons s rs)
  show ?case
  proof (cases "k s = x")
    case True
    have "r = s" using Cons.prems True distinct_map_inj [of k "s # rs" r s] by simp
    moreover have "filter (\<lambda>t. k t = x) rs = []"
      using Cons.prems(1) True by (auto simp: filter_empty_conv image_iff)
    ultimately show ?thesis using True by simp
  next
    case False
    with Cons show ?thesis by auto
  qed
qed

lemma set_joined: "set (joined d) = {(b, l). b \<in> set (d_books d) \<and> l \<in> set (d_libs d) \<and> lp_id l = eb_lib b}"
  by (auto simp: joined_def)

text \<open>The foreign key gives every book exactly one library.\<close>

lemma joined_books:
  assumes "db_ok d"
  shows "map fst (joined d) = d_books d"
proof -
  have one: "map fst (map (Pair b) (filter (\<lambda>l. lp_id l = eb_lib b) (d_libs d))) = [b]"
    if "b \<in> set (d_books d)" for b
  proof -
    have "eb_lib b \<in> lp_id ` set (d_libs d)" using assms that by (simp add: db_ok_def books_ok_def)
    then obtain l where l: "l \<in> set (d_libs d)" "lp_id l = eb_lib b" by auto
    have "distinct (map lp_id (d_libs d))" using assms by (simp add: db_ok_def libs_ok_def)
    then have "filter (\<lambda>l. lp_id l = eb_lib b) (d_libs d) = [l]" using l by (rule filter_key_eq)
    then show ?thesis by simp
  qed
  have "map fst (concat (map (\<lambda>b. map (Pair b) (filter (\<lambda>l. lp_id l = eb_lib b) (d_libs d))) bs)) = bs"
    if "set bs \<subseteq> set (d_books d)" for bs
    using that
  proof (induction bs)
    case (Cons b bs)
    then show ?case using one [of b] by (simp del: map_map)
  qed simp
  then show ?thesis by (simp add: joined_def)
qed

definition visible_ids :: "db \<Rightarrow> string set" where
  "visible_ids d = eb_id ` {b \<in> set (d_books d). \<not> eb_deleted b \<and>
     (\<exists>l \<in> set (d_libs d). lp_id l = eb_lib b \<and> lp_enabled l)}"

lemma visible_joined: "x \<in> set (joined d) \<Longrightarrow> visible x \<Longrightarrow> eb_id (fst x) \<in> visible_ids d"
  unfolding visible_ids_def by (rule imageI) (auto simp: set_joined visible_def)

lemma visible_idsE:
  assumes "i \<in> visible_ids d"
  obtains b l where "(b, l) \<in> set (joined d)" "visible (b, l)" "eb_id b = i"
  using assms by (auto simp: visible_ids_def set_joined visible_def)

lemma visible_book_None: "visible_book d i = None \<longleftrightarrow> i \<notin> visible_ids d"
proof
  assume "visible_book d i = None"
  then have none: "\<forall>x \<in> set (joined d). \<not> (eb_id (fst x) = i \<and> visible x)"
    by (simp only: visible_book_def find_None_iff')
  show "i \<notin> visible_ids d"
  proof
    assume "i \<in> visible_ids d"
    then show False by (rule visible_idsE) (use none in auto)
  qed
next
  assume "i \<notin> visible_ids d"
  then show "visible_book d i = None"
    unfolding visible_book_def find_None_iff' using visible_joined by blast
qed

lemma visible_book_Some: "visible_book d i = Some x \<Longrightarrow> i \<in> visible_ids d \<and> eb_id (fst x) = i"
proof -
  assume h: "visible_book d i = Some x"
  then have "visible_book d i \<noteq> None" by simp
  then have "i \<in> visible_ids d" by (simp only: visible_book_None not_not)
  with find_Some_iff' [OF h [unfolded visible_book_def]] show ?thesis by simp
qed

subsection \<open>Paging\<close>

definition page_items :: "(db_error, 'a paged) res \<Rightarrow> 'a list" where
  "page_items r = (case r of Inr x \<Rightarrow> pa_items x | Inl _ \<Rightarrow> [])"

lemma page_offset_exact: "0 \<le> k \<Longrightarrow> k * l < 2 ^ 63 \<Longrightarrow> 0 < l \<Longrightarrow> page_offset (k + 1) l = k * l"
proof -
  assume a: "0 \<le> k" "k * l < 2 ^ 63" "0 < l"
  have nn: "0 \<le> k * l" using a by simp
  have "k * 1 \<le> k * l" using a by (intro mult_left_mono) simp_all
  then have "k < 2 ^ 63" using a by linarith
  then have "wrap64 k = k" using a by (intro wrap64_id) (simp add: int64_range_def min_int64_def max_int64_def)
  moreover have "int64_range (k * l)"
    unfolding int64_range_def min_int64_def max_int64_def using nn a(2) by linarith
  then have "wrap64 (k * l) = k * l" by (rule wrap64_id)
  ultimately show ?thesis by (simp add: page_offset_def)
qed

lemma catalog_rows_page [simp]:
  "catalog_rows ilike (p\<lparr>lq_page := k, lq_limit := l\<rparr>) d = catalog_rows ilike p d"
  by (simp add: catalog_rows_def search_filter_def library_filter_def cong: filter_cong)

lemma ListEbooks_page:
  assumes "params_text_ok p" and "0 < l" and "l \<le> 200" and "int k * int l < 2 ^ 63"
  shows "page_items (snd (ListEbooks ilike coll (p\<lparr>lq_page := int k + 1, lq_limit := int l\<rparr>) d)) =
    map (summary d) (take l (drop (k * l) (sort_key (title_order coll) (catalog_rows ilike p d))))"
proof -
  have "page_offset (int k + 1) (int l) = int k * int l"
    using assms by (intro page_offset_exact) simp_all
  moreover have "nat (int k * int l) = k * l" by (simp add: nat_mult_distrib)
  moreover have "\<not> int k * int l < 0" by (simp add: not_less)
  moreover have "params_text_ok (p\<lparr>lq_page := int k + 1, lq_limit := int l\<rparr>)"
    using assms(1) by (simp add: params_text_ok_def)
  ultimately show ?thesis using assms
    by (simp add: ListEbooks_def Let_def normalizeLimit_def normalizePage_def page_items_def)
qed

text \<open>
  Reading the pages of a listing one after the other gives every matching visible book
  exactly once, in the order of the listing, for every page size from 1 to 200.
\<close>

theorem ListEbooks_pages:
  assumes "params_text_ok p" and "0 < l" and "l \<le> 200" and "int n * int l < 2 ^ 63"
    and "length (catalog_rows ilike p d) \<le> n * l"
  shows "concat (map (\<lambda>k. page_items (snd (ListEbooks ilike coll
      (p\<lparr>lq_page := int k + 1, lq_limit := int l\<rparr>) d))) [0..<n]) =
    map (summary d) (sort_key (title_order coll) (catalog_rows ilike p d))"
proof -
  let ?s = "sort_key (title_order coll) (catalog_rows ilike p d)"
  have page: "page_items (snd (ListEbooks ilike coll
      (p\<lparr>lq_page := int k + 1, lq_limit := int l\<rparr>) d)) = map (summary d) (take l (drop (k * l) ?s))"
    if "k < n" for k
  proof -
    have "int k * int l \<le> int n * int l" using that by (intro mult_right_mono) simp_all
    then have "int k * int l < 2 ^ 63" using assms(4) by linarith
    with assms show ?thesis by (intro ListEbooks_page)
  qed
  have "map (\<lambda>k. page_items (snd (ListEbooks ilike coll
      (p\<lparr>lq_page := int k + 1, lq_limit := int l\<rparr>) d))) [0..<n] =
      map (\<lambda>k. map (summary d) (take l (drop (k * l) ?s))) [0..<n]"
    using page by simp
  also have "concat \<dots> =
      map (summary d) (concat (map (\<lambda>k. take l (drop (k * l) ?s)) [0..<n]))"
    by (simp add: map_concat comp_def)
  also have "\<dots> = map (summary d) (take (n * l) ?s)" by (simp only: take_drop_pages)
  also have "\<dots> = map (summary d) ?s" using assms(5) by simp
  finally show ?thesis .
qed

theorem ListEbooks_pages_witness:
  "concat (map (\<lambda>k. page_items (snd (ListEbooks (\<lambda>t q. True) (\<lambda>t. t)
      (\<lparr>lq_page = 0, lq_limit = 0, lq_search = [], lq_library_id = 1, lq_library = []\<rparr>
        \<lparr>lq_page := int k + 1, lq_limit := int 1\<rparr>) sample_db))) [0..<3]) =
   [summary sample_db (sample_book, sample_lib 1 ''/a'')]"
proof -
  let ?p = "\<lparr>lq_page = 0, lq_limit = 0, lq_search = [], lq_library_id = 1, lq_library = []\<rparr>"
  have rows: "catalog_rows (\<lambda>t q. True) ?p sample_db = [(sample_book, sample_lib 1 ''/a'')]"
    by (simp add: catalog_rows_def joined_def visible_def search_filter_def library_filter_def
        sample_defs)
  have "params_text_ok ?p" by (simp add: params_text_ok_def)
  from ListEbooks_pages [OF this, of 1 3 "\<lambda>t q. True" sample_db "\<lambda>t. t"] show ?thesis
    by (simp add: rows)
qed

subsection \<open>What is visible\<close>

text \<open>
  Detail, file path and cover of a book are served exactly when the book is live and its
  library enabled (for the cover: and it has one), and a listing shows only such books, with
  has_cover telling the truth.
\<close>

theorem visibility_consistent:
  assumes "db_ok d" and "pg_text i"
  shows "((\<exists>e. snd (GetEbookByID i d) = Ok e) \<longleftrightarrow> i \<in> visible_ids d) \<and>
    ((\<exists>pf. snd (GetEbookPath i d) = Ok pf) \<longleftrightarrow> i \<in> visible_ids d) \<and>
    ((\<exists>c. snd (GetCover i d) = Ok c) \<longleftrightarrow> i \<in> visible_ids d \<and> i \<in> cr_ebook ` set (d_covers d)) \<and>
    (\<forall>ilike coll p e. e \<in> set (page_items (snd (ListEbooks ilike coll p d))) \<longrightarrow>
       ei_id e \<in> visible_ids d \<and> (ei_has_cover e \<longleftrightarrow> ei_id e \<in> cr_ebook ` set (d_covers d)))"
proof (intro conjI)
  show "(\<exists>e. snd (GetEbookByID i d) = Ok e) \<longleftrightarrow> i \<in> visible_ids d"
    using assms(2) visible_book_None [of d i] by (auto simp: GetEbookByID_def split: option.splits)
  show "(\<exists>pf. snd (GetEbookPath i d) = Ok pf) \<longleftrightarrow> i \<in> visible_ids d"
    using assms(2) visible_book_None [of d i] by (auto simp: GetEbookPath_def split: option.splits)
  have "find (\<lambda>c. cr_ebook c = i) (d_covers d) = None \<longleftrightarrow> i \<notin> cr_ebook ` set (d_covers d)"
    by (auto simp: find_None_iff')
  then show "(\<exists>c. snd (GetCover i d) = Ok c) \<longleftrightarrow> i \<in> visible_ids d \<and> i \<in> cr_ebook ` set (d_covers d)"
    using assms(2) visible_book_None [of d i] by (auto simp: GetCover_def split: option.splits)
  have "ei_id e \<in> visible_ids d \<and> (ei_has_cover e \<longleftrightarrow> ei_id e \<in> cr_ebook ` set (d_covers d))"
    if e: "e \<in> set (page_items (snd (ListEbooks ilike coll p d)))" for ilike coll p e
  proof -
    obtain x where x: "x \<in> set (catalog_rows ilike p d)" and e: "e = summary d x"
      using e by (auto simp: ListEbooks_def Let_def page_items_def split: if_splits
          dest!: in_set_takeD in_set_dropD)
    have "eb_id (fst x) \<in> visible_ids d"
      using x visible_joined by (auto simp: catalog_rows_def)
    then show ?thesis by (force simp: e summary_def Let_def has_cover_def list_ex_iff)
  qed
  then show "\<forall>ilike coll p e. e \<in> set (page_items (snd (ListEbooks ilike coll p d))) \<longrightarrow>
       ei_id e \<in> visible_ids d \<and> (ei_has_cover e \<longleftrightarrow> ei_id e \<in> cr_ebook ` set (d_covers d))"
    by blast
qed

theorem visibility_consistent_witness:
  "\<exists>e. snd (GetEbookByID ''b1'' sample_db) = Ok e"
proof -
  have "pg_text ''b1''" by (simp add: pg_text_ascii)
  moreover have "''b1'' \<in> visible_ids sample_db"
    using visible_joined [of "(sample_book, sample_lib 1 ''/a'')" sample_db]
    by (simp add: joined_def visible_def sample_defs)
  ultimately show ?thesis using visibility_consistent [OF sample_db_ok] by blast
qed

subsection \<open>Statistics\<close>

lemma book_covers_books:
  assumes "distinct (map cr_ebook (d_covers d))"
  shows "map fst (book_covers d) = d_books d"
proof -
  let ?f = "\<lambda>b. case filter (\<lambda>c. cr_ebook c = eb_id b) (d_covers d) of
     [] \<Rightarrow> [(b, None)] | c # cs \<Rightarrow> map (\<lambda>c. (b, Some c)) (c # cs)"
  have one: "map fst (?f b) = [b]" for b
  proof (cases "\<exists>c \<in> set (d_covers d). cr_ebook c = eb_id b")
    case True
    then obtain c where "c \<in> set (d_covers d)" "cr_ebook c = eb_id b" by blast
    then have "filter (\<lambda>c. cr_ebook c = eb_id b) (d_covers d) = [c]"
      using assms by (intro filter_key_eq)
    then show ?thesis by simp
  next
    case False
    then have "filter (\<lambda>c. cr_ebook c = eb_id b) (d_covers d) = []" by (simp add: filter_empty_conv)
    then show ?thesis by simp
  qed
  have "map fst (concat (map ?f bs)) = bs" for bs
  proof (induction bs)
    case (Cons b bs)
    then show ?case using one [of b] by (simp only: list.map concat.simps map_append append.simps)
  qed simp
  then show ?thesis unfolding book_covers_def .
qed

lemma count_where_map: "count_where p (map f xs) = count_where (\<lambda>x. p (f x)) xs"
  by (simp add: count_where_def filter_map comp_def)

lemma count_where_compl: "count_where p xs + count_where (\<lambda>x. \<not> p x) xs = length xs"
  by (simp add: count_where_def sum_length_filter_compl)

lemma count_map_group: "count_map (group_count ns) n = (if n \<in> set ns then Some (int (count_list ns n)) else None)"
proof -
  have "foldl (\<lambda>m r. m(nc_name r \<mapsto> nc_count r)) m
      (map (\<lambda>n. \<lparr>nc_name = n, nc_count = g n\<rparr>) xs) n = (if n \<in> set xs then Some (g n) else m n)"
    for m g and xs :: "string list"
    by (induction xs arbitrary: m) auto
  then show ?thesis by (simp add: count_map_def group_count_def)
qed

text \<open>
  The statistics count every book once although they join covers: the total is the number
  of books and the sum of active and deleted ones, covers never exceed books, and the per-format
  map holds exactly the non-zero counts of live books.
\<close>

theorem CatalogStats_spec:
  assumes "db_ok d" and "snd (CatalogStats coll d) = Ok st"
  shows "cs_total st = int (length (d_books d)) \<and> cs_total st = cs_active st + cs_deleted st \<and>
    cs_active st = int (count_where (\<lambda>b. \<not> eb_deleted b) (d_books d)) \<and>
    cs_with_covers st \<le> cs_total st \<and>
    (\<forall>f. cs_by_format st f = (let n = count_where (\<lambda>b. \<not> eb_deleted b \<and> eb_format b = f) (d_books d)
       in if n = 0 then None else Some (int n)))"
proof -
  have bc: "map fst (book_covers d) = d_books d"
    using assms(1) by (intro book_covers_books) (simp add: db_ok_def covers_ok_def)
  have len: "length (book_covers d) = length (d_books d)" using arg_cong [OF bc, of length] by simp
  have act: "count_where (\<lambda>x. \<not> eb_deleted (fst x)) (book_covers d) =
      count_where (\<lambda>b. \<not> eb_deleted b) (d_books d)"
    unfolding bc [symmetric] count_where_map ..
  have compl: "count_where (\<lambda>x. eb_deleted (fst x)) (book_covers d) +
      count_where (\<lambda>x. \<not> eb_deleted (fst x)) (book_covers d) = length (book_covers d)"
    by (rule count_where_compl)
  have le: "count_where (\<lambda>x. snd x \<noteq> None) (book_covers d) \<le> length (book_covers d)"
    by (simp add: count_where_def)
  have fmt: "count_list (map eb_format (filter (\<lambda>b. \<not> eb_deleted b) bs)) f =
      count_where (\<lambda>b. \<not> eb_deleted b \<and> eb_format b = f) bs" for bs f
    by (induction bs) (auto simp: count_where_def)
  have st: "cs_total st = int (length (book_covers d))"
    "cs_active st = int (count_where (\<lambda>x. \<not> eb_deleted (fst x)) (book_covers d))"
    "cs_deleted st = int (count_where (\<lambda>x. eb_deleted (fst x)) (book_covers d))"
    "cs_with_covers st = int (count_where (\<lambda>x. snd x \<noteq> None) (book_covers d))"
    "cs_by_format st = count_map (group_count (map eb_format (filter (\<lambda>b. \<not> eb_deleted b) (d_books d))))"
    using assms(2) by (auto simp: CatalogStats_def Let_def)
  have "cs_by_format st f = (let n = count_where (\<lambda>b. \<not> eb_deleted b \<and> eb_format b = f) (d_books d)
       in if n = 0 then None else Some (int n))" for f
    unfolding st count_map_group Let_def fmt [symmetric] by (simp add: count_list_0_iff)
  moreover have "cs_total st = cs_active st + cs_deleted st" using st compl by linarith
  moreover have "cs_with_covers st \<le> cs_total st" using st le by linarith
  ultimately show ?thesis using st(1,2) len act by simp
qed

theorem CatalogStats_spec_witness:
  "\<exists>st. snd (CatalogStats (\<lambda>t. t) sample_db) = Ok st \<and> cs_total st = 1"
proof -
  obtain st where st: "snd (CatalogStats (\<lambda>t. t) sample_db) = Ok st"
    by (simp add: CatalogStats_def Let_def)
  from CatalogStats_spec [OF sample_db_ok st] st show ?thesis by (auto simp: sample_defs)
qed

end
