(* ===== verification/GoBase64.thy ===== *)
theory GoBase64
  imports GoStrings
begin

text \<open>
  \<open>encoding/base64\<close> as the program uses it: \<open>RawURLEncoding\<close> for catalog cursors, \<open>StdEncoding\<close>
  and \<open>RawStdEncoding\<close> for the signing secret. Decoding skips carriage returns and newlines and
  does not check the unused bits of the last digit, as the non-strict decoders of the library do.
  The first argument selects the URL alphabet.
\<close>

definition b64_digit :: "bool \<Rightarrow> nat \<Rightarrow> char" where
  "b64_digit url n =
    (if n < 26 then byte (65 + n) else if n < 52 then byte (71 + n)
     else if n < 62 then byte (n - 4)
     else if n = 62 then (if url then CHR ''-'' else CHR ''+'')
     else (if url then CHR ''_'' else CHR ''/''))"

definition b64_val :: "bool \<Rightarrow> char \<Rightarrow> nat option" where
  "b64_val url c =
    (if is_upper c then Some (code c - 65) else if is_lower c then Some (code c - 71)
     else if is_digit c then Some (code c + 4)
     else if c = (if url then CHR ''-'' else CHR ''+'') then Some 62
     else if c = (if url then CHR ''_'' else CHR ''/'') then Some 63
     else None)"

fun raw_encode :: "bool \<Rightarrow> string \<Rightarrow> string" where
  "raw_encode url [] = []"
| "raw_encode url [a] = [b64_digit url (code a div 4), b64_digit url (code a mod 4 * 16)]"
| "raw_encode url [a, b] =
     [b64_digit url (code a div 4), b64_digit url (code a mod 4 * 16 + code b div 16),
      b64_digit url (code b mod 16 * 4)]"
| "raw_encode url (a # b # c # s) =
     b64_digit url (code a div 4) # b64_digit url (code a mod 4 * 16 + code b div 16) #
     b64_digit url (code b mod 16 * 4 + code c div 64) # b64_digit url (code c mod 64) #
     raw_encode url s"

fun raw_decode_digits :: "bool \<Rightarrow> string \<Rightarrow> string option" where
  "raw_decode_digits url [] = Some []"
| "raw_decode_digits url [a] = None"
| "raw_decode_digits url [a, b] =
     (case (b64_val url a, b64_val url b) of
        (Some x, Some y) \<Rightarrow> Some [byte (x * 4 + y div 16)] | _ \<Rightarrow> None)"
| "raw_decode_digits url [a, b, c] =
     (case (b64_val url a, b64_val url b, b64_val url c) of
        (Some x, Some y, Some z) \<Rightarrow> Some [byte (x * 4 + y div 16), byte (y mod 16 * 16 + z div 4)]
      | _ \<Rightarrow> None)"
| "raw_decode_digits url (a # b # c # d # s) =
     (case (b64_val url a, b64_val url b, b64_val url c, b64_val url d) of
        (Some x, Some y, Some z, Some w) \<Rightarrow>
          map_option (\<lambda>r. byte (x * 4 + y div 16) # byte (y mod 16 * 16 + z div 4) #
             byte (z mod 4 * 64 + w) # r) (raw_decode_digits url s)
      | _ \<Rightarrow> None)"

definition strip_newlines :: "string \<Rightarrow> string" where
  "strip_newlines s = filter (\<lambda>c. code c \<noteq> 10 \<and> code c \<noteq> 13) s"

definition raw_decode :: "bool \<Rightarrow> string \<Rightarrow> string option" where
  "raw_decode url s = raw_decode_digits url (strip_newlines s)"

text \<open>The padded decoder: every group has four characters, the last one may end in \<open>=\<close>.\<close>

fun std_decode_digits :: "bool \<Rightarrow> string \<Rightarrow> string option" where
  "std_decode_digits url [] = Some []"
| "std_decode_digits url [a, b, c, d] =
     (if d = CHR ''='' \<and> c = CHR ''='' then raw_decode_digits url [a, b]
      else if d = CHR ''='' then raw_decode_digits url [a, b, c]
      else raw_decode_digits url [a, b, c, d])"
| "std_decode_digits url (a # b # c # d # s) =
     (case raw_decode_digits url [a, b, c, d] of
        None \<Rightarrow> None
      | Some x \<Rightarrow> map_option (\<lambda>r. x @ r) (std_decode_digits url s))"
| "std_decode_digits url _ = None"

definition std_decode :: "string \<Rightarrow> string option" where
  "std_decode s = std_decode_digits False (strip_newlines s)"

subsection \<open>Round trip\<close>

lemma b64_digit_code:
  "n < 26 \<Longrightarrow> code (b64_digit url n) = 65 + n"
  "26 \<le> n \<Longrightarrow> n < 52 \<Longrightarrow> code (b64_digit url n) = 71 + n"
  "52 \<le> n \<Longrightarrow> n < 62 \<Longrightarrow> code (b64_digit url n) = n - 4"
  by (simp_all add: b64_digit_def)

lemma b64_cases:
  assumes "n < 64"
  obtains "n < 26" | "26 \<le> n" "n < 52" | "52 \<le> n" "n < 62" | "n = 62" | "n = (63::nat)"
proof -
  from assms have "n < 26 \<or> 26 \<le> n \<and> n < 52 \<or> 52 \<le> n \<and> n < 62 \<or> n = 62 \<or> n = 63" by arith
  with that show thesis by blast
qed

lemma b64_val_digit [simp]:
  assumes "n < 64" shows "b64_val url (b64_digit url n) = Some n"
  using assms
proof (cases rule: b64_cases)
  case 4
  then show ?thesis by (simp add: b64_val_def b64_digit_def is_upper_def is_lower_def is_digit_def)
next
  case 5
  then show ?thesis by (simp add: b64_val_def b64_digit_def is_upper_def is_lower_def is_digit_def)
qed (auto simp: b64_val_def is_upper_def is_lower_def is_digit_def b64_digit_code)

lemma b64_digit_not_newline:
  assumes "n < 64" shows "code (b64_digit url n) \<noteq> (10::nat) \<and> code (b64_digit url n) \<noteq> (13::nat)"
  using assms
proof (cases rule: b64_cases)
  case 4
  then show ?thesis by (simp add: b64_digit_def)
next
  case 5
  then show ?thesis by (simp add: b64_digit_def)
qed (auto simp: b64_digit_code)

lemma code_bound: "code (c::char) < (256::nat)"
  using of_char_mod_256 [of c, where 'a = nat] mod_less_divisor [of 256 "code c"] by simp

lemma code_parts [simp]:
  "code (c::char) div 16 div 16 = (0::nat)" "code c div 16 mod 16 = (code c div 16 :: nat)"
  "code c div 64 div 4 = (0::nat)" "code c div 64 mod 4 = (code c div 64 :: nat)"
  using code_bound [of c] by (simp_all add: div_mult2_eq [symmetric] less_mult_imp_div_less)

lemma code_digits:
  "code (a::char) div 4 < (64::nat)" "code a mod 4 * 16 < (64::nat)"
  "code a mod 4 * 16 + code b div 16 < (64::nat)" "code b mod 16 * 4 < (64::nat)"
  "code b mod 16 * 4 + code c div 64 < (64::nat)" "code c mod 64 < (64::nat)"
proof -
  have m: "code a mod 4 < (4::nat)" "code b mod 16 < (16::nat)" by simp_all
  have d: "code a div 4 < (64::nat)" "code b div 16 < (16::nat)" "code c div 64 < (4::nat)"
    using code_bound by (simp_all add: less_mult_imp_div_less)
  show "code a div 4 < (64::nat)" by (rule d)
  show "code a mod 4 * 16 < (64::nat)" "code a mod 4 * 16 + code b div 16 < (64::nat)"
    "code b mod 16 * 4 < (64::nat)" "code b mod 16 * 4 + code c div 64 < (64::nat)"
    using m d by linarith+
  show "code c mod 64 < (64::nat)" by simp
qed

lemma raw_decode_digits_encode: "raw_decode_digits url (raw_encode url s) = Some s"
  by (induction url s rule: raw_encode.induct)
    (simp_all add: code_digits)

lemma raw_encode_no_newline: "strip_newlines (raw_encode url s) = raw_encode url s"
  unfolding strip_newlines_def
  by (induction url s rule: raw_encode.induct)
    (simp_all add: b64_digit_not_newline code_digits)

theorem raw_decode_encode: "raw_decode url (raw_encode url s) = Some s"
  by (simp add: raw_decode_def raw_encode_no_newline raw_decode_digits_encode)

lemma raw_encode_nonempty: "s \<noteq> [] \<Longrightarrow> raw_encode url s \<noteq> []"
  by (induction url s rule: raw_encode.induct) simp_all

end
