(* ===== verification/Tokens.thy ===== *)
theory Tokens
  imports GoBase64
begin

text \<open>
  Signed media tokens (\<open>internal/tokens/verify.go\<close>). \<open>jwt.Parse\<close> of golang-jwt is a parameter: it
  gets the token, the key function (from the \<open>alg\<close> of the header to a key or an error) and the
  audience, with expiration required, and gives the parsed token or an error. A claim that is a JSON
  number is a \<open>float64\<close>, here a fraction with a positive denominator.
\<close>

definition Audience :: string where "Audience = ''ebook_backend''"

definition CoverFileIdx :: int where "CoverFileIdx = -1"

definition FileFileIdx :: int where "FileFileIdx = 0"

datatype claim_value = ClaimStr string | ClaimNum int int | ClaimOther

record jwt_token =
  jt_valid :: bool
  jt_claims :: "string \<rightharpoonup> claim_value"

type_synonym key_fun = "string \<Rightarrow> (string, string) res"

type_synonym jwt_parser = "string \<Rightarrow> key_fun \<Rightarrow> string \<Rightarrow> (string, jwt_token) res"

record claims =
  cl_user :: string
  cl_book :: string
  cl_file_idx :: int

datatype token_error =
    ErrSecretUnconfigured | ErrTokenMissing | VerifyFailed string | TokenInvalid
  | BookMismatch | FileMismatch | SubRequired

definition nonempty_bytes :: "string option \<Rightarrow> string option" where
  "nonempty_bytes r = (case r of Some b \<Rightarrow> if b = [] then None else Some b | None \<Rightarrow> None)"

definition decodeSecret :: "string \<Rightarrow> string" where
  "decodeSecret secret =
    (case nonempty_bytes (std_decode secret) of
       Some b \<Rightarrow> b
     | None \<Rightarrow> (case nonempty_bytes (raw_decode False secret) of Some b \<Rightarrow> b | None \<Rightarrow> secret))"

definition hs256_key :: "string \<Rightarrow> key_fun" where
  "hs256_key key alg = (if alg \<noteq> ''HS256'' then Err (''unexpected signing method: '' @ alg) else Ok key)"

text \<open>Failing type assertions leave the zero value.\<close>

definition string_claim :: "jwt_token \<Rightarrow> string \<Rightarrow> string" where
  "string_claim t k = (case jt_claims t k of Some (ClaimStr s) \<Rightarrow> s | _ \<Rightarrow> [])"

definition number_claim :: "jwt_token \<Rightarrow> string \<Rightarrow> (int \<times> int) option" where
  "number_claim t k = (case jt_claims t k of Some (ClaimNum p q) \<Rightarrow> Some (p, q) | _ \<Rightarrow> None)"

text \<open>\<open>int(f)\<close> truncates; out of range it is what amd64 gives, the smallest integer.\<close>

definition int_of_float :: "int \<times> int \<Rightarrow> int" where
  "int_of_float x = (let n = quot (fst x) (snd x) in if int64_range n then n else min_int64)"

definition check_claims :: "jwt_token \<Rightarrow> string \<Rightarrow> int \<Rightarrow> (token_error, claims) res" where
  "check_claims t expectedBookID expectedFileIdx =
    (let bookID = string_claim t ''book_id'' in
     if bookID = [] \<or> bookID \<noteq> expectedBookID then Err BookMismatch
     else case number_claim t ''file_idx'' of
        None \<Rightarrow> Err FileMismatch
      | Some fidx \<Rightarrow>
          if int_of_float fidx \<noteq> expectedFileIdx then Err FileMismatch
          else let sub = string_claim t ''sub'' in
               if sub = [] then Err SubRequired
               else Ok \<lparr>cl_user = sub, cl_book = bookID, cl_file_idx = expectedFileIdx\<rparr>)"

definition Verify :: "jwt_parser \<Rightarrow> string \<Rightarrow> string \<Rightarrow> string \<Rightarrow> int \<Rightarrow> (token_error, claims) res" where
  "Verify jwt_Parse secret tokenStr expectedBookID expectedFileIdx =
    (if TrimSpace secret = [] then Err ErrSecretUnconfigured
     else if tokenStr = [] then Err ErrTokenMissing
     else case jwt_Parse tokenStr (hs256_key (decodeSecret secret)) Audience of
         Inl e \<Rightarrow> Err (VerifyFailed e)
       | Inr t \<Rightarrow> if \<not> jt_valid t then Err TokenInvalid
           else check_claims t expectedBookID expectedFileIdx)"

subsection \<open>What a verified token proves\<close>

text \<open>What the library documents of an accepted token: it is signed, under the algorithm of its
  header, with the key the key function returned for that algorithm, and its audience and expiry
  hold. \<open>signed alg key tok\<close> and \<open>current tok aud\<close> stand for these facts.\<close>

definition jwt_documented ::
  "jwt_parser \<Rightarrow> (string \<Rightarrow> string \<Rightarrow> string \<Rightarrow> bool) \<Rightarrow> (string \<Rightarrow> string \<Rightarrow> bool) \<Rightarrow> bool" where
  "jwt_documented P signed current \<longleftrightarrow> (\<forall>tok kf aud t. P tok kf aud = Ok t \<longrightarrow>
     current tok aud \<and> (\<exists>alg key. kf alg = Ok key \<and> signed alg key tok))"

lemma check_claims_ok:
  "check_claims t book idx = Ok c \<Longrightarrow> book \<noteq> [] \<and> string_claim t ''book_id'' = book \<and>
     (\<exists>f. number_claim t ''file_idx'' = Some f \<and> int_of_float f = idx) \<and>
     cl_user c = string_claim t ''sub'' \<and> cl_user c \<noteq> [] \<and> cl_book c = book \<and> cl_file_idx c = idx"
  by (auto simp: check_claims_def Let_def split: if_splits option.splits)

lemma Verify_ok:
  "Verify P secret tok book idx = Ok c \<Longrightarrow> TrimSpace secret \<noteq> [] \<and> tok \<noteq> [] \<and>
     (\<exists>t. P tok (hs256_key (decodeSecret secret)) Audience = Ok t \<and> jt_valid t \<and> check_claims t book idx = Ok c)"
  by (auto simp: Verify_def split: if_splits sum.splits)

text \<open>
  C22. When the JWT library keeps its documentation, a token Verify accepts is signed with HS256
  under the configured, non-blank secret, is current and made for the ebook audience, names a
  user, and is accepted for one book and one file index only.
\<close>

theorem Verify_sound:
  assumes "jwt_documented P signed current" and "Verify P secret tok book idx = Ok c"
  shows "TrimSpace secret \<noteq> [] \<and> signed ''HS256'' (decodeSecret secret) tok \<and> current tok ''ebook_backend'' \<and>
    book \<noteq> [] \<and> cl_user c \<noteq> [] \<and>
    (\<forall>book' idx' c'. Verify P secret tok book' idx' = Ok c' \<longrightarrow> book' = book \<and> idx' = idx \<and> c' = c)"
proof -
  from Verify_ok [OF assms(2)] obtain t where t: "TrimSpace secret \<noteq> []" "jt_valid t"
    "P tok (hs256_key (decodeSecret secret)) Audience = Ok t" "check_claims t book idx = Ok c" by blast
  from assms(1) t(3) obtain alg key where k: "hs256_key (decodeSecret secret) alg = Ok key" "signed alg key tok"
    and cur: "current tok Audience" unfolding jwt_documented_def by blast
  from k have "signed ''HS256'' (decodeSecret secret) tok" by (simp add: hs256_key_def split: if_splits)
  moreover have "book' = book \<and> idx' = idx \<and> c' = c" if "Verify P secret tok book' idx' = Ok c'" for book' idx' c'
  proof -
    from Verify_ok [OF that] t(3) have t': "check_claims t book' idx' = Ok c'" by auto
    from check_claims_ok [OF t'] check_claims_ok [OF t(4)] show ?thesis by (cases c; cases c') auto
  qed
  moreover have "book \<noteq> []" "cl_user c \<noteq> []" using check_claims_ok [OF t(4)] by blast+
  ultimately show ?thesis using t(1) cur by (simp add: Audience_def)
qed

text \<open>A parser for the witness: the token is its own signature.\<close>

definition demo_jwt :: jwt_parser where
  "demo_jwt tok kf aud = (case kf ''HS256'' of
     Inl e \<Rightarrow> Err e
   | Inr key \<Rightarrow> if tok = key @ aud then Ok \<lparr>jt_valid = True, jt_claims = [''book_id'' \<mapsto> ClaimStr ''b1'',
         ''file_idx'' \<mapsto> ClaimNum (-1) 1, ''sub'' \<mapsto> ClaimStr ''u'']\<rparr> else Err ''signature is invalid'')"

lemma demo_Verify:
  "Verify demo_jwt ''!k'' ''!kebook_backend'' ''b1'' (-1) = Ok \<lparr>cl_user = ''u'', cl_book = ''b1'', cl_file_idx = -1\<rparr>"
proof -
  have key: "decodeSecret ''!k'' = ''!k''"
    by (simp add: decodeSecret_def std_decode_def raw_decode_def strip_newlines_def nonempty_bytes_def
        b64_val_def is_upper_def is_lower_def is_digit_def)
  have "TrimSpace ''!k'' \<noteq> []" by (simp add: TrimSpace_plain plain_def ascii_space_def)
  then show ?thesis by (simp add: Verify_def key demo_jwt_def hs256_key_def Audience_def check_claims_def Let_def
        string_claim_def number_claim_def int_of_float_def quot_def int64_range_def min_int64_def max_int64_def)
qed

theorem Verify_sound_witness:
  "Verify demo_jwt ''!k'' ''!kebook_backend'' ''b1'' (-1) = Ok \<lparr>cl_user = ''u'', cl_book = ''b1'', cl_file_idx = -1\<rparr> \<and>
   Verify demo_jwt ''!k'' ''!kebook_backend'' ''b1'' 0 \<noteq> Ok \<lparr>cl_user = ''u'', cl_book = ''b1'', cl_file_idx = 0\<rparr>"
proof -
  have doc: "jwt_documented demo_jwt (\<lambda>alg key tok. alg = ''HS256'' \<and> prefix key tok) (\<lambda>tok aud. suffix aud tok)"
    unfolding jwt_documented_def by (auto simp: demo_jwt_def suffix_def split: sum.splits if_splits)
  note v = demo_Verify
  from Verify_sound [OF doc v] v show ?thesis by (metis zero_neq_neg_one)
qed

end
