(* ===== verification/EbookBackend.thy ===== *)
theory EbookBackend
  imports StoreCatalog Tokens HttpCore
begin

text \<open>
  The catalog handlers (\<open>internal/grpc/ebookbackend\<close>: \<open>server.go\<close>, \<open>transform.go\<close>, \<open>types.go\<close>) over the
  catalog queries of the store. A handler is a function from the request and the database to the
  response. The locale \<open>paged_listing\<close> is what cursor pagination relies on; the four listings are
  instances of it.
\<close>

record backend_env =
  be_uni :: uni
  be_ilike :: "string \<Rightarrow> string \<Rightarrow> bool"
  be_coll :: "string \<Rightarrow> string"
  be_secret :: string
  be_jwt :: jwt_parser
  be_open :: "string \<Rightarrow> bool"
  be_stat :: "string \<Rightarrow> bool"

subsection \<open>Wire types\<close>

record wire_book =
  wb_id :: string
  wb_library_id :: int
  wb_library_name :: string
  wb_media_type :: string
  wb_title :: string
  wb_authors :: "string list"
  wb_series :: string
  wb_series_index :: string
  wb_year :: string
  wb_language :: string
  wb_cover_url :: string
  wb_has_cover :: bool
  wb_formats :: "string list"

record wire_file =
  wf_format :: string
  wf_size_bytes :: int
  wf_mime_type :: string
  wf_url :: string

record wire_detail = wire_book +
  wd_description :: string
  wd_isbn :: string
  wd_asin :: string
  wd_publisher :: string
  wd_genres :: "string list"
  wd_page_count :: int
  wd_files :: "wire_file list"

record wire_library =
  wl_id :: int
  wl_name :: string
  wl_path :: string
  wl_media_type :: string
  wl_enabled :: bool
  wl_last_scanned_at :: string

definition enc_book_members :: "'z wire_book_scheme \<Rightarrow> (string \<times> json) list" where
  "enc_book_members b = [(''id'', enc_str (wb_id b))] @ omit_int ''library_id'' (wb_library_id b) @
     omit_str ''library_name'' (wb_library_name b) @ omit_str ''media_type'' (wb_media_type b) @
     [(''title'', enc_str (wb_title b))] @ omit_strs ''authors'' (wb_authors b) @
     omit_str ''series'' (wb_series b) @ omit_str ''series_index'' (wb_series_index b) @
     omit_str ''year'' (wb_year b) @ omit_str ''language'' (wb_language b) @
     omit_str ''cover_url'' (wb_cover_url b) @
     [(''has_cover'', JBool (wb_has_cover b)), (''formats'', enc_strs (wb_formats b))]"

definition enc_book :: "wire_book \<Rightarrow> json" where
  "enc_book b = JObj (enc_book_members b)"

definition enc_file :: "wire_file \<Rightarrow> json" where
  "enc_file f = JObj ([(''format'', enc_str (wf_format f)), (''size_bytes'', JNum (wf_size_bytes f)),
     (''mime_type'', enc_str (wf_mime_type f))] @ omit_str ''url'' (wf_url f))"

definition enc_detail :: "wire_detail \<Rightarrow> json" where
  "enc_detail d = JObj (enc_book_members d @ omit_str ''description'' (wd_description d) @
     omit_str ''isbn'' (wd_isbn d) @ omit_str ''asin'' (wd_asin d) @ omit_str ''publisher'' (wd_publisher d) @
     omit_strs ''genres'' (wd_genres d) @ omit_int ''page_count'' (wd_page_count d) @
     [(''files'', JArr (map enc_file (wd_files d)))])"

definition enc_library :: "wire_library \<Rightarrow> json" where
  "enc_library l = JObj ([(''id'', JNum (wl_id l)), (''name'', enc_str (wl_name l))] @
     omit_str ''path'' (wl_path l) @ [(''media_type'', enc_str (wl_media_type l)),
     (''enabled'', JBool (wl_enabled l))] @ omit_str ''last_scanned_at'' (wl_last_scanned_at l))"

definition enc_name_count :: "name_count \<Rightarrow> json" where
  "enc_name_count a = JObj [(''name'', enc_str (nc_name a)), (''count'', JNum (nc_count a))]"

definition enc_page :: "('a \<Rightarrow> json) \<Rightarrow> 'a list \<Rightarrow> int \<Rightarrow> int \<Rightarrow> int \<Rightarrow> string \<Rightarrow> json" where
  "enc_page enc items tot page limit cursor =
     JObj ([(''items'', JArr (map enc items)), (''total'', JNum tot), (''page'', JNum page),
       (''limit'', JNum limit)] @ omit_str ''next_cursor'' cursor)"

subsection \<open>Projections\<close>

definition mime_table :: "(string \<times> string) list" where
  "mime_table = [(''epub'', ''application/epub+zip''), (''pdf'', ''application/pdf''),
     (''mobi'', ''application/x-mobipocket-ebook''), (''azw'', ''application/vnd.amazon.ebook''),
     (''azw3'', ''application/vnd.amazon.ebook''), (''djvu'', ''image/vnd.djvu''),
     (''fb2'', ''application/x-fictionbook+xml''), (''cbz'', ''application/vnd.comicbook+zip''),
     (''cbr'', ''application/vnd.comicbook-rar''), (''txt'', ''text/plain'')]"

definition FormatToMime :: "uni \<Rightarrow> string \<Rightarrow> string" where
  "FormatToMime u format = (case map_of mime_table (ToLower u format) of
     Some m \<Rightarrow> m | None \<Rightarrow> ''application/octet-stream'')"

definition ExtForFormat :: "uni \<Rightarrow> string \<Rightarrow> string" where
  "ExtForFormat u format = (let f = ToLower u (TrimSpace format) in if f = [] then ''bin'' else f)"

definition ToBook :: "uni \<Rightarrow> 'z ebook_item_scheme \<Rightarrow> wire_book" where
  "ToBook u e = \<lparr>wb_id = ei_id e, wb_library_id = ei_library_id e, wb_library_name = ei_library_name e,
     wb_media_type = ei_media_type e, wb_title = ei_title e, wb_authors = ei_authors e,
     wb_series = ei_series e, wb_series_index = ei_series_index e, wb_year = ei_year e,
     wb_language = ei_language e, wb_cover_url = [], wb_has_cover = ei_has_cover e,
     wb_formats = (if ei_format e \<noteq> [] then [ToLower u (ei_format e)] else [])\<rparr>"

definition ToBookDetail :: "uni \<Rightarrow> ebook_detail \<Rightarrow> wire_detail" where
  "ToBookDetail u d = wire_book.extend (ToBook u d)
     (wire_detail.fields (ed_description d) (ed_isbn d) (ed_asin d) (ed_publisher d) (ed_genres d)
       (ed_page_count d)
       (if ei_format d \<noteq> [] then [\<lparr>wf_format = ToLower u (ei_format d), wf_size_bytes = ed_file_size d,
          wf_mime_type = FormatToMime u (ei_format d), wf_url = []\<rparr>] else []))"

definition ToLibrary :: "lib_row \<Rightarrow> wire_library" where
  "ToLibrary l = \<lparr>wl_id = lp_id l, wl_name = (if lp_name l = [] then lp_path l else lp_name l),
     wl_path = lp_path l, wl_media_type = (if lp_media_type l = [] then ''book'' else lp_media_type l),
     wl_enabled = lp_enabled l,
     wl_last_scanned_at = (case lp_last_scanned_at l of Some t \<Rightarrow> format_rfc3339 t | None \<Rightarrow> [])\<rparr>"

subsection \<open>Helpers\<close>

definition decodeCursor :: "string \<Rightarrow> int" where
  "decodeCursor s = (if s = [] then 0 else
     case raw_decode True s of
       None \<Rightarrow> 0
     | Some b \<Rightarrow> (case Atoi b of (n, ok) \<Rightarrow> if \<not> ok \<or> n < 1 then 0 else n))"

definition nextCursor :: "int \<Rightarrow> int \<Rightarrow> int \<Rightarrow> string" where
  "nextCursor page limit tot =
     (if limit \<le> 0 \<or> page \<le> 0 \<or> wrap64 (page * limit) \<ge> tot then []
      else raw_encode True (Itoa (wrap64 (page + 1))))"

definition listParams :: "request \<Rightarrow> list_params option" where
  "listParams r =
    (let q = rq_query r;
         p = \<lparr>lq_page = (if q ''cursor'' \<noteq> [] then decodeCursor (q ''cursor'') else fst (Atoi (q ''page''))),
              lq_limit = fst (Atoi (q ''limit'')), lq_search = q ''search'', lq_library_id = 0,
              lq_library = q ''library''\<rparr>
     in if q ''library_id'' \<noteq> [] then
          (case Atoi (q ''library_id'') of (n, ok) \<Rightarrow>
             if \<not> ok \<or> n \<le> 0 then None else Some (p\<lparr>lq_library_id := n\<rparr>))
        else Some p)"

definition writeError :: "int \<Rightarrow> string \<Rightarrow> response" where
  "writeError st msg = writeJSON st (JObj [(''error'', JObj [(''message'', enc_str msg)])])"

definition serverError :: response where
  "serverError = writeError 500 ''internal error''"

definition token_text :: "token_error \<Rightarrow> string" where
  "token_text e = (case e of ErrSecretUnconfigured \<Rightarrow> ''media signing secret not configured''
     | ErrTokenMissing \<Rightarrow> ''media token missing'' | VerifyFailed m \<Rightarrow> ''verify: '' @ m
     | TokenInvalid \<Rightarrow> ''token invalid'' | BookMismatch \<Rightarrow> ''book_id mismatch''
     | FileMismatch \<Rightarrow> ''file_idx mismatch'' | SubRequired \<Rightarrow> ''sub required'')"

definition writeTokenError :: "token_error \<Rightarrow> response" where
  "writeTokenError e = writeJSON (if e = ErrSecretUnconfigured then 503 else 401)
     (JObj [(''error'', enc_str (token_text e))])"

text \<open>A character outside the list becomes one underscore, as does every byte that starts no character.\<close>

definition filename_char :: "char \<Rightarrow> bool" where
  "filename_char c \<longleftrightarrow> is_lower c \<or> is_upper c \<or> is_digit c \<or> c \<in> {CHR ''.'', CHR ''-'', CHR ''_'', CHR '' ''}"

function sanitizeFilename :: "string \<Rightarrow> string" where
  "sanitizeFilename s = (case s of [] \<Rightarrow> []
     | c # r \<Rightarrow> (if filename_char c then c else CHR ''_'') #
         sanitizeFilename (drop (max 1 (utf8_front s)) s))"
  by pat_completeness auto
termination
  by (relation "measure length") auto

declare sanitizeFilename.simps [simp del]

subsection \<open>Listings\<close>

definition serve_page ::
  "('a \<Rightarrow> json) \<Rightarrow> (list_params \<Rightarrow> 'a paged stmt) \<Rightarrow> list_params option \<Rightarrow> db \<Rightarrow> response" where
  "serve_page enc run p d = (case p of
     None \<Rightarrow> writeError 400 ''invalid library_id''
   | Some p \<Rightarrow> (case snd (run p d) of
       Inl e \<Rightarrow> serverError
     | Inr out \<Rightarrow> writeJSON 200 (enc_page enc (pa_items out) (pa_total out) (pa_page out) (pa_limit out)
         (nextCursor (pa_page out) (pa_limit out) (pa_total out)))))"

definition list_item :: "backend_env \<Rightarrow> ebook_item \<Rightarrow> json" where
  "list_item V e = (let b = ToBook (be_uni V) e in
     enc_book (if wb_has_cover b then b\<lparr>wb_cover_url := ''/catalog/'' @ wb_id b @ ''/cover''\<rparr> else b))"

definition listEbooks :: "backend_env \<Rightarrow> list_params option \<Rightarrow> db \<Rightarrow> response" where
  "listEbooks V = serve_page (list_item V) (ListEbooks (be_ilike V) (be_coll V))"

definition List_handler :: "backend_env \<Rightarrow> request \<Rightarrow> db \<Rightarrow> response" where
  "List_handler V r d = listEbooks V (listParams r) d"

definition Search_handler :: "backend_env \<Rightarrow> request \<Rightarrow> db \<Rightarrow> response" where
  "Search_handler V r d = (case listParams r of
     None \<Rightarrow> writeError 400 ''invalid library_id''
   | Some p \<Rightarrow> (let q = rq_query r ''q'' in listEbooks V (Some (if q \<noteq> [] then p\<lparr>lq_search := q\<rparr> else p)) d))"

definition Authors :: "backend_env \<Rightarrow> request \<Rightarrow> db \<Rightarrow> response" where
  "Authors V r = serve_page enc_name_count (ListAuthors (be_ilike V) (be_coll V)) (listParams r)"

definition SeriesList :: "backend_env \<Rightarrow> request \<Rightarrow> db \<Rightarrow> response" where
  "SeriesList V r = serve_page enc_name_count (ListSeries (be_ilike V) (be_coll V)) (listParams r)"

definition Genres :: "backend_env \<Rightarrow> request \<Rightarrow> db \<Rightarrow> response" where
  "Genres V r = serve_page enc_name_count (ListGenres (be_ilike V) (be_coll V)) (listParams r)"

definition Libraries :: "backend_env \<Rightarrow> db \<Rightarrow> response" where
  "Libraries V d = (case snd (ListLibraryPaths (be_coll V) d) of
     Inl e \<Rightarrow> serverError
   | Inr rows \<Rightarrow> writeJSON 200 (JObj [(''items'', JArr (map (\<lambda>l. enc_library (ToLibrary l)) (filter lp_enabled rows)))]))"

subsection \<open>One book\<close>

definition detail_urls :: "wire_detail \<Rightarrow> wire_detail" where
  "detail_urls w =
    (let w = (if wb_has_cover w then w\<lparr>wb_cover_url := ''/catalog/'' @ wb_id w @ ''/cover''\<rparr> else w)
     in case wd_files w of [] \<Rightarrow> w
      | f # fs \<Rightarrow> w\<lparr>wd_files := f\<lparr>wf_url := ''/catalog/'' @ wb_id w @ ''/file''\<rparr> # fs\<rparr>)"

definition Detail :: "backend_env \<Rightarrow> string \<Rightarrow> db \<Rightarrow> response" where
  "Detail V i d =
    (if i = [] then writeError 400 ''id required''
     else case snd (GetEbookByID i d) of
       Inl e \<Rightarrow> if e = ErrNotFound then writeError 404 ''not found'' else serverError
     | Inr b \<Rightarrow> writeJSON 200 (enc_detail (detail_urls (ToBookDetail (be_uni V) b))))"

definition Cover :: "backend_env \<Rightarrow> request \<Rightarrow> string \<Rightarrow> db \<Rightarrow> response" where
  "Cover V r i d =
    (if i = [] then writeError 400 ''id required''
     else case Verify (be_jwt V) (be_secret V) (rq_query r ''token'') i CoverFileIdx of
       Inl e \<Rightarrow> writeTokenError e
     | Inr c \<Rightarrow> (case snd (GetCover i d) of
         Inl e \<Rightarrow> if e = ErrNotFound then writeError 404 ''no cover'' else serverError
       | Inr (bytes, ct) \<Rightarrow> \<lparr>rs_status = 200, rs_headers =
             [(''Content-Type'', if ct = [] then ''image/jpeg'' else ct), (''Content-Length'', Itoa (int (length bytes)))],
           rs_body = BytesBody bytes\<rparr>))"

definition File :: "backend_env \<Rightarrow> request \<Rightarrow> string \<Rightarrow> db \<Rightarrow> response" where
  "File V r i d =
    (if i = [] then writeError 400 ''id required''
     else case Verify (be_jwt V) (be_secret V) (rq_query r ''token'') i FileFileIdx of
       Inl e \<Rightarrow> writeTokenError e
     | Inr c \<Rightarrow> (case snd (GetEbookPath i d) of
         Inl e \<Rightarrow> if e = ErrNotFound then writeError 404 ''not found'' else serverError
       | Inr (path, format) \<Rightarrow>
           if \<not> be_open V path then writeError 500 ''open file''
           else if \<not> be_stat V path then serverError
           else let n = sanitizeFilename (Base path);
                    filename = (if n = [] then i @ ''.'' @ ExtForFormat (be_uni V) format else n)
                in \<lparr>rs_status = 200, rs_headers = [(''Content-Type'', FormatToMime (be_uni V) format),
                      (''Content-Disposition'', ''attachment; filename=\"'' @ filename @ ''\"'')],
                    rs_body = FileBody path filename\<rparr>))"


subsection \<open>Cursors\<close>

lemma int64_small: "0 \<le> n \<Longrightarrow> n < 2 ^ 63 \<Longrightarrow> int64_range n"
  by (simp add: int64_range_def min_int64_def max_int64_def)

lemma Itoa_nonempty [simp]: "Itoa n \<noteq> []"
  by (simp add: Itoa_def)

lemma cursor_roundtrip:
  assumes "1 \<le> n" and "int64_range n"
  shows "raw_encode True (Itoa n) \<noteq> [] \<and> decodeCursor (raw_encode True (Itoa n)) = n"
  using assms raw_encode_nonempty [of "Itoa n" True]
  by (simp add: decodeCursor_def raw_decode_encode Atoi_Itoa)

lemma b64_digit_ascii: "n < 64 \<Longrightarrow> code (b64_digit url n) < (128::nat)"
  by (auto simp: b64_digit_def code_byte)

lemma raw_encode_ascii: "is_ascii (raw_encode url s)"
  by (induction url s rule: raw_encode.induct) (simp_all add: is_ascii_def b64_digit_ascii code_digits)

lemma nextCursor_text: "coerce_utf8 (nextCursor p l n) = nextCursor p l n"
  by (simp add: nextCursor_def coerce_utf8_valid utf8_valid_ascii raw_encode_ascii)

text \<open>A client that follows \<open>next_cursor\<close> until it is absent; the number bounds its requests.\<close>

fun crawl :: "nat \<Rightarrow> (string \<Rightarrow> response) \<Rightarrow> string \<Rightarrow> json list" where
  "crawl 0 get c = []"
| "crawl (Suc n) get c =
     (let r = get c in json_items r @ (if json_cursor r = [] then [] else crawl n get (json_cursor r)))"

definition with_cursor :: "request \<Rightarrow> string \<Rightarrow> request" where
  "with_cursor r c = r\<lparr>rq_query := (rq_query r)(''cursor'' := c)\<rparr>"

lemma serve_page_items:
  "snd (run p d) = Ok out \<Longrightarrow> json_items (serve_page enc run (Some p) d) = map enc (pa_items out) \<and>
     json_cursor (serve_page enc run (Some p) d) = nextCursor (pa_page out) (pa_limit out) (pa_total out)"
  by (auto simp: serve_page_def json_items_def json_cursor_def json_member_def writeJSON_def enc_page_def
      omit_str_def enc_str_def nextCursor_text)

lemma listParams_cursor:
  assumes "listParams r = Some p" and "rq_query r ''cursor'' = []" and "rq_query r ''page'' = []"
  shows "listParams (with_cursor r c) = Some (p\<lparr>lq_page := (if c = [] then 0 else decodeCursor c)\<rparr>)"
proof -
  have "fst (Atoi []) = 0" by (simp add: Atoi_def)
  with assms show ?thesis
    by (auto simp: listParams_def with_cursor_def Let_def split: if_splits prod.splits)
qed

locale paged_listing =
  fixes run :: "list_params \<Rightarrow> 'a paged stmt" and rows :: "list_params \<Rightarrow> db \<Rightarrow> 'a list"
  assumes run_page: "params_text_ok p \<Longrightarrow> 0 \<le> page_offset (normalizePage (lq_page p)) (normalizeLimit (lq_limit p)) \<Longrightarrow>
      snd (run p d) = Ok \<lparr>pa_items = take (nat (normalizeLimit (lq_limit p)))
          (drop (nat (page_offset (normalizePage (lq_page p)) (normalizeLimit (lq_limit p)))) (rows p d)),
        pa_total = int (length (rows p d)), pa_page = normalizePage (lq_page p),
        pa_limit = normalizeLimit (lq_limit p)\<rparr>"
    and rows_page: "rows (p\<lparr>lq_page := n\<rparr>) d = rows p d"
begin

lemma page_step:
  assumes p: "params_text_ok p" and l: "l = nat (normalizeLimit (lq_limit p))"
    and small: "int (k * l) + int l + 1 < 2 ^ 63"
  shows "json_items (serve_page enc run (Some (p\<lparr>lq_page := int k + 1\<rparr>)) d) = map enc (take l (drop (k * l) (rows p d))) \<and>
    json_cursor (serve_page enc run (Some (p\<lparr>lq_page := int k + 1\<rparr>)) d) =
      (if int (length (rows p d)) \<le> int (k * l) + int l then [] else raw_encode True (Itoa (int (Suc k) + 1)))"
proof -
  let ?p = "p\<lparr>lq_page := int k + 1\<rparr>" and ?L = "normalizeLimit (lq_limit p)"
  have L: "0 < ?L" "int l = ?L" "0 < l" by (simp_all add: l normalizeLimit_def)
  have off: "page_offset (int k + 1) ?L = int (k * l)"
    using page_offset_exact [of "int k" ?L] L small by simp
  have ok: "params_text_ok ?p" using p by (simp add: params_text_ok_def)
  have pg: "normalizePage (lq_page ?p) = int k + 1" by (simp add: normalizePage_def)
  have run: "snd (run ?p d) = Ok \<lparr>pa_items = take l (drop (k * l) (rows p d)),
      pa_total = int (length (rows p d)), pa_page = int k + 1, pa_limit = ?L\<rparr>"
  proof -
    have n: "nat (int k * ?L) = k * l" "nat ?L = l" unfolding L(2) [symmetric] by (simp_all add: nat_mult_distrib)
    have "0 \<le> int k * ?L" unfolding L(2) [symmetric] by simp
    then show ?thesis using run_page [OF ok, of d] off unfolding pg
      by (simp add: rows_page L(2) [symmetric] nat_mult_distrib)
  qed
  have "(int k + 1) * ?L = int (k * l) + int l" using L by (simp add: algebra_simps)
  moreover have "int64_range (int (k * l) + int l)"
    using small by (intro int64_small) simp_all
  moreover have "int k * 1 \<le> int k * int l" using L by (intro mult_left_mono) simp_all
  then have "int64_range (int (Suc k) + 1)" using small L by (intro int64_small) simp_all
  ultimately have "nextCursor (int k + 1) ?L (int (length (rows p d))) =
      (if int (length (rows p d)) \<le> int (k * l) + int l then [] else raw_encode True (Itoa (int (Suc k) + 1)))"
    using L by (simp add: nextCursor_def wrap64_id add.commute)
  with serve_page_items [where run = run and enc = enc, OF run] show ?thesis by simp
qed

lemma crawl_from:
  assumes p: "params_text_ok p" and l: "l = nat (normalizeLimit (lq_limit p))"
    and total: "int (length (rows p d)) < 2 ^ 62"
    and get: "\<And>c. get c = serve_page enc run (Some (p\<lparr>lq_page := (if c = [] then 0 else decodeCursor c)\<rparr>)) d"
  shows "k * l \<le> length (rows p d) \<Longrightarrow> c = raw_encode True (Itoa (int k + 1)) \<Longrightarrow>
    length (rows p d) < k * l + n \<Longrightarrow> crawl n get c = map enc (drop (k * l) (rows p d))"
proof (induction n arbitrary: k c)
  case 0
  then show ?case by simp
next
  case (Suc n)
  let ?R = "rows p d"
  have l0: "0 < l" "l \<le> 200" by (auto simp: l normalizeLimit_def nat_le_iff)
  have kl: "k \<le> k * l" using l0(1) by (cases l) simp_all
  have kr: "int64_range (int k + 1)"
  proof -
    have "k \<le> length ?R" using kl Suc.prems(1) by (rule order.trans)
    then have "int k \<le> int (length ?R)" by simp
    then show ?thesis using total by (intro int64_small) simp_all
  qed
  have c: "c \<noteq> []" "decodeCursor c = int k + 1" using cursor_roundtrip [OF _ kr] Suc.prems(2) by auto
  have small: "int (k * l) + int l + 1 < 2 ^ 63"
  proof -
    have "int (k * l) \<le> int (length ?R)" using Suc.prems(1) by (simp only: of_nat_le_iff)
    then show ?thesis using total l0 by simp
  qed
  note step = page_step [OF p l small, of enc d]
  have g: "get c = serve_page enc run (Some (p\<lparr>lq_page := int k + 1\<rparr>)) d" using get [of c] c by simp
  show ?case
  proof (cases "length ?R \<le> k * l + l")
    case True
    then have "int (length ?R) \<le> int (k * l) + int l" by linarith
    then have "json_cursor (get c) = []" "json_items (get c) = map enc (take l (drop (k * l) ?R))"
      using step g by simp_all
    moreover have "take l (drop (k * l) ?R) = drop (k * l) ?R" using True by simp
    ultimately show ?thesis by (simp add: Let_def)
  next
    case False
    then have "\<not> int (length ?R) \<le> int (k * l) + int l" by linarith
    then have nc: "json_cursor (get c) = raw_encode True (Itoa (int (Suc k) + 1))"
      "json_items (get c) = map enc (take l (drop (k * l) ?R))" using step g by simp_all
    have "crawl n get (raw_encode True (Itoa (int (Suc k) + 1))) = map enc (drop (Suc k * l) ?R)"
      by (rule Suc.IH) (use False Suc.prems(3) l0 in auto)
    moreover have "drop (Suc k * l) ?R = drop l (drop (k * l) ?R)" by (simp add: add.commute)
    moreover have "raw_encode True (Itoa (int (Suc k) + 1)) \<noteq> []" by (simp add: raw_encode_nonempty)
    ultimately have "crawl (Suc n) get c =
        map enc (take l (drop (k * l) ?R) @ drop l (drop (k * l) ?R))" by (simp only: crawl.simps Let_def nc if_False map_append)
    then show ?thesis by (simp only: append_take_drop_id)
  qed
qed

lemma crawl_all:
  assumes r: "listParams r = Some p" "rq_query r ''cursor'' = []" "rq_query r ''page'' = []"
    and p: "params_text_ok p" and total: "int (length (rows p d)) < 2 ^ 62" and n: "length (rows p d) < n"
  shows "crawl n (\<lambda>c. serve_page enc run (listParams (with_cursor r c)) d) [] = map enc (rows p d)"
proof -
  let ?get = "\<lambda>c. serve_page enc run (listParams (with_cursor r c)) d"
  let ?l = "nat (normalizeLimit (lq_limit p))"
  have get: "?get c = serve_page enc run (Some (p\<lparr>lq_page := (if c = [] then 0 else decodeCursor c)\<rparr>)) d" for c
    by (simp add: listParams_cursor [OF r])
  have first: "?get [] = ?get (raw_encode True (Itoa (int 0 + 1)))"
  proof -
    have "decodeCursor (raw_encode True (Itoa (int 0 + 1))) = 1" "raw_encode True (Itoa (int 0 + 1)) \<noteq> []"
      using cursor_roundtrip [of 1] by (simp_all add: int64_range_def min_int64_def max_int64_def)
    moreover have "serve_page enc run (Some (p\<lparr>lq_page := 0\<rparr>)) d = serve_page enc run (Some (p\<lparr>lq_page := 1\<rparr>)) d"
    proof -
      have o: "page_offset 1 (normalizeLimit (lq_limit p)) = 0"
        by (simp add: page_offset_def wrap64_id int64_range_def min_int64_def max_int64_def)
      have "params_text_ok (p\<lparr>lq_page := n\<rparr>)" for n using p by (simp add: params_text_ok_def)
      from run_page [OF this, of 0 d] run_page [OF this, of 1 d] o
      have "snd (run (p\<lparr>lq_page := 0\<rparr>) d) = snd (run (p\<lparr>lq_page := 1\<rparr>) d)" by (simp add: rows_page normalizePage_def)
      then show ?thesis by (simp add: serve_page_def)
    qed
    ultimately show ?thesis by (simp add: get)
  qed
  have "crawl n ?get (raw_encode True (Itoa (int 0 + 1))) = map enc (drop (0 * ?l) (rows p d))"
    by (rule crawl_from [OF p refl total get]) (use n in simp_all)
  moreover have "crawl n ?get [] = crawl n ?get (raw_encode True (Itoa (int 0 + 1)))"
    using first by (cases n) (simp_all only: crawl.simps)
  ultimately show ?thesis by simp
qed

end


subsection \<open>The four listings\<close>

definition book_rows :: "backend_env \<Rightarrow> list_params \<Rightarrow> db \<Rightarrow> ebook_item list" where
  "book_rows V p d = map (summary d) (sort_key (title_order (be_coll V)) (catalog_rows (be_ilike V) p d))"

definition name_rows :: "backend_env \<Rightarrow> (list_params \<Rightarrow> db \<Rightarrow> name_count list) \<Rightarrow> list_params \<Rightarrow> db \<Rightarrow> name_count list" where
  "name_rows V inner p d = sort_key (\<lambda>r. be_coll V (nc_name r))
     (filter (\<lambda>r. lq_search p \<noteq> [] \<longrightarrow> be_ilike V (nc_name r) (like_pattern (lq_search p))) (inner p d))"

lemma catalog_rows_only_page [simp]: "catalog_rows ilike (p\<lparr>lq_page := n\<rparr>) d = catalog_rows ilike p d"
  by (simp add: catalog_rows_def search_filter_def library_filter_def cong: filter_cong)

lemma aggregate_rows_page [simp]: "aggregate_rows (p\<lparr>lq_page := n\<rparr>) d = aggregate_rows p d"
  by (simp add: aggregate_rows_def library_filter_def cong: filter_cong)

lemma paginate_page:
  assumes "params_text_ok p" and "0 \<le> page_offset (normalizePage (lq_page p)) (normalizeLimit (lq_limit p))"
  shows "snd (paginateAggregate (be_ilike V) (be_coll V) inner p d) =
    Ok \<lparr>pa_items = take (nat (normalizeLimit (lq_limit p)))
          (drop (nat (page_offset (normalizePage (lq_page p)) (normalizeLimit (lq_limit p)))) (name_rows V inner p d)),
        pa_total = int (length (name_rows V inner p d)), pa_page = normalizePage (lq_page p),
        pa_limit = normalizeLimit (lq_limit p)\<rparr>"
  using assms by (simp add: paginateAggregate_def Let_def name_rows_def)

interpretation books: paged_listing "ListEbooks (be_ilike V) (be_coll V)" "book_rows V" for V
  by unfold_locales (simp_all add: ListEbooks_def Let_def book_rows_def take_map drop_map)

interpretation authors: paged_listing "ListAuthors (be_ilike V) (be_coll V)" "name_rows V (splitColumn eb_author)" for V
  by unfold_locales (simp_all add: ListAuthors_def paginate_page name_rows_def splitColumn_def)

interpretation genres: paged_listing "ListGenres (be_ilike V) (be_coll V)" "name_rows V (splitColumn eb_genre)" for V
  by unfold_locales (simp_all add: ListGenres_def paginate_page name_rows_def splitColumn_def)

interpretation series: paged_listing "ListSeries (be_ilike V) (be_coll V)" "name_rows V series_counts" for V
  by unfold_locales (simp_all add: ListSeries_def paginate_page name_rows_def series_counts_def)

definition fresh_request :: "request \<Rightarrow> bool" where
  "fresh_request r \<longleftrightarrow> rq_query r ''cursor'' = [] \<and> rq_query r ''page'' = []"

text \<open>
  C20. A client that follows next_cursor from the first page until it is absent receives every
  matching book (author, genre, series) exactly once and in order, for every page size, and the
  crawl ends.
\<close>

theorem listings_crawl:
  assumes "listParams r = Some p" and "fresh_request r" and "params_text_ok p" and "int n < 2 ^ 62"
    and "list_all (\<lambda>k. k < n) [length (book_rows V p d), length (name_rows V (splitColumn eb_author) p d),
      length (name_rows V (splitColumn eb_genre) p d), length (name_rows V series_counts p d)]"
  shows "crawl n (\<lambda>c. List_handler V (with_cursor r c) d) [] = map (list_item V) (book_rows V p d) \<and>
    crawl n (\<lambda>c. Authors V (with_cursor r c) d) [] = map enc_name_count (name_rows V (splitColumn eb_author) p d) \<and>
    crawl n (\<lambda>c. Genres V (with_cursor r c) d) [] = map enc_name_count (name_rows V (splitColumn eb_genre) p d) \<and>
    crawl n (\<lambda>c. SeriesList V (with_cursor r c) d) [] = map enc_name_count (name_rows V series_counts p d)"
proof -
  have r: "rq_query r ''cursor'' = []" "rq_query r ''page'' = []" using assms(2) by (simp_all add: fresh_request_def)
  note c = assms(1) r assms(3)
  show ?thesis
    unfolding List_handler_def listEbooks_def Authors_def Genres_def SeriesList_def
    by (intro conjI books.crawl_all [OF c] authors.crawl_all [OF c] genres.crawl_all [OF c] series.crawl_all [OF c])
      (use assms(4,5) in simp_all)
qed

subsection \<open>Media\<close>

lemma sanitize_chars: "list_all filename_char (sanitizeFilename s)"
proof (induction s rule: sanitizeFilename.induct)
  case (1 s)
  show ?case
  proof (cases s)
    case (Cons c r)
    have "filename_char (CHR ''_'')" by (simp add: filename_char_def)
    with 1 Cons show ?thesis by (simp add: sanitizeFilename.simps [of "c # r"])
  qed (simp add: sanitizeFilename.simps)
qed

lemma Base_nonempty: "Base p \<noteq> []"
  by (simp add: Base_def Let_def)

lemma sanitize_nonempty: "s \<noteq> [] \<Longrightarrow> sanitizeFilename s \<noteq> []"
  by (cases s) (simp_all add: sanitizeFilename.simps)

lemma visible_book_row:
  assumes "visible_book d i = Some x"
  shows "fst x \<in> set (d_books d) \<and> eb_id (fst x) = i \<and> \<not> eb_deleted (fst x) \<and>
    (\<exists>l \<in> set (d_libs d). lp_id l = eb_lib (fst x) \<and> lp_enabled l)"
  using find_Some_iff' [OF assms [unfolded visible_book_def]] by (cases x) (auto simp: set_joined visible_def)

lemma GetEbookPath_row:
  "snd (GetEbookPath i d) = Ok (p, f) \<Longrightarrow> \<exists>b \<in> set (d_books d). eb_id b = i \<and> \<not> eb_deleted b \<and>
     (\<exists>l \<in> set (d_libs d). lp_id l = eb_lib b \<and> lp_enabled l) \<and> eb_path b = p \<and> eb_format b = f"
  using visible_book_row by (fastforce simp: GetEbookPath_def split: if_splits option.splits)

lemma GetCover_row:
  assumes "snd (GetCover i d) = Ok (b, t)"
  shows "i \<in> visible_ids d \<and> (\<exists>c \<in> set (d_covers d). cr_ebook c = i \<and> cr_bytes c = b \<and>
    t = (if cr_type c = [] then ''image/jpeg'' else cr_type c))"
proof -
  from assms obtain c x where c: "find (\<lambda>c. cr_ebook c = i) (d_covers d) = Some c" "visible_book d i = Some x" "cr_bytes c = b"
    "t = (if cr_type c = [] then ''image/jpeg'' else cr_type c)"
    by (auto simp: GetCover_def split: if_splits option.splits)
  then show ?thesis using find_Some_iff' [OF c(1)] visible_book_Some [OF c(2)] by blast
qed

text \<open>
  C19. Bytes leave the cover and file handlers only after the signed token of the request
  verified for exactly this book and this kind of media, and only for a live book of an enabled
  library: the stored cover of the book, with its stored type (image/jpeg when empty) and its
  length as the only headers, or the file at the path of its row, with the type of its format
  and a Content-Disposition header that is an attachment with a quoted file name. This name,
  also the one given to ServeContent, is the sanitized base name of the path; it is not empty
  and consists of ASCII letters, digits, dots, hyphens, underscores and spaces only, so no
  quote, line break or separator can break the header.
\<close>

theorem media_gate:
  assumes "rs_body (Cover V r i d) = BytesBody bytes \<or> rs_body (File V r i d) = FileBody path filename"
  shows "(rs_body (Cover V r i d) = BytesBody bytes \<longrightarrow>
      is_ok (Verify (be_jwt V) (be_secret V) (rq_query r ''token'') i (-1)) \<and> i \<in> visible_ids d \<and>
      (\<exists>c \<in> set (d_covers d). cr_ebook c = i \<and> cr_bytes c = bytes \<and> rs_headers (Cover V r i d) =
         [(''Content-Type'', if cr_type c = [] then ''image/jpeg'' else cr_type c), (''Content-Length'', Itoa (int (length bytes)))])) \<and>
    (rs_body (File V r i d) = FileBody path filename \<longrightarrow>
      is_ok (Verify (be_jwt V) (be_secret V) (rq_query r ''token'') i 0) \<and>
      filename = sanitizeFilename (Base path) \<and> filename \<noteq> [] \<and>
      (\<forall>c \<in> set filename. is_lower c \<or> is_upper c \<or> is_digit c \<or> c \<in> set ''.-_ '') \<and>
      (\<exists>b \<in> set (d_books d). eb_id b = i \<and> \<not> eb_deleted b \<and> eb_path b = path \<and>
         (\<exists>l \<in> set (d_libs d). lp_id l = eb_lib b \<and> lp_enabled l) \<and>
         rs_headers (File V r i d) = [(''Content-Type'', FormatToMime (be_uni V) (eb_format b)),
           (''Content-Disposition'', ''attachment; filename='' @ [CHR 0x22] @ filename @ [CHR 0x22])]))"
proof (intro conjI impI)
  assume h: "rs_body (Cover V r i d) = BytesBody bytes"
  then obtain c t where c: "Verify (be_jwt V) (be_secret V) (rq_query r ''token'') i (-1) = Ok c"
    "snd (GetCover i d) = Ok (bytes, t)" and hd: "rs_headers (Cover V r i d) =
      [(''Content-Type'', if t = [] then ''image/jpeg'' else t), (''Content-Length'', Itoa (int (length bytes)))]"
    by (auto simp: Cover_def CoverFileIdx_def writeError_def writeJSON_def writeTokenError_def serverError_def
        split: if_splits sum.splits)
  then show "is_ok (Verify (be_jwt V) (be_secret V) (rq_query r ''token'') i (-1))" by simp
  show "i \<in> visible_ids d" using GetCover_row [OF c(2)] by simp
  from GetCover_row [OF c(2)] obtain x where x: "x \<in> set (d_covers d)" "cr_ebook x = i" "cr_bytes x = bytes"
    "t = (if cr_type x = [] then ''image/jpeg'' else cr_type x)" by blast
  have "rs_headers (Cover V r i d) =
      [(''Content-Type'', if cr_type x = [] then ''image/jpeg'' else cr_type x), (''Content-Length'', Itoa (int (length bytes)))]"
    unfolding hd x(4) by simp
  with x(1-3) show "\<exists>c \<in> set (d_covers d). cr_ebook c = i \<and> cr_bytes c = bytes \<and> rs_headers (Cover V r i d) =
      [(''Content-Type'', if cr_type c = [] then ''image/jpeg'' else cr_type c), (''Content-Length'', Itoa (int (length bytes)))]"
    by (intro bexI [of _ x] conjI)
next
  assume h: "rs_body (File V r i d) = FileBody path filename"
  have "sanitizeFilename (Base path) \<noteq> []" by (rule sanitize_nonempty [OF Base_nonempty])
  with h obtain c f where c: "Verify (be_jwt V) (be_secret V) (rq_query r ''token'') i 0 = Ok c"
    "snd (GetEbookPath i d) = Ok (path, f)" and n: "filename = sanitizeFilename (Base path)" and
    hd: "rs_headers (File V r i d) = [(''Content-Type'', FormatToMime (be_uni V) f),
      (''Content-Disposition'', ''attachment; filename='' @ [CHR 0x22] @ filename @ [CHR 0x22])]"
    by (auto simp: File_def FileFileIdx_def writeError_def writeJSON_def writeTokenError_def serverError_def Let_def
        split: if_splits sum.splits)
  from c show "is_ok (Verify (be_jwt V) (be_secret V) (rq_query r ''token'') i 0)" by simp
  show "filename = sanitizeFilename (Base path)" by (rule n)
  then show "filename \<noteq> []" by (simp add: sanitize_nonempty Base_nonempty)
  show "\<forall>c \<in> set filename. is_lower c \<or> is_upper c \<or> is_digit c \<or> c \<in> set ''.-_ ''"
    using sanitize_chars [of "Base path"] n by (auto simp: list_all_iff filename_char_def)
  from GetEbookPath_row [OF c(2)] obtain b where b: "b \<in> set (d_books d)" "eb_id b = i" "\<not> eb_deleted b" "eb_path b = path"
    "\<exists>l \<in> set (d_libs d). lp_id l = eb_lib b \<and> lp_enabled l" "eb_format b = f" by blast
  show "\<exists>b \<in> set (d_books d). eb_id b = i \<and> \<not> eb_deleted b \<and> eb_path b = path \<and>
      (\<exists>l \<in> set (d_libs d). lp_id l = eb_lib b \<and> lp_enabled l) \<and>
      rs_headers (File V r i d) = [(''Content-Type'', FormatToMime (be_uni V) (eb_format b)),
        (''Content-Disposition'', ''attachment; filename='' @ [CHR 0x22] @ filename @ [CHR 0x22])]"
    by (rule bexI [OF _ b(1)], intro conjI b(2-5)) (unfold b(6), rule hd)
qed

text \<open>
  C21. A listing asked for one library never shows a book of another: an unreadable or non-
  positive library_id gives no item at all, and every item is a visible book of the library
  named.
\<close>

theorem List_scoped:
  assumes "rq_query r ''library_id'' \<noteq> []" and "v \<in> set (json_items (List_handler V r d))"
  shows "\<exists>n e. Atoi (rq_query r ''library_id'') = (n, True) \<and> 0 < n \<and> v = list_item V e \<and>
    ei_library_id e = n \<and> ei_id e \<in> visible_ids d"
proof -
  obtain p where p: "listParams r = Some p"
    using assms(2) by (cases "listParams r")
      (auto simp: List_handler_def listEbooks_def serve_page_def json_items_def json_member_def writeError_def writeJSON_def)
  obtain n ok where n: "Atoi (rq_query r ''library_id'') = (n, ok)" by (cases "Atoi (rq_query r ''library_id'')")
  with p assms(1) have ok: "ok" "0 < n" "lq_library_id p = n"
    by (auto simp: listParams_def Let_def split: if_splits)
  have "snd (ListEbooks (be_ilike V) (be_coll V) p d) = Err e \<Longrightarrow> False" for e
    using assms(2) p
    by (auto simp: List_handler_def listEbooks_def serve_page_def json_items_def json_member_def serverError_def
        writeError_def writeJSON_def)
  then obtain out where out: "snd (ListEbooks (be_ilike V) (be_coll V) p d) = Ok out"
    by (cases "snd (ListEbooks (be_ilike V) (be_coll V) p d)") auto
  have "json_items (List_handler V r d) = map (list_item V) (pa_items out)"
    unfolding List_handler_def listEbooks_def p 
    by (rule serve_page_items [where run = "ListEbooks (be_ilike V) (be_coll V)", OF out, THEN conjunct1])
  with assms(2) obtain e where e: "v = list_item V e" "e \<in> set (pa_items out)" by auto
  have "set (pa_items out) \<subseteq> summary d ` set (catalog_rows (be_ilike V) p d)"
    using out by (auto simp: ListEbooks_def Let_def split: if_splits dest!: in_set_takeD in_set_dropD)
  with e obtain x where x: "e = summary d x" "x \<in> set (catalog_rows (be_ilike V) p d)" by blast
  then have "visible x" "x \<in> set (joined d)" "lp_id (snd x) = n"
    using ok by (auto simp: catalog_rows_def library_filter_def)
  then have "ei_library_id e = n" "ei_id e \<in> visible_ids d"
    using visible_joined by (auto simp: x(1) summary_def Let_def)
  then show ?thesis using n ok e(1) by auto
qed


subsection \<open>Witnesses\<close>

definition demo_env :: backend_env where
  "demo_env = \<lparr>be_uni = \<lparr>u_lower = (\<lambda>s. s), u_fold = (=)\<rparr>, be_ilike = (\<lambda>t q. True), be_coll = (\<lambda>s. s),
     be_secret = ''!k'', be_jwt = demo_jwt, be_open = (\<lambda>p. True), be_stat = (\<lambda>p. True)\<rparr>"

definition demo_get :: "(string \<Rightarrow> string) \<Rightarrow> request" where
  "demo_get q = \<lparr>rq_method = ''GET'', rq_path = ''/catalog'', rq_query = q, rq_header = (\<lambda>k. []), rq_body = None\<rparr>"

lemma sample_joined: "joined sample_db = [(sample_book, sample_lib 1 ''/a'')]"
  by (simp add: joined_def sample_defs)

lemma sample_visible: "visible (sample_book, sample_lib 1 ''/a'')"
  by (simp add: visible_def sample_defs)

lemma sample_rows: "lq_library p = [] \<Longrightarrow> lq_library_id p \<le> 1 \<Longrightarrow> lq_search p = [] \<Longrightarrow>
    book_rows demo_env p sample_db = [summary sample_db (sample_book, sample_lib 1 ''/a'')]"
proof -
  assume p: "lq_library p = []" "lq_library_id p \<le> 1" "lq_search p = []"
  have "lq_library_id p > 0 \<longrightarrow> lp_id (sample_lib 1 ''/a'') = lq_library_id p" using p by (simp add: sample_lib_def)
  then have "catalog_rows (be_ilike demo_env) p sample_db = [(sample_book, sample_lib 1 ''/a'')]"
    using p sample_visible by (simp add: catalog_rows_def sample_joined search_filter_def library_filter_def)
  then show ?thesis by (simp add: book_rows_def)
qed

lemma sample_no_names:
  "splitColumn eb_author p sample_db = []" "splitColumn eb_genre p sample_db = []" "series_counts p sample_db = []"
  by (simp_all add: splitColumn_def series_counts_def aggregate_rows_def sample_joined group_count_def)
    (simp_all add: sample_book_def)

lemma demo_params: "listParams (demo_get (\<lambda>k. [])) =
    Some \<lparr>lq_page = 0, lq_limit = 0, lq_search = [], lq_library_id = 0, lq_library = []\<rparr>"
  by (simp add: listParams_def demo_get_def Let_def Atoi_def)

theorem listings_crawl_witness:
  "crawl 2 (\<lambda>c. List_handler demo_env (with_cursor (demo_get (\<lambda>k. [])) c) sample_db) [] =
     [list_item demo_env (summary sample_db (sample_book, sample_lib 1 ''/a''))]"
proof -
  have f: "fresh_request (demo_get (\<lambda>k. []))" by (simp add: fresh_request_def demo_get_def)
  have t: "params_text_ok \<lparr>lq_page = 0, lq_limit = 0, lq_search = [], lq_library_id = 0, lq_library = []\<rparr>"
    by (simp add: params_text_ok_def)
  show ?thesis using listings_crawl [OF demo_params f t, of 2 demo_env sample_db]
    by (simp add: sample_rows name_rows_def sample_no_names)
qed

theorem media_gate_witness:
  "\<exists>q. rs_body (Cover demo_env (demo_get q) ''b1'' sample_db) = BytesBody ''x'' \<and>
     is_ok (Verify demo_jwt ''!k'' (q ''token'') ''b1'' (-1))"
proof -
  let ?q = "\<lambda>k. if k = ''token'' then ''!kebook_backend'' else []"
  have "eb_id sample_book = ''b1''" by (simp add: sample_book_def)
  then have v: "visible_book sample_db ''b1'' = Some (sample_book, sample_lib 1 ''/a'')"
    by (simp add: visible_book_def sample_joined sample_visible)
  have "d_covers sample_db = [\<lparr>cr_ebook = ''b1'', cr_type = ''image/png'', cr_bytes = ''x'', cr_source = ''sidecar''\<rparr>]" by (simp add: sample_db_def)
  then have "snd (GetCover ''b1'' sample_db) = Ok (''x'', ''image/png'')"
    by (simp add: GetCover_def v pg_text_ascii)
  then have b: "rs_body (Cover demo_env (demo_get ?q) ''b1'' sample_db) = BytesBody ''x''"
    using demo_Verify by (simp add: Cover_def demo_env_def demo_get_def CoverFileIdx_def)
  have "is_ok (Verify (be_jwt demo_env) (be_secret demo_env) (rq_query (demo_get ?q) ''token'') ''b1'' (-1))"
    using media_gate [of demo_env "demo_get ?q" "''b1''" sample_db "''x''"] b by blast
  with b show ?thesis by (intro exI [of _ ?q]) (simp add: demo_env_def demo_get_def)
qed

theorem List_scoped_witness:
  "\<exists>n e. Atoi ''1'' = (n, True) \<and> list_item demo_env (summary sample_db (sample_book, sample_lib 1 ''/a'')) = list_item demo_env e \<and>
     ei_library_id e = n \<and> ei_id e \<in> visible_ids sample_db"
proof -
  let ?r = "demo_get (\<lambda>k. if k = ''library_id'' then ''1'' else [])"
  let ?p = "\<lparr>lq_page = 0, lq_limit = 0, lq_search = [], lq_library_id = 1, lq_library = []\<rparr>"
  have a: "Atoi ''1'' = (1, True)" using Atoi_Itoa [of 1]
    by (simp add: int64_range_def min_int64_def max_int64_def Itoa_def nat_digits.simps digit_def char_of_def bit_0)
  have p: "listParams ?r = Some ?p" by (simp add: listParams_def demo_get_def Let_def a) (simp add: Atoi_def)
  have ok: "params_text_ok ?p" by (simp add: params_text_ok_def)
  have "0 \<le> page_offset (normalizePage (lq_page ?p)) (normalizeLimit (lq_limit ?p))"
    by (simp add: page_offset_def normalizePage_def wrap64_id int64_range_def min_int64_def max_int64_def)
  from serve_page_items [where run = "ListEbooks (be_ilike demo_env) (be_coll demo_env)",
      OF books.run_page [OF ok this, of demo_env sample_db], of "list_item demo_env", THEN conjunct1]
  have "list_item demo_env (summary sample_db (sample_book, sample_lib 1 ''/a'')) \<in>
      set (json_items (List_handler demo_env ?r sample_db))"
    by (simp add: List_handler_def listEbooks_def p sample_rows normalizePage_def normalizeLimit_def page_offset_def
        wrap64_id int64_range_def min_int64_def max_int64_def)
  from List_scoped [OF _ this] show ?thesis by (auto simp: demo_get_def)
qed

end
