(* ===== verification/JobQueue.thy ===== *)
theory JobQueue
  imports StoreEbook MetaTypes
begin

text \<open>
  The enrichment job queue: \<open>internal/metadata/queue.go\<close> and \<open>internal/store/metadata.go\<close>. A claim
  is a transaction of its own: it leases the job by moving \<open>run_after\<close> five minutes ahead. Times
  are microseconds.
\<close>

definition MaxAttempts :: int where "MaxAttempts = 5"

definition minute :: int where "minute = 60 * 10 ^ 6"

definition lease :: int where "lease = 5 * minute"

record job =
  j_ebook :: string
  j_attempts :: int

definition find_job :: "db \<Rightarrow> string \<Rightarrow> job_row option" where
  "find_job d i = find (\<lambda>j. jb_id j = i) (d_jobs d)"

definition fresh_job :: "db \<Rightarrow> string \<Rightarrow> job_row" where
  "fresh_job d i = \<lparr>jb_id = i, jb_status = Pending, jb_attempts = 0, jb_run_after = d_now d,
     jb_last_error = [], jb_finished_at = None\<rparr>"

definition upd_job :: "string \<Rightarrow> (job_row \<Rightarrow> bool) \<Rightarrow> (job_row \<Rightarrow> job_row) \<Rightarrow> db \<Rightarrow> db" where
  "upd_job i p f d = d\<lparr>d_jobs := upd_where (\<lambda>j. jb_id j = i \<and> p j) f (d_jobs d)\<rparr>"

definition Enqueue :: "string \<Rightarrow> unit stmt" where
  "Enqueue i d =
    (if \<not> pg_text i then (d, Err ErrEncoding)
     else if find_job d i \<noteq> None then (upd_job i (\<lambda>j. True) (\<lambda>j. fresh_job d i) d, Ok ())
     else if find_book d i = None then (d, Err ErrForeignKey)
     else (d\<lparr>d_jobs := d_jobs d @ [fresh_job d i]\<rparr>, Ok ()))"

definition claimable :: "db \<Rightarrow> job_row \<Rightarrow> bool" where
  "claimable d j \<longleftrightarrow> jb_status j = Pending \<and> jb_run_after j \<le> d_now d"

definition claim_order :: "(string \<Rightarrow> string) \<Rightarrow> job_row \<Rightarrow> int \<times> string" where
  "claim_order coll j = (jb_run_after j, coll (jb_id j))"

definition ClaimNext :: "(string \<Rightarrow> string) \<Rightarrow> job stmt" where
  "ClaimNext coll d =
    (case sort_key (claim_order coll) (filter (claimable d) (d_jobs d)) of
       [] \<Rightarrow> (d, Err ErrQueueEmpty)
     | j # _ \<Rightarrow> (upd_job (jb_id j) (\<lambda>r. True)
          (\<lambda>r. r\<lparr>jb_attempts := jb_attempts r + 1, jb_run_after := d_now d + lease\<rparr>) d,
         Ok \<lparr>j_ebook = jb_id j, j_attempts = jb_attempts j + 1\<rparr>))"

definition is_pending :: "job_row \<Rightarrow> bool" where
  "is_pending j \<longleftrightarrow> jb_status j = Pending"

definition MarkCompleted :: "string \<Rightarrow> unit stmt" where
  "MarkCompleted i d =
    (if \<not> pg_text i then (d, Err ErrEncoding)
     else (upd_job i is_pending
       (\<lambda>j. j\<lparr>jb_status := Completed, jb_finished_at := Some (d_now d), jb_last_error := []\<rparr>) d, Ok ()))"

text \<open>A shift by a negative count converted to \<open>uint\<close> gives 0.\<close>

definition backoff :: "int \<Rightarrow> int" where
  "backoff attempts = (if attempts < 0 then 0 else 2 ^ nat attempts * minute)"

definition MarkFailed :: "string \<Rightarrow> int \<Rightarrow> string \<Rightarrow> unit stmt" where
  "MarkFailed i attempts errText d =
    (if \<not> pg_text i \<or> \<not> pg_text errText then (d, Err ErrEncoding)
     else if attempts \<ge> MaxAttempts then
       (upd_job i is_pending
         (\<lambda>j. j\<lparr>jb_status := Failed, jb_finished_at := Some (d_now d), jb_last_error := errText\<rparr>) d, Ok ())
     else (upd_job i is_pending
         (\<lambda>j. j\<lparr>jb_run_after := d_now d + backoff attempts, jb_last_error := errText\<rparr>) d, Ok ()))"

definition backfill_one :: "db \<times> int \<Rightarrow> string \<Rightarrow> db \<times> int" where
  "backfill_one x i = (let d = fst x; n = snd x in
     case find_job d i of
       None \<Rightarrow> (d\<lparr>d_jobs := d_jobs d @ [fresh_job d i]\<rparr>, n + 1)
     | Some j \<Rightarrow> if jb_status j = Failed then (upd_job i (\<lambda>j. True) (\<lambda>j. fresh_job d i) d, n + 1) else (d, n))"

definition live_ids :: "db \<Rightarrow> string list" where
  "live_ids d = map eb_id (filter (\<lambda>b. \<not> eb_deleted b) (d_books d))"

definition BulkEnqueueBackfill :: "int stmt" where
  "BulkEnqueueBackfill d = (let x = foldl backfill_one (d, 0) (live_ids d) in (fst x, Ok (snd x)))"

record queue_stats =
  qs_pending :: int
  qs_completed :: int
  qs_failed :: int
  qs_due_now :: int
  qs_total :: int

definition MetadataQueueStats :: "queue_stats stmt" where
  "MetadataQueueStats d = (let n = (\<lambda>p. int (count_where p (d_jobs d))) in
     (d, Ok \<lparr>qs_pending = n (\<lambda>j. jb_status j = Pending), qs_completed = n (\<lambda>j. jb_status j = Completed),
             qs_failed = n (\<lambda>j. jb_status j = Failed), qs_due_now = n (claimable d),
             qs_total = n (\<lambda>j. True)\<rparr>))"

definition row_of :: "book_row \<Rightarrow> ebook_row" where
  "row_of b = \<lparr>er_id = eb_id b, er_format = eb_format b, er_title = eb_title b,
     er_author = eb_author b, er_publisher = eb_publisher b, er_year = eb_year b,
     er_language = eb_language b, er_genre = eb_genre b, er_isbn = eb_isbn b, er_asin = eb_asin b,
     er_description = eb_description b, er_page_count = eb_page_count b, er_series = eb_series b,
     er_series_pos = eb_series_pos b\<rparr>"

definition LoadEbookRow :: "string \<Rightarrow> ebook_row stmt" where
  "LoadEbookRow i d =
    (if \<not> pg_text i then (d, Err ErrEncoding)
     else case find_book d i of None \<Rightarrow> (d, Err ErrNoRows) | Some b \<Rightarrow> (d, Ok (row_of b)))"

definition set_metadata :: "db \<Rightarrow> ebook_row \<Rightarrow> book_row \<Rightarrow> book_row" where
  "set_metadata d r b = b\<lparr>eb_title := er_title r, eb_author := er_author r,
     eb_publisher := er_publisher r, eb_year := er_year r, eb_language := er_language r,
     eb_genre := er_genre r, eb_isbn := er_isbn r, eb_asin := er_asin r,
     eb_description := er_description r, eb_page_count := er_page_count r,
     eb_series := er_series r, eb_series_pos := er_series_pos r, eb_updated_at := d_now d\<rparr>"

definition update_texts :: "ebook_row \<Rightarrow> string list" where
  "update_texts r = [er_id r, er_title r, er_author r, er_publisher r, er_year r, er_language r,
     er_genre r, er_isbn r, er_asin r, er_description r, er_series r, er_series_pos r]"

definition UpdateEbookMetadata :: "ebook_row \<Rightarrow> unit stmt" where
  "UpdateEbookMetadata r d =
    (if \<not> list_all pg_text (update_texts r) \<or> \<not> int4_ok (er_page_count r) then (d, Err ErrEncoding)
     else (d\<lparr>d_books := upd_where (\<lambda>b. eb_id b = er_id r) (set_metadata d r) (d_books d)\<rparr>, Ok ()))"

subsection \<open>Integrity\<close>

lemma find_job_None: "find_job d i = None \<longleftrightarrow> i \<notin> jb_id ` set (d_jobs d)"
  by (force simp: find_job_def find_None_iff')

lemma find_job_Some: "find_job d i = Some j \<Longrightarrow> j \<in> set (d_jobs d) \<and> jb_id j = i"
  unfolding find_job_def by (rule find_Some_iff')

lemma fresh_job_simps [simp]:
  "jb_id (fresh_job d i) = i" "jb_status (fresh_job d i) = Pending"
  "jb_attempts (fresh_job d i) = 0" "job_row_ok (fresh_job d i)"
  "jb_run_after (fresh_job d i) = d_now d"
  by (simp_all add: fresh_job_def job_row_ok_def)

lemma upd_job_simps [simp]:
  "d_books (upd_job i p f d) = d_books d" "d_now (upd_job i p f d) = d_now d"
  "d_libs (upd_job i p f d) = d_libs d"
  by (simp_all add: upd_job_def)

lemma upd_job_ok:
  assumes "db_ok d"
    and f: "\<And>j. j \<in> set (d_jobs d) \<Longrightarrow> jb_id j = i \<Longrightarrow> p j \<Longrightarrow> jb_id (f j) = i \<and> job_row_ok (f j)"
  shows "db_ok (upd_job i p f d)"
proof -
  have "map jb_id (upd_where (\<lambda>j. jb_id j = i \<and> p j) f (d_jobs d)) = map jb_id (d_jobs d)"
    using f by (intro map_upd_where) simp
  moreover have "\<forall>j \<in> set (upd_where (\<lambda>j. jb_id j = i \<and> p j) f (d_jobs d)).
      jb_id j \<in> eb_id ` set (d_books d) \<and> job_row_ok j"
    using assms(1) f by (force simp: set_upd_where db_ok_def jobs_ok_def)
  ultimately show ?thesis using assms(1) by (simp add: upd_job_def db_ok_defs)
qed

lemma job_okD: "db_ok d \<Longrightarrow> j \<in> set (d_jobs d) \<Longrightarrow> job_row_ok j"
  by (simp add: db_ok_def jobs_ok_def)

lemma finished_ok: "job_row_ok j \<Longrightarrow> s \<noteq> Pending \<Longrightarrow>
    job_row_ok (j\<lparr>jb_status := s, jb_finished_at := Some t, jb_last_error := e\<rparr>)"
  by (simp add: job_row_ok_def)

lemma retry_ok: "job_row_ok j \<Longrightarrow> job_row_ok (j\<lparr>jb_run_after := t, jb_last_error := e\<rparr>)"
  by (simp add: job_row_ok_def)

lemma append_job_ok:
  assumes "db_ok d" and "i \<notin> jb_id ` set (d_jobs d)" and "i \<in> eb_id ` set (d_books d)"
  shows "db_ok (d\<lparr>d_jobs := d_jobs d @ [fresh_job d i]\<rparr>)"
  using assms by (fastforce simp: db_ok_defs)

lemma Enqueue_ok: "keeps_ok (Enqueue i)"
  unfolding keeps_ok_def
proof (intro allI impI)
  fix d assume d: "db_ok d"
  have "db_ok (upd_job i (\<lambda>j. True) (\<lambda>j. fresh_job d i) d)" using d by (rule upd_job_ok) simp
  then show "db_ok (fst (Enqueue i d))"
    using d append_job_ok [of d i] find_job_None [of d i] find_book_None [of d i]
    by (simp add: Enqueue_def)
qed

lemma ClaimNext_ok: "keeps_ok (ClaimNext coll)"
  unfolding keeps_ok_def
proof (intro allI impI)
  fix d assume d: "db_ok d"
  show "db_ok (fst (ClaimNext coll d))"
  proof (cases "sort_key (claim_order coll) (filter (claimable d) (d_jobs d))")
    case Nil
    with d show ?thesis by (simp add: ClaimNext_def)
  next
    case (Cons j js)
    have "db_ok (upd_job (jb_id j) (\<lambda>r. True)
        (\<lambda>r. r\<lparr>jb_attempts := jb_attempts r + 1, jb_run_after := d_now d + lease\<rparr>) d)"
      using d by (rule upd_job_ok) (use d in \<open>auto simp: db_ok_def jobs_ok_def job_row_ok_def\<close>)
    with Cons show ?thesis by (simp add: ClaimNext_def)
  qed
qed

lemma MarkCompleted_ok: "keeps_ok (MarkCompleted i)"
  by (auto simp: keeps_ok_def MarkCompleted_def intro!: upd_job_ok finished_ok dest: job_okD)

lemma MarkFailed_ok: "keeps_ok (MarkFailed i a t)"
  by (auto simp: keeps_ok_def MarkFailed_def intro!: upd_job_ok finished_ok retry_ok dest: job_okD)

lemma LoadEbookRow_ok: "keeps_ok (LoadEbookRow i)"
  by (auto simp: keeps_ok_def LoadEbookRow_def split: option.split)

lemma UpdateEbookMetadata_ok: "keeps_ok (UpdateEbookMetadata r)"
  by (auto simp: keeps_ok_def UpdateEbookMetadata_def set_metadata_def book_key_def intro!: upd_books_ok)

lemma backfill_one_ok:
  assumes "db_ok (fst x)" and "i \<in> eb_id ` set (d_books (fst x))"
  shows "db_ok (fst (backfill_one x i)) \<and> d_books (fst (backfill_one x i)) = d_books (fst x)"
proof (cases "find_job (fst x) i")
  case None
  then have "i \<notin> jb_id ` set (d_jobs (fst x))" using find_job_None by blast
  with assms None show ?thesis by (simp add: backfill_one_def Let_def append_job_ok)
next
  case (Some j)
  have "db_ok (upd_job i (\<lambda>j. True) (\<lambda>j. fresh_job (fst x) i) (fst x))"
    using assms(1) by (rule upd_job_ok) simp
  with assms Some show ?thesis by (simp add: backfill_one_def Let_def)
qed

lemma backfill_ok:
  assumes "db_ok (fst x)" and "set is \<subseteq> eb_id ` set (d_books (fst x))"
  shows "db_ok (fst (foldl backfill_one x is))"
  using assms
proof (induction "is" arbitrary: x)
  case (Cons i "is")
  then show ?case using backfill_one_ok [of x i] by simp
qed simp

lemma BulkEnqueueBackfill_ok: "keeps_ok BulkEnqueueBackfill"
  unfolding keeps_ok_def BulkEnqueueBackfill_def Let_def
  by (auto intro!: backfill_ok simp: live_ids_def)

lemma MetadataQueueStats_ok: "keeps_ok MetadataQueueStats"
  by (simp add: keeps_ok_def MetadataQueueStats_def Let_def)

subsection \<open>Lookup after an update\<close>

lemma find_job_upd:
  assumes "\<And>j. jb_id (f j) = jb_id j"
  shows "find_job (upd_job i p f d) k =
    map_option (\<lambda>j. if jb_id j = i \<and> p j then f j else j) (find_job d k)"
  unfolding find_job_def upd_job_def using assms by (simp add: find_upd_where_key)

lemma find_job_rearm:
  "find_job (upd_job i (\<lambda>j. True) (\<lambda>j. fresh_job d i) d) k =
    (if k = i \<and> find_job d i \<noteq> None then Some (fresh_job d i) else find_job d k)"
proof -
  have "find (\<lambda>r. jb_id r = k) (upd_where (\<lambda>j. jb_id j = i) (\<lambda>j. fresh_job d i) rs) =
      (if k = i \<and> find (\<lambda>r. jb_id r = i) rs \<noteq> None then Some (fresh_job d i)
       else find (\<lambda>r. jb_id r = k) rs)" for rs
    by (induction rs) auto
  then show ?thesis by (simp add: find_job_def upd_job_def)
qed

lemma find_append: "find p (xs @ ys) = (case find p xs of None \<Rightarrow> find p ys | Some x \<Rightarrow> Some x)"
  by (induction xs) auto

lemma find_job_append:
  "find_job (d\<lparr>d_jobs := d_jobs d @ [j]\<rparr>) k =
    (case find_job d k of None \<Rightarrow> if jb_id j = k then Some j else None | Some r \<Rightarrow> Some r)"
  by (simp add: find_job_def find_append split: option.split)

lemma find_job_id: "find_job d i = Some r \<Longrightarrow> jb_id r = i"
  using find_job_Some by blast

lemma find_job_mem: "db_ok d \<Longrightarrow> j \<in> set (d_jobs d) \<Longrightarrow> find_job d (jb_id j) = Some j"
  unfolding find_job_def by (rule find_key_eq) (simp_all add: db_ok_def jobs_ok_def)

subsection \<open>Claims\<close>

lemma sort_key_head:
  assumes "sort_key k xs = y # ys"
  shows "y \<in> set xs \<and> (\<forall>x \<in> set xs. k y \<le> k x)"
proof -
  have s: "set xs = insert y (set ys)" using assms by (metis list.simps(15) set_sort)
  have "sorted (map k (y # ys))" using assms by (metis sorted_sort_key)
  then have "\<forall>x \<in> set ys. k y \<le> k x" by simp
  with s show ?thesis by simp
qed

lemma ClaimNext_facts:
  assumes "db_ok d"
  shows "(snd (ClaimNext coll d) = Err ErrQueueEmpty \<longleftrightarrow> (\<forall>r \<in> set (d_jobs d). \<not> claimable d r)) \<and>
    (\<forall>d' j. ClaimNext coll d = (d', Ok j) \<longrightarrow>
      (\<exists>r \<in> set (d_jobs d). jb_id r = j_ebook j \<and> claimable d r \<and> j_attempts j = jb_attempts r + 1 \<and>
         (\<forall>r' \<in> set (d_jobs d). claimable d r' \<longrightarrow> claim_order coll r \<le> claim_order coll r') \<and>
         (\<forall>k. find_job d' k = (if k = j_ebook j
            then Some (r\<lparr>jb_attempts := j_attempts j, jb_run_after := d_now d + lease\<rparr>)
            else find_job d k)) \<and>
         d'\<lparr>d_jobs := d_jobs d\<rparr> = d))"
proof (cases "sort_key (claim_order coll) (filter (claimable d) (d_jobs d))")
  case Nil
  then have "set (filter (claimable d) (d_jobs d)) = {}" by (metis list.set(1) set_sort)
  with Nil show ?thesis by (auto simp: ClaimNext_def)
next
  case (Cons r rs)
  from sort_key_head [OF this] have r: "r \<in> set (d_jobs d)" "claimable d r"
    and least: "\<forall>r' \<in> set (d_jobs d). claimable d r' \<longrightarrow> claim_order coll r \<le> claim_order coll r'"
    by auto
  let ?f = "\<lambda>r. r\<lparr>jb_attempts := jb_attempts r + 1, jb_run_after := d_now d + lease\<rparr>"
  have claim: "ClaimNext coll d = (upd_job (jb_id r) (\<lambda>r. True) ?f d,
      Ok \<lparr>j_ebook = jb_id r, j_attempts = jb_attempts r + 1\<rparr>)"
    using Cons by (simp add: ClaimNext_def)
  let ?d = "upd_job (jb_id r) (\<lambda>r. True) ?f d"
  have found: "find_job (upd_job (jb_id r) (\<lambda>r. True) ?f d) k =
      (if k = jb_id r then Some (?f r) else find_job d k)" for k
  proof -
    have "jb_id (?f s) = jb_id s" for s by simp
    note upd = find_job_upd [of ?f "jb_id r" "\<lambda>r. True" d k, OF this]
    show ?thesis
    proof (cases "k = jb_id r")
      case True
      then show ?thesis unfolding upd by (simp add: find_job_mem [OF assms r(1)])
    next
      case False
      then show ?thesis unfolding upd
        by (cases "find_job d k") (use find_job_id [of d k] in auto)
    qed
  qed
  have frame: "?d\<lparr>d_jobs := d_jobs d\<rparr> = d" by (simp add: upd_job_def)
  have "snd (ClaimNext coll d) \<noteq> Err ErrQueueEmpty" unfolding claim by simp
  moreover have "\<exists>s \<in> set (d_jobs d). jb_id s = j_ebook j \<and> claimable d s \<and>
      j_attempts j = jb_attempts s + 1 \<and>
      (\<forall>r' \<in> set (d_jobs d). claimable d r' \<longrightarrow> claim_order coll s \<le> claim_order coll r') \<and>
      (\<forall>k. find_job d' k = (if k = j_ebook j
            then Some (s\<lparr>jb_attempts := j_attempts j, jb_run_after := d_now d + lease\<rparr>)
            else find_job d k)) \<and> d'\<lparr>d_jobs := d_jobs d\<rparr> = d"
    if "ClaimNext coll d = (d', Ok j)" for d' j
  proof -
    have j: "d' = ?d" "j = \<lparr>j_ebook = jb_id r, j_attempts = jb_attempts r + 1\<rparr>"
      using that unfolding claim by auto
    show ?thesis
      by (rule bexI [OF _ r(1)]) (use r least found frame in \<open>simp add: j\<close>)
  qed
  ultimately show ?thesis using r by blast
qed

text \<open>
  ClaimNext reports an empty queue exactly when no job is pending and due; otherwise it
  returns the first due pending job in order of due time and id, raises its attempt count by
  one, moves it five minutes ahead, and changes nothing else.
\<close>

theorem ClaimNext_spec:
  assumes "db_ok d"
  shows "(snd (ClaimNext coll d) = Err ErrQueueEmpty \<longleftrightarrow> (\<forall>r \<in> set (d_jobs d). \<not> claimable d r)) \<and>
    (\<forall>d' j. ClaimNext coll d = (d', Ok j) \<longrightarrow>
      (\<exists>r \<in> set (d_jobs d). jb_id r = j_ebook j \<and> claimable d r \<and> j_attempts j = jb_attempts r + 1 \<and>
         (\<forall>r' \<in> set (d_jobs d). claimable d r' \<longrightarrow> claim_order coll r \<le> claim_order coll r') \<and>
         (\<forall>k. find_job d' k = (if k = j_ebook j
            then Some (r\<lparr>jb_attempts := j_attempts j, jb_run_after := d_now d + lease\<rparr>)
            else find_job d k)) \<and>
         d'\<lparr>d_jobs := d_jobs d\<rparr> = d))"
  using assms by (rule ClaimNext_facts)

subsection \<open>Runs of the queue\<close>

datatype queue_op =
    QEnqueue string | QClaim | QComplete string | QFail string int string | QBackfill | QTick nat

definition queue_run :: "(string \<Rightarrow> string) \<Rightarrow> db \<Rightarrow> queue_op \<Rightarrow> db" where
  "queue_run coll d q = (case q of
      QEnqueue i \<Rightarrow> fst (Enqueue i d)
    | QClaim \<Rightarrow> fst (ClaimNext coll d)
    | QComplete i \<Rightarrow> fst (MarkCompleted i d)
    | QFail i a t \<Rightarrow> fst (MarkFailed i a t d)
    | QBackfill \<Rightarrow> fst (BulkEnqueueBackfill d)
    | QTick n \<Rightarrow> d\<lparr>d_now := d_now d + int n\<rparr>)"

lemma tick_ok: "db_ok d \<Longrightarrow> db_ok (d\<lparr>d_now := t\<rparr>)"
  by (simp add: db_ok_defs)

lemma queue_run_ok: "db_ok d \<Longrightarrow> db_ok (queue_run coll d q)"
  using Enqueue_ok ClaimNext_ok MarkCompleted_ok MarkFailed_ok BulkEnqueueBackfill_ok
  by (cases q) (auto simp: queue_run_def keeps_ok_def tick_ok)

text \<open>The backfill, job by job.\<close>

definition needs_job :: "db \<Rightarrow> string \<Rightarrow> bool" where
  "needs_job d i \<longleftrightarrow> (case find_job d i of None \<Rightarrow> True | Some j \<Rightarrow> jb_status j = Failed)"

lemma fresh_job_now [simp]:
  "fresh_job (upd_job i p f d) = fresh_job d" "fresh_job (d\<lparr>d_jobs := js\<rparr>) = fresh_job d"
  by (simp_all add: fresh_job_def fun_eq_iff)

lemma backfill_one_find:
  "find_job (fst (backfill_one (d, n) i)) k =
     (if k = i \<and> needs_job d i then Some (fresh_job d i) else find_job d k) \<and>
   snd (backfill_one (d, n) i) = n + (if needs_job d i then 1 else 0) \<and>
   fresh_job (fst (backfill_one (d, n) i)) = fresh_job d"
  by (cases "find_job d i")
    (auto simp: backfill_one_def Let_def needs_job_def find_job_append find_job_rearm
      split: option.splits)

lemma backfill_find:
  assumes "distinct is"
  shows "(\<forall>k. find_job (fst (foldl backfill_one (d, n) is)) k =
      (if k \<in> set is \<and> needs_job d k then Some (fresh_job d k) else find_job d k)) \<and>
    snd (foldl backfill_one (d, n) is) = n + int (length (filter (needs_job d) is))"
  using assms
proof (induction "is" arbitrary: d n)
  case Nil
  then show ?case by simp
next
  case (Cons i "is")
  obtain d' n' where x: "backfill_one (d, n) i = (d', n')" by fastforce
  have step: "find_job d' k = (if k = i \<and> needs_job d i then Some (fresh_job d i) else find_job d k)"
    "n' = n + (if needs_job d i then 1 else 0)" "fresh_job d' = fresh_job d" for k
    using backfill_one_find [of d n i k] x by auto
  have same: "needs_job d' k = needs_job d k" if "k \<in> set is" for k
    using that Cons.prems step(1) [of k] by (auto simp: needs_job_def)
  have filt: "filter (needs_job d') is = filter (needs_job d) is"
    using same by (intro filter_cong) simp_all
  have IH: "find_job (fst (foldl backfill_one (d', n') is)) k =
      (if k \<in> set is \<and> needs_job d' k then Some (fresh_job d k) else find_job d' k)"
    "snd (foldl backfill_one (d', n') is) = n' + int (length (filter (needs_job d) is))" for k
    using Cons.IH [of d' n'] Cons.prems by (simp_all add: step(3) filt)
  have "find_job (fst (foldl backfill_one (d', n') is)) k =
      (if k \<in> set (i # is) \<and> needs_job d k then Some (fresh_job d k) else find_job d k)" for k
    using IH(1) [of k] same [of k] step(1) [of k] Cons.prems
    by (cases "k = i"; cases "k \<in> set is") simp_all
  moreover have "snd (foldl backfill_one (d', n') is) = n + int (length (filter (needs_job d) (i # is)))"
    using IH(2) step(2) by simp
  ultimately show ?case by (simp add: x)
qed

lemma live_ids_distinct: "db_ok d \<Longrightarrow> distinct (live_ids d)"
  by (simp add: live_ids_def db_ok_def books_ok_def distinct_map_filter)

lemma find_job_backfill:
  assumes "db_ok d"
  shows "find_job (fst (BulkEnqueueBackfill d)) i =
    (if i \<in> set (live_ids d) \<and> needs_job d i then Some (fresh_job d i) else find_job d i)"
  using backfill_find [OF live_ids_distinct [OF assms], of d 0]
  by (simp add: BulkEnqueueBackfill_def Let_def)

text \<open>
  The backfill arms a fresh job for exactly the live books that have no job or a failed
  one, leaves every other job untouched, and returns the number of jobs it armed.
\<close>

theorem BulkEnqueueBackfill_spec:
  assumes "db_ok d" and "BulkEnqueueBackfill d = (d', Ok n)"
  shows "(\<forall>i. find_job d' i = (if i \<in> set (live_ids d) \<and> needs_job d i then Some (fresh_job d i)
      else find_job d i)) \<and>
    n = int (card {i \<in> set (live_ids d). needs_job d i})"
proof -
  have d: "distinct (live_ids d)" using assms(1) by (rule live_ids_distinct)
  have "d' = fst (foldl backfill_one (d, 0) (live_ids d))"
    "n = snd (foldl backfill_one (d, 0) (live_ids d))"
    using assms(2) by (auto simp: BulkEnqueueBackfill_def Let_def)
  with backfill_find [OF d, of d 0] show ?thesis
    using distinct_card [OF distinct_filter [OF d], of "needs_job d"] by simp
qed

subsection \<open>The life of one job\<close>

text \<open>The abstract machine of a job: no job, or a row in one of three states.\<close>

inductive job_life :: "int \<Rightarrow> job_row option \<Rightarrow> job_row option \<Rightarrow> bool" for now where
  life_stay: "job_life now x x"
| life_arm: "jb_status j = Pending \<Longrightarrow> jb_attempts j = 0 \<Longrightarrow> jb_run_after j = now \<Longrightarrow> job_life now x (Some j)"
| life_claim: "jb_status j = Pending \<Longrightarrow> jb_run_after j \<le> now \<Longrightarrow>
    job_life now (Some j) (Some (j\<lparr>jb_attempts := jb_attempts j + 1, jb_run_after := now + lease\<rparr>))"
| life_complete: "jb_status j = Pending \<Longrightarrow>
    job_life now (Some j) (Some (j\<lparr>jb_status := Completed, jb_finished_at := Some now, jb_last_error := []\<rparr>))"
| life_fail: "jb_status j = Pending \<Longrightarrow>
    job_life now (Some j) (Some (j\<lparr>jb_status := Failed, jb_finished_at := Some now, jb_last_error := e\<rparr>))"
| life_retry: "jb_status j = Pending \<Longrightarrow> a < MaxAttempts \<Longrightarrow>
    job_life now (Some j) (Some (j\<lparr>jb_run_after := now + backoff a, jb_last_error := e\<rparr>))"

inductive_cases job_life_SomeE: "job_life now (Some j) (Some j')"

lemma find_job_Enqueue:
  "find_job (fst (Enqueue k d)) i =
    (if i = k \<and> snd (Enqueue k d) = Ok () then Some (fresh_job d k) else find_job d i)"
  by (auto simp: Enqueue_def find_job_rearm find_job_append split: option.splits)

lemma find_job_MarkCompleted:
  "find_job (fst (MarkCompleted k d)) i = map_option (\<lambda>j. if pg_text k \<and> jb_id j = k \<and> is_pending j
     then j\<lparr>jb_status := Completed, jb_finished_at := Some (d_now d), jb_last_error := []\<rparr> else j) (find_job d i)"
  by (cases "pg_text k") (simp_all add: MarkCompleted_def find_job_upd option.map_ident)

lemma find_job_MarkFailed:
  "find_job (fst (MarkFailed k a e d)) i = map_option (\<lambda>j. if pg_text k \<and> pg_text e \<and> jb_id j = k \<and> is_pending j
     then if a \<ge> MaxAttempts
       then j\<lparr>jb_status := Failed, jb_finished_at := Some (d_now d), jb_last_error := e\<rparr>
       else j\<lparr>jb_run_after := d_now d + backoff a, jb_last_error := e\<rparr>
     else j) (find_job d i)"
  by (cases "pg_text k \<and> pg_text e"; cases "a \<ge> MaxAttempts"; cases "find_job d i")
    (auto simp: MarkFailed_def find_job_upd)

lemma find_job_ClaimNext:
  assumes "db_ok d"
  shows "find_job (fst (ClaimNext coll d)) i = find_job d i \<or>
    (\<exists>r. find_job d i = Some r \<and> claimable d r \<and> find_job (fst (ClaimNext coll d)) i =
       Some (r\<lparr>jb_attempts := jb_attempts r + 1, jb_run_after := d_now d + lease\<rparr>))"
proof (cases "snd (ClaimNext coll d)")
  case (Inl e)
  then have "fst (ClaimNext coll d) = d" by (auto simp: ClaimNext_def split: list.splits)
  then show ?thesis by simp
next
  case (Inr j)
  then have "ClaimNext coll d = (fst (ClaimNext coll d), Ok j)" by (simp add: prod_eq_iff)
  with ClaimNext_facts [OF assms, of coll] obtain r where r: "r \<in> set (d_jobs d)" "jb_id r = j_ebook j"
    "claimable d r" "j_attempts j = jb_attempts r + 1"
    "\<And>k. find_job (fst (ClaimNext coll d)) k = (if k = j_ebook j
            then Some (r\<lparr>jb_attempts := j_attempts j, jb_run_after := d_now d + lease\<rparr>)
            else find_job d k)"
    by blast
  show ?thesis
  proof (cases "i = j_ebook j")
    case True
    with r find_job_mem [OF assms r(1)] show ?thesis by simp
  next
    case False
    with r(5) show ?thesis by simp
  qed
qed

text \<open>
  C39. Every queue operation, seen from any single job, is one step of the job life cycle (arm,
  claim a due pending job, complete, fail, retry with back-off) or leaves the job as it is, and
  keeps the database constraints.
\<close>

theorem queue_refines_life:
  assumes "db_ok d"
  shows "job_life (d_now d) (find_job d i) (find_job (queue_run coll d q) i) \<and>
    db_ok (queue_run coll d q)"
proof
  show "job_life (d_now d) (find_job d i) (find_job (queue_run coll d q) i)"
  proof (cases q)
    case (QEnqueue k)
    then show ?thesis by (auto simp: queue_run_def find_job_Enqueue intro: job_life.intros)
  next
    case QClaim
    then show ?thesis
      using find_job_ClaimNext [OF assms, of coll i]
      by (auto simp: queue_run_def claimable_def intro: job_life.intros)
  next
    case (QComplete k)
    then show ?thesis
      by (cases "find_job d i")
        (auto simp: queue_run_def find_job_MarkCompleted is_pending_def intro: job_life.intros)
  next
    case (QFail k a e)
    then show ?thesis
      by (cases "find_job d i")
        (auto simp: queue_run_def find_job_MarkFailed is_pending_def intro: job_life.intros)
  next
    case QBackfill
    then show ?thesis
      using find_job_backfill [OF assms, of i] by (auto simp: queue_run_def intro: job_life.intros)
  next
    case (QTick n)
    then show ?thesis by (simp add: queue_run_def find_job_def life_stay)
  qed
  show "db_ok (queue_run coll d q)" using assms by (rule queue_run_ok)
qed

subsection \<open>A lease is exclusive\<close>

definition leased :: "string \<Rightarrow> int \<Rightarrow> db \<Rightarrow> bool" where
  "leased i t d \<longleftrightarrow> (\<exists>r. find_job d i = Some r \<and> jb_status r \<noteq> Failed \<and>
     (jb_status r = Pending \<longrightarrow> t \<le> jb_run_after r))"

definition keeps_lease :: "string \<Rightarrow> queue_op \<Rightarrow> bool" where
  "keeps_lease i q = (case q of QEnqueue k \<Rightarrow> k \<noteq> i | QFail k a e \<Rightarrow> k \<noteq> i | _ \<Rightarrow> True)"

definition ticks :: "queue_op \<Rightarrow> int" where
  "ticks q = (case q of QTick n \<Rightarrow> int n | _ \<Rightarrow> 0)"

lemma foldl_backfill_now: "d_now (fst (foldl backfill_one x is)) = d_now (fst x)"
  by (induction "is" arbitrary: x) (auto simp: backfill_one_def Let_def split: option.splits)

lemma queue_run_now: "d_now (queue_run coll d q) = d_now d + ticks q"
  by (cases q) (auto simp: queue_run_def ticks_def Enqueue_def ClaimNext_def MarkCompleted_def
      MarkFailed_def BulkEnqueueBackfill_def Let_def foldl_backfill_now split: list.splits)

lemma leased_step:
  assumes "db_ok d" and "leased i t d" and "d_now d < t" and "keeps_lease i q"
  shows "leased i t (queue_run coll d q)"
proof -
  obtain r where r: "find_job d i = Some r" "jb_status r \<noteq> Failed"
    "jb_status r = Pending \<longrightarrow> t \<le> jb_run_after r"
    using assms(2) by (auto simp: leased_def)
  have not_due: "\<not> claimable d r" using r assms(3) by (auto simp: claimable_def)
  show ?thesis
  proof (cases q)
    case (QEnqueue k)
    with assms r show ?thesis by (auto simp: queue_run_def find_job_Enqueue leased_def keeps_lease_def)
  next
    case QClaim
    with find_job_ClaimNext [OF assms(1), of coll i] r not_due show ?thesis
      by (auto simp: queue_run_def leased_def)
  next
    case (QComplete k)
    with r show ?thesis by (simp add: queue_run_def find_job_MarkCompleted leased_def)
  next
    case (QFail k a e)
    with assms(4) r find_job_id [OF r(1)] show ?thesis
      by (simp add: queue_run_def find_job_MarkFailed leased_def keeps_lease_def)
  next
    case QBackfill
    have "\<not> needs_job d i" using r by (simp add: needs_job_def)
    with QBackfill find_job_backfill [OF assms(1), of i] r show ?thesis
      by (simp add: queue_run_def leased_def)
  next
    case (QTick n)
    with r show ?thesis by (simp add: queue_run_def leased_def find_job_def)
  qed
qed

lemma leased_run:
  assumes "db_ok d" and "leased i t d" and "d_now d + sum_list (map ticks qs) < t"
    and "list_all (keeps_lease i) qs"
  shows "db_ok (foldl (queue_run coll) d qs) \<and> leased i t (foldl (queue_run coll) d qs) \<and>
    d_now (foldl (queue_run coll) d qs) < t"
  using assms
proof (induction qs arbitrary: d)
  case Nil
  then show ?case by simp
next
  case (Cons q qs)
  have nn: "0 \<le> sum_list (map ticks qs)" by (rule sum_list_nonneg) (auto simp: ticks_def split: queue_op.splits)
  have "d_now d \<le> d_now (queue_run coll d q)"
    by (simp add: queue_run_now ticks_def split: queue_op.split)
  with Cons.prems nn have "d_now d < t" by (simp add: queue_run_now)
  with Cons.prems have "leased i t (queue_run coll d q)" by (intro leased_step) simp_all
  with Cons show ?case by (simp add: queue_run_ok queue_run_now add.assoc)
qed

text \<open>
  C38. Once ClaimNext has returned a job, no ClaimNext returns that job again before its five-
  minute lease is over, whatever claims, completions, failures of other jobs and backfills
  happen in between, unless the job itself is enqueued again or marked failed.
\<close>

theorem lease_exclusive:
  assumes "db_ok d" and "ClaimNext coll d = (d', Ok j)"
    and "list_all (keeps_lease (j_ebook j)) qs" and "sum_list (map ticks qs) < lease"
    and "ClaimNext coll' (foldl (queue_run coll') d' qs) = (d'', Ok j')"
  shows "j_ebook j' \<noteq> j_ebook j"
proof -
  from ClaimNext_facts [OF assms(1), of coll] assms(2) obtain r where r: "r \<in> set (d_jobs d)"
    "claimable d r" "\<forall>k. find_job d' k = (if k = j_ebook j
       then Some (r\<lparr>jb_attempts := j_attempts j, jb_run_after := d_now d + lease\<rparr>) else find_job d k)"
    "d'\<lparr>d_jobs := d_jobs d\<rparr> = d"
    by blast
  have now: "d_now d' = d_now d" using arg_cong [OF r(4), of d_now] by simp
  have ok: "db_ok d'" using keeps_okD [OF ClaimNext_ok assms(1,2)] .
  have "leased (j_ebook j) (d_now d + lease) d'"
    using r by (simp add: leased_def claimable_def)
  from leased_run [OF ok this _ assms(3), of coll'] assms(4) now
  have fin: "db_ok (foldl (queue_run coll') d' qs)"
    "leased (j_ebook j) (d_now d + lease) (foldl (queue_run coll') d' qs)"
    "d_now (foldl (queue_run coll') d' qs) < d_now d + lease" by simp_all
  from ClaimNext_facts [OF fin(1), of coll'] assms(5) obtain s where s:
    "s \<in> set (d_jobs (foldl (queue_run coll') d' qs))" "jb_id s = j_ebook j'"
    "claimable (foldl (queue_run coll') d' qs) s" by blast
  show ?thesis
  proof
    assume "j_ebook j' = j_ebook j"
    then have "find_job (foldl (queue_run coll') d' qs) (j_ebook j) = Some s"
      using find_job_mem [OF fin(1) s(1)] s(2) by simp
    with fin s show False by (auto simp: leased_def claimable_def)
  qed
qed

subsection \<open>Late finishers\<close>

text \<open>
  A finisher that comes after its job was armed again marks the newly armed job completed:
  the guard on the pending status does not keep a late finisher out.
\<close>

theorem late_finisher_stamps:
  assumes "find_job d i = Some r" and "pg_text i"
  shows "find_job (fst (MarkCompleted i (fst (Enqueue i d)))) i =
    Some ((fresh_job d i)\<lparr>jb_status := Completed, jb_finished_at := Some (d_now d)\<rparr>)"
proof -
  have "find_job (fst (Enqueue i d)) i = Some (fresh_job d i)" "d_now (fst (Enqueue i d)) = d_now d"
    using assms by (simp_all add: Enqueue_def find_job_rearm)
  then show ?thesis using assms(2)
    by (simp add: find_job_MarkCompleted is_pending_def) (simp add: fresh_job_def)
qed

subsection \<open>Witnesses\<close>

definition queue_db :: db where
  "queue_db = sample_db\<lparr>d_jobs := [\<lparr>jb_id = ''b1'', jb_status = Pending, jb_attempts = 0,
     jb_run_after = 0, jb_last_error = [], jb_finished_at = None\<rparr>]\<rparr>"

lemma queue_db_ok: "db_ok queue_db"
  by (simp add: queue_db_def sample_defs db_ok_defs book_key_def job_row_ok_def pg_text_ascii)

theorem ClaimNext_spec_witness: "snd (ClaimNext (\<lambda>t. t) queue_db) \<noteq> Err ErrQueueEmpty"
proof -
  have "\<exists>r \<in> set (d_jobs queue_db). claimable queue_db r"
    by (simp add: queue_db_def claimable_def sample_defs)
  with ClaimNext_spec [OF queue_db_ok, of "\<lambda>t. t"] show ?thesis by blast
qed

theorem BulkEnqueueBackfill_spec_witness:
  "find_job (fst (BulkEnqueueBackfill sample_db)) ''b1'' = Some (fresh_job sample_db ''b1'')"
proof -
  have run: "BulkEnqueueBackfill sample_db =
      (fst (BulkEnqueueBackfill sample_db), Ok (snd (foldl backfill_one (sample_db, 0) (live_ids sample_db))))"
    by (simp add: BulkEnqueueBackfill_def Let_def)
  have "''b1'' \<in> set (live_ids sample_db) \<and> needs_job sample_db ''b1''"
    by (simp add: live_ids_def needs_job_def find_job_def sample_defs)
  with BulkEnqueueBackfill_spec [OF sample_db_ok run] show ?thesis by simp
qed

theorem queue_refines_life_witness:
  "job_life 0 (find_job queue_db ''b1'') (find_job (queue_run (\<lambda>t. t) queue_db QClaim) ''b1'')"
  using queue_refines_life [OF queue_db_ok, of "''b1''" "\<lambda>t. t" QClaim]
  by (simp add: queue_db_def sample_defs)

definition two_jobs_db :: db where
  "two_jobs_db = queue_db\<lparr>d_books := [sample_book, sample_book\<lparr>eb_id := ''b2'', eb_path := ''/a/y.fb2''\<rparr>],
     d_jobs := d_jobs queue_db @ [\<lparr>jb_id = ''b2'', jb_status = Pending, jb_attempts = 0,
       jb_run_after = 0, jb_last_error = [], jb_finished_at = None\<rparr>]\<rparr>"

lemma two_jobs_db_ok: "db_ok two_jobs_db"
  by (simp add: two_jobs_db_def queue_db_def sample_defs db_ok_defs book_key_def job_row_ok_def pg_text_ascii)

theorem lease_exclusive_witness:
  "\<exists>d'' j'. ClaimNext (\<lambda>t. t) (foldl (queue_run (\<lambda>t. t)) (fst (ClaimNext (\<lambda>t. t) two_jobs_db))
      [QTick 1000]) = (d'', Ok j') \<and> j_ebook j' \<noteq> ''b1''"
proof -
  have claim: "ClaimNext (\<lambda>t. t) two_jobs_db =
      (fst (ClaimNext (\<lambda>t. t) two_jobs_db), Ok \<lparr>j_ebook = ''b1'', j_attempts = 1\<rparr>)"
    by (simp add: ClaimNext_def claimable_def claim_order_def two_jobs_db_def queue_db_def sample_defs)
  have keeps: "list_all (keeps_lease ''b1'') [QTick 1000]" by (simp add: keeps_lease_def)
  have short: "sum_list (map ticks [QTick 1000]) < lease"
    by (simp add: ticks_def lease_def minute_def)
  have "\<exists>d'' j'. ClaimNext (\<lambda>t. t) (foldl (queue_run (\<lambda>t. t)) (fst (ClaimNext (\<lambda>t. t) two_jobs_db))
      [QTick 1000]) = (d'', Ok j')"
    by (simp add: ClaimNext_def claimable_def claim_order_def two_jobs_db_def queue_db_def sample_defs
        queue_run_def upd_job_def lease_def minute_def)
  then obtain d'' j' where "ClaimNext (\<lambda>t. t) (foldl (queue_run (\<lambda>t. t))
      (fst (ClaimNext (\<lambda>t. t) two_jobs_db)) [QTick 1000]) = (d'', Ok j')" by blast
  with lease_exclusive [OF two_jobs_db_ok claim _ short this] keeps show ?thesis by auto
qed

theorem late_finisher_stamps_witness:
  "find_job (fst (MarkCompleted ''b1'' (fst (Enqueue ''b1'' sample_db)))) ''b1'' =
    Some ((fresh_job sample_db ''b1'')\<lparr>jb_status := Completed, jb_finished_at := Some 0\<rparr>)"
proof -
  obtain r where "find_job sample_db ''b1'' = Some r" by (simp add: find_job_def sample_defs)
  moreover have "pg_text ''b1''" by (simp add: pg_text_ascii)
  ultimately have "find_job (fst (MarkCompleted ''b1'' (fst (Enqueue ''b1'' sample_db)))) ''b1'' =
      Some ((fresh_job sample_db ''b1'')\<lparr>jb_status := Completed, jb_finished_at := Some (d_now sample_db)\<rparr>)"
    by (rule late_finisher_stamps)
  then show ?thesis by (simp add: sample_defs)
qed

end
