(* ===== verification/LibCfg.thy ===== *)
theory LibCfg
  imports GoPath
begin

text \<open>Validation of library paths and media types (\<open>internal/libcfg/libcfg.go\<close>).\<close>

definition MediaTypes :: "string list" where
  "MediaTypes = [''book'', ''comics'', ''manga'', ''documents'']"

fun media_scan :: "string \<Rightarrow> string list \<Rightarrow> bool" where
  "media_scan mt [] = False"
| "media_scan mt (v # vs) = (if mt = v then True else media_scan mt vs)"

definition ValidMediaType :: "string \<Rightarrow> bool" where
  "ValidMediaType mt = media_scan mt MediaTypes"

datatype path_error = PathRequired | PathContainsNUL | PathNotAbsolute

definition has_nul :: "string \<Rightarrow> bool" where
  "has_nul s = list_ex (\<lambda>c. code c = (0::nat)) s"

definition NormalizePath :: "string \<Rightarrow> (path_error, string) res" where
  "NormalizePath p =
    (if p = [] then Err PathRequired
     else if has_nul p then Err PathContainsNUL
     else if \<not> IsAbs p then Err PathNotAbsolute
     else Ok (Clean p))"

lemma media_scan_set: "media_scan mt vs \<longleftrightarrow> mt \<in> set vs"
  by (induction vs) auto

lemma ValidMediaType_iff: "ValidMediaType mt \<longleftrightarrow> mt \<in> set MediaTypes"
  by (simp add: ValidMediaType_def media_scan_set)

text \<open>
  A path NormalizePath accepts comes back absolute and canonical: normalising it again
  returns it unchanged, it has no NUL byte and no dot or dot-dot element.
\<close>

theorem NormalizePath_canonical:
  assumes "NormalizePath p = Ok q"
  shows "NormalizePath q = Ok q \<and>
    (\<exists>es. list_all good_elem es \<and> q = slash # Join es [slash] \<and>
       es = clean_elems True (Split p slash)) \<and> \<not> has_nul q"
proof -
  from assms have abs: "IsAbs p" and nul: "\<not> has_nul p" and q: "q = Clean p"
    by (auto simp: NormalizePath_def split: if_splits)
  have "\<not> has_nul q"
    using Clean_set [of p] nul q by (fastforce simp: has_nul_def list_ex_iff)
  moreover have "IsAbs q" "Clean q = q" using abs q by (simp_all add: Clean_abs Clean_idem_abs)
  moreover have "q \<noteq> []" using \<open>IsAbs q\<close> by (auto simp: IsAbs_def)
  ultimately show ?thesis
    using Clean_abs_form [OF abs] q by (auto simp: NormalizePath_def)
qed

theorem NormalizePath_canonical_witness:
  "NormalizePath ''/srv/./books//x/..'' = Ok ''/srv/books'' \<and>
   NormalizePath ''/srv/books'' = Ok ''/srv/books''"
proof -
  have h: "NormalizePath ''/srv/./books//x/..'' = Ok ''/srv/books''"
    by (simp add: NormalizePath_def has_nul_def IsAbs_def Clean_def clean_elems_def clean_step_def)
  show ?thesis by (rule conjI [OF h NormalizePath_canonical [OF h, THEN conjunct1]])
qed

end
