(* ===== verification/AdminHttp.thy ===== *)
theory AdminHttp
  imports EbookBackend AppConfig JobQueue LibCfg ServeMux
begin

text \<open>
  The admin surface and the route table (\<open>internal/server\<close>: \<open>catalog.go\<close>, \<open>admin.go\<close>,
  \<open>libraries.go\<close>, \<open>admin_home.go\<close>). A handler is a function from the request and the state of the
  plugin to the new state and the response; the state is the database and the configuration in
  memory, which \<open>OnConfigUpdate\<close> replaces. The file system, the texts of errors, the rendering of
  times and the two scan functions the wiring passes in are fields of \<open>admin_env\<close>.
\<close>

record app_state =
  as_db :: db
  as_app_cfg :: "app_config option"

datatype stat_result = StatNotExist | StatError | StatDir | StatOther

type_synonym scan_fun = "app_state \<Rightarrow> app_state \<times> (string, int) res"

record admin_env =
  an_backend :: backend_env
  an_err :: "db_error \<Rightarrow> string"
  an_bad_json :: "json option \<Rightarrow> string"
  an_time :: "int \<Rightarrow> string"
  an_ping :: "string option"
  an_dir_exists :: "string \<Rightarrow> bool"
  an_stat :: "string \<Rightarrow> stat_result"
  an_readdir :: "string \<Rightarrow> (string \<times> bool) list option"
  an_scan :: scan_fun
  an_scan_one :: "int \<Rightarrow> scan_fun"

subsection \<open>Responses\<close>

definition adminError :: "int \<Rightarrow> string \<Rightarrow> response" where
  "adminError st msg = writeJSON st (JObj [(''error'', enc_str msg)])"

definition on_db :: "'a stmt \<Rightarrow> app_state \<Rightarrow> app_state \<times> (db_error, 'a) res" where
  "on_db st s = (case st (as_db s) of (d, r) \<Rightarrow> (s\<lparr>as_db := d\<rparr>, r))"

text \<open>Run a statement, answer an error with 500, and a result with what \<open>ok\<close> makes of it.\<close>

definition answer :: "admin_env \<Rightarrow> 'a stmt \<Rightarrow> ('a \<Rightarrow> response) \<Rightarrow> app_state \<Rightarrow> app_state \<times> response" where
  "answer E st ok s = (case on_db st s of
     (s, Inl e) \<Rightarrow> (s, adminError 500 (an_err E e))
   | (s, Inr a) \<Rightarrow> (s, ok a))"

definition enc_time_opt :: "admin_env \<Rightarrow> int option \<Rightarrow> json" where
  "enc_time_opt E t = (case t of None \<Rightarrow> JNull | Some t \<Rightarrow> JStr (an_time E t))"

definition enc_lib_row :: "admin_env \<Rightarrow> lib_row \<Rightarrow> json" where
  "enc_lib_row E l = JObj [(''ID'', JNum (lp_id l)), (''Path'', enc_str (lp_path l)), (''Name'', enc_str (lp_name l)),
     (''MediaType'', enc_str (lp_media_type l)), (''Enabled'', JBool (lp_enabled l)),
     (''LastScannedAt'', enc_time_opt E (lp_last_scanned_at l)), (''CreatedAt'', JStr (an_time E (lp_created_at l))),
     (''UpdatedAt'', JStr (an_time E (lp_updated_at l)))]"

definition enc_scan_event :: "admin_env \<Rightarrow> scan_event \<Rightarrow> json" where
  "enc_scan_event E e = JObj ([(''id'', JNum (se_id e))] @
     (case se_lib e of None \<Rightarrow> [] | Some l \<Rightarrow> [(''library_path_id'', JNum l)]) @
     omit_str ''library_name'' (se_lib_name e) @ [(''started_at'', JStr (an_time E (se_started_at e)))] @
     (case se_finished_at e of None \<Rightarrow> [] | Some t \<Rightarrow> [(''finished_at'', JStr (an_time E t))]) @
     [(''books_added'', JNum (se_added e)), (''books_changed'', JNum (se_changed e)),
      (''books_deleted'', JNum (se_deleted e))] @ omit_str ''error_text'' (se_error_text e))"

definition enc_queue_stats :: "queue_stats \<Rightarrow> json" where
  "enc_queue_stats q = JObj [(''pending'', JNum (qs_pending q)), (''completed'', JNum (qs_completed q)),
     (''failed'', JNum (qs_failed q)), (''due_now'', JNum (qs_due_now q)), (''total'', JNum (qs_total q))]"

definition enc_counts :: "(string \<rightharpoonup> int) \<Rightarrow> json" where
  "enc_counts m = JObj (map (\<lambda>k. (coerce_utf8 k, JNum (the (m k)))) (sorted_list_of_set (dom m)))"

definition enc_catalog_stats :: "catalog_stats \<Rightarrow> json" where
  "enc_catalog_stats c = JObj [(''total'', JNum (cs_total c)), (''active'', JNum (cs_active c)),
     (''deleted'', JNum (cs_deleted c)), (''with_covers'', JNum (cs_with_covers c)),
     (''by_format'', enc_counts (cs_by_format c)), (''by_media_type'', enc_counts (cs_by_media_type c)),
     (''by_library'', enc_counts (cs_by_library c))]"

definition items :: "json list \<Rightarrow> response" where
  "items vs = writeJSON 200 (JObj [(''items'', JArr vs)])"

subsection \<open>Status, configuration, scans\<close>

definition handleCapabilities :: response where
  "handleCapabilities = writeJSON 200 (JObj [
     (''features'', enc_strs [''library_source'', ''metadata_provider'', ''multi_library'', ''admin_diagnostics'',
        ''scan_status'', ''scan_trigger'', ''metadata_queue_status'', ''browse_facets'', ''covers'']),
     (''formats'', enc_strs [''epub'', ''pdf'', ''mobi'', ''azw'', ''azw3'', ''fb2'']),
     (''max_concurrent_downloads'', JNum 8), (''supports_range_requests'', JBool True)])"

definition handle_scans :: "admin_env \<Rightarrow> request \<Rightarrow> app_state \<Rightarrow> app_state \<times> response" where
  "handle_scans E r = answer E (RecentScanEvents (fst (Atoi (rq_query r ''limit''))))
     (\<lambda>evs. items (map (enc_scan_event E) evs))"

definition handle_backfill :: "admin_env \<Rightarrow> app_state \<Rightarrow> app_state \<times> response" where
  "handle_backfill E = answer E BulkEnqueueBackfill (\<lambda>n. writeJSON 200 (JObj [(''queued'', JNum n)]))"

definition handle_queue :: "admin_env \<Rightarrow> app_state \<Rightarrow> app_state \<times> response" where
  "handle_queue E = answer E MetadataQueueStats (\<lambda>q. writeJSON 200 (enc_queue_stats q))"

definition handle_get_config :: "admin_env \<Rightarrow> app_state \<Rightarrow> app_state \<times> response" where
  "handle_get_config E = answer E GetAppConfig (\<lambda>c. writeJSON 200 (enc_app_config c))"

definition zero_config :: app_config where
  "zero_config = \<lparr>ac_sources = [], ac_region = [], ac_ttl_days = 0, ac_rps = 0, ac_inline = False,
     ac_scan_source = [], ac_google_key = [], ac_isbndb_key = [], ac_hardcover_key = []\<rparr>"

definition handle_put_config :: "admin_env \<Rightarrow> request \<Rightarrow> app_state \<Rightarrow> app_state \<times> response" where
  "handle_put_config E r s =
    (case Option.bind (rq_body r) (\<lambda>v. dec_struct app_fields v zero_config) of
       None \<Rightarrow> (s, adminError 400 (an_bad_json E (rq_body r)))
     | Some cfg \<Rightarrow> (let cfg = WithDefaults cfg in
         case Validate cfg of
           Some e \<Rightarrow> (s, adminError 400 (an_err E e))
         | None \<Rightarrow> (case on_db (PutAppConfig cfg) s of
             (s, Inl e) \<Rightarrow> (s, adminError 500 (an_err E e))
           | (s, Inr u) \<Rightarrow> (s\<lparr>as_app_cfg := Some cfg\<rparr>, writeJSON 200 (enc_app_config cfg)))))"

definition scan_answer :: "scan_fun \<Rightarrow> app_state \<Rightarrow> app_state \<times> response" where
  "scan_answer f s = (case f s of
     (s, Inl e) \<Rightarrow> (s, adminError 500 e)
   | (s, Inr n) \<Rightarrow> (s, writeJSON 200 (JObj [(''scan_event_id'', JNum n)])))"

definition handleDiagnostics :: "admin_env \<Rightarrow> app_state \<Rightarrow> app_state \<times> response" where
  "handleDiagnostics E s =
    (let db = (case an_ping E of
          Some e \<Rightarrow> JObj [(''message'', enc_str e), (''ok'', JBool False)]
        | None \<Rightarrow> JObj [(''message'', JStr ''database reachable''), (''ok'', JBool True)]) in
     case on_db (ListLibraryPaths (be_coll (an_backend E))) s of
       (s, Inl e) \<Rightarrow> (s, adminError 500 (an_err E e))
     | (s, Inr paths) \<Rightarrow> (case on_db (RecentScanEvents 10) s of
         (s, Inl e) \<Rightarrow> (s, adminError 500 (an_err E e))
       | (s, Inr scans) \<Rightarrow> (case on_db (CatalogStats (be_coll (an_backend E))) s of
           (s, Inl e) \<Rightarrow> (s, adminError 500 (an_err E e))
         | (s, Inr cat) \<Rightarrow> (case on_db MetadataQueueStats s of
             (s, Inl e) \<Rightarrow> (s, adminError 500 (an_err E e))
           | (s, Inr queue) \<Rightarrow> (case on_db GetAppConfig s of (s, rc) \<Rightarrow>
               (let c = (case rc of Inl e \<Rightarrow> DefaultAppConfig | Inr c \<Rightarrow> c) in
                (s, writeJSON 200 (JObj [
                  (''catalog'', enc_catalog_stats cat),
                  (''configuration'', JObj [
                     (''metadata_cache_ttl_days'', JNum (ac_ttl_days c)),
                     (''metadata_default_region'', enc_str (ac_region c)),
                     (''metadata_rate_limit_rps'', JNum (ac_rps c)),
                     (''metadata_scan_source'', enc_str (ac_scan_source c)),
                     (''metadata_sources_enabled'', JNum (int (length (ac_sources c)))),
                     (''scan_inline_enrich'', JBool (ac_inline c))]),
                  (''database'', db),
                  (''features'', enc_strs [''multi_library'', ''scan_status'', ''manual_scan'', ''metadata_backfill'',
                     ''metadata_queue_status'', ''catalog_health'']),
                  (''libraries'', JArr (map (enc_lib_row E) paths)),
                  (''metadata'', enc_queue_stats queue),
                  (''plugin_id'', JStr ''silo.local-ebooks''),
                  (''recent_scans'', JArr (map (enc_scan_event E) scans)),
                  (''role'', JStr ''library_source_and_metadata_provider'')]))))))))"

subsection \<open>Libraries\<close>

record create_body =
  cb_path :: string
  cb_name :: string
  cb_media_type :: string
  cb_enabled :: bool

definition create_fields :: "create_body fields" where
  "create_fields = [
     (''path'', \<lambda>v b. map_option (\<lambda>x. b\<lparr>cb_path := x\<rparr>) (dec_str (cb_path b) v)),
     (''name'', \<lambda>v b. map_option (\<lambda>x. b\<lparr>cb_name := x\<rparr>) (dec_str (cb_name b) v)),
     (''media_type'', \<lambda>v b. map_option (\<lambda>x. b\<lparr>cb_media_type := x\<rparr>) (dec_str (cb_media_type b) v)),
     (''enabled'', \<lambda>v b. map_option (\<lambda>x. b\<lparr>cb_enabled := x\<rparr>) (dec_bool (cb_enabled b) v))]"

definition update_fields :: "lib_update fields" where
  "update_fields = [
     (''name'', \<lambda>v b. map_option (\<lambda>x. b\<lparr>lu_name := x\<rparr>) (dec_str (lu_name b) v)),
     (''media_type'', \<lambda>v b. map_option (\<lambda>x. b\<lparr>lu_media_type := x\<rparr>) (dec_str (lu_media_type b) v)),
     (''enabled'', \<lambda>v b. map_option (\<lambda>x. b\<lparr>lu_enabled := x\<rparr>) (dec_bool (lu_enabled b) v))]"

definition path_error_text :: "path_error \<Rightarrow> string" where
  "path_error_text e = (case e of PathRequired \<Rightarrow> ''path is required''
     | PathContainsNUL \<Rightarrow> ''path contains NUL'' | PathNotAbsolute \<Rightarrow> ''path must be absolute'')"

definition handle_list_libraries :: "admin_env \<Rightarrow> app_state \<Rightarrow> app_state \<times> response" where
  "handle_list_libraries E = answer E (ListLibraryPaths (be_coll (an_backend E)))
     (\<lambda>rows. items (map (enc_lib_row E) rows))"

definition handle_create_library :: "admin_env \<Rightarrow> request \<Rightarrow> app_state \<Rightarrow> app_state \<times> response" where
  "handle_create_library E r s =
    (case Option.bind (rq_body r) (\<lambda>v. dec_struct create_fields v
        \<lparr>cb_path = [], cb_name = [], cb_media_type = [], cb_enabled = False\<rparr>) of
       None \<Rightarrow> (s, adminError 400 (an_bad_json E (rq_body r)))
     | Some body \<Rightarrow> (case NormalizePath (cb_path body) of
         Inl e \<Rightarrow> (s, adminError 400 (path_error_text e))
       | Inr path \<Rightarrow>
           if \<not> ValidMediaType (cb_media_type body) then (s, adminError 400 ''invalid media_type'')
           else if \<not> an_dir_exists E path then (s, adminError 400 ''path is not an existing directory'')
           else (case on_db (CreateLibrary \<lparr>li_path = path, li_name = cb_name body,
                     li_media_type = cb_media_type body, li_enabled = cb_enabled body\<rparr>) s of
               (s, Inl e) \<Rightarrow> (s, adminError (if e = ErrDuplicatePath then 409 else 500) (an_err E e))
             | (s, Inr i) \<Rightarrow> (s, writeJSON 201 (JObj [(''id'', JNum i)])))))"

definition pathID :: "(string \<Rightarrow> string) \<Rightarrow> int option" where
  "pathID pv = (case Atoi (pv ''id'') of (i, ok) \<Rightarrow> if \<not> ok \<or> i \<le> 0 then None else Some i)"

text \<open>Answer of a statement that reports a missing row.\<close>

definition row_answer :: "admin_env \<Rightarrow> unit stmt \<Rightarrow> response \<Rightarrow> app_state \<Rightarrow> app_state \<times> response" where
  "row_answer E st ok s = (case on_db st s of
     (s, Inl e) \<Rightarrow> (s, adminError (if e = ErrNotFound then 404 else 500) (an_err E e))
   | (s, Inr u) \<Rightarrow> (s, ok))"

definition handle_update_library ::
  "admin_env \<Rightarrow> request \<Rightarrow> (string \<Rightarrow> string) \<Rightarrow> app_state \<Rightarrow> app_state \<times> response" where
  "handle_update_library E r pv s = (case pathID pv of
     None \<Rightarrow> (s, adminError 400 ''invalid id'')
   | Some i \<Rightarrow> (case Option.bind (rq_body r) (\<lambda>v. dec_struct update_fields v
          \<lparr>lu_name = [], lu_media_type = [], lu_enabled = False\<rparr>) of
         None \<Rightarrow> (s, adminError 400 (an_bad_json E (rq_body r)))
       | Some u \<Rightarrow> if \<not> ValidMediaType (lu_media_type u) then (s, adminError 400 ''invalid media_type'')
           else row_answer E (UpdateLibrary i u) (writeJSON 200 (JObj [(''ok'', JBool True)])) s))"

definition handle_delete_library :: "admin_env \<Rightarrow> (string \<Rightarrow> string) \<Rightarrow> app_state \<Rightarrow> app_state \<times> response" where
  "handle_delete_library E pv s = (case pathID pv of
     None \<Rightarrow> (s, adminError 400 ''invalid id'')
   | Some i \<Rightarrow> row_answer E (DeleteLibrary i) \<lparr>rs_status = 204, rs_headers = [], rs_body = NoBody\<rparr> s)"

definition handle_scan_library :: "admin_env \<Rightarrow> (string \<Rightarrow> string) \<Rightarrow> app_state \<Rightarrow> app_state \<times> response" where
  "handle_scan_library E pv s = (case pathID pv of
     None \<Rightarrow> (s, adminError 400 ''invalid id'')
   | Some i \<Rightarrow> scan_answer (an_scan_one E i) s)"

definition browse_entries :: "string \<Rightarrow> (string \<times> bool) list \<Rightarrow> (string \<times> string) list" where
  "browse_entries cleaned es = sort (map (\<lambda>e. (fst e, Join_path cleaned (fst e))) (filter snd es))"

definition browse_parent :: "string \<Rightarrow> string" where
  "browse_parent cleaned = (let parent = Dir cleaned in
     if cleaned = [slash] \<or> parent = ''.'' \<or> parent = cleaned then cleaned else parent)"

definition handleFilesystemBrowse :: "admin_env \<Rightarrow> request \<Rightarrow> response" where
  "handleFilesystemBrowse E r =
    (let path = TrimSpace (rq_query r ''path''); path = (if path = [] then [slash] else path) in
     if \<not> IsAbs path then adminError 400 ''path must be an absolute path''
     else let cleaned = Clean path in
       case an_stat E cleaned of
         StatNotExist \<Rightarrow> adminError 404 ''directory not found''
       | StatError \<Rightarrow> adminError 400 ''invalid path''
       | StatOther \<Rightarrow> adminError 400 ''path must point to a directory''
       | StatDir \<Rightarrow> (case an_readdir E cleaned of
           None \<Rightarrow> adminError 500 ''failed to read directory''
         | Some es \<Rightarrow> writeJSON 200 (JObj [(''path'', enc_str cleaned), (''parent'', enc_str (browse_parent cleaned)),
             (''entries'', JArr (map (\<lambda>e. JObj [(''name'', enc_str (fst e)), (''path'', enc_str (snd e))])
                (browse_entries cleaned es)))])))"

subsection \<open>The admin page\<close>

definition escape_char :: "char \<Rightarrow> string" where
  "escape_char c = (if c = CHR ''&'' then ''&amp;'' else if c = CHR ''<'' then ''&lt;''
     else if c = CHR ''>'' then ''&gt;'' else if c = CHR 0x27 then ''&#39;''
     else if c = CHR 0x22 then ''&#34;'' else [c])"

definition EscapeString :: "string \<Rightarrow> string" where
  "EscapeString s = concat (map escape_char s)"

definition adminTheme :: "request \<Rightarrow> string" where
  "adminTheme r =
    (let theme = rq_header r ''X-Silo-Theme'';
         theme = (if theme = [] then rq_query r ''theme'' else theme);
         theme = (if theme = [] then rq_header r ''X-Silo-User-Theme'' else theme)
     in EscapeString (if theme = [] then ''default'' else theme))"

text \<open>The page is constant up to the theme, which stands for it.\<close>

definition handleAdminHome :: "request \<Rightarrow> response" where
  "handleAdminHome r = \<lparr>rs_status = 200, rs_headers = [(''Content-Type'', ''text/html; charset=utf-8'')],
     rs_body = HtmlBody (adminTheme r)\<rparr>"

subsection \<open>The route table\<close>

datatype endpoint =
    Capabilities | CatLibraries | CatAuthors | CatSeries | CatGenres | CatCover | CatFile | CatDetail | CatList
  | CatSearch | Diagnostics | Scans | Backfill | Queue | GetConfig | PutConfig | ScanAll
  | ListLibs | Browse | CreateLib | UpdateLib | DeleteLib | ScanLib | Home

definition MountCatalog :: "(string \<times> endpoint) list" where
  "MountCatalog = [
     (''GET /capabilities'', Capabilities),
     (''GET /api/v1/capabilities'', Capabilities),
     (''GET /catalog/libraries'', CatLibraries),
     (''GET /catalog/authors'', CatAuthors),
     (''GET /catalog/series'', CatSeries),
     (''GET /catalog/genres'', CatGenres),
     (''GET /catalog/{id}/cover'', CatCover),
     (''GET /catalog/{id}/file'', CatFile),
     (''GET /catalog/{id}'', CatDetail),
     (''GET /catalog'', CatList),
     (''GET /api/v1/catalog/libraries'', CatLibraries),
     (''GET /api/v1/catalog/search'', CatSearch),
     (''GET /api/v1/catalog/{id}/cover'', CatCover),
     (''GET /api/v1/catalog/{id}/file'', CatFile),
     (''GET /api/v1/catalog/{id}'', CatDetail),
     (''GET /api/v1/catalog'', CatList),
     (''GET /api/v1/browse/authors'', CatAuthors),
     (''GET /api/v1/browse/series'', CatSeries),
     (''GET /api/v1/browse/genres'', CatGenres),
     (''GET /api/v1/file/{id}'', CatFile),
     (''GET /api/v1/cover/{id}/{size}'', CatCover),
     (''GET /api/v1/cover/{id}'', CatCover)]"

text \<open>With all its dependencies, as the wiring calls it.\<close>

definition MountAdminWithDeps :: "(string \<times> endpoint) list" where
  "MountAdminWithDeps = [
     (''GET /admin/diagnostics'', Diagnostics),
     (''GET /admin/scans'', Scans),
     (''POST /admin/metadata/backfill'', Backfill),
     (''GET /admin/metadata/queue'', Queue),
     (''GET /admin/config'', GetConfig),
     (''PUT /admin/config'', PutConfig),
     (''POST /admin/scan'', ScanAll)]"

definition MountLibraryRoutes :: "(string \<times> endpoint) list" where
  "MountLibraryRoutes = [
     (''GET /admin/libraries'', ListLibs),
     (''GET /admin/filesystem/browse'', Browse),
     (''POST /admin/libraries'', CreateLib),
     (''PATCH /admin/libraries/{id}'', UpdateLib),
     (''DELETE /admin/libraries/{id}'', DeleteLib),
     (''POST /admin/libraries/{id}/scan'', ScanLib)]"

definition MountAdminHome :: "(string \<times> endpoint) list" where
  "MountAdminHome = [(''GET /admin'', Home), (''GET /admin/'', Home), (''GET /'', Home)]"

definition routes :: "endpoint route list" where
  "routes = map parse_pattern (MountCatalog @ MountAdminWithDeps @ MountLibraryRoutes @ MountAdminHome)"

definition run_endpoint ::
  "admin_env \<Rightarrow> endpoint \<Rightarrow> request \<Rightarrow> (string \<Rightarrow> string) \<Rightarrow> app_state \<Rightarrow> app_state \<times> response" where
  "run_endpoint E h r pv s =
    (let V = an_backend E; d = as_db s; i = pv ''id'' in
     case h of
       Capabilities \<Rightarrow> (s, handleCapabilities)
     | CatLibraries \<Rightarrow> (s, Libraries V d)
     | CatAuthors \<Rightarrow> (s, Authors V r d)
     | CatSeries \<Rightarrow> (s, SeriesList V r d)
     | CatGenres \<Rightarrow> (s, Genres V r d)
     | CatCover \<Rightarrow> (s, Cover V r i d)
     | CatFile \<Rightarrow> (s, File V r i d)
     | CatDetail \<Rightarrow> (s, Detail V i d)
     | CatList \<Rightarrow> (s, List_handler V r d)
     | CatSearch \<Rightarrow> (s, Search_handler V r d)
     | Diagnostics \<Rightarrow> handleDiagnostics E s
     | Scans \<Rightarrow> handle_scans E r s
     | Backfill \<Rightarrow> handle_backfill E s
     | Queue \<Rightarrow> handle_queue E s
     | GetConfig \<Rightarrow> handle_get_config E s
     | PutConfig \<Rightarrow> handle_put_config E r s
     | ScanAll \<Rightarrow> scan_answer (an_scan E) s
     | ListLibs \<Rightarrow> handle_list_libraries E s
     | Browse \<Rightarrow> (s, handleFilesystemBrowse E r)
     | CreateLib \<Rightarrow> handle_create_library E r s
     | UpdateLib \<Rightarrow> handle_update_library E r pv s
     | DeleteLib \<Rightarrow> handle_delete_library E pv s
     | ScanLib \<Rightarrow> handle_scan_library E pv s
     | Home \<Rightarrow> (s, handleAdminHome r))"

text \<open>The note a redirect carries in its body is left out.\<close>

definition serve :: "admin_env \<Rightarrow> request \<Rightarrow> app_state \<Rightarrow> app_state \<times> response" where
  "serve E r s = (case findHandler routes (rq_method r) (rq_path r) of
     Handled h pv \<Rightarrow> run_endpoint E h r pv s
   | Redirect p \<Rightarrow> (s, \<lparr>rs_status = 301, rs_headers = [(''Location'', p)], rs_body = NoBody\<rparr>)
   | NotAllowed ms \<Rightarrow> (s, \<lparr>rs_status = 405, rs_headers = [(''Allow'', Join ms '', ''),
        (''Content-Type'', ''text/plain; charset=utf-8''), (''X-Content-Type-Options'', ''nosniff'')], rs_body = BytesBody (''Method Not Allowed'' @ [CHR 10])\<rparr>)
   | NoRoute \<Rightarrow> (s, \<lparr>rs_status = 404, rs_headers = [(''Content-Type'', ''text/plain; charset=utf-8''),
        (''X-Content-Type-Options'', ''nosniff'')], rs_body = BytesBody (''404 page not found'' @ [CHR 10])\<rparr>))"

lemmas route_tables = routes_def MountCatalog_def MountAdminWithDeps_def MountLibraryRoutes_def MountAdminHome_def
  parse_pattern_def parse_seg_def

lemma routes_register: "registers routes"
  by (simp add: registers_def route_tables conflict_def)

subsection \<open>The routes of a book\<close>

definition hex_id :: "string \<Rightarrow> bool" where
  "hex_id i \<longleftrightarrow> i \<noteq> [] \<and> list_all (\<lambda>c. hex_val c \<noteq> None) i"

lemma hex_val_not [simp]: "hex_val slash = None" "hex_val (CHR ''%'') = None" "hex_val (CHR ''.'') = None"
  by (simp_all add: hex_val_def is_digit_def)

lemma hex_id_chars: "hex_id i \<Longrightarrow> slash \<notin> set i \<and> CHR ''%'' \<notin> set i \<and> CHR ''.'' \<notin> set i"
  by (force simp: hex_id_def list_all_iff)

lemma unescape_plain: "CHR ''%'' \<notin> set s \<Longrightarrow> unescape s = Some s"
  by (induction s rule: unescape.induct) (auto split: list.splits)

lemma pathUnescape_plain: "CHR ''%'' \<notin> set s \<Longrightarrow> pathUnescape s = s"
  by (simp add: pathUnescape_def unescape_plain)

lemma hex_id_good: "hex_id i \<Longrightarrow> good_elem i"
  using hex_id_chars [of i] by (auto simp: good_elem_def hex_id_def)

lemma hex_id_not:
  assumes "hex_id i"
  shows "i \<noteq> ''libraries''" "i \<noteq> ''authors''" "i \<noteq> ''series''" "i \<noteq> ''genres''" "i \<noteq> ''search''" "i \<noteq> [slash]"
  using assms by (auto simp: hex_id_def hex_val_def is_digit_def)

lemma last_Join: "es \<noteq> [] \<Longrightarrow> last es \<noteq> [] \<Longrightarrow> Join es sep \<noteq> [] \<and> last (Join es sep) = last (last es)"
  by (induction es sep rule: Join.induct) auto

text \<open>A path of plain elements is clean, and its segments are the elements.\<close>

definition plain_elems :: "string list \<Rightarrow> bool" where
  "plain_elems es \<longleftrightarrow> es \<noteq> [] \<and> list_all (\<lambda>e. good_elem e \<and> CHR ''%'' \<notin> set e) es"

lemma plain_path:
  assumes "plain_elems es" and "p = slash # Join es [slash]"
  shows "cleanPath p = p" and "path_segs p = es" and "\<not> HasSuffix p [slash]"
proof -
  have es: "es \<noteq> []" "list_all good_elem es" "\<forall>e \<in> set es. CHR ''%'' \<notin> set e \<and> e \<noteq> []"
    using assms(1) by (auto simp: plain_elems_def list_all_iff good_elem_def)
  have "last es \<in> set es" using es(1) by simp
  then have l: "last es \<noteq> []" "slash \<notin> set (last es)" using es by (auto simp: list_all_iff good_elem_def)
  have "last (last es) \<in> set (last es)" using l(1) by simp
  then have "last (last es) \<noteq> slash" using l(2) by auto
  then have lp: "last p \<noteq> slash" using last_Join [OF es(1) l(1)] by (simp add: assms(2))
  then show "cleanPath p = p"
    using Clean_abs_elems [OF es(2)] by (simp add: assms(2) cleanPath_def IsAbs_def Let_def)
  show "\<not> HasSuffix p [slash]" using lp by (auto simp: suffix_def)
  have "Split (Join es [slash]) slash = es"
    using es by (intro Split_Join) (auto simp: list_all_iff good_elem_def)
  then show "path_segs p = es" using es by (auto simp: assms(2) path_segs_def pathUnescape_plain intro!: map_idI)
qed

lemma findHandler_plain:
  assumes "plain_elems es" and "p = slash # Join es [slash]" and "lookup (alive m rs) es = Some r"
  shows "findHandler rs m p = Handled (rt_handler r) (path_value (rt_segs r) es)"
  using plain_path [OF assms(1,2)] assms(3)
  by (simp add: findHandler_def match_def match_path_def or_else_def exactMatch_def)

lemmas alive_eval = alive_def route_tables after_def or_else_def

lemma serve_plain:
  assumes "plain_elems es" and "rq_path r = slash # Join es [slash]"
    and "lookup (alive (rq_method r) routes) es \<noteq> None"
  shows "serve E r s = (let q = the (lookup (alive (rq_method r) routes) es)
    in run_endpoint E (rt_handler q) r (path_value (rt_segs q) es) s)"
proof -
  from assms(3) obtain q where q: "lookup (alive (rq_method r) routes) es = Some q" by blast
  show ?thesis using findHandler_plain [OF assms(1,2) q] q by (simp add: serve_def)
qed

text \<open>
  The URLs the catalog hands out for a book with a hexadecimal id are routed to the cover,
  file and detail handlers with exactly this id; no literal route shadows them.
\<close>

theorem book_urls_route:
  assumes "hex_id i" and "rq_method r = ''GET''"
  shows "(rq_path r = ''/catalog/'' @ i @ ''/cover'' \<longrightarrow> serve E r s = (s, Cover (an_backend E) r i (as_db s))) \<and>
    (rq_path r = ''/catalog/'' @ i @ ''/file'' \<longrightarrow> serve E r s = (s, File (an_backend E) r i (as_db s))) \<and>
    (rq_path r = ''/catalog/'' @ i \<longrightarrow> serve E r s = (s, Detail (an_backend E) i (as_db s)))"
proof (intro conjI impI)
  have p: "plain_elems [''catalog'', i, ''cover'']" "plain_elems [''catalog'', i, ''file'']" "plain_elems [''catalog'', i]"
    using hex_id_good [OF assms(1)] hex_id_chars [OF assms(1)] by (simp_all add: plain_elems_def good_elem_def)
  note ev = assms(2) alive_eval hex_id_not [OF assms(1)] hex_id_not [OF assms(1), THEN not_sym]
  show "serve E r s = (s, Cover (an_backend E) r i (as_db s))" if "rq_path r = ''/catalog/'' @ i @ ''/cover''"
    by (subst serve_plain [OF p(1)]) (simp_all add: that ev run_endpoint_def)
  show "serve E r s = (s, File (an_backend E) r i (as_db s))" if "rq_path r = ''/catalog/'' @ i @ ''/file''"
    by (subst serve_plain [OF p(2)]) (simp_all add: that ev run_endpoint_def)
  show "serve E r s = (s, Detail (an_backend E) i (as_db s))" if "rq_path r = ''/catalog/'' @ i"
    by (subst serve_plain [OF p(3)]) (simp_all add: that ev run_endpoint_def)
qed

subsection \<open>What a request may change\<close>

lemma matched_route: "match routes m path = Some q \<Longrightarrow>
    q \<in> set routes \<and> (rt_method q = m \<or> m = ''HEAD'' \<and> rt_method q = ''GET'')"
  using match_path_spec(1) [OF routes_register]
  by (auto simp: match_def or_else_Some split: if_splits)

lemma findHandler_route: "findHandler routes m p = Handled h pv \<Longrightarrow>
    \<exists>q \<in> set routes. rt_handler q = h \<and> (rt_method q = m \<or> m = ''HEAD'' \<and> rt_method q = ''GET'')"
  using matched_route by (fastforce simp: findHandler_def Let_def split: if_splits option.splits)

definition reading :: "endpoint \<Rightarrow> bool" where
  "reading h \<longleftrightarrow> h \<notin> {Backfill, PutConfig, ScanAll, CreateLib, UpdateLib, DeleteLib, ScanLib}"

lemma routes_methods: "q \<in> set routes \<Longrightarrow> rt_method q = ''GET'' \<longleftrightarrow> reading (rt_handler q)"
  by (auto simp: route_tables reading_def)

lemma routes_no_head: "q \<in> set routes \<Longrightarrow> rt_method q \<noteq> ''HEAD''"
  by (auto simp: route_tables)

lemma on_db_eq: "on_db st s = (s\<lparr>as_db := fst (st (as_db s))\<rparr>, snd (st (as_db s)))"
  by (simp add: on_db_def split: prod.split)

lemma fst_answer [simp]: "fst (answer E st ok s) = s\<lparr>as_db := fst (st (as_db s))\<rparr>"
  by (simp add: answer_def on_db_eq split: sum.split)

lemma fst_row_answer [simp]: "fst (row_answer E st ok s) = s\<lparr>as_db := fst (st (as_db s))\<rparr>"
  by (simp add: row_answer_def on_db_eq split: sum.split)

lemma fst_scan_answer [simp]: "fst (scan_answer f s) = fst (f s)"
  by (simp add: scan_answer_def split: sum.split prod.split)

text \<open>The statements behind the reading endpoints leave the database alone.\<close>

lemma reading_statements [simp]:
  "fst (RecentScanEvents n d) = d" "fst (MetadataQueueStats d) = d" "fst (GetAppConfig d) = d"
  "fst (ListLibraryPaths coll d) = d" "fst (CatalogStats coll d) = d"
  by (simp_all add: RecentScanEvents_def MetadataQueueStats_def GetAppConfig_def ListLibraryPaths_def CatalogStats_def
      Let_def split: option.split)

lemma fst_diagnostics [simp]: "fst (handleDiagnostics E s) = s"
  by (simp add: handleDiagnostics_def Let_def on_db_eq split: sum.split)

lemma reading_endpoint: "reading h \<Longrightarrow> fst (run_endpoint E h r pv s) = s"
  by (cases h) (simp_all add: reading_def run_endpoint_def handle_scans_def handle_queue_def handle_get_config_def
      handle_list_libraries_def)

text \<open>
  No GET or HEAD request, to whatever path, changes the database or the configuration in
  memory.
\<close>

theorem get_changes_nothing:
  assumes "rq_method r = ''GET'' \<or> rq_method r = ''HEAD''"
  shows "fst (serve E r s) = s"
proof (cases "findHandler routes (rq_method r) (rq_path r)")
  case (Handled h pv)
  then obtain q where "q \<in> set routes" "rt_handler q = h" "rt_method q = ''GET''"
    using findHandler_route [OF Handled] assms routes_methods by (auto simp: routes_no_head)
  then have "reading h" using routes_methods by auto
  then show ?thesis by (simp add: serve_def Handled reading_endpoint)
qed (simp_all add: serve_def)


subsection \<open>The configuration\<close>

lemma put_config_ints: 
  assumes "dec_struct app_fields v zero_config = Some c"
  shows "ints_ok c"
proof -
  have z: "ints_ok zero_config" by (simp add: ints_ok_def zero_config_def int64_range_def min_int64_def max_int64_def)
  have f: "ints_ok r'" if "f \<in> snd ` set app_fields" "f v r = Some r'" "ints_ok r" for f v r r'
    using that by (auto simp: app_fields_def ints_ok_def intro: dec_int_range)
  from assms z show ?thesis
    by (auto simp: dec_struct_def split: json.splits intro: dec_members_inv [where P = ints_ok, OF f])
qed

lemma config_path: "plain_elems [''admin'', ''config'']" "plain_elems [''admin'', ''libraries'']"
  "plain_elems [''admin'', ''filesystem'', ''browse'']"
  by (simp_all add: plain_elems_def good_elem_def)

lemma serve_config:
  assumes "rq_path r = ''/admin/config''"
  shows "rq_method r = ''GET'' \<Longrightarrow> serve E r s = handle_get_config E s"
    and "rq_method r = ''PUT'' \<Longrightarrow> serve E r s = handle_put_config E r s"
  using assms by (simp_all add: serve_plain [OF config_path(1)] alive_eval run_endpoint_def)

lemma enc_coerce_config: "enc_app_config (coerce_config c) = enc_app_config c"
  by (simp add: enc_app_config_def coerce_config_def enc_strs_def enc_str_def)

lemma put_config_Some:
  assumes "handle_put_config E r s = (s', p)" and "rs_status p = 200"
  shows "\<exists>c d'. ints_ok c \<and> PutAppConfig c (as_db s) = (d', Ok ()) \<and>
     s' = s\<lparr>as_db := d', as_app_cfg := Some (WithDefaults c)\<rparr> \<and> p = writeJSON 200 (enc_app_config (WithDefaults c))"
proof -
  from assms obtain v c where v: "rq_body r = Some v" "dec_struct app_fields v zero_config = Some c"
    by (auto simp: handle_put_config_def adminError_def writeJSON_def bind_eq_Some_conv split: option.splits bind_splits)
  with assms obtain d' u where "PutAppConfig (WithDefaults c) (as_db s) = (d', Ok u)"
    "s' = s\<lparr>as_db := d', as_app_cfg := Some (WithDefaults c)\<rparr>" "p = writeJSON 200 (enc_app_config (WithDefaults c))"
    by (cases "PutAppConfig (WithDefaults c) (as_db s)")
      (auto simp: handle_put_config_def adminError_def writeJSON_def Let_def on_db_def split: option.splits sum.splits)
  then show ?thesis using put_config_ints [OF v(2)] by (intro exI [of _ c] exI [of _ d']) (simp add: PutAppConfig_def)
qed

text \<open>
  C23. After a PUT of the configuration was answered with 200, a GET returns the same document,
  and the configuration in memory is the valid one that document encodes.
\<close>

theorem config_put_get:
  assumes "serve E r s = (s', p)" and "rq_method r = ''PUT''" and "rs_status p = 200"
    and "rq_method g = ''GET''" and "rq_path r = ''/admin/config'' \<and> rq_path g = ''/admin/config''"
  shows "snd (serve E g s') = p \<and> (\<exists>c. as_app_cfg s' = Some c \<and> config_ok c \<and> rs_body p = JsonBody (enc_app_config c))"
proof -
  from assms serve_config [of r] obtain c d' where c: "ints_ok c" "PutAppConfig c (as_db s) = (d', Ok ())"
    "s' = s\<lparr>as_db := d', as_app_cfg := Some (WithDefaults c)\<rparr>" "p = writeJSON 200 (enc_app_config (WithDefaults c))"
    using put_config_Some by metis
  have "config_ok (WithDefaults c)" using PutAppConfig_Ok [OF c(2)] by simp
  moreover have "GetAppConfig d' = (d', Ok (coerce_config (WithDefaults c)))"
    using GetAppConfig_Put [OF c(1,2)] .
  ultimately show ?thesis using assms serve_config [of g] c(3,4)
    by (simp add: handle_get_config_def answer_def on_db_eq enc_coerce_config) (simp add: writeJSON_def)
qed

subsection \<open>Libraries over HTTP\<close>

lemma serve_create:
  assumes "rq_method r = ''POST''" and "rq_path r = ''/admin/libraries''"
  shows "serve E r s = handle_create_library E r s"
  using assms by (simp add: serve_plain [OF config_path(2)] alive_eval run_endpoint_def)

lemma adminError_status [simp]: "rs_status (adminError n t) = n"
  by (simp add: adminError_def writeJSON_def)

lemma CreateLibrary_cases:
  obtains (enc) "CreateLibrary inp d = (d, Err ErrEncoding)"
    | (dup) l where "CreateLibrary inp d = (d\<lparr>d_next_lib := d_next_lib d + 1\<rparr>, Err ErrDuplicatePath)"
        "l \<in> set (d_libs d)" "lp_path l = li_path inp"
    | (new) l where "CreateLibrary inp d = (insert_lib l d, Ok (d_next_lib d))" "lp_id l = d_next_lib d"
        "lp_path l = li_path inp" "lp_media_type l = li_media_type inp" "lp_name l = [] \<Longrightarrow> li_path inp = []"
        "li_path inp \<notin> lp_path ` set (d_libs d)"
proof (cases "list_all pg_text [li_path inp, if li_name inp = [] then li_path inp else li_name inp, li_media_type inp]")
  case True
  show ?thesis
  proof (cases "find_lib_path d (li_path inp)")
    case None
    show ?thesis
      by (rule new, unfold CreateLibrary_def Let_def, subst True, subst None)
        (use None in \<open>auto simp: new_lib_def find_lib_path_def find_None_iff' split: if_splits\<close>)
  next
    case (Some l)
    then have "l \<in> set (d_libs d) \<and> lp_path l = li_path inp" unfolding find_lib_path_def by (rule find_Some_iff')
    with True Some show ?thesis by (intro dup [of l]) (simp_all add: CreateLibrary_def Let_def)
  qed
qed (rule enc, simp only: CreateLibrary_def Let_def not_False_eq_True if_True)

text \<open>Either the request is turned down before the database is asked, or it is this statement.\<close>

lemma handle_create_cases:
  obtains msg where "handle_create_library E r s = (s, adminError 400 msg)"
  | path and b :: create_body where "NormalizePath (cb_path b) = Ok path" "ValidMediaType (cb_media_type b)" "an_dir_exists E path"
    "handle_create_library E r s = (case CreateLibrary \<lparr>li_path = path, li_name = cb_name b,
         li_media_type = cb_media_type b, li_enabled = cb_enabled b\<rparr> (as_db s) of
       (d, Inl e) \<Rightarrow> (s\<lparr>as_db := d\<rparr>, adminError (if e = ErrDuplicatePath then 409 else 500) (an_err E e))
     | (d, Inr i) \<Rightarrow> (s\<lparr>as_db := d\<rparr>, writeJSON 201 (JObj [(''id'', JNum i)])))"
proof -
  let ?body = "Option.bind (rq_body r) (\<lambda>v. dec_struct create_fields v
        \<lparr>cb_path = [], cb_name = [], cb_media_type = [], cb_enabled = False\<rparr>)"
  consider "?body = None" | b e where "?body = Some b" "NormalizePath (cb_path b) = Err e"
    | b path where "?body = Some b" "NormalizePath (cb_path b) = Ok path"
        "\<not> ValidMediaType (cb_media_type b)"
    | b path where "?body = Some b" "NormalizePath (cb_path b) = Ok path"
        "ValidMediaType (cb_media_type b)" "\<not> an_dir_exists E path"
    | b path where "?body = Some b" "NormalizePath (cb_path b) = Ok path"
        "ValidMediaType (cb_media_type b)" "an_dir_exists E path"
    by (cases ?body; metis sum.exhaust)
  then show ?thesis
  proof cases
    case (5 b path)
    show ?thesis
      by (rule that(2) [OF 5(2-4)]) (use 5 in \<open>simp add: handle_create_library_def on_db_def split: prod.split sum.split\<close>)
  qed (rule that(1), auto simp: handle_create_library_def)+
qed

text \<open>
  C24. POST /admin/libraries answers 201, 400, 409 or 500; only with 201 does the database
  change (but for the id sequence), and then by one library with a fresh id, an absolute clean
  path that exists and that no library had, a valid media type and a name.
\<close>

theorem create_library_spec:
  assumes "serve E r s = (s', p)" and "rq_method r = ''POST''" and "rq_path r = ''/admin/libraries''"
  shows "rs_status p \<in> {201, 400, 409, 500} \<and> as_app_cfg s' = as_app_cfg s \<and>
    (rs_status p \<noteq> 201 \<longrightarrow> (as_db s')\<lparr>d_next_lib := d_next_lib (as_db s)\<rparr> = as_db s) \<and>
    (rs_status p = 409 \<longrightarrow> (\<exists>l \<in> set (d_libs (as_db s)). IsAbs (lp_path l) \<and> Clean (lp_path l) = lp_path l)) \<and>
    (rs_status p = 201 \<longrightarrow> (\<exists>l. as_db s' = insert_lib l (as_db s) \<and> lp_id l = d_next_lib (as_db s) \<and>
       IsAbs (lp_path l) \<and> Clean (lp_path l) = lp_path l \<and> an_dir_exists E (lp_path l) \<and>
       lp_media_type l \<in> set MediaTypes \<and> lp_name l \<noteq> [] \<and> lp_path l \<notin> lp_path ` set (d_libs (as_db s))))"
proof (cases rule: handle_create_cases [of E r s])
  case (1 msg)
  then show ?thesis using assms(1) serve_create [OF assms(2,3)] by auto
next
  case (2 path b)
  have path: "IsAbs path" "Clean path = path"
    using 2(1) by (auto simp: NormalizePath_def Clean_abs Clean_idem_abs split: if_splits)
  then have path_ne: "path \<noteq> []" by (auto simp: IsAbs_def)
  let ?in = "\<lparr>li_path = path, li_name = cb_name b, li_media_type = cb_media_type b, li_enabled = cb_enabled b\<rparr>"
  note eq = assms(1) [unfolded serve_create [OF assms(2,3)] 2(4)]
  show ?thesis
  proof (cases rule: CreateLibrary_cases [of ?in "as_db s"])
    case enc
    with eq show ?thesis by auto
  next
    case dup
    with eq path show ?thesis by auto
  next
    case new
    with eq path path_ne 2(2,3) show ?thesis by (auto simp: writeJSON_def ValidMediaType_iff)
  qed
qed

subsection \<open>What the pages show\<close>

lemma escape_safe: "set (EscapeString s) \<inter> {CHR ''<'', CHR ''>'', CHR 0x22, CHR 0x27} = {}"
  by (induction s) (auto simp: EscapeString_def escape_char_def)

subsection \<open>Witnesses\<close>

definition demo_admin :: admin_env where
  "demo_admin = \<lparr>an_backend = demo_env, an_err = (\<lambda>e. ''error''), an_bad_json = (\<lambda>v. ''bad json''),
     an_time = (\<lambda>t. ''2026-01-01T00:00:00Z''), an_ping = None, an_dir_exists = (\<lambda>p. True), an_stat = (\<lambda>p. StatDir),
     an_readdir = (\<lambda>p. Some []), an_scan = (\<lambda>s. (s, Err ''store not configured'')),
     an_scan_one = (\<lambda>i s. (s, Err ''store not configured''))\<rparr>"

definition demo_request :: "string \<Rightarrow> string \<Rightarrow> json option \<Rightarrow> request" where
  "demo_request m p v = \<lparr>rq_method = m, rq_path = p, rq_query = (\<lambda>k. []), rq_header = (\<lambda>k. []), rq_body = v\<rparr>"

definition demo_state :: app_state where
  "demo_state = \<lparr>as_db = sample_db, as_app_cfg = Some DefaultAppConfig\<rparr>"

theorem book_urls_route_witness:
  "serve demo_admin (demo_request ''GET'' ''/catalog/b1/cover'' None) demo_state =
     (demo_state, Cover demo_env (demo_request ''GET'' ''/catalog/b1/cover'' None) ''b1'' sample_db)"
proof -
  have h: "hex_id ''b1''" by (simp add: hex_id_def hex_val_def is_digit_def)
  show ?thesis
    using book_urls_route [OF h, of "demo_request ''GET'' ''/catalog/b1/cover'' None" demo_admin demo_state]
    by (simp add: demo_request_def demo_state_def demo_admin_def)
qed

theorem get_changes_nothing_witness:
  "fst (serve demo_admin (demo_request ''HEAD'' ''/admin/libraries'' None) demo_state) = demo_state"
  by (rule get_changes_nothing) (simp add: demo_request_def)

theorem config_put_get_witness:
  "\<exists>s'. serve demo_admin (demo_request ''PUT'' ''/admin/config'' (Some JNull)) demo_state =
       (s', writeJSON 200 (enc_app_config DefaultAppConfig)) \<and>
     snd (serve demo_admin (demo_request ''GET'' ''/admin/config'' None) s') = writeJSON 200 (enc_app_config DefaultAppConfig)"
proof -
  let ?r = "demo_request ''PUT'' ''/admin/config'' (Some JNull)" and ?g = "demo_request ''GET'' ''/admin/config'' None"
  have w: "WithDefaults zero_config = DefaultAppConfig" by (simp add: WithDefaults_def zero_config_def DefaultAppConfig_def)
  have v: "Validate DefaultAppConfig = None"
    by (simp add: Validate_None) (simp add: config_ok_def DefaultAppConfig_def metadata_sources_def)
  have "jsonb_ok (enc_app_config DefaultAppConfig)"
    by (simp add: enc_app_config_def DefaultAppConfig_def metadata_sources_def enc_strs_def enc_str_def
        no_nul_def coerce_utf8_valid utf8_valid_ascii is_ascii_def)
  then have "PutAppConfig DefaultAppConfig sample_db = (sample_db\<lparr>d_app_config := Some (enc_app_config DefaultAppConfig)\<rparr>, Ok ())"
    by (simp add: PutAppConfig_def v)
  then have run: "serve demo_admin ?r demo_state =
      (demo_state\<lparr>as_db := sample_db\<lparr>d_app_config := Some (enc_app_config DefaultAppConfig)\<rparr>, as_app_cfg := Some DefaultAppConfig\<rparr>,
       writeJSON 200 (enc_app_config DefaultAppConfig))"
    by (subst serve_config(2)) (simp_all add: demo_request_def handle_put_config_def dec_struct_def w v on_db_def demo_state_def)
  show ?thesis
    using config_put_get [OF run, of ?g] run by (simp add: demo_request_def writeJSON_def)
qed

theorem create_library_spec_witness:
  "\<exists>s' p. serve demo_admin (demo_request ''POST'' ''/admin/libraries'' (Some (JObj
       [(''path'', JStr ''/c/''), (''media_type'', JStr ''book'')]))) demo_state = (s', p) \<and> rs_status p = 201 \<and>
     (\<exists>l. as_db s' = insert_lib l sample_db \<and> Clean (lp_path l) = lp_path l)"
proof -
  let ?r = "demo_request ''POST'' ''/admin/libraries'' (Some (JObj [(''path'', JStr ''/c/''), (''media_type'', JStr ''book'')]))"
  obtain s' p where e: "serve demo_admin ?r demo_state = (s', p)" by (cases "serve demo_admin ?r demo_state")
  have n: "NormalizePath ''/c/'' = Ok ''/c''"
    by (simp add: NormalizePath_def has_nul_def IsAbs_def Clean_def clean_elems_def clean_step_def)
  have c: "snd (CreateLibrary \<lparr>li_path = ''/c'', li_name = [], li_media_type = ''book'', li_enabled = False\<rparr> sample_db) = Ok 3"
    by (simp add: CreateLibrary_def Let_def pg_text_ascii find_lib_path_def sample_db_def sample_lib_def)
  have "rs_status p = 201"
    using e c by (subst (asm) serve_create)
      (auto simp: demo_request_def handle_create_library_def dec_struct_def find_field_def create_fields_def dec_str_def n
        ValidMediaType_iff MediaTypes_def demo_admin_def demo_state_def on_db_eq writeJSON_def)
  with create_library_spec [OF e] e show ?thesis by (auto simp: demo_request_def demo_state_def)
qed

end
