(* ===== verification/RuntimeConfig.thy ===== *)
theory RuntimeConfig
  imports Tokens AppConfig
begin

text \<open>
  The Runtime RPC (\<open>internal/runtime/runtime.go\<close>): the host's configuration entries are decoded
  into \<open>config\<close>, completed with defaults, validated, handed to the callback of the wiring, and kept
  when that succeeded. A value is what \<open>structpb.Struct.AsMap\<close> gives; a number is a \<open>float64\<close>, a
  fraction with a positive denominator as in \<open>Tokens\<close>.
\<close>

datatype any = ANil | ABool bool | ANum int int | AStr string | AArr "any list" | AMap "(string \<times> any) list"

record library_config =
  lbc_path :: string
  lbc_name :: string
  lbc_media_type :: string

record config =
  cf_database_url :: string
  cf_library_paths :: "string list"
  cf_libraries :: "library_config list"
  cf_listen :: string
  cf_secret :: string
  cf_sources :: "string list"
  cf_region :: string
  cf_ttl_days :: int
  cf_rps :: int
  cf_inline :: bool
  cf_scan_source :: string
  cf_google_key :: string
  cf_isbndb_key :: string
  cf_hardcover_key :: string

definition zero_cfg :: config where
  "zero_cfg = \<lparr>cf_database_url = [], cf_library_paths = [], cf_libraries = [], cf_listen = [], cf_secret = [],
     cf_sources = [], cf_region = [], cf_ttl_days = 0, cf_rps = 0, cf_inline = False, cf_scan_source = [],
     cf_google_key = [], cf_isbndb_key = [], cf_hardcover_key = []\<rparr>"

subsection \<open>Decoding\<close>

definition stringFrom :: "any \<Rightarrow> string" where
  "stringFrom v = (case v of AStr s \<Rightarrow> s | _ \<Rightarrow> [])"

definition nonempty_string :: "any \<Rightarrow> string option" where
  "nonempty_string v = (case v of AStr s \<Rightarrow> if s \<noteq> [] then Some s else None | _ \<Rightarrow> None)"

definition stringSliceFrom :: "any \<Rightarrow> string list" where
  "stringSliceFrom v = (case v of AArr vs \<Rightarrow> List.map_filter nonempty_string vs | _ \<Rightarrow> [])"

definition member :: "(string \<times> any) list \<Rightarrow> string \<Rightarrow> any" where
  "member ms k = (case map_of ms k of Some v \<Rightarrow> v | None \<Rightarrow> ANil)"

definition library_entry :: "any \<Rightarrow> library_config option" where
  "library_entry v = (case v of
     AStr s \<Rightarrow> if s \<noteq> [] then Some \<lparr>lbc_path = s, lbc_name = [], lbc_media_type = []\<rparr> else None
   | AMap ms \<Rightarrow> (let path = stringFrom (member ms ''path'') in
       if path = [] then None
       else Some \<lparr>lbc_path = path, lbc_name = stringFrom (member ms ''name''),
              lbc_media_type = stringFrom (member ms ''media_type'')\<rparr>)
   | _ \<Rightarrow> None)"

definition libraryConfigsFrom :: "any \<Rightarrow> library_config list" where
  "libraryConfigsFrom v = (case v of AArr vs \<Rightarrow> List.map_filter library_entry vs | _ \<Rightarrow> [])"

definition intFrom :: "any \<Rightarrow> int" where
  "intFrom v = (case v of ANum p q \<Rightarrow> int_of_float (p, q) | _ \<Rightarrow> 0)"

definition boolFrom :: "any \<Rightarrow> bool" where
  "boolFrom v = (case v of ABool b \<Rightarrow> b | _ \<Rightarrow> False)"

text \<open>An entry without a value is skipped; an unknown key changes nothing.\<close>

definition config_entry :: "config \<Rightarrow> string \<times> (string \<times> any) list option \<Rightarrow> config" where
  "config_entry c e = (case snd e of None \<Rightarrow> c | Some ms \<Rightarrow>
     (let k = fst e; v = member ms ''value'' in
      if k = ''database_url'' then c\<lparr>cf_database_url := stringFrom v\<rparr>
      else if k = ''library_paths'' then c\<lparr>cf_library_paths := stringSliceFrom v, cf_libraries := libraryConfigsFrom v\<rparr>
      else if k = ''standalone_http_listen'' then c\<lparr>cf_listen := stringFrom v\<rparr>
      else if k = ''stream_signing_secret'' then c\<lparr>cf_secret := stringFrom v\<rparr>
      else if k = ''metadata_sources_enabled'' then c\<lparr>cf_sources := stringSliceFrom v\<rparr>
      else if k = ''metadata_default_region'' then c\<lparr>cf_region := stringFrom v\<rparr>
      else if k = ''metadata_cache_ttl_days'' then c\<lparr>cf_ttl_days := intFrom v\<rparr>
      else if k = ''metadata_rate_limit_rps'' then c\<lparr>cf_rps := intFrom v\<rparr>
      else if k = ''scan_inline_enrich'' then c\<lparr>cf_inline := boolFrom v\<rparr>
      else if k = ''metadata_scan_source'' then c\<lparr>cf_scan_source := stringFrom v\<rparr>
      else if k = ''googlebooks_api_key'' then c\<lparr>cf_google_key := stringFrom v\<rparr>
      else if k = ''isbndb_api_key'' then c\<lparr>cf_isbndb_key := stringFrom v\<rparr>
      else if k = ''hardcover_api_key'' then c\<lparr>cf_hardcover_key := stringFrom v\<rparr>
      else c))"

subsection \<open>Defaults and validation\<close>

definition library_fallback :: "config \<Rightarrow> config" where
  "library_fallback c = (if cf_libraries c = [] then c\<lparr>cf_libraries :=
     map (\<lambda>p. \<lparr>lbc_path = p, lbc_name = [], lbc_media_type = []\<rparr>) (cf_library_paths c)\<rparr> else c)"

definition config_defaults :: "config \<Rightarrow> config" where
  "config_defaults c = c\<lparr>
     cf_region := (if cf_region c = [] then ''us'' else cf_region c),
     cf_ttl_days := (if cf_ttl_days c = 0 then 30 else cf_ttl_days c),
     cf_rps := (if cf_rps c = 0 then 5 else cf_rps c),
     cf_scan_source := (if cf_scan_source c = [] then ''openlibrary'' else cf_scan_source c),
     cf_sources := (if cf_sources c = [] then metadata_sources else cf_sources c)\<rparr>"

record 's runtime_server =
  rs_config :: config
  rs_wiring :: 's

definition Configure :: "(config \<Rightarrow> 's \<Rightarrow> 's \<times> string option) \<Rightarrow> (string \<times> (string \<times> any) list option) list \<Rightarrow>
    's runtime_server \<Rightarrow> 's runtime_server \<times> (string, unit) res" where
  "Configure onCfg entries s =
    (let cfg = foldl config_entry zero_cfg entries in
     if cf_database_url cfg = [] then (s, Err ''database_url is required'')
     else let cfg = config_defaults (library_fallback cfg) in
       if cf_scan_source cfg \<notin> set metadata_sources
       then (s, Err (''metadata_scan_source is not a valid scan-capable source: '' @ cf_scan_source cfg))
       else (case onCfg cfg (rs_wiring s) of
           (w, Some e) \<Rightarrow> (s\<lparr>rs_wiring := w\<rparr>, Err e)
         | (w, None) \<Rightarrow> (s\<lparr>rs_wiring := w, rs_config := cfg\<rparr>, Ok ())))"

definition Snapshot :: "'s runtime_server \<Rightarrow> config" where
  "Snapshot s = rs_config s"

text \<open>What is logged of a configuration.\<close>

definition mask :: "string \<Rightarrow> string" where
  "mask s = (if s = [] then [] else ''***redacted***'')"

datatype log_value = LogString string | LogStrings "string list"

definition LogValue :: "config \<Rightarrow> (string \<times> log_value) list" where
  "LogValue c = [(''database_url'', LogString (mask (cf_database_url c))), (''library_paths'', LogStrings (cf_library_paths c)),
     (''standalone_http_listen'', LogString (cf_listen c)), (''stream_signing_secret'', LogString (mask (cf_secret c))),
     (''metadata_sources_enabled'', LogStrings (cf_sources c)), (''metadata_default_region'', LogString (cf_region c)),
     (''google_books_api_key'', LogString (mask (cf_google_key c))), (''isbndb_api_key'', LogString (mask (cf_isbndb_key c))),
     (''hardcover_api_key'', LogString (mask (cf_hardcover_key c)))]"

subsection \<open>What an accepted configuration is\<close>

text \<open>The libraries are never empty when there are paths, so the fallback has nothing to do.\<close>

lemma map_filter_Nil: "List.map_filter f vs = [] \<longleftrightarrow> (\<forall>v \<in> set vs. f v = None)"
  by (induction vs) (auto simp: List.map_filter_simps split: option.splits)

lemma paths_give_libraries: "libraryConfigsFrom v = [] \<Longrightarrow> stringSliceFrom v = []"
  by (auto simp: libraryConfigsFrom_def stringSliceFrom_def map_filter_Nil library_entry_def nonempty_string_def
      split: any.splits if_splits)

definition decoded :: "config \<Rightarrow> bool" where
  "decoded c \<longleftrightarrow> (cf_libraries c = [] \<longrightarrow> cf_library_paths c = []) \<and> [] \<notin> lbc_path ` set (cf_libraries c)"

lemma libraries_named: "[] \<notin> lbc_path ` set (libraryConfigsFrom v)"
  by (auto simp: libraryConfigsFrom_def List.map_filter_def library_entry_def Let_def split: any.splits if_splits)

lemma config_entry_decoded: "decoded c \<Longrightarrow> decoded (config_entry c e)"
  using libraries_named by (auto simp: config_entry_def decoded_def Let_def paths_give_libraries split: option.split)

lemma entries_decoded: "decoded (foldl config_entry zero_cfg es)"
proof -
  have "decoded c \<Longrightarrow> decoded (foldl config_entry c es)" for c
    by (induction es arbitrary: c) (simp_all add: config_entry_decoded)
  then show ?thesis by (simp add: decoded_def zero_cfg_def)
qed

lemma library_fallback_dead: "library_fallback (foldl config_entry zero_cfg es) = foldl config_entry zero_cfg es"
  using entries_decoded [of es] by (simp add: library_fallback_def decoded_def)

definition config_valid :: "config \<Rightarrow> bool" where
  "config_valid c \<longleftrightarrow> cf_database_url c \<noteq> [] \<and> cf_region c \<noteq> [] \<and> cf_ttl_days c \<noteq> 0 \<and> cf_rps c \<noteq> 0 \<and>
     cf_sources c \<noteq> [] \<and> cf_scan_source c \<in> set metadata_sources \<and> [] \<notin> lbc_path ` set (cf_libraries c)"

lemma config_defaults_valid:
  assumes "decoded c" and "cf_database_url c \<noteq> []" and "cf_scan_source (config_defaults c) \<in> set metadata_sources"
  shows "config_valid (config_defaults c)"
  using assms by (simp add: config_valid_def config_defaults_def decoded_def)

text \<open>
  C18. A configuration call that succeeds keeps a configuration with a database URL, a region, a
  TTL, a rate, at least one source, a known scan source and a path for every library, exactly
  the one it handed to the callback; when decoding, validation or the callback fails, the
  configuration kept before stays in force.
\<close>

theorem Configure_spec:
  assumes "Configure onCfg es s = (s', r)"
  shows "(is_ok r \<longrightarrow> config_valid (Snapshot s') \<and> Snapshot s' = config_defaults (foldl config_entry zero_cfg es) \<and>
      onCfg (Snapshot s') (rs_wiring s) = (rs_wiring s', None)) \<and>
    (\<not> is_ok r \<longrightarrow> Snapshot s' = Snapshot s)"
proof -
  let ?c = "foldl config_entry zero_cfg es"
  have v: "cf_database_url ?c \<noteq> [] \<Longrightarrow> cf_scan_source (config_defaults ?c) \<in> set metadata_sources \<Longrightarrow>
      config_valid (config_defaults ?c)" by (rule config_defaults_valid [OF entries_decoded])
  show ?thesis
    using assms v by (auto simp: Configure_def Let_def library_fallback_dead Snapshot_def split: if_splits prod.splits option.splits)
qed

text \<open>The secret and the database URL leave no trace in the log but that they are set.\<close>

lemma secrets_not_logged:
  assumes "cf_secret c \<noteq> []" and "cf_database_url c \<noteq> []"
  shows "LogValue c = LogValue (c\<lparr>cf_secret := x # y, cf_database_url := u # v\<rparr>)"
  using assms by (simp add: LogValue_def mask_def)

theorem Configure_spec_witness:
  "\<exists>s'. Configure (\<lambda>c w. (Suc w, None)) [(''database_url'', Some [(''value'', AStr ''postgres://x'')])]
       \<lparr>rs_config = zero_cfg, rs_wiring = 0\<rparr> = (s', Ok ()) \<and> config_valid (Snapshot s')"
proof -
  let ?es = "[(''database_url'', Some [(''value'', AStr ''postgres://x'')])]"
  obtain s' r where e: "Configure (\<lambda>c w. (Suc w, None)) ?es \<lparr>rs_config = zero_cfg, rs_wiring = 0\<rparr> = (s', r)"
    by (cases "Configure (\<lambda>c w. (Suc w, None)) ?es \<lparr>rs_config = zero_cfg, rs_wiring = 0\<rparr>")
  have "r = Ok ()"
    using e by (simp add: Configure_def config_entry_def zero_cfg_def member_def stringFrom_def config_defaults_def
        library_fallback_def metadata_sources_def)
  moreover from this Configure_spec [OF e] have "config_valid (Snapshot s')" by (metis is_ok_simps(1))
  ultimately show ?thesis using e by blast
qed

end
