(* ===== verification/HttpRoutes.thy ===== *)
theory HttpRoutes
  imports AdminHttp RuntimeConfig GoUrl
begin

text \<open>
  The two ways a request reaches the handlers (\<open>internal/httproutes/server.go\<close>): \<open>ServeHTTP\<close> for a
  listener of its own, which strips the headers the host is trusted with, and \<open>Handle\<close> for a request
  the host forwards over gRPC, which is rebuilt, replayed against a recorder and answered with what was
  recorded. A handler that panics answers \<open>None\<close>.
\<close>

type_synonym 's handler = "request \<Rightarrow> 's \<Rightarrow> 's \<times> response option"

subsection \<open>The listener\<close>

definition not_ready :: response where
  "not_ready = \<lparr>rs_status = 503, rs_headers = [(''Content-Type'', ''application/json'')],
     rs_body = JsonBody (JObj [(''error'', JObj [(''code'', JStr ''not_ready''), (''message'', JStr ''plugin not configured'')])])\<rparr>"

definition silo_header :: "uni \<Rightarrow> string \<Rightarrow> bool" where
  "silo_header u k \<longleftrightarrow> HasPrefix (ToLower u k) ''x-silo-''"

definition strip_silo :: "uni \<Rightarrow> header \<Rightarrow> header" where
  "strip_silo u hs = foldl (\<lambda>hs k. if silo_header u k then header_del k hs else hs) hs (map fst hs)"

definition ServeHTTP :: "uni \<Rightarrow> 's handler option \<Rightarrow> request \<Rightarrow> header \<Rightarrow> 's \<Rightarrow> 's \<times> response option" where
  "ServeHTTP u H r hs s = (case H of
     None \<Rightarrow> (s, Some not_ready)
   | Some h \<Rightarrow> h (r\<lparr>rq_header := header_get (strip_silo u hs)\<rparr>) s)"

subsection \<open>Requests of the host\<close>

record host_request =
  hq_method :: string
  hq_path :: string
  hq_query :: "(string \<times> any) list option"
  hq_headers :: header
  hq_body :: string

record host_answer =
  ha_status :: int
  ha_headers :: header
  ha_body :: string

text \<open>The printing of a \<open>float64\<close> with the fewest digits, the syntax of an authority, and JSON and
  bodies as bytes.\<close>

record host_env =
  he_number :: "int \<Rightarrow> int \<Rightarrow> string"
  he_authority :: "string \<Rightarrow> bool"
  he_json :: "string \<Rightarrow> json option"
  he_bytes :: "body \<Rightarrow> string"

definition maxBodyBytes :: nat where
  "maxBodyBytes = 8 * 2 ^ 20"

definition maxAnswerBytes :: nat where
  "maxAnswerBytes = 64 * 2 ^ 20"

definition isHTTPToken :: "string \<Rightarrow> bool" where
  "isHTTPToken s \<longleftrightarrow> s \<noteq> [] \<and> list_all token_char s"

definition quoted :: "string \<Rightarrow> string" where
  "quoted s = CHR 0x22 # s @ [CHR 0x22]"

definition errResponse :: "int \<Rightarrow> string \<Rightarrow> host_answer" where
  "errResponse st msg = \<lparr>ha_status = st, ha_headers = [(''Content-Type'', ''application/json'')],
     ha_body = ''{'' @ quoted ''error'' @ '':{'' @ quoted ''message'' @ '':'' @ quoted msg @ ''}}''\<rparr>"

definition query_text :: "host_env \<Rightarrow> any \<Rightarrow> string option" where
  "query_text E v = (case v of
     AStr s \<Rightarrow> Some s
   | ANum p q \<Rightarrow> Some (he_number E p q)
   | ABool b \<Rightarrow> Some (if b then ''true'' else ''false'')
   | _ \<Rightarrow> None)"

definition query_values :: "host_env \<Rightarrow> (string \<times> any) list \<Rightarrow> (string \<times> string) list" where
  "query_values E fs = List.map_filter (\<lambda>x. map_option (Pair (fst x)) (query_text E (snd x))) fs"

definition raw_query :: "host_env \<Rightarrow> host_request \<Rightarrow> string" where
  "raw_query E q = (case hq_query q of None \<Rightarrow> [] | Some fs \<Rightarrow> Encode (query_values E fs))"

definition host_method :: "host_request \<Rightarrow> string" where
  "host_method q = (if hq_method q = [] then ''GET'' else hq_method q)"

definition host_header :: "host_request \<Rightarrow> header" where
  "host_header q = foldl (\<lambda>hs x. header_set (fst x) (snd x) hs) [] (hq_headers q)"

definition recorded :: "host_env \<Rightarrow> response \<Rightarrow> host_answer" where
  "recorded E r = \<lparr>ha_status = rs_status r, ha_headers = rs_headers r,
     ha_body = take maxAnswerBytes (he_bytes E (rs_body r))\<rparr>"

definition Handle :: "host_env \<Rightarrow> 's handler option \<Rightarrow> host_request \<Rightarrow> 's \<Rightarrow> 's \<times> host_answer" where
  "Handle E H q s = (case H of
     None \<Rightarrow> (s, recorded E not_ready)
   | Some h \<Rightarrow>
       if length (hq_body q) > maxBodyBytes then (s, errResponse 413 ''request body too large'')
       else if \<not> isHTTPToken (host_method q) then (s, errResponse 400 ''invalid method'')
       else (case reparsed_path (he_authority E) (hq_path q) of
           None \<Rightarrow> (s, errResponse 400 ''invalid request'')
         | Some p \<Rightarrow> (case h \<lparr>rq_method = host_method q, rq_path = p, rq_query = value_get (ParseQuery (raw_query E q)),
                rq_header = header_get (host_header q), rq_body = he_json E (hq_body q)\<rparr> s of
               (s, None) \<Rightarrow> (s, errResponse 500 ''internal error'')
             | (s, Some r) \<Rightarrow> (s, recorded E r))))"

subsection \<open>No trusted header from the listener\<close>

definition canonical :: "header \<Rightarrow> bool" where
  "canonical hs \<longleftrightarrow> (\<forall>x \<in> set hs. CanonicalMIMEHeaderKey (fst x) = fst x)"

lemma strip_from: "header_get (foldl (\<lambda>hs k. if silo_header u k then header_del k hs else hs) hs ks) k =
    (if \<exists>j \<in> set ks. silo_header u j \<and> CanonicalMIMEHeaderKey j = CanonicalMIMEHeaderKey k then [] else header_get hs k)"
  by (induction ks arbitrary: hs) (auto simp: header_get_del)

lemma absent_header: "CanonicalMIMEHeaderKey k \<notin> fst ` set hs \<Longrightarrow> header_get hs k = []"
  by (simp add: header_get_def value_get_def map_of_eq_None_iff [THEN iffD2])

text \<open>
  C1. Behind the listener the handler never sees a header whose name begins with X-Silo-, in any
  case; every other header it sees as it was sent.
\<close>

theorem ServeHTTP_strips:
  assumes "canonical hs"
  shows "ServeHTTP u (Some h) r hs s = h (r\<lparr>rq_header := (\<lambda>k. if silo_header u (CanonicalMIMEHeaderKey k) then []
      else header_get hs k)\<rparr>) s"
proof -
  have "header_get (strip_silo u hs) k = (if silo_header u (CanonicalMIMEHeaderKey k) then [] else header_get hs k)" for k
    using assms absent_header [of k hs]
    by (cases "CanonicalMIMEHeaderKey k \<in> fst ` set hs") (auto simp: strip_silo_def strip_from canonical_def)
  then have "header_get (strip_silo u hs) = (\<lambda>k. if silo_header u (CanonicalMIMEHeaderKey k) then [] else header_get hs k)"
    by (rule ext)
  then show ?thesis by (simp add: ServeHTTP_def)
qed

subsection \<open>A forwarded request is a plain one\<close>

definition last_header :: "header \<Rightarrow> string \<Rightarrow> string" where
  "last_header hs k = (case find (\<lambda>x. CanonicalMIMEHeaderKey (fst x) = CanonicalMIMEHeaderKey k) (rev hs) of
     None \<Rightarrow> [] | Some x \<Rightarrow> snd x)"

lemma host_header_get: "header_get (host_header q) k = last_header (hq_headers q) k"
proof -
  have "header_get (foldl (\<lambda>hs x. header_set (fst x) (snd x) hs) [] hs) k = last_header hs k" for hs
    by (induction hs rule: rev_induct)
      (auto simp: last_header_def header_get_set find_append, simp add: header_get_def value_get_def)
  then show ?thesis by (simp add: host_header_def)
qed

definition scalar :: "host_env \<Rightarrow> host_request \<Rightarrow> string \<Rightarrow> string" where
  "scalar E q k = (case Option.bind (hq_query q) (\<lambda>fs. Option.bind (map_of fs k) (query_text E)) of
     None \<Rightarrow> [] | Some t \<Rightarrow> t)"

lemma query_values_keys: "distinct (map fst fs) \<Longrightarrow> distinct (map fst (query_values E fs))"
  "fst ` set (query_values E fs) \<subseteq> fst ` set fs"
proof -
  show sub: "fst ` set (query_values E fs) \<subseteq> fst ` set fs" for fs
    by (force simp: query_values_def List.map_filter_def)
  show "distinct (map fst fs) \<Longrightarrow> distinct (map fst (query_values E fs))"
  proof (induction fs)
    case (Cons x fs)
    with sub [of fs] show ?case
      by (auto simp: query_values_def List.map_filter_simps split: option.split)
  qed (simp add: query_values_def List.map_filter_simps)
qed

lemma query_values_map: "distinct (map fst fs) \<Longrightarrow> map_of (query_values E fs) k = Option.bind (map_of fs k) (query_text E)"
proof (induction fs)
  case (Cons x fs)
  have eq: "query_values E (x # fs) = (case query_text E (snd x) of None \<Rightarrow> query_values E fs | Some t \<Rightarrow> (fst x, t) # query_values E fs)"
    by (simp add: query_values_def List.map_filter_simps split: option.split)
  have "map_of (query_values E fs) (fst x) = None"
    using Cons.prems query_values_keys(2) [of E fs] by (auto simp: map_of_eq_None_iff)
  with Cons eq show ?case by (cases x) (auto split: option.split)
qed (simp add: query_values_def List.map_filter_simps)

lemma forwarded_query:
  assumes "\<And>fs. hq_query q = Some fs \<Longrightarrow> distinct (map fst fs)"
  shows "value_get (ParseQuery (raw_query E q)) k = scalar E q k"
proof (cases "hq_query q")
  case None
  then show ?thesis by (simp add: raw_query_def scalar_def ParseQuery_def parse_pair_def List.map_filter_simps value_get_def)
next
  case (Some fs)
  with assms have d: "distinct (map fst fs)" by blast
  then show ?thesis using Some value_get_Encode [OF query_values_keys(1) [OF d]]
    by (simp add: raw_query_def scalar_def value_get_def query_values_map)
qed

text \<open>
  C2. What Handle answers to every request once a handler is configured, the query being a map
  with distinct names: 413 for a body of more than 8 MiB, else 400 for a method that is no
  token, else 400 for a path that does not parse as a URL, and else what the handler answers to
  the plain request, 500 when it panics: same method (GET when empty), same body, the last value
  of each header, for each query parameter the text of its scalar, although the query goes
  through Encode and ParseQuery, and the path that parsing leaves. That is the path itself,
  escaped, when it begins with exactly one slash; of //x/p only /p is left when x is a host
  name, and nothing parses when x is none.
\<close>

theorem Handle_forwards:
  assumes "\<And>fs. hq_query q = Some fs \<Longrightarrow> distinct (map fst fs)"
    and "answered = (\<lambda>p. case h \<lparr>rq_method = (if hq_method q = [] then ''GET'' else hq_method q), rq_path = p,
          rq_query = scalar E q, rq_header = last_header (hq_headers q), rq_body = he_json E (hq_body q)\<rparr> s of
        (s, None) \<Rightarrow> (s, errResponse 500 ''internal error'') | (s, Some r) \<Rightarrow> (s, recorded E r))"
  shows "Handle E (Some h) q s =
      (if 8 * 1024 * 1024 < length (hq_body q) then (s, errResponse 413 ''request body too large'')
       else if \<not> list_all token_char (hq_method q) then (s, errResponse 400 ''invalid method'')
       else case reparsed_path (he_authority E) (hq_path q) of
           None \<Rightarrow> (s, errResponse 400 ''invalid request'') | Some p \<Rightarrow> answered p) \<and>
    (rooted (hq_path q) \<longrightarrow> reparsed_path (he_authority E) (hq_path q) = Some (path_escape (hq_path q))) \<and>
    (\<forall>x p. hq_path q = ''//'' @ x @ slash # p \<and> x \<noteq> [] \<and> slash \<notin> set x \<longrightarrow>
       reparsed_path (he_authority E) (hq_path q) = (if he_authority E (path_escape x) then Some (path_escape (slash # p)) else None))"
proof -
  have q: "value_get (ParseQuery (raw_query E q)) = scalar E q" using forwarded_query [OF assms(1)] by blast
  have h: "header_get (host_header q) = last_header (hq_headers q)" using host_header_get by blast
  have m: "isHTTPToken (host_method q) \<longleftrightarrow> list_all token_char (hq_method q)"
    by (simp add: isHTTPToken_def host_method_def token_char_def)
  have "Handle E (Some h) q s =
      (if 8 * 1024 * 1024 < length (hq_body q) then (s, errResponse 413 ''request body too large'')
       else if \<not> list_all token_char (hq_method q) then (s, errResponse 400 ''invalid method'')
       else case reparsed_path (he_authority E) (hq_path q) of
           None \<Rightarrow> (s, errResponse 400 ''invalid request'') | Some p \<Rightarrow> answered p)"
    unfolding Handle_def assms(2) q h m host_method_def [symmetric] by (simp add: maxBodyBytes_def)
  then show ?thesis using reparsed_rooted [of "hq_path q"] reparsed_double by (simp add: path_escape_slash)
qed

text \<open>A second slash at the front makes the first segment a host name, which no route looks at.\<close>

theorem double_slash_hides_segment:
  assumes "slash \<notin> set x" and "x \<noteq> []" and "he_authority E (path_escape x)" and "rooted (slash # p)"
  shows "Handle E H (q\<lparr>hq_path := ''//'' @ x @ slash # p\<rparr>) s = Handle E H (q\<lparr>hq_path := slash # p\<rparr>) s"
  using reparsed_double [OF assms(1,2), of "he_authority E" p] reparsed_rooted [OF assms(4)] assms(3)
  by (cases H) (simp_all add: Handle_def host_method_def raw_query_def host_header_def path_escape_slash)

text \<open>The handlers see nothing but requests.\<close>

lemma Handle_state: "fst (Handle E (Some h) q s) = s \<or> (\<exists>r. fst (Handle E (Some h) q s) = fst (h r s))"
  by (auto simp: Handle_def split: option.split prod.split) (metis fst_conv)+

subsection \<open>Witnesses\<close>

definition sample_host :: host_env where
  "sample_host = \<lparr>he_number = (\<lambda>p q. Itoa (p div q)), he_authority = (\<lambda>a. True), he_json = (\<lambda>s. None),
     he_bytes = (\<lambda>b. case b of BytesBody t \<Rightarrow> t | _ \<Rightarrow> [])\<rparr>"

text \<open>A handler that answers with the header and the query parameter it was asked for, and counts its calls.\<close>

definition echo :: "nat handler" where
  "echo r n = (Suc n, Some \<lparr>rs_status = 200, rs_headers = [],
     rs_body = BytesBody (rq_header r ''X-Silo-User'' @ rq_header r ''Accept'' @ rq_query r ''limit'')\<rparr>)"

lemma demo_keys: "CanonicalMIMEHeaderKey ''X-Silo-User'' = ''X-Silo-User''" "CanonicalMIMEHeaderKey ''Accept'' = ''Accept''"
  "CanonicalMIMEHeaderKey ''x-silo-user'' = ''X-Silo-User''"
  by (simp_all add: CanonicalMIMEHeaderKey_def token_char_def upper_byte_def lower_byte_def is_lower_def is_upper_def
      char_of_def bit_0 Let_def)

theorem ServeHTTP_strips_witness:
  "ServeHTTP \<lparr>u_lower = (\<lambda>s. s), u_fold = (=)\<rparr> (Some echo)
      \<lparr>rq_method = ''GET'', rq_path = ''/'', rq_query = (\<lambda>k. []), rq_header = (\<lambda>k. []), rq_body = None\<rparr>
      [(''X-Silo-User'', ''root''), (''Accept'', ''a'')] 0 =
    (1, Some \<lparr>rs_status = 200, rs_headers = [], rs_body = BytesBody ''a''\<rparr>)"
proof -
  have c: "canonical [(''X-Silo-User'', ''root''), (''Accept'', ''a'')]" by (simp add: canonical_def demo_keys)
  show ?thesis unfolding ServeHTTP_strips [OF c]
    by (simp add: echo_def demo_keys silo_header_def header_get_def value_get_def ToLower_def is_ascii_def
        lower_byte_def is_upper_def char_of_def bit_0)
qed

theorem Handle_forwards_witness:
  "Handle sample_host (Some echo) \<lparr>hq_method = [], hq_path = ''/catalog'', hq_query = Some [(''limit'', ANum 20 1)],
      hq_headers = [(''x-silo-user'', ''u'')], hq_body = []\<rparr> 0 =
    (1, \<lparr>ha_status = 200, ha_headers = [], ha_body = ''u20''\<rparr>)"
proof -
  let ?q = "\<lparr>hq_method = [], hq_path = ''/catalog'', hq_query = Some [(''limit'', ANum 20 1)],
      hq_headers = [(''x-silo-user'', ''u'')], hq_body = []\<rparr>"
  have "rooted (hq_path ?q)" by (simp add: rooted_def prefix_def)
  with Handle_forwards [of ?q _ sample_host echo 0, OF _ refl] show ?thesis
    by (simp add: echo_def recorded_def sample_host_def scalar_def query_text_def last_header_def demo_keys
        maxAnswerBytes_def Itoa_def nat_digits.simps digit_def char_of_def bit_0)
qed

end
