(* ===== verification/Mobi.thy ===== *)
theory Mobi
  imports EbookParse
begin

text \<open>
  The MOBI/AZW/AZW3 header parser (\<open>internal/ebookparse/mobi.go\<close>): untrusted bytes, 32-bit
  offsets read from the file, slices that panic when they leave the buffer. A slice is \<open>None\<close> when
  Go would panic, \<open>uint32\<close> arithmetic wraps with \<open>u32\<close>, and the widened \<open>int64\<close> comparisons are
  on unbounded integers (their operands are below \<open>2 ^ 34\<close>).
\<close>

subsection \<open>Bytes\<close>

abbreviation len :: "'a list \<Rightarrow> int" where
  "len xs \<equiv> int (length xs)"

definition u32 :: "int \<Rightarrow> int" where
  "u32 x = x mod 2 ^ 32"

definition slice :: "string \<Rightarrow> int \<Rightarrow> int \<Rightarrow> string option" where
  "slice data lo hi = (if 0 \<le> lo \<and> lo \<le> hi \<and> hi \<le> len data
     then Some (take (nat (hi - lo)) (drop (nat lo) data)) else None)"

definition big_endian :: "string \<Rightarrow> int" where
  "big_endian b = foldl (\<lambda>a c. a * 256 + int (code c)) 0 b"

definition trim_right_nul :: "string \<Rightarrow> string" where
  "trim_right_nul s = rev (dropWhile (\<lambda>c. code c = (0::nat)) (rev s))"

subsection \<open>EXTH records\<close>

definition exth_record :: "int \<Rightarrow> string \<Rightarrow> parsed \<Rightarrow> parsed" where
  "exth_record recType recData out =
    (if recType = 100 then out\<lparr>p_authors := p_authors out @ [TrimSpace recData]\<rparr>
     else if recType = 101 then out\<lparr>p_publisher := TrimSpace recData\<rparr>
     else if recType = 103 then out\<lparr>p_description := TrimSpace recData\<rparr>
     else if recType = 104 then out\<lparr>p_isbn := TrimSpace recData\<rparr>
     else if recType = 106 then (case tryParseDate (TrimSpace recData) of
         Some t \<Rightarrow> out\<lparr>p_published_at := t\<rparr> | None \<Rightarrow> out)
     else if recType = 113 then out\<lparr>p_asin := TrimSpace recData\<rparr>
     else if recType = 503 then out\<lparr>p_title := TrimSpace recData\<rparr>
     else out)"

function exth_loop :: "string \<Rightarrow> int \<Rightarrow> int \<Rightarrow> int \<Rightarrow> parsed \<Rightarrow> parsed option" where
  "exth_loop data exthCount i pos out =
    (if \<not> i < exthCount then Some out
     else if pos + 8 > len data then Some out
     else Option.bind (slice data pos (u32 (pos + 4))) (\<lambda>t.
          Option.bind (slice data (u32 (pos + 4)) (u32 (pos + 8))) (\<lambda>l.
            let recType = big_endian t; recLen = big_endian l in
            if recLen < 8 \<or> pos + recLen > len data then Some out
            else Option.bind (slice data (u32 (pos + 8)) (u32 (pos + recLen))) (\<lambda>recData.
              exth_loop data exthCount (i + 1) (u32 (pos + recLen))
                (exth_record recType recData out)))))"
  by pat_completeness auto
termination
  by (relation "measure (\<lambda>(data, cnt, i, pos, out). nat (cnt - i))") auto

declare exth_loop.simps [simp del]

subsection \<open>The file\<close>

definition parse_mobi_bytes :: "string \<Rightarrow> string \<Rightarrow> (parse_error, parsed) res option" where
  "parse_mobi_bytes ext data =
    (if length data < 78 then Some (Err (ParseFailed ''mobi: too short''))
     else let out = empty_parsed\<lparr>p_format := TrimPrefix ext ''.''\<rparr> in
       Option.bind (slice data 0 32) (\<lambda>nm.
       Option.bind (slice data 76 78) (\<lambda>nr.
       let pdbName = trim_right_nul nm; numRecords = big_endian nr in
       if numRecords < 1 \<or> len data < 78 + 8 * numRecords
       then Some (Err (ParseFailed ''mobi: invalid record list''))
       else Option.bind (slice data 78 82) (\<lambda>off.
         let rec0Offset = big_endian off in
         if rec0Offset + 24 > len data
         then Some (Err (ParseFailed ''mobi: record 0 offset out of range''))
         else Option.bind (slice data (u32 (rec0Offset + 16)) (u32 (rec0Offset + 20))) (\<lambda>sig.
           if sig \<noteq> ''MOBI'' then Some (Err (ParseFailed ''mobi: signature mismatch''))
           else Option.bind (slice data (u32 (rec0Offset + 20)) (u32 (rec0Offset + 24))) (\<lambda>hl.
             let mobiEnd64 = rec0Offset + 16 + big_endian hl;
                 mobiEnd64 = (if mobiEnd64 > len data then len data else mobiEnd64);
                 exthStart = u32 mobiEnd64 in
             if exthStart + 12 > len data then Some (Ok (out\<lparr>p_title := pdbName\<rparr>))
             else Option.bind (slice data exthStart (u32 (exthStart + 4))) (\<lambda>mg.
               if mg \<noteq> ''EXTH'' then Some (Ok (out\<lparr>p_title := pdbName\<rparr>))
               else Option.bind (slice data (u32 (exthStart + 8)) (u32 (exthStart + 12))) (\<lambda>cn.
                 map_option (\<lambda>out. Ok (if p_title out = [] then out\<lparr>p_title := pdbName\<rparr> else out))
                   (exth_loop data (big_endian cn) 0 (u32 (exthStart + 12)) out)))))))))"

text \<open>Reading the file: at most 256 KiB of it.\<close>

datatype file_read = OpenError | ReadError | Contents string

definition ParseMOBI :: "(string \<Rightarrow> file_read) \<Rightarrow> string \<Rightarrow> string \<Rightarrow> (parse_error, parsed) res option" where
  "ParseMOBI read_file path ext = (case read_file path of
     OpenError \<Rightarrow> Some (Err (ParseFailed ''mobi: open''))
   | ReadError \<Rightarrow> Some (Err (ParseFailed ''mobi: read''))
   | Contents s \<Rightarrow> parse_mobi_bytes ext (take (256 * 2 ^ 10) s))"

subsection \<open>No panic\<close>

lemma slice_Some: "0 \<le> lo \<Longrightarrow> lo \<le> hi \<Longrightarrow> hi \<le> len data \<Longrightarrow>
    slice data lo hi = Some (take (nat (hi - lo)) (drop (nat lo) data))"
  by (simp add: slice_def)

lemma slice_length: "slice data lo hi = Some b \<Longrightarrow> len b = hi - lo"
  by (auto simp: slice_def split: if_splits)

lemma u32_id: "0 \<le> x \<Longrightarrow> x < 2 ^ 32 \<Longrightarrow> u32 x = x"
  by (simp add: u32_def)

lemma big_endian_snoc: "big_endian (b @ [c]) = big_endian b * 256 + int (code c)"
  by (simp add: big_endian_def)

lemma big_endian_bounds: "0 \<le> big_endian b \<and> big_endian b < 256 ^ length b"
proof (induction b rule: rev_induct)
  case Nil
  then show ?case by (simp add: big_endian_def)
next
  case (snoc c b)
  have "int (code c) \<le> 255" using nat_of_char_less_256 [of c] by linarith
  with snoc show ?case by (simp add: big_endian_snoc)
qed

lemma big_endian_nonneg: "0 \<le> big_endian b"
  using big_endian_bounds by blast

lemma exth_loop_total:
  assumes "len data < 2 ^ 32" and "0 \<le> pos" and "pos \<le> len data"
  shows "exth_loop data cnt i pos out \<noteq> None"
  using assms
proof (induction data cnt i pos out rule: exth_loop.induct)
  case (1 data cnt i pos out)
  show ?case
  proof (cases "i < cnt \<and> pos + 8 \<le> len data")
    case False
    then show ?thesis by (auto simp: exth_loop.simps [of data cnt i pos out])
  next
    case True
    with 1(2,3) have s: "u32 (pos + 4) = pos + 4" "u32 (pos + 8) = pos + 8"
      by (simp_all add: u32_id)
    obtain t l where t: "slice data pos (pos + 4) = Some t"
      and l: "slice data (pos + 4) (pos + 8) = Some l"
      using True 1(3) by (simp add: slice_Some)
    show ?thesis
    proof (cases "big_endian l < 8 \<or> pos + big_endian l > len data")
      case True
      then show ?thesis
        using \<open>i < cnt \<and> pos + 8 \<le> len data\<close> s t l
        by (simp add: exth_loop.simps [of data cnt i pos out] Let_def)
    next
      case False
      have u: "u32 (pos + big_endian l) = pos + big_endian l"
        using False 1(2,3) by (intro u32_id) simp_all
      obtain d where d: "slice data (pos + 8) (pos + big_endian l) = Some d"
        using False 1(3) True by (simp add: slice_Some)
      have "exth_loop data cnt (i + 1) (u32 (pos + big_endian l))
          (exth_record (big_endian t) d out) \<noteq> None"
        by (rule 1(1)) (use True False s t l d u 1 in auto)
      then show ?thesis
        using True False s t l d u
        by (simp add: exth_loop.simps [of data cnt i pos out] Let_def)
    qed
  qed
qed

lemma parse_mobi_bytes_total:
  assumes "len data < 2 ^ 32 - 64"
  shows "parse_mobi_bytes ext data \<noteq> None"
proof (cases "length data < 78")
  case True
  then show ?thesis by (simp add: parse_mobi_bytes_def)
next
  case False
  obtain nm nr off where sl: "slice data 0 32 = Some nm" "slice data 76 78 = Some nr"
      "slice data 78 82 = Some off \<or> len data < 82"
    using False by (cases "len data < 82") (simp_all add: slice_Some)
  let ?r = "big_endian off"
  have r0: "0 \<le> ?r" by (rule big_endian_nonneg)
  show ?thesis
  proof (cases "big_endian nr < 1 \<or> len data < 78 + 8 * big_endian nr")
    case True
    with False sl show ?thesis by (auto simp: parse_mobi_bytes_def Let_def)
  next
    case recs: False
    with sl have off: "slice data 78 82 = Some off" by auto
    show ?thesis
    proof (cases "?r + 24 > len data")
      case True
      with False sl recs off show ?thesis by (auto simp: parse_mobi_bytes_def Let_def)
    next
      case rng: False
      have u: "u32 (?r + 16) = ?r + 16" "u32 (?r + 20) = ?r + 20" "u32 (?r + 24) = ?r + 24"
        using rng r0 assms by (auto intro!: u32_id)
      obtain sig hl where sh: "slice data (?r + 16) (?r + 20) = Some sig"
        "slice data (?r + 20) (?r + 24) = Some hl"
        using rng r0 by (simp add: slice_Some)
      define m where "m = (if ?r + 16 + big_endian hl > len data then len data
        else ?r + 16 + big_endian hl)"
      have m: "0 \<le> m" "m \<le> len data" using r0 big_endian_nonneg [of hl] by (auto simp: m_def)
      have um: "u32 m = m" using m assms by (intro u32_id) simp_all
      show ?thesis
      proof (cases "sig = ''MOBI'' \<and> m + 12 \<le> len data")
        case no: False
        with False sl recs off rng u sh um show ?thesis
          by (auto simp: parse_mobi_bytes_def Let_def m_def [symmetric])
      next
        case yes: True
        have um4: "u32 (m + 4) = m + 4" "u32 (m + 8) = m + 8" "u32 (m + 12) = m + 12"
          using m yes assms by (auto intro!: u32_id)
        obtain mg cn where mc: "slice data m (m + 4) = Some mg"
          "slice data (m + 8) (m + 12) = Some cn"
          using m yes by (simp add: slice_Some)
        have "exth_loop data (big_endian cn) 0 (m + 12)
            (empty_parsed\<lparr>p_format := TrimPrefix ext ''.''\<rparr>) \<noteq> None"
          using assms m yes by (intro exth_loop_total) simp_all
        with False sl recs off rng u sh um um4 mc yes show ?thesis
          by (auto simp: parse_mobi_bytes_def Let_def m_def [symmetric])
      qed
    qed
  qed
qed

lemma ParseMOBI_total: "ParseMOBI read_file path ext \<noteq> None"
proof -
  have "len (take (256 * 2 ^ 10) s) \<le> 2 ^ 18" for s :: string by simp
  then have "len (take (256 * 2 ^ 10) s) < 2 ^ 32 - 64" for s :: string
    by (rule order_le_less_trans) simp
  then show ?thesis
    unfolding ParseMOBI_def using parse_mobi_bytes_total by (auto split: file_read.split)
qed

text \<open>
  C40. The MOBI parser never panics: whatever the file holds, no slice expression leaves the
  buffer, although every offset and length is a 32-bit value read from the file and the uint32
  arithmetic wraps.
\<close>

theorem ParseMOBI_no_panic: "ParseMOBI read_file path ext \<noteq> None"
  by (rule ParseMOBI_total)

subsection \<open>The record loop decodes what an encoder writes\<close>

definition be32_bytes :: "nat \<Rightarrow> string" where
  "be32_bytes n = 
     [byte (n div 256 div 256 div 256), byte (n div 256 div 256), byte (n div 256), byte n]"

definition exth_bytes :: "nat \<times> string \<Rightarrow> string" where
  "exth_bytes r = be32_bytes (fst r) @ be32_bytes (8 + length (snd r)) @ snd r"

definition exth_records :: "(nat \<times> string) list \<Rightarrow> parsed \<Rightarrow> parsed" where
  "exth_records rs out = foldl (\<lambda>acc r. exth_record (int (fst r)) (snd r) acc) out rs"

lemma big_endian_be32: "n < 2 ^ 32 \<Longrightarrow> big_endian (be32_bytes n) = int n"
proof -
  assume n: "n < 2 ^ 32"
  define a b c where "a = n div 256" and "b = a div 256" and "c = b div 256"
  have "c < 256" using n by (simp add: a_def b_def c_def less_mult_imp_div_less)
  then have "c mod 256 = c" by simp
  moreover have "c * 256 + b mod 256 = b" "b * 256 + a mod 256 = a" "a * 256 + n mod 256 = n"
    by (simp_all add: a_def b_def c_def)
  ultimately have "((c mod 256 * 256 + b mod 256) * 256 + a mod 256) * 256 + n mod 256 = n"
    by simp
  then have "int (((c mod 256 * 256 + b mod 256) * 256 + a mod 256) * 256 + n mod 256) = int n"
    by simp
  then show ?thesis
    by (simp add: big_endian_def be32_bytes_def a_def [symmetric] b_def [symmetric] c_def [symmetric])
qed

lemma slice_app: "slice (pre @ b @ post) (len pre) (len pre + len b) = Some b"
  by (simp add: slice_def)

lemma slice_at:
  assumes "data = pre @ b @ post" and "lo = len pre" and "hi = len pre + len b"
  shows "slice data lo hi = Some b"
  using assms slice_app by simp

lemma exth_loop_decodes:
  assumes "len (pre @ concat (map exth_bytes rs) @ post) < 2 ^ 32"
    and "list_all (\<lambda>r. fst r < 2 ^ 32) rs"
  shows "exth_loop (pre @ concat (map exth_bytes rs) @ post) (i + len rs) i (len pre) out =
    Some (exth_records rs out)"
  using assms
proof (induction rs arbitrary: pre i out)
  case Nil
  then show ?case by (simp add: exth_loop.simps exth_records_def)
next
  case (Cons r rs)
  obtain t d where r: "r = (t, d)" by (cases r)
  let ?rest = "concat (map exth_bytes rs) @ post"
  let ?data = "pre @ concat (map exth_bytes (r # rs)) @ post"
  let ?n = "8 + length d"
  have l4: "length (be32_bytes n) = 4" for n by (simp add: be32_bytes_def)
  have er: "exth_bytes r = be32_bytes t @ be32_bytes ?n @ d" by (simp add: r exth_bytes_def)
  have bound: "len pre + 8 + len d \<le> len ?data" "len ?data < 2 ^ 32"
    using Cons.prems(1) by (simp_all add: er l4)
  have u: "u32 (len pre + 4) = len pre + 4" "u32 (len pre + 8) = len pre + 8"
      "u32 (len pre + int ?n) = len pre + int ?n"
    using bound by (auto intro!: u32_id)
  have t: "slice ?data (len pre) (len pre + 4) = Some (be32_bytes t)"
    by (rule slice_at [of _ pre _ "be32_bytes ?n @ d @ ?rest"]) (simp_all add: er l4)
  have n: "slice ?data (len pre + 4) (len pre + 8) = Some (be32_bytes ?n)"
    by (rule slice_at [of _ "pre @ be32_bytes t" _ "d @ ?rest"]) (simp_all add: er l4)
  have d: "slice ?data (len pre + 8) (len pre + int ?n) = Some d"
    by (rule slice_at [of _ "pre @ be32_bytes t @ be32_bytes ?n" _ ?rest]) (simp_all add: er l4)
  have tn: "big_endian (be32_bytes t) = int t" "big_endian (be32_bytes ?n) = int ?n"
    using Cons.prems(2) bound r by (simp_all add: big_endian_be32)
  have split: "?data = (pre @ exth_bytes r) @ concat (map exth_bytes rs) @ post" by simp
  have lp: "len (pre @ exth_bytes r) = len pre + int ?n" by (simp add: er l4)
  have IH: "exth_loop ?data (i + 1 + len rs) (i + 1) (len pre + int ?n) (exth_record (int t) d out) =
      Some (exth_records rs (exth_record (int t) d out))"
    using Cons.IH [of "pre @ exth_bytes r" "i + 1" "exth_record (int t) d out"] Cons.prems
    unfolding split [symmetric] lp by simp
  have c: "i + len (r # rs) = i + 1 + len rs" by simp
  have lt: "i < i + 1 + len rs" "\<not> len pre + 8 > len ?data" "\<not> len pre + int ?n > len ?data"
    "\<not> int ?n < 8"
    using bound by simp_all
  show ?case
    unfolding c
    by (subst exth_loop.simps)
      (simp only: lt u t n d tn IH Let_def if_False if_True simp_thms Option.bind.simps
        not_True_eq_False not_False_eq_True; simp add: exth_records_def r)
qed

end
