(* ===== verification/DocFormats.thy ===== *)
theory DocFormats
  imports Mobi GoPath
begin

text \<open>
  The EPUB, FB2 and PDF parsers (\<open>internal/ebookparse/epub.go\<close>, \<open>fb2.go\<close>, \<open>pdf.go\<close>). The zip
  container, the XML decoder and the PDF library are parameters: an opened archive is the list of
  its entries with what reading each gives, a decoder maps bytes to the struct the source declares
  or fails, the PDF library yields the fields of the document, or an error, or panics.
\<close>

subsection \<open>EPUB: the OPF package\<close>

record opf_identifier =
  id_scheme :: string
  id_value :: string

record opf_meta =
  me_name :: string
  me_content :: string

record manifest_item =
  it_id :: string
  it_href :: string
  it_media_type :: string
  it_properties :: string

record opf_package =
  op_title :: "string list"
  op_creator :: "string list"
  op_description :: "string list"
  op_publisher :: "string list"
  op_date :: "string list"
  op_language :: "string list"
  op_subject :: "string list"
  op_identifier :: "opf_identifier list"
  op_meta :: "opf_meta list"
  op_items :: "manifest_item list"

fun firstNonEmpty :: "string list \<Rightarrow> string" where
  "firstNonEmpty [] = []"
| "firstNonEmpty (s # ss) = (let v = TrimSpace s in if v \<noteq> [] then v else firstNonEmpty ss)"

definition trimmed_nonempty :: "string list \<Rightarrow> string list" where
  "trimmed_nonempty ss = filter (\<lambda>v. v \<noteq> []) (map TrimSpace ss)"

text \<open>\<open>for _, c := range s\<close> iterates runes; the characters counted are single bytes.\<close>

definition looksLikeISBN :: "string \<Rightarrow> bool" where
  "looksLikeISBN s =
    (let digits = count_where (\<lambda>c. is_digit c \<or> c = CHR ''X'' \<or> c = CHR ''x'') s
     in digits = 10 \<or> digits = 13)"

definition looksLikeASIN :: "string \<Rightarrow> bool" where
  "looksLikeASIN s \<longleftrightarrow> length s = 10 \<and> s ! 0 = CHR ''B'' \<and> s ! 1 = CHR ''0'' \<and>
     list_all (\<lambda>c. is_digit c \<or> is_upper c) (drop 2 s)"

definition ToUpper :: "(string \<Rightarrow> string) \<Rightarrow> string \<Rightarrow> string" where
  "ToUpper upU s = (if is_ascii s then map upper_byte s else upU s)"

definition identifier_step :: "(string \<Rightarrow> string) \<Rightarrow> parsed \<Rightarrow> opf_identifier \<Rightarrow> parsed" where
  "identifier_step upU out i =
    (let v = TrimSpace (id_value i);
         scheme = ToUpper upU (TrimSpace (id_scheme i));
         out = (if scheme = ''ISBN'' \<or> looksLikeISBN v then out\<lparr>p_isbn := v\<rparr> else out)
     in if scheme = ''AMAZON'' \<or> scheme = ''ASIN'' \<or> looksLikeASIN v then out\<lparr>p_asin := v\<rparr> else out)"

definition series_step :: "parsed \<Rightarrow> opf_meta \<Rightarrow> parsed" where
  "series_step out m =
    (if me_name m = ''calibre:series'' then out\<lparr>p_series := me_content m\<rparr>
     else if me_name m = ''calibre:series_index'' then out\<lparr>p_series_pos := me_content m\<rparr>
     else out)"

definition cover_id :: "opf_meta list \<Rightarrow> string" where
  "cover_id ms = (case find (\<lambda>m. me_name m = ''cover'') ms of Some m \<Rightarrow> me_content m | None \<Rightarrow> [])"

definition cover_item :: "string \<Rightarrow> manifest_item list \<Rightarrow> manifest_item option" where
  "cover_item coverID items =
     find (\<lambda>i. (coverID \<noteq> [] \<and> it_id i = coverID) \<or> Contains (it_properties i) ''cover-image'') items"

type_synonym zip_archive = "(string \<times> file_read) list"

definition openZipEntry :: "zip_archive \<Rightarrow> string \<Rightarrow> file_read option" where
  "openZipEntry z name = map_option snd (find (\<lambda>e. fst e = name) z)"

text \<open>The bytes of an entry, capped; every failure is one error.\<close>

definition read_entry :: "zip_archive \<Rightarrow> string \<Rightarrow> nat \<Rightarrow> string option" where
  "read_entry z name cap = (case openZipEntry z name of
     Some (Contents s) \<Rightarrow> Some (take cap s) | _ \<Rightarrow> None)"

definition findOPFPath :: "(string \<Rightarrow> string option) \<Rightarrow> zip_archive \<Rightarrow> (parse_error, string) res" where
  "findOPFPath dec_container z =
    (case read_entry z ''META-INF/container.xml'' (64 * 2 ^ 10) of
       None \<Rightarrow> Err (ParseFailed ''epub: container.xml'')
     | Some body \<Rightarrow> (case dec_container body of
         None \<Rightarrow> Err (ParseFailed ''epub: container.xml parse'')
       | Some fp \<Rightarrow> if fp = [] then Err (ParseFailed ''epub: no rootfile in container.xml'')
           else Ok fp))"

definition epub_cover :: "zip_archive \<Rightarrow> string \<Rightarrow> opf_package \<Rightarrow> cover option" where
  "epub_cover z opfPath pkg =
    (case cover_item (cover_id (op_meta pkg)) (op_items pkg) of
       None \<Rightarrow> None
     | Some i \<Rightarrow> if it_href i = [] then None
         else (case read_entry z (Join_path (Dir opfPath) (it_href i)) (5 * 2 ^ 20) of
             None \<Rightarrow> None
           | Some body \<Rightarrow> if body = [] then None
               else Some \<lparr>cv_type = (if it_media_type i = [] then ''image/jpeg'' else it_media_type i),
                          cv_bytes = body\<rparr>))"

definition epub_record :: "(string \<Rightarrow> string) \<Rightarrow> zip_archive \<Rightarrow> string \<Rightarrow> opf_package \<Rightarrow> parsed" where
  "epub_record upU z opfPath pkg =
    (let out = empty_parsed\<lparr>p_format := ''epub'',
           p_title := firstNonEmpty (op_title pkg),
           p_description := firstNonEmpty (op_description pkg),
           p_publisher := firstNonEmpty (op_publisher pkg),
           p_language := firstNonEmpty (op_language pkg),
           p_authors := trimmed_nonempty (op_creator pkg),
           p_genres := trimmed_nonempty (op_subject pkg)\<rparr>;
         d = firstNonEmpty (op_date pkg);
         out = (if d \<noteq> [] then (case tryParseDate d of Some t \<Rightarrow> out\<lparr>p_published_at := t\<rparr>
                  | None \<Rightarrow> out) else out);
         out = foldl (identifier_step upU) out (op_identifier pkg);
         out = foldl series_step out (op_meta pkg)
     in out\<lparr>p_cover := epub_cover z opfPath pkg\<rparr>)"

definition ParseEPUB ::
  "(string \<Rightarrow> zip_archive option) \<Rightarrow> (string \<Rightarrow> string option) \<Rightarrow> (string \<Rightarrow> opf_package option) \<Rightarrow>
   (string \<Rightarrow> string) \<Rightarrow> string \<Rightarrow> (parse_error, parsed) res" where
  "ParseEPUB open_zip dec_container dec_opf upU path =
    (case open_zip path of
       None \<Rightarrow> Err (ParseFailed ''epub: open'')
     | Some z \<Rightarrow> (case findOPFPath dec_container z of
         Inl e \<Rightarrow> Err e
       | Inr opfPath \<Rightarrow> (case read_entry z opfPath (4 * 2 ^ 20) of
           None \<Rightarrow> Err (ParseFailed ''epub: open opf'')
         | Some bytes \<Rightarrow> (case dec_opf bytes of
             None \<Rightarrow> Err (ParseFailed ''epub: parse opf'')
           | Some pkg \<Rightarrow> Ok (epub_record upU z opfPath pkg)))))"

subsection \<open>FB2\<close>

record fb2_author =
  fa_first :: string
  fa_last :: string

record fb2_book =
  fb_title :: string
  fb_annotation :: string
  fb_lang :: string
  fb_authors :: "fb2_author list"
  fb_genres :: "string list"
  fb_seq_name :: string
  fb_seq_number :: string

definition fb2_record :: "fb2_book \<Rightarrow> parsed" where
  "fb2_record b =
    (let out = empty_parsed\<lparr>p_format := ''fb2'', p_title := TrimSpace (fb_title b),
           p_description := TrimSpace (fb_annotation b), p_language := TrimSpace (fb_lang b),
           p_authors := trimmed_nonempty
             (map (\<lambda>a. TrimSpace (fa_first a) @ '' '' @ TrimSpace (fa_last a)) (fb_authors b)),
           p_genres := trimmed_nonempty (fb_genres b)\<rparr>
     in if fb_seq_name b \<noteq> [] then out\<lparr>p_series := fb_seq_name b, p_series_pos := fb_seq_number b\<rparr>
        else out)"

definition ParseFB2 ::
  "(string \<Rightarrow> file_read) \<Rightarrow> (string \<Rightarrow> fb2_book option) \<Rightarrow> string \<Rightarrow> (parse_error, parsed) res" where
  "ParseFB2 read_file dec_fb2 path = (case read_file path of
     OpenError \<Rightarrow> Err (ParseFailed ''fb2: open'')
   | ReadError \<Rightarrow> Err (ParseFailed ''fb2: read'')
   | Contents s \<Rightarrow> (case dec_fb2 (take (8 * 2 ^ 20) s) of
       None \<Rightarrow> Err (ParseFailed ''fb2: parse'')
     | Some b \<Rightarrow> Ok (fb2_record b)))"

subsection \<open>PDF\<close>

record pdf_info =
  pi_title :: string
  pi_author :: string
  pi_subject :: string
  pi_keywords :: string
  pi_creation_date :: string

text \<open>What the PDF library does with a file; a panic can come from any call.\<close>

datatype pdf_result = PdfOpenError | PdfPanic | PdfDoc int "pdf_info option"

definition pdf_record :: "int \<Rightarrow> pdf_info \<Rightarrow> parsed" where
  "pdf_record pages i =
    (let out = empty_parsed\<lparr>p_format := ''pdf'', p_page_count := pages\<rparr>;
         t = TrimSpace (pi_title i);
         out = (if t \<noteq> [] then out\<lparr>p_title := t\<rparr> else out);
         a = TrimSpace (pi_author i);
         out = (if a \<noteq> [] then out\<lparr>p_authors := p_authors out @ [a]\<rparr> else out);
         s = TrimSpace (pi_subject i);
         out = (if s \<noteq> [] then out\<lparr>p_description := s\<rparr> else out);
         k = TrimSpace (pi_keywords i);
         out = (if k \<noteq> [] then out\<lparr>p_genres := trimmed_nonempty (Split k (CHR '',''))\<rparr> else out);
         d = TrimSpace (pi_creation_date i)
     in if d \<noteq> [] \<and> length d \<ge> 6 \<and> HasPrefix d ''D:''
        then (case tryParseDate (take 4 (drop 2 d)) of Some t \<Rightarrow> out\<lparr>p_published_at := t\<rparr>
                | None \<Rightarrow> out)
        else out)"

definition ParsePDF :: "(string \<Rightarrow> pdf_result) \<Rightarrow> string \<Rightarrow> (parse_error, parsed) res" where
  "ParsePDF pdf_open path = (case pdf_open path of
     PdfOpenError \<Rightarrow> Err (ParseFailed ''pdf: open'')
   | PdfPanic \<Rightarrow> Err ParsePanic
   | PdfDoc pages None \<Rightarrow> Ok (empty_parsed\<lparr>p_format := ''pdf'', p_page_count := pages\<rparr>)
   | PdfDoc pages (Some i) \<Rightarrow> Ok (pdf_record pages i))"

subsection \<open>The dispatcher with these parsers\<close>

record ebook_libs =
  lib_read :: "string \<Rightarrow> file_read"
  lib_zip :: "string \<Rightarrow> zip_archive option"
  lib_container :: "string \<Rightarrow> string option"
  lib_opf :: "string \<Rightarrow> opf_package option"
  lib_upper :: "string \<Rightarrow> string"
  lib_fb2 :: "string \<Rightarrow> fb2_book option"
  lib_pdf :: "string \<Rightarrow> pdf_result"

text \<open>The MOBI parser never panics (\<open>ParseMOBI_total\<close>), so its panic has no branch of its own.\<close>

definition lib_parsers :: "ebook_libs \<Rightarrow> parsers" where
  "lib_parsers L = \<lparr>
     parse_epub = ParseEPUB (lib_zip L) (lib_container L) (lib_opf L) (lib_upper L),
     parse_pdf = ParsePDF (lib_pdf L),
     parse_mobi = (\<lambda>path ext. case ParseMOBI (lib_read L) path ext of
        Some r \<Rightarrow> r | None \<Rightarrow> Err ParsePanic),
     parse_fb2 = ParseFB2 (lib_read L) (lib_fb2 L)\<rparr>"

subsection \<open>Facts\<close>

lemma identifier_step_isbn:
  "p_isbn (identifier_step upU out i) =
    (if ToUpper upU (TrimSpace (id_scheme i)) = ''ISBN'' \<or> looksLikeISBN (TrimSpace (id_value i))
     then TrimSpace (id_value i) else p_isbn out)"
  by (simp add: identifier_step_def Let_def)

text \<open>The last identifier that is declared or looks like an ISBN wins.\<close>

lemma identifiers_isbn:
  "p_isbn (foldl (identifier_step upU) out ids) =
    (case find (\<lambda>i. ToUpper upU (TrimSpace (id_scheme i)) = ''ISBN''
         \<or> looksLikeISBN (TrimSpace (id_value i))) (rev ids) of
       Some i \<Rightarrow> TrimSpace (id_value i) | None \<Rightarrow> p_isbn out)"
  by (induction ids rule: rev_induct) (simp_all add: identifier_step_isbn)

lemma trimmed_nonempty_ok: "v \<in> set (trimmed_nonempty ss) \<Longrightarrow> v \<noteq> [] \<and> TrimSpace v = v"
  by (auto simp: trimmed_nonempty_def TrimSpace_idem)

lemma lib_parsers_mobi: "Parse u (lib_parsers L) path = Err e \<Longrightarrow>
   ToLower u (extOf path) \<in> {''.mobi'', ''.azw'', ''.azw3''} \<Longrightarrow>
   ParseMOBI (lib_read L) path (ToLower u (extOf path)) = Some (Err e)"
  using ParseMOBI_total [of "lib_read L" path "ToLower u (extOf path)"]
  by (auto simp: Parse_def parseByExt_def lib_parsers_def Let_def split: sum.splits option.splits)

end
