(* ===== verification/Scanner.thy ===== *)
theory Scanner
  imports StoreEbook DocFormats
begin

text \<open>
  The library scanner (\<open>internal/scanner/scan.go\<close>). The file system is what the walk sees: the
  entries below the root in the order of the walk, each with what \<open>lstat\<close> says of it. The store is
  an interface, the record of operations \<open>scan_store\<close>; what the scanner relies on is the locale
  \<open>scan_contract\<close>. BLAKE2b (in hex) is a parameter. The callback of the walk always returns nil, so
  the walk itself never fails.
\<close>

subsection \<open>Interfaces\<close>

record 's scan_store =
  st_upsert :: "int \<Rightarrow> string \<Rightarrow> string \<Rightarrow> string \<Rightarrow> int \<Rightarrow> int \<Rightarrow> string \<Rightarrow> parsed \<Rightarrow> 's \<Rightarrow>
    's \<times> (db_error, string \<times> bool) res"
  st_cover :: "string \<Rightarrow> string \<Rightarrow> string \<Rightarrow> string \<Rightarrow> 's \<Rightarrow> 's \<times> (db_error, unit) res"
  st_refs :: "int \<Rightarrow> 's \<Rightarrow> 's \<times> (db_error, file_ref list) res"
  st_delete :: "string \<Rightarrow> 's \<Rightarrow> 's \<times> (db_error, unit) res"

type_synonym 's enqueuer = "(string \<Rightarrow> 's \<Rightarrow> 's \<times> (db_error, unit) res) option"

record file_info =
  fi_regular :: bool
  fi_size :: int
  fi_mtime :: int

datatype walk_entry = WErr string | WDir string | WFile string "file_info option"

record scan_env =
  se_uni :: uni
  se_libs :: ebook_libs
  se_hash :: "string \<Rightarrow> string"
  se_lstat_regular :: "string \<Rightarrow> bool"

record walk_result =
  wr_added :: int
  wr_changed :: int
  wr_deleted :: int
  wr_failed :: int

definition zero_result :: walk_result where
  "zero_result = \<lparr>wr_added = 0, wr_changed = 0, wr_deleted = 0, wr_failed = 0\<rparr>"

subsection \<open>Signatures\<close>

text \<open>The bytes hashed; \<open>UnixNano\<close> is an \<open>int64\<close>.\<close>

definition sig_input :: "string \<Rightarrow> int \<Rightarrow> int \<Rightarrow> string" where
  "sig_input path fsize mtime = path @ ''|'' @ Itoa fsize @ ''|'' @ Itoa (wrap64 mtime)"

definition stableID :: "scan_env \<Rightarrow> string \<Rightarrow> int \<Rightarrow> int \<Rightarrow> string" where
  "stableID E path fsize mtime = se_hash E (sig_input path fsize mtime)"

subsection \<open>Covers beside the book\<close>

definition sidecar_names :: "(string \<times> string) list" where
  "sidecar_names = [(''cover.jpg'', ''image/jpeg''), (''cover.png'', ''image/png''),
     (''folder.jpg'', ''image/jpeg'')]"

fun sidecar_scan :: "scan_env \<Rightarrow> string \<Rightarrow> (string \<times> string) list \<Rightarrow> (string \<times> string) option" where
  "sidecar_scan E dir [] = None"
| "sidecar_scan E dir (c # cs) =
     (let p = Join_path dir (fst c) in
      if \<not> se_lstat_regular E p then sidecar_scan E dir cs
      else case lib_read (se_libs E) p of
          Contents b \<Rightarrow> if b = [] then sidecar_scan E dir cs
            else Some (take (5 * 2 ^ 20) b, snd c)
        | _ \<Rightarrow> sidecar_scan E dir cs)"

definition findSidecarCover :: "scan_env \<Rightarrow> string \<Rightarrow> (string \<times> string) option" where
  "findSidecarCover E dir = sidecar_scan E dir sidecar_names"

subsection \<open>One entry of the walk\<close>

text \<open>A panic of a parser is the error \<open>ParsePanic\<close>.\<close>

definition parseRecovered :: "scan_env \<Rightarrow> string \<Rightarrow> (parse_error, parsed) res" where
  "parseRecovered E path = Parse (se_uni E) (lib_parsers (se_libs E)) path"

definition parse_or_empty :: "scan_env \<Rightarrow> string \<Rightarrow> parsed" where
  "parse_or_empty E path = (case parseRecovered E path of
     Inr p \<Rightarrow> p
   | Inl e \<Rightarrow> empty_parsed\<lparr>p_format := TrimPrefix (extOf path) ''.''\<rparr>)"

record walk_state =
  ws_result :: walk_result
  ws_seen :: "string set"
  ws_errors :: bool

definition store_cover :: "'s scan_store \<Rightarrow> scan_env \<Rightarrow> string \<Rightarrow> string \<Rightarrow> parsed \<Rightarrow> 's \<Rightarrow> 's" where
  "store_cover S E rowID path p s =
    (case p_cover p of
       Some cv \<Rightarrow> if cv_bytes cv \<noteq> [] then fst (st_cover S rowID (cv_type cv) ''embedded'' (cv_bytes cv) s)
         else (case findSidecarCover E (Dir path) of
             Some (b, ct) \<Rightarrow> fst (st_cover S rowID ct ''sidecar'' b s) | None \<Rightarrow> s)
     | None \<Rightarrow> (case findSidecarCover E (Dir path) of
             Some (b, ct) \<Rightarrow> fst (st_cover S rowID ct ''sidecar'' b s) | None \<Rightarrow> s))"

definition enqueue :: "'s enqueuer \<Rightarrow> string \<Rightarrow> 's \<Rightarrow> 's" where
  "enqueue Q i s = (case Q of None \<Rightarrow> s | Some f \<Rightarrow> fst (f i s))"

definition ingest :: "'s scan_store \<Rightarrow> 's enqueuer \<Rightarrow> scan_env \<Rightarrow> int \<Rightarrow> string \<Rightarrow> string \<Rightarrow> file_info \<Rightarrow>
    string \<Rightarrow> 's \<times> walk_state \<Rightarrow> 's \<times> walk_state" where
  "ingest S Q E lp ebookID path info sig x =
    (let p = parse_or_empty E path; w = snd x;
         u = st_upsert S lp ebookID path (p_format p) (fi_size info) (fi_mtime info) sig p (fst x)
     in case snd u of
          Inl e \<Rightarrow> (fst u, w\<lparr>ws_result := (ws_result w)\<lparr>wr_failed := wr_failed (ws_result w) + 1\<rparr>\<rparr>)
        | Inr (rowID, wasKnown) \<Rightarrow>
            (enqueue Q rowID (store_cover S E rowID path p (fst u)),
             w\<lparr>ws_seen := insert rowID (ws_seen w),
               ws_result := (if wasKnown then (ws_result w)\<lparr>wr_changed := wr_changed (ws_result w) + 1\<rparr>
                 else (ws_result w)\<lparr>wr_added := wr_added (ws_result w) + 1\<rparr>)\<rparr>))"

definition by_path :: "file_ref list \<Rightarrow> string \<Rightarrow> file_ref option" where
  "by_path refs = map_of (rev (map (\<lambda>r. (rf_path r, r)) refs))"

definition visit :: "'s scan_store \<Rightarrow> 's enqueuer \<Rightarrow> scan_env \<Rightarrow> int \<Rightarrow> file_ref list \<Rightarrow>
    's \<times> walk_state \<Rightarrow> walk_entry \<Rightarrow> 's \<times> walk_state" where
  "visit S Q E lp refs x e =
    (case e of
       WErr path \<Rightarrow> (fst x, (snd x)\<lparr>ws_errors := True\<rparr>)
     | WDir path \<Rightarrow> x
     | WFile path info \<Rightarrow>
         if \<not> IsSupported (se_uni E) path then x
         else let ref = by_path refs path;
                  w = (case ref of Some r \<Rightarrow> (snd x)\<lparr>ws_seen := insert (rf_id r) (ws_seen (snd x))\<rparr>
                       | None \<Rightarrow> snd x)
              in case info of
                   None \<Rightarrow> (fst x, w)
                 | Some i \<Rightarrow>
                     if \<not> fi_regular i then (fst x, w)
                     else let sig = stableID E path (fi_size i) (fi_mtime i)
                          in case ref of
                               Some r \<Rightarrow> if rf_content_sig r = sig then (fst x, w)
                                 else ingest S Q E lp (rf_id r) path i sig (fst x, w)
                             | None \<Rightarrow> ingest S Q E lp sig path i sig (fst x, w))"

subsection \<open>The scan\<close>

definition reconcile :: "'s scan_store \<Rightarrow> 's \<times> walk_state \<Rightarrow> file_ref \<Rightarrow> 's \<times> walk_state" where
  "reconcile S x r =
    (if rf_id r \<in> ws_seen (snd x) then x
     else let u = st_delete S (rf_id r) (fst x)
          in case snd u of
               Inl e \<Rightarrow> (fst u, snd x)
             | Inr _ \<Rightarrow> (fst u, (snd x)\<lparr>ws_result := (ws_result (snd x))
                 \<lparr>wr_deleted := wr_deleted (ws_result (snd x)) + 1\<rparr>\<rparr>))"

definition start_state :: walk_state where
  "start_state = \<lparr>ws_result = zero_result, ws_seen = {}, ws_errors = False\<rparr>"

definition Walk :: "'s scan_store \<Rightarrow> 's enqueuer \<Rightarrow> scan_env \<Rightarrow> walk_entry list \<Rightarrow> int \<Rightarrow> 's \<Rightarrow>
    's \<times> (db_error, walk_result) res" where
  "Walk S Q E entries lp s =
    (case st_refs S lp s of
       (s, Inl e) \<Rightarrow> (s, Err e)
     | (s, Inr refs) \<Rightarrow>
         (let x = foldl (visit S Q E lp refs) (s, start_state) entries
          in if ws_errors (snd x) then (fst x, Ok (ws_result (snd x)))
             else let y = foldl (reconcile S) x refs in (fst y, Ok (ws_result (snd y)))))"

text \<open>The paths the scan recognises, and the files it may ingest.\<close>

definition visited :: "scan_env \<Rightarrow> walk_entry list \<Rightarrow> string set" where
  "visited E es = {p. \<exists>info. WFile p info \<in> set es \<and> IsSupported (se_uni E) p}"

definition ingestible :: "scan_env \<Rightarrow> walk_entry list \<Rightarrow> string \<Rightarrow> string \<Rightarrow> bool" where
  "ingestible E es p sig \<longleftrightarrow> (\<exists>i. WFile p (Some i) \<in> set es \<and> IsSupported (se_uni E) p \<and> fi_regular i \<and>
     sig = stableID E p (fi_size i) (fi_mtime i))"

definition has_error :: "walk_entry list \<Rightarrow> bool" where
  "has_error es \<longleftrightarrow> list_ex (\<lambda>e. case e of WErr p \<Rightarrow> True | _ \<Rightarrow> False) es"

definition entry_path :: "walk_entry \<Rightarrow> string" where
  "entry_path e = (case e of WErr p \<Rightarrow> p | WDir p \<Rightarrow> p | WFile p i \<Rightarrow> p)"

definition file_paths :: "walk_entry list \<Rightarrow> string list" where
  "file_paths es = map entry_path (filter (\<lambda>e. case e of WFile p i \<Rightarrow> True | _ \<Rightarrow> False) es)"

subsection \<open>Signatures identify path, size and time\<close>

lemma Itoa_no_bar: "CHR ''|'' \<notin> set (Itoa n)"
proof -
  have "\<not> is_digit (CHR ''|'')" by (simp add: is_digit_def)
  then have "CHR ''|'' \<notin> set (nat_digits m)" for m using nat_digits_digits by blast
  then show ?thesis by (simp add: Itoa_def)
qed

lemma Itoa_inj: "int64_range m \<Longrightarrow> int64_range n \<Longrightarrow> Itoa m = Itoa n \<Longrightarrow> m = n"
  using Atoi_Itoa by (metis prod.inject)

text \<open>
  The text hashed into a content signature determines path, size and modification time: two
  files share a signature only when all three agree or the hash itself collides.
\<close>

theorem sig_input_inj:
  assumes "int64_range fsize" and "int64_range fsize'" and "int64_range mtime" and "int64_range mtime'"
  shows "sig_input path fsize mtime = sig_input path' fsize' mtime' \<longleftrightarrow>
    path = path' \<and> fsize = fsize' \<and> mtime = mtime'"
proof
  assume "sig_input path fsize mtime = sig_input path' fsize' mtime'"
  then have "(path @ CHR ''|'' # Itoa fsize) @ CHR ''|'' # Itoa (wrap64 mtime) =
      (path' @ CHR ''|'' # Itoa fsize') @ CHR ''|'' # Itoa (wrap64 mtime')"
    by (simp add: sig_input_def)
  from split_at_last [OF this Itoa_no_bar Itoa_no_bar]
  have l: "path @ CHR ''|'' # Itoa fsize = path' @ CHR ''|'' # Itoa fsize'"
    and m: "Itoa mtime = Itoa mtime'" using assms by (simp_all add: wrap64_id)
  from split_at_last [OF l Itoa_no_bar Itoa_no_bar] m show "path = path' \<and> fsize = fsize' \<and> mtime = mtime'"
    using assms Itoa_inj by blast
qed simp

theorem sig_input_inj_witness:
  "sig_input ''/a|1|2'' 3 4 \<noteq> sig_input ''/a'' 1 (2::int)"
  using sig_input_inj [of 3 1 4 2 "''/a|1|2''" "''/a''"]
  by (simp add: int64_range_def min_int64_def max_int64_def)

subsection \<open>What a cover may be\<close>

lemma sidecar_scan_ok:
  "sidecar_scan E d cs = Some (b, ct) \<Longrightarrow> set (map snd cs) \<subseteq> set allowedCoverTypes \<Longrightarrow>
   cover_ok (Some \<lparr>cv_type = ct, cv_bytes = b\<rparr>)"
proof (induction cs)
  case (Cons c cs)
  then show ?case
    by (auto simp: Let_def cover_ok_def maxStoredCoverBytes_def split: if_splits file_read.splits)
qed simp

lemma findSidecarCover_ok:
  "findSidecarCover E d = Some (b, ct) \<Longrightarrow> cover_ok (Some \<lparr>cv_type = ct, cv_bytes = b\<rparr>)"
  unfolding findSidecarCover_def
  by (erule sidecar_scan_ok) (simp add: sidecar_names_def allowedCoverTypes_def)

lemma parse_or_empty_cover: "cover_ok (p_cover (parse_or_empty E path))"
proof (cases "parseRecovered E path")
  case (Inl e)
  then show ?thesis by (simp add: parse_or_empty_def empty_parsed_def cover_ok_def)
next
  case (Inr p)
  then have "parsed_ok p" unfolding parseRecovered_def by (rule Parse_ok)
  then show ?thesis using Inr by (simp add: parse_or_empty_def parsed_ok_def)
qed

subsection \<open>One more entry\<close>

lemma ref_eta [simp]: "\<lparr>rf_id = rf_id r, rf_path = rf_path r, rf_content_sig = rf_content_sig r\<rparr> = r"
  by simp

lemma visited_snoc:
  "visited E (es @ [e]) = visited E es \<union> {p. \<exists>info. e = WFile p info \<and> IsSupported (se_uni E) p}"
  by (auto simp: visited_def)

lemma ingestible_snoc:
  "ingestible E (es @ [e]) p g \<longleftrightarrow> ingestible E es p g \<or>
     (\<exists>i. e = WFile p (Some i) \<and> IsSupported (se_uni E) p \<and> fi_regular i \<and> g = stableID E p (fi_size i) (fi_mtime i))"
  by (auto simp: ingestible_def)

lemma has_error_snoc: "has_error (es @ [e]) \<longleftrightarrow> has_error es \<or> (\<exists>p. e = WErr p)"
  by (auto simp: has_error_def split: walk_entry.splits)

lemma ingestible_visited: "ingestible E es p g \<Longrightarrow> p \<in> visited E es"
  by (auto simp: ingestible_def visited_def)

lemma visited_file_paths: "p \<in> visited E es \<Longrightarrow> p \<in> set (file_paths es)"
  by (force simp: visited_def file_paths_def entry_path_def)

lemma fresh_path: "distinct (file_paths (es @ [WFile p info])) \<Longrightarrow> p \<notin> visited E es"
  using visited_file_paths [of p E es] by (auto simp: file_paths_def entry_path_def)

text \<open>The files a scan should have stored whose row, in a view of the library, does not carry their signature.\<close>

definition unrecorded :: "scan_env \<Rightarrow> walk_entry list \<Rightarrow> (string \<Rightarrow> (string \<times> string) option) \<Rightarrow> string set" where
  "unrecorded E es v = {p. \<exists>g. ingestible E es p g \<and> (\<forall>i. v p \<noteq> Some (i, g))}"

lemma unrecorded_visited: "unrecorded E es v \<subseteq> visited E es"
  using ingestible_visited by (auto simp: unrecorded_def)

lemma unrecorded_finite [simp]: "finite (unrecorded E es v)"
  by (rule finite_subset [OF unrecorded_visited], rule finite_subset [OF subsetI finite_set], erule visited_file_paths)

lemma unrecorded_none: "card (unrecorded E es v) = 0 \<Longrightarrow> ingestible E es p g \<Longrightarrow> \<exists>i. v p = Some (i, g)"
  unfolding card_0_eq [OF unrecorded_finite] by (auto simp: unrecorded_def)

lemma unrecorded_other:
  "unrecorded E (es @ [WErr q]) v = unrecorded E es v" "unrecorded E (es @ [WDir q]) v = unrecorded E es v"
  by (simp_all add: unrecorded_def ingestible_snoc)

lemma unrecorded_cong:
  assumes "\<And>p. p \<in> visited E es \<Longrightarrow> v p = v' p"
  shows "unrecorded E es v = unrecorded E es v'"
  using assms ingestible_visited by (fastforce simp: unrecorded_def)

subsection \<open>What the scanner relies on\<close>

text \<open>\<open>view s\<close> maps the path of each live row of the library to its id and signature.\<close>

locale scan_contract =
  fixes S :: "'s scan_store" and Q :: "'s enqueuer" and lp :: int
    and inv :: "'s \<Rightarrow> bool" and view :: "'s \<Rightarrow> string \<Rightarrow> (string \<times> string) option"
  assumes refs_view: "inv s \<Longrightarrow> \<exists>rs. st_refs S lp s = (s, Ok rs) \<and> distinct (map rf_path rs) \<and>
      (\<forall>p i g. view s p = Some (i, g) \<longleftrightarrow> \<lparr>rf_id = i, rf_path = p, rf_content_sig = g\<rparr> \<in> set rs)"
    and upsert_ok: "inv s \<Longrightarrow> st_upsert S lp i p fmt sz mt g x s = (s', Ok (r, known)) \<Longrightarrow>
      inv s' \<and> view s' = (view s)(p \<mapsto> (r, g)) \<and> (\<forall>i' g'. view s p = Some (i', g') \<longrightarrow> r = i')"
    and upsert_err: "inv s \<Longrightarrow> st_upsert S lp i p fmt sz mt g x s = (s', Err e) \<Longrightarrow> inv s' \<and> view s' = view s"
    and cover_view: "inv s \<Longrightarrow> cover_ok (Some \<lparr>cv_type = ct, cv_bytes = b\<rparr>) \<Longrightarrow>
      inv (fst (st_cover S i ct src b s)) \<and> view (fst (st_cover S i ct src b s)) = view s"
    and enqueue_view: "inv s \<Longrightarrow> inv (enqueue Q i s) \<and> view (enqueue Q i s) = view s"
    and delete_ok: "inv s \<Longrightarrow> view s p = Some (i, g) \<Longrightarrow>
      \<exists>s'. st_delete S i s = (s', Ok ()) \<and> inv s' \<and> view s' = (view s)(p := None)"
    and ids_inj: "inv s \<Longrightarrow> view s p = Some (i, g) \<Longrightarrow> view s p' = Some (i, g') \<Longrightarrow> p = p'"
begin

lemma store_cover_view:
  assumes "inv s" and "cover_ok (p_cover p)"
  shows "inv (store_cover S E i path p s) \<and> view (store_cover S E i path p s) = view s"
proof -
  have side: "inv (fst (st_cover S i ct src b s)) \<and> view (fst (st_cover S i ct src b s)) = view s"
    if "findSidecarCover E d = Some (b, ct)" for b ct src d
    by (rule cover_view [OF assms(1) findSidecarCover_ok [OF that]])
  have emb: "inv (fst (st_cover S i (cv_type cv) src (cv_bytes cv) s)) \<and>
      view (fst (st_cover S i (cv_type cv) src (cv_bytes cv) s)) = view s" if "p_cover p = Some cv" for cv src
    by (rule cover_view [OF assms(1)]) (use assms(2) that in \<open>simp add: cover_ok_def\<close>)
  show ?thesis unfolding store_cover_def by (simp add: side emb assms(1) split: option.split)
qed

lemma by_path_view:
  assumes "inv s" and "st_refs S lp s = (s, Ok rs)"
  shows "by_path rs p = Some r \<longleftrightarrow> view s p = Some (rf_id r, rf_content_sig r) \<and> rf_path r = p"
proof -
  from refs_view [OF assms(1)] assms(2) have d: "distinct (map rf_path rs)"
    and v: "\<And>p i g. view s p = Some (i, g) \<longleftrightarrow> \<lparr>rf_id = i, rf_path = p, rf_content_sig = g\<rparr> \<in> set rs" by auto
  have "distinct (map fst (rev (map (\<lambda>r. (rf_path r, r)) rs)))" using d by (simp add: rev_map [symmetric] comp_def)
  then have "by_path rs p = Some r \<longleftrightarrow> (p, r) \<in> set (rev (map (\<lambda>r. (rf_path r, r)) rs))"
    unfolding by_path_def by (rule map_of_eq_Some_iff)
  also have "\<dots> \<longleftrightarrow> r \<in> set rs \<and> rf_path r = p" by auto
  also have "\<dots> \<longleftrightarrow> view s p = Some (rf_id r, rf_content_sig r) \<and> rf_path r = p"
    using v [of p "rf_id r" "rf_content_sig r"] by (cases r) auto
  finally show ?thesis .
qed

lemma by_path_None:
  assumes "inv s" and "st_refs S lp s = (s, Ok rs)"
  shows "by_path rs p = None \<longleftrightarrow> view s p = None"
proof (cases "by_path rs p")
  case None
  have "view s p = None"
  proof (rule ccontr)
    assume "view s p \<noteq> None"
    then obtain i g where "view s p = Some (i, g)" by (cases "view s p") auto
    then have "by_path rs p = Some \<lparr>rf_id = i, rf_path = p, rf_content_sig = g\<rparr>"
      by (simp add: by_path_view [OF assms])
    with None show False by simp
  qed
  with None show ?thesis by simp
next
  case (Some r)
  then have "view s p = Some (rf_id r, rf_content_sig r)" using by_path_view [OF assms] by blast
  with Some show ?thesis by simp
qed

text \<open>What holds after a part of the walk.\<close>

definition progress :: "scan_env \<Rightarrow> 's \<Rightarrow> walk_entry list \<Rightarrow> 's \<times> walk_state \<Rightarrow> bool" where
  "progress E s0 es x \<longleftrightarrow> inv (fst x) \<and>
     (\<forall>p. view (fst x) p = view s0 p \<or>
        (\<exists>i g. view (fst x) p = Some (i, g) \<and> ingestible E es p g \<and> (\<forall>i' g'. view s0 p = Some (i', g') \<longrightarrow> i = i'))) \<and>
     wr_failed (ws_result (snd x)) = int (card (unrecorded E es (view (fst x)))) \<and>
     (\<forall>i \<in> ws_seen (snd x). \<exists>p g. p \<in> visited E es \<and> view (fst x) p = Some (i, g)) \<and>
     (\<forall>p i g. p \<in> visited E es \<longrightarrow> view (fst x) p = Some (i, g) \<longrightarrow> i \<in> ws_seen (snd x)) \<and>
     (ws_errors (snd x) \<longleftrightarrow> has_error es) \<and> wr_deleted (ws_result (snd x)) = 0 \<and>
     0 \<le> wr_failed (ws_result (snd x))"

lemma progress_quiet:
  assumes "progress E s0 es (s, w)" and "ws_result w' = ws_result w" and "ws_seen w' = ws_seen w"
    and "visited E es' = visited E es" and "ingestible E es' = ingestible E es"
    and "ws_errors w' \<longleftrightarrow> has_error es'"
  shows "progress E s0 es' (s, w')"
  using assms by (simp add: progress_def unrecorded_def)

text \<open>A file whose row is as the file is: the path is seen, nothing is written.\<close>

lemma progress_skip:
  assumes prog: "progress E s0 es (s, w)" and new: "p \<notin> visited E es" and sup: "IsSupported (se_uni E) p"
    and w': "ws_result w' = ws_result w" "ws_errors w' = ws_errors w"
      "ws_seen w' = ws_seen w \<union> {i. \<exists>g. view s p = Some (i, g)}"
    and ok: "\<And>g. ingestible E (es @ [WFile p info]) p g \<Longrightarrow> \<exists>i. view s p = Some (i, g)"
  shows "progress E s0 (es @ [WFile p info]) (s, w')"
proof -
  have vis: "visited E (es @ [WFile p info]) = insert p (visited E es)" using sup by (auto simp: visited_snoc)
  have ing: "ingestible E (es @ [WFile p info]) q g \<longleftrightarrow> ingestible E es q g" if "q \<noteq> p" for q g
    using that by (simp add: ingestible_snoc)
  have old: "\<not> ingestible E es p g" for g using new ingestible_visited by blast
  from prog have P: "inv s"
    "\<And>q. view s q = view s0 q \<or> (\<exists>i g. view s q = Some (i, g) \<and> ingestible E es q g \<and>
        (\<forall>i' g'. view s0 q = Some (i', g') \<longrightarrow> i = i'))"
    "wr_failed (ws_result w) = int (card (unrecorded E es (view s)))"
    "\<And>i. i \<in> ws_seen w \<Longrightarrow> \<exists>q g. q \<in> visited E es \<and> view s q = Some (i, g)"
    "\<And>q i g. q \<in> visited E es \<Longrightarrow> view s q = Some (i, g) \<Longrightarrow> i \<in> ws_seen w"
    "ws_errors w \<longleftrightarrow> has_error es" "wr_deleted (ws_result w) = 0" "0 \<le> wr_failed (ws_result w)"
    by (auto simp: progress_def)
  have A: "view s q = view s0 q \<or> (\<exists>i g. view s q = Some (i, g) \<and> ingestible E (es @ [WFile p info]) q g \<and>
        (\<forall>i' g'. view s0 q = Some (i', g') \<longrightarrow> i = i'))" for q
    using P(2) [of q] by (auto simp: ingestible_snoc)
  have B: "unrecorded E (es @ [WFile p info]) (view s) = unrecorded E es (view s)"
  proof -
    have "q \<in> unrecorded E (es @ [WFile p info]) (view s) \<longleftrightarrow> q \<in> unrecorded E es (view s)" for q
      using ok old ing [of q] by (cases "q = p") (auto simp: unrecorded_def)
    then show ?thesis by blast
  qed
  have C: "\<exists>q g. q \<in> visited E (es @ [WFile p info]) \<and> view s q = Some (i, g)" if "i \<in> ws_seen w'" for i
    using that P(4) [of i] vis w'(3) by auto
  have D: "i \<in> ws_seen w'" if "q \<in> visited E (es @ [WFile p info])" "view s q = Some (i, g)" for q i g
    using that P(5) [of q i g] vis w'(3) by auto
  have Er: "has_error (es @ [WFile p info]) = has_error es" by (simp add: has_error_snoc)
  show ?thesis unfolding progress_def fst_conv snd_conv w'(1,2) B
    using P(1,3,6-8) A C D Er by blast
qed

text \<open>A file whose upsert failed: the store is as it was, and the failure is counted.\<close>

lemma progress_failed:
  assumes prog: "progress E s0 es (s, w)" and new: "p \<notin> visited E es" and sup: "IsSupported (se_uni E) p"
    and s': "inv s'" "view s' = view s"
    and bad: "ingestible E (es @ [WFile p info]) p g0" "\<And>i. view s p \<noteq> Some (i, g0)"
    and w': "wr_failed (ws_result w') = wr_failed (ws_result w) + 1" "wr_deleted (ws_result w') = wr_deleted (ws_result w)"
      "ws_errors w' = ws_errors w" "ws_seen w' = ws_seen w \<union> {i. \<exists>g. view s p = Some (i, g)}"
  shows "progress E s0 (es @ [WFile p info]) (s', w')"
proof -
  let ?es = "es @ [WFile p info]"
  have vis: "visited E ?es = insert p (visited E es)" using sup by (auto simp: visited_snoc)
  from prog have P:
    "\<And>q. view s q = view s0 q \<or> (\<exists>i g. view s q = Some (i, g) \<and> ingestible E es q g \<and>
        (\<forall>i' g'. view s0 q = Some (i', g') \<longrightarrow> i = i'))"
    "\<And>i. i \<in> ws_seen w \<Longrightarrow> \<exists>q g. q \<in> visited E es \<and> view s q = Some (i, g)"
    "\<And>q i g. q \<in> visited E es \<Longrightarrow> view s q = Some (i, g) \<Longrightarrow> i \<in> ws_seen w"
    "ws_errors w \<longleftrightarrow> has_error es" "wr_deleted (ws_result w) = 0" "0 \<le> wr_failed (ws_result w)"
    "wr_failed (ws_result w) = int (card (unrecorded E es (view s)))"
    by (auto simp: progress_def)
  have A: "view s' q = view s0 q \<or> (\<exists>i g. view s' q = Some (i, g) \<and> ingestible E ?es q g \<and>
        (\<forall>i' g'. view s0 q = Some (i', g') \<longrightarrow> i = i'))" for q
    using P(1) [of q] by (auto simp: ingestible_snoc s'(2))
  have C: "\<exists>q g. q \<in> visited E ?es \<and> view s' q = Some (i, g)" if "i \<in> ws_seen w'" for i
    using that P(2) [of i] vis w'(4) by (auto simp: s'(2))
  have D: "i \<in> ws_seen w'" if "q \<in> visited E ?es" "view s' q = Some (i, g)" for q i g
    using that P(3) [of q i g] vis w'(4) by (auto simp: s'(2))
  have Er: "has_error ?es = has_error es" by (simp add: has_error_snoc)
  have "q \<in> unrecorded E ?es (view s) \<longleftrightarrow> q = p \<or> q \<in> unrecorded E es (view s)" for q
  proof (cases "q = p")
    case True
    then show ?thesis using bad by (auto simp: unrecorded_def)
  qed (auto simp: unrecorded_def ingestible_snoc)
  then have "unrecorded E ?es (view s) = insert p (unrecorded E es (view s))" by blast
  moreover have "p \<notin> unrecorded E es (view s)" using new unrecorded_visited by blast
  ultimately have B: "wr_failed (ws_result w) + 1 = int (card (unrecorded E ?es (view s')))" by (simp add: P(7) s'(2))
  have F: "0 \<le> wr_failed (ws_result w) + 1" using P(6) by linarith
  show ?thesis unfolding progress_def fst_conv snd_conv w'(1-3)
    using s'(1) P(4,5) A B C D Er F by blast
qed

text \<open>A file that was stored.\<close>

lemma progress_upsert:
  assumes prog: "progress E s0 es (s, w)" and new: "p \<notin> visited E es"
    and fl: "IsSupported (se_uni E) p" "fi_regular i" "sig = stableID E p (fi_size i) (fi_mtime i)"
    and s': "inv s'" "view s' = (view s)(p \<mapsto> (r, sig))"
    and same: "\<And>i' g'. view s0 p = Some (i', g') \<Longrightarrow> r = i'"
    and w': "wr_failed (ws_result w') = wr_failed (ws_result w)" "wr_deleted (ws_result w') = 0"
      "ws_errors w' = ws_errors w" "ws_seen w' = insert r (ws_seen w)"
  shows "progress E s0 (es @ [WFile p (Some i)]) (s', w')"
proof -
  let ?es = "es @ [WFile p (Some i)]"
  have vis: "visited E ?es = insert p (visited E es)" using fl by (auto simp: visited_snoc)
  have ing: "ingestible E ?es q g \<longleftrightarrow> ingestible E es q g \<or> q = p \<and> g = sig" for q g
    using fl by (auto simp: ingestible_snoc)
  have old: "\<not> ingestible E es p g" for g using new ingestible_visited by blast
  from prog have P:
    "\<And>q. view s q = view s0 q \<or> (\<exists>i g. view s q = Some (i, g) \<and> ingestible E es q g \<and>
        (\<forall>i' g'. view s0 q = Some (i', g') \<longrightarrow> i = i'))"
    "wr_failed (ws_result w) = int (card (unrecorded E es (view s)))"
    "\<And>i. i \<in> ws_seen w \<Longrightarrow> \<exists>q g. q \<in> visited E es \<and> view s q = Some (i, g)"
    "\<And>q i g. q \<in> visited E es \<Longrightarrow> view s q = Some (i, g) \<Longrightarrow> i \<in> ws_seen w"
    "ws_errors w \<longleftrightarrow> has_error es" "0 \<le> wr_failed (ws_result w)"
    by (auto simp: progress_def)
  have A: "view s' q = view s0 q \<or> (\<exists>i g. view s' q = Some (i, g) \<and> ingestible E ?es q g \<and>
        (\<forall>i' g'. view s0 q = Some (i', g') \<longrightarrow> i = i'))" for q
    using P(1) [of q] same by (cases "q = p") (auto simp: s'(2) ing)
  have "q \<in> unrecorded E ?es (view s') \<longleftrightarrow> q \<in> unrecorded E es (view s)" for q
    using old by (cases "q = p") (auto simp: unrecorded_def s'(2) ing)
  then have B: "unrecorded E ?es (view s') = unrecorded E es (view s)" by blast
  have C: "\<exists>q g. q \<in> visited E ?es \<and> view s' q = Some (j, g)" if j: "j \<in> ws_seen w'" for j
  proof (cases "j = r")
    case True
    then show ?thesis by (auto simp: vis s'(2))
  next
    case False
    with j P(3) [of j] obtain q g where "q \<in> visited E es" "view s q = Some (j, g)" by (auto simp: w'(4))
    moreover from this new have "q \<noteq> p" by auto
    ultimately show ?thesis by (auto simp: vis s'(2))
  qed
  have D: "j \<in> ws_seen w'" if "q \<in> visited E ?es" "view s' q = Some (j, g)" for q j g
    using that P(4) [of q j g] by (cases "q = p") (auto simp: vis s'(2) w'(4))
  have Er: "has_error ?es = has_error es" by (simp add: has_error_snoc)
  show ?thesis unfolding progress_def fst_conv snd_conv w'(1-3) B
    using s'(1) P(2,5,6) A C D Er by blast
qed


lemma progress_start:
  assumes "inv s" shows "progress E s [] (s, start_state)"
  using assms by (simp add: progress_def start_state_def zero_result_def visited_def ingestible_def has_error_def unrecorded_def)

lemma progress_unvisited:
  assumes "progress E s0 es x" and "p \<notin> visited E es" shows "view (fst x) p = view s0 p"
proof -
  have "view (fst x) p = view s0 p \<or> (\<exists>i g. view (fst x) p = Some (i, g) \<and> ingestible E es p g \<and>
      (\<forall>i' g'. view s0 p = Some (i', g') \<longrightarrow> i = i'))"
    using assms(1) unfolding progress_def by blast
  then show ?thesis using assms(2) ingestible_visited by blast
qed

lemma progress_ingest:
  assumes prog: "progress E s0 es (s, w0)" and new: "p \<notin> visited E es"
    and fl: "IsSupported (se_uni E) p" "fi_regular i" "sig = stableID E p (fi_size i) (fi_mtime i)"
    and w: "ws_result w = ws_result w0" "ws_errors w = ws_errors w0"
      "ws_seen w = ws_seen w0 \<union> {i. \<exists>g. view s p = Some (i, g)}"
    and known: "\<And>j g. view s p = Some (j, g) \<Longrightarrow> eid = j"
    and changed: "\<And>j. view s p \<noteq> Some (j, sig)"
  shows "progress E s0 (es @ [WFile p (Some i)]) (ingest S Q E lp eid p i sig (s, w))"
proof -
  have inv: "inv s" using prog by (simp add: progress_def)
  have same: "view s0 p = view s p" using progress_unvisited [OF prog new] by simp
  let ?pp = "parse_or_empty E p"
  obtain s1 v where u: "st_upsert S lp eid p (p_format ?pp) (fi_size i) (fi_mtime i) sig ?pp s = (s1, v)"
    by (cases "st_upsert S lp eid p (p_format ?pp) (fi_size i) (fi_mtime i) sig ?pp s")
  show ?thesis
  proof (cases v)
    case (Inl e)
    from upsert_err [OF inv, of eid p "p_format ?pp" "fi_size i" "fi_mtime i" sig ?pp s1 e] u Inl
    have s1: "inv s1" "view s1 = view s" by simp_all
    let ?w = "w\<lparr>ws_result := (ws_result w)\<lparr>wr_failed := wr_failed (ws_result w) + 1\<rparr>\<rparr>"
    have "ingest S Q E lp eid p i sig (s, w) = (s1, ?w)" by (simp add: ingest_def u Inl Let_def)
    moreover have "progress E s0 (es @ [WFile p (Some i)]) (s1, ?w)"
      by (rule progress_failed [OF prog new fl(1) s1, of _ sig])
        (use w changed fl in \<open>auto simp: ingestible_snoc\<close>)
    ultimately show ?thesis by simp
  next
    case (Inr rk)
    obtain r k where rk: "rk = (r, k)" by (cases rk)
    from upsert_ok [OF inv, of eid p "p_format ?pp" "fi_size i" "fi_mtime i" sig ?pp s1 r k] u Inr rk
    have s1: "inv s1" "view s1 = (view s)(p \<mapsto> (r, sig))" "\<And>i' g'. view s p = Some (i', g') \<Longrightarrow> r = i'"
      by auto
    let ?s2 = "enqueue Q r (store_cover S E r p ?pp s1)"
    let ?w = "w\<lparr>ws_seen := insert r (ws_seen w), ws_result := (if k
        then (ws_result w)\<lparr>wr_changed := wr_changed (ws_result w) + 1\<rparr>
        else (ws_result w)\<lparr>wr_added := wr_added (ws_result w) + 1\<rparr>)\<rparr>"
    have s2: "inv ?s2" "view ?s2 = (view s)(p \<mapsto> (r, sig))"
      using s1 store_cover_view [OF s1(1) parse_or_empty_cover] by (simp_all add: enqueue_view)
    have del: "wr_deleted (ws_result w0) = 0" using prog by (simp add: progress_def)
    have seen: "ws_seen ?w = insert r (ws_seen w0)" using s1(3) w(3) by auto
    have "ingest S Q E lp eid p i sig (s, w) = (?s2, ?w)" by (simp add: ingest_def u Inr rk Let_def)
    moreover have "progress E s0 (es @ [WFile p (Some i)]) (?s2, ?w)"
      by (rule progress_upsert [OF prog new fl s2]) (use s1(3) same w del seen in simp_all)
    ultimately show ?thesis by simp
  qed
qed

lemma progress_visit:
  assumes inv0: "inv s0" and refs: "st_refs S lp s0 = (s0, Ok rs)"
    and prog: "progress E s0 es x" and d: "distinct (file_paths (es @ [e]))"
  shows "progress E s0 (es @ [e]) (visit S Q E lp rs x e)"
proof (cases e)
  case (WErr p)
  then show ?thesis using prog
    by (cases x) (auto simp: visit_def visited_snoc ingestible_snoc has_error_snoc unrecorded_other progress_def)
next
  case (WDir p)
  then show ?thesis using prog
    by (cases x) (auto simp: visit_def visited_snoc ingestible_snoc has_error_snoc unrecorded_other progress_def)
next
  case (WFile p info)
  obtain s w where x: "x = (s, w)" by (cases x)
  show ?thesis
  proof (cases "IsSupported (se_uni E) p")
    case False
    then have "visited E (es @ [e]) = visited E es" "ingestible E (es @ [e]) = ingestible E es"
      "has_error (es @ [e]) = has_error es"
      using WFile by (auto simp: visited_snoc ingestible_snoc has_error_snoc fun_eq_iff)
    moreover have "visit S Q E lp rs x e = (s, w)" using False WFile x by (simp add: visit_def)
    ultimately show ?thesis using progress_quiet [OF prog [unfolded x], of w "es @ [e]"] prog x
      by (simp add: progress_def)
  next
    case True
    have new: "p \<notin> visited E es" using fresh_path d WFile by blast
    have same: "view s p = view s0 p" using progress_unvisited [OF prog new] x by simp
    define ref where "ref = by_path rs p"
    define w' where "w' = (case ref of Some r \<Rightarrow> w\<lparr>ws_seen := insert (rf_id r) (ws_seen w)\<rparr> | None \<Rightarrow> w)"
    have none: "view s p = None" if "ref = None"
      using that by_path_None [OF inv0 refs] same by (simp add: ref_def)
    have some: "view s p = Some (rf_id r, rf_content_sig r)" if "ref = Some r" for r
      using that by_path_view [OF inv0 refs, of p r] same by (simp add: ref_def)
    have W: "ws_result w' = ws_result w" "ws_errors w' = ws_errors w"
        "ws_seen w' = ws_seen w \<union> {i. \<exists>g. view s p = Some (i, g)}"
      using none some by (auto simp: w'_def split: option.split)
    have skip: "progress E s0 (es @ [e]) (s, w')"
      if "\<And>g. ingestible E (es @ [WFile p info]) p g \<Longrightarrow> \<exists>i. view s p = Some (i, g)"
      unfolding WFile by (rule progress_skip [OF prog [unfolded x] new True W that])
    have old: "\<not> ingestible E es p g" for g using new ingestible_visited by blast
    have V: "visit S Q E lp rs x e = (case info of None \<Rightarrow> (s, w')
        | Some i \<Rightarrow> if \<not> fi_regular i then (s, w')
            else let sig = stableID E p (fi_size i) (fi_mtime i)
                 in case ref of
                      Some r \<Rightarrow> if rf_content_sig r = sig then (s, w') else ingest S Q E lp (rf_id r) p i sig (s, w')
                    | None \<Rightarrow> ingest S Q E lp sig p i sig (s, w'))"
      using True unfolding visit_def WFile x ref_def w'_def fst_conv snd_conv by (simp add: Let_def)
    show ?thesis
    proof (cases info)
      case None
      then have "visit S Q E lp rs x e = (s, w')" using V by (simp add: Let_def)
      with skip old None show ?thesis by (simp add: ingestible_snoc)
    next
      case (Some i)
      let ?sig = "stableID E p (fi_size i) (fi_mtime i)"
      show ?thesis
      proof (cases "fi_regular i")
        case False
        then have "visit S Q E lp rs x e = (s, w')" using V Some by (simp add: Let_def)
        with skip old Some False show ?thesis by (simp add: ingestible_snoc)
      next
        case reg: True
        show ?thesis
        proof (cases ref)
          case None
          then have "visit S Q E lp rs x e = ingest S Q E lp ?sig p i ?sig (s, w')"
            using V Some reg by (simp add: Let_def)
          moreover have "progress E s0 (es @ [WFile p (Some i)]) (ingest S Q E lp ?sig p i ?sig (s, w'))"
            by (rule progress_ingest [OF prog [unfolded x] new True reg refl W]) (simp_all add: none [OF None])
          ultimately show ?thesis using WFile Some by simp
        next
          case (Some r)
          show ?thesis
          proof (cases "rf_content_sig r = ?sig")
            case True
            then have "visit S Q E lp rs x e = (s, w')" using V \<open>info = Some i\<close> reg Some by (simp add: Let_def)
            moreover have "progress E s0 (es @ [e]) (s, w')"
              by (rule skip) (use True some [OF Some] old \<open>info = Some i\<close> in \<open>auto simp: ingestible_snoc\<close>)
            ultimately show ?thesis by simp
          next
            case False
            then have "visit S Q E lp rs x e = ingest S Q E lp (rf_id r) p i ?sig (s, w')"
              using V \<open>info = Some i\<close> reg Some by (simp add: Let_def)
            moreover have "progress E s0 (es @ [WFile p (Some i)]) (ingest S Q E lp (rf_id r) p i ?sig (s, w'))"
              by (rule progress_ingest [OF prog [unfolded x] new \<open>IsSupported (se_uni E) p\<close> reg refl W])
                (use False in \<open>simp_all add: some [OF Some]\<close>)
            ultimately show ?thesis using WFile \<open>info = Some i\<close> by simp
          qed
        qed
      qed
    qed
  qed
qed

lemma progress_walk:
  assumes "inv s" and "st_refs S lp s = (s, Ok rs)" and "distinct (file_paths es)"
  shows "progress E s es (foldl (visit S Q E lp rs) (s, start_state) es)"
  using assms(3)
proof (induction es rule: rev_induct)
  case Nil
  show ?case using progress_start [OF assms(1)] by simp
next
  case (snoc e es)
  have "distinct (file_paths es)" using snoc.prems by (simp add: file_paths_def)
  from progress_visit [OF assms(1,2) snoc.IH [OF this] snoc.prems] show ?case by simp
qed

text \<open>The deletions: exactly the rows whose path was not visited go.\<close>

lemma reconcile_fold:
  assumes "inv (fst x)" and "\<And>r. r \<in> set rs \<Longrightarrow> \<exists>g. view (fst x) (rf_path r) = Some (rf_id r, g)"
    and "distinct (map rf_path rs)" and "\<And>r. r \<in> set rs \<Longrightarrow> rf_id r \<in> ws_seen (snd x) \<longleftrightarrow> rf_path r \<in> V"
  shows "inv (fst (foldl (reconcile S) x rs)) \<and>
    view (fst (foldl (reconcile S) x rs)) =
      (\<lambda>p. if p \<in> rf_path ` set rs \<and> p \<notin> V then None else view (fst x) p) \<and>
    wr_deleted (ws_result (snd (foldl (reconcile S) x rs))) =
      wr_deleted (ws_result (snd x)) + int (length (filter (\<lambda>r. rf_path r \<notin> V) rs)) \<and>
    wr_failed (ws_result (snd (foldl (reconcile S) x rs))) = wr_failed (ws_result (snd x))"
  using assms
proof (induction rs arbitrary: x)
  case Nil
  then show ?case by simp
next
  case (Cons r rs)
  show ?case
  proof (cases "rf_path r \<in> V")
    case True
    with Cons.prems(4) have "reconcile S x r = x" by (simp add: reconcile_def)
    moreover have "inv (fst (foldl (reconcile S) x rs)) \<and> view (fst (foldl (reconcile S) x rs)) =
        (\<lambda>p. if p \<in> rf_path ` set rs \<and> p \<notin> V then None else view (fst x) p) \<and>
      wr_deleted (ws_result (snd (foldl (reconcile S) x rs))) =
        wr_deleted (ws_result (snd x)) + int (length (filter (\<lambda>r. rf_path r \<notin> V) rs)) \<and>
      wr_failed (ws_result (snd (foldl (reconcile S) x rs))) = wr_failed (ws_result (snd x))"
      by (rule Cons.IH) (use Cons.prems in auto)
    ultimately show ?thesis using True by (auto simp: fun_eq_iff)
  next
    case False
    with Cons.prems(4) have unseen: "rf_id r \<notin> ws_seen (snd x)" by simp
    from Cons.prems(2) obtain g where "view (fst x) (rf_path r) = Some (rf_id r, g)" by force
    from delete_ok [OF Cons.prems(1) this] obtain s' where s': "st_delete S (rf_id r) (fst x) = (s', Ok ())"
      "inv s'" "view s' = (view (fst x))(rf_path r := None)" by blast
    let ?x = "(s', (snd x)\<lparr>ws_result := (ws_result (snd x))\<lparr>wr_deleted := wr_deleted (ws_result (snd x)) + 1\<rparr>\<rparr>)"
    have step: "reconcile S x r = ?x" using unseen s'(1) by (simp add: reconcile_def Let_def)
    have "inv (fst (foldl (reconcile S) ?x rs)) \<and> view (fst (foldl (reconcile S) ?x rs)) =
        (\<lambda>p. if p \<in> rf_path ` set rs \<and> p \<notin> V then None else view (fst ?x) p) \<and>
      wr_deleted (ws_result (snd (foldl (reconcile S) ?x rs))) =
        wr_deleted (ws_result (snd ?x)) + int (length (filter (\<lambda>r. rf_path r \<notin> V) rs)) \<and>
      wr_failed (ws_result (snd (foldl (reconcile S) ?x rs))) = wr_failed (ws_result (snd ?x))"
    proof (rule Cons.IH)
      fix q assume q: "q \<in> set rs"
      have "rf_path q \<noteq> rf_path r" using Cons.prems(3) imageI [OF q, of rf_path] by auto
      then show "\<exists>g. view (fst ?x) (rf_path q) = Some (rf_id q, g)" using Cons.prems(2) [of q] q s'(3) by simp
    qed (use s' Cons.prems in auto)
    with False show ?thesis unfolding foldl_Cons step by (auto simp: fun_eq_iff s'(3))
  qed
qed

definition unseen_rows :: "scan_env \<Rightarrow> walk_entry list \<Rightarrow> 's \<Rightarrow> string set" where
  "unseen_rows E es s = (if has_error es then {} else dom (view s) - visited E es)"

text \<open>The effect of a scan on the live rows of the library.\<close>

lemma Walk_spec:
  assumes inv: "inv s" and d: "distinct (file_paths es)"
  obtains s' res where "Walk S Q E es lp s = (s', Ok res)" and "inv s'"
    and "\<And>p i g. view s' p = Some (i, g) \<Longrightarrow> p \<notin> unseen_rows E es s \<and>
        (view s p = Some (i, g) \<or> ingestible E es p g \<and> (\<forall>i' g'. view s p = Some (i', g') \<longrightarrow> i = i'))"
    and "\<And>p. p \<in> dom (view s) - unseen_rows E es s \<Longrightarrow> p \<in> dom (view s')"
    and "wr_failed res = 0 \<Longrightarrow> (\<forall>p g. ingestible E es p g \<longrightarrow> (\<exists>i. view s' p = Some (i, g)))"
    and "wr_deleted res = int (card (unseen_rows E es s))" and "0 \<le> wr_failed res"
    and "wr_failed res = int (card (unrecorded E es (view s')))"
proof -
  from refs_view [OF inv] obtain rs where rs: "st_refs S lp s = (s, Ok rs)" "distinct (map rf_path rs)"
    "\<And>p i g. view s p = Some (i, g) \<longleftrightarrow> \<lparr>rf_id = i, rf_path = p, rf_content_sig = g\<rparr> \<in> set rs" by auto
  let ?x = "foldl (visit S Q E lp rs) (s, start_state) es"
  have prog: "progress E s es ?x" by (rule progress_walk [OF inv rs(1) d])
  then have P: "inv (fst ?x)"
    "\<And>p. view (fst ?x) p = view s p \<or> (\<exists>i g. view (fst ?x) p = Some (i, g) \<and> ingestible E es p g \<and>
        (\<forall>i' g'. view s p = Some (i', g') \<longrightarrow> i = i'))"
    "wr_failed (ws_result (snd ?x)) = int (card (unrecorded E es (view (fst ?x))))"
    "\<And>i. i \<in> ws_seen (snd ?x) \<Longrightarrow> \<exists>p g. p \<in> visited E es \<and> view (fst ?x) p = Some (i, g)"
    "\<And>p i g. p \<in> visited E es \<Longrightarrow> view (fst ?x) p = Some (i, g) \<Longrightarrow> i \<in> ws_seen (snd ?x)"
    "ws_errors (snd ?x) \<longleftrightarrow> has_error es" "wr_deleted (ws_result (snd ?x)) = 0"
    "0 \<le> wr_failed (ws_result (snd ?x))"
    unfolding progress_def by blast+
  have B: "\<forall>p g. ingestible E es p g \<longrightarrow> (\<exists>i. view (fst ?x) p = Some (i, g))" if "wr_failed (ws_result (snd ?x)) = 0"
    using that P(3) unrecorded_none [of E es "view (fst ?x)"] by simp
  have dom: "rf_path ` set rs = dom (view s)"
  proof
    show "rf_path ` set rs \<subseteq> dom (view s)"
    proof
      fix p assume "p \<in> rf_path ` set rs"
      then obtain r where "r \<in> set rs" "p = rf_path r" by blast
      then show "p \<in> dom (view s)" using rs(3) [of p "rf_id r" "rf_content_sig r"] by auto
    qed
    show "dom (view s) \<subseteq> rf_path ` set rs"
    proof
      fix p assume "p \<in> dom (view s)"
      then obtain i g where "view s p = Some (i, g)" by (cases "view s p") auto
      with rs(3) have "\<lparr>rf_id = i, rf_path = p, rf_content_sig = g\<rparr> \<in> set rs" by blast
      then show "p \<in> rf_path ` set rs" by force
    qed
  qed
  have old: "\<exists>g. view (fst ?x) p = Some (i, g)" if "view s p = Some (i, g0)" for p i g0
    using P(2) [of p] that by auto
  show ?thesis
  proof (cases "has_error es")
    case True
    have W: "Walk S Q E es lp s = (fst ?x, Ok (ws_result (snd ?x)))"
      using True P(6) by (simp add: Walk_def rs(1) Let_def)
    have U: "unseen_rows E es s = {}" using True by (simp add: unseen_rows_def)
    show ?thesis
    proof (rule that [OF W P(1)])
      fix p i g assume "view (fst ?x) p = Some (i, g)"
      with P(2) [of p] show "p \<notin> unseen_rows E es s \<and> (view s p = Some (i, g) \<or> ingestible E es p g \<and>
          (\<forall>i' g'. view s p = Some (i', g') \<longrightarrow> i = i'))" by (auto simp: U)
    next
      fix p assume "p \<in> dom (view s) - unseen_rows E es s"
      then show "p \<in> dom (view (fst ?x))" using old by fastforce
    qed (use B P(3,7,8) U in auto)
  next
    case False
    let ?y = "foldl (reconcile S) ?x rs"
    have W: "Walk S Q E es lp s = (fst ?y, Ok (ws_result (snd ?y)))"
      using False P(6) by (simp add: Walk_def rs(1) Let_def)
    have U: "unseen_rows E es s = dom (view s) - visited E es" using False by (simp add: unseen_rows_def)
    have R: "inv (fst ?y) \<and> view (fst ?y) =
        (\<lambda>p. if p \<in> rf_path ` set rs \<and> p \<notin> visited E es then None else view (fst ?x) p) \<and>
      wr_deleted (ws_result (snd ?y)) = wr_deleted (ws_result (snd ?x)) +
        int (length (filter (\<lambda>r. rf_path r \<notin> visited E es) rs)) \<and>
      wr_failed (ws_result (snd ?y)) = wr_failed (ws_result (snd ?x))"
    proof (rule reconcile_fold [OF P(1) _ rs(2)])
      fix r assume r: "r \<in> set rs"
      have "view s (rf_path r) = Some (rf_id r, rf_content_sig r)" using r by (simp add: rs(3))
      with old show v: "\<exists>g. view (fst ?x) (rf_path r) = Some (rf_id r, g)" by blast
      show "rf_id r \<in> ws_seen (snd ?x) \<longleftrightarrow> rf_path r \<in> visited E es"
        using v P(4) [of "rf_id r"] P(5) [of "rf_path r" "rf_id r"] ids_inj [OF P(1)] by blast
    qed
    have view_y: "view (fst ?y) p = (if p \<in> unseen_rows E es s then None else view (fst ?x) p)" for p
      using R by (simp add: U dom)
    have gone: "p \<notin> unseen_rows E es s" if "ingestible E es p g" for p g
      using that ingestible_visited by (auto simp: U)
    have count: "length (filter (\<lambda>r. rf_path r \<notin> visited E es) rs) = card (unseen_rows E es s)"
    proof -
      have "length (filter (\<lambda>r. rf_path r \<notin> visited E es) rs) =
          length (filter (\<lambda>p. p \<notin> visited E es) (map rf_path rs))" by (simp add: filter_map comp_def)
      also have "\<dots> = card (set (filter (\<lambda>p. p \<notin> visited E es) (map rf_path rs)))"
        using rs(2) by (intro distinct_card [symmetric] distinct_filter)
      also have "set (filter (\<lambda>p. p \<notin> visited E es) (map rf_path rs)) = unseen_rows E es s"
        using dom by (auto simp: U)
      finally show ?thesis .
    qed
    show ?thesis
    proof (rule that [OF W])
      show "inv (fst ?y)" using R by blast
    next
      fix p i g assume "view (fst ?y) p = Some (i, g)"
      then have "p \<notin> unseen_rows E es s" "view (fst ?x) p = Some (i, g)"
        by (simp_all add: view_y split: if_splits)
      with P(2) [of p] show "p \<notin> unseen_rows E es s \<and> (view s p = Some (i, g) \<or> ingestible E es p g \<and>
          (\<forall>i' g'. view s p = Some (i', g') \<longrightarrow> i = i'))" by auto
    next
      fix p assume p: "p \<in> dom (view s) - unseen_rows E es s"
      then obtain i g where "view s p = Some (i, g)" by (cases "view s p") auto
      from old [OF this] p show "p \<in> dom (view (fst ?y))" by (auto simp: view_y)
    next
      assume "wr_failed (ws_result (snd ?y)) = 0"
      then have "wr_failed (ws_result (snd ?x)) = 0" using R by simp
      from B [OF this] gone
      show "\<forall>p g. ingestible E es p g \<longrightarrow> (\<exists>i. view (fst ?y) p = Some (i, g))" by (simp add: view_y)
    next
      have "unrecorded E es (view (fst ?y)) = unrecorded E es (view (fst ?x))"
        by (rule unrecorded_cong) (simp add: view_y U)
      then show "wr_failed (ws_result (snd ?y)) = int (card (unrecorded E es (view (fst ?y))))" using R P(3) by simp
    qed (use R P(7,8) count in auto)
  qed
qed

text \<open>A scan of an unchanged tree that was fully ingested writes nothing.\<close>

definition in_sync :: "scan_env \<Rightarrow> walk_entry list \<Rightarrow> 's \<Rightarrow> bool" where
  "in_sync E es s \<longleftrightarrow> \<not> has_error es \<and> dom (view s) \<subseteq> visited E es \<and>
     (\<forall>p g. ingestible E es p g \<longrightarrow> (\<exists>i. view s p = Some (i, g)))"

lemma visit_in_sync:
  assumes inv: "inv s" and refs: "st_refs S lp s = (s, Ok rs)" and e: "e \<in> set es" and sync: "in_sync E es s"
  shows "\<exists>W. visit S Q E lp rs (s, w) e = (s, w\<lparr>ws_seen := W\<rparr>) \<and> ws_seen w \<subseteq> W \<and>
    (\<forall>p info i g. e = WFile p info \<longrightarrow> IsSupported (se_uni E) p \<longrightarrow> view s p = Some (i, g) \<longrightarrow> i \<in> W)"
proof (cases e)
  case (WErr p)
  then show ?thesis using e sync by (force simp: in_sync_def has_error_def list_ex_iff)
next
  case (WDir p)
  then show ?thesis by (intro exI [of _ "ws_seen w"]) (simp add: visit_def)
next
  case (WFile p info)
  show ?thesis
  proof (cases "IsSupported (se_uni E) p")
    case False
    then show ?thesis using WFile by (intro exI [of _ "ws_seen w"]) (simp add: visit_def)
  next
    case True
    have ing: "ingestible E es p (stableID E p (fi_size i) (fi_mtime i))" if "info = Some i" "fi_regular i" for i
      using that e WFile True by (auto simp: ingestible_def)
    show ?thesis
    proof (cases "by_path rs p")
      case None
      then have v: "view s p = None" using by_path_None [OF inv refs] by simp
      have "\<not> (\<exists>i. info = Some i \<and> fi_regular i)"
        using ing sync v by (fastforce simp: in_sync_def)
      then show ?thesis using None v True WFile
        by (intro exI [of _ "ws_seen w"]) (auto simp: visit_def Let_def split: option.split)
    next
      case (Some r)
      then have v: "view s p = Some (rf_id r, rf_content_sig r)" using by_path_view [OF inv refs] by blast
      have "rf_content_sig r = stableID E p (fi_size i) (fi_mtime i)" if "info = Some i" "fi_regular i" for i
      proof -
        from ing [OF that] sync obtain j where "view s p = Some (j, stableID E p (fi_size i) (fi_mtime i))"
          unfolding in_sync_def by blast
        with v show ?thesis by simp
      qed
      then show ?thesis using Some v True WFile
        by (intro exI [of _ "insert (rf_id r) (ws_seen w)"]) (auto simp: visit_def Let_def split: option.split)
    qed
  qed
qed

lemma visits_in_sync:
  assumes inv: "inv s" and refs: "st_refs S lp s = (s, Ok rs)" and sync: "in_sync E es s"
  shows "set es' \<subseteq> set es \<Longrightarrow> \<exists>W. foldl (visit S Q E lp rs) (s, w) es' = (s, w\<lparr>ws_seen := W\<rparr>) \<and> ws_seen w \<subseteq> W \<and>
    (\<forall>p info i g. WFile p info \<in> set es' \<longrightarrow> IsSupported (se_uni E) p \<longrightarrow> view s p = Some (i, g) \<longrightarrow> i \<in> W)"
proof (induction es' arbitrary: w)
  case Nil
  then show ?case by (intro exI [of _ "ws_seen w"]) simp
next
  case (Cons e es')
  then have "e \<in> set es" by simp
  from visit_in_sync [OF inv refs this sync, of w] obtain W where W:
    "visit S Q E lp rs (s, w) e = (s, w\<lparr>ws_seen := W\<rparr>)" "ws_seen w \<subseteq> W"
    "\<And>p info i g. e = WFile p info \<Longrightarrow> IsSupported (se_uni E) p \<Longrightarrow> view s p = Some (i, g) \<Longrightarrow> i \<in> W" by blast
  from Cons have "set es' \<subseteq> set es" by simp
  from Cons.IH [OF this, of "w\<lparr>ws_seen := W\<rparr>"] have
    "\<exists>W'. foldl (visit S Q E lp rs) (s, w\<lparr>ws_seen := W\<rparr>) es' = (s, w\<lparr>ws_seen := W'\<rparr>) \<and> W \<subseteq> W' \<and>
    (\<forall>p info i g. WFile p info \<in> set es' \<longrightarrow> IsSupported (se_uni E) p \<longrightarrow> view s p = Some (i, g) \<longrightarrow> i \<in> W')"
    by simp
  then obtain W' where W':
    "foldl (visit S Q E lp rs) (s, w\<lparr>ws_seen := W\<rparr>) es' = (s, w\<lparr>ws_seen := W'\<rparr>)" "W \<subseteq> W'"
    "\<And>p info i g. WFile p info \<in> set es' \<Longrightarrow> IsSupported (se_uni E) p \<Longrightarrow> view s p = Some (i, g) \<Longrightarrow> i \<in> W'"
    by blast
  show ?case
  proof (intro exI [of _ W'] conjI allI impI)
    show "foldl (visit S Q E lp rs) (s, w) (e # es') = (s, w\<lparr>ws_seen := W'\<rparr>)" using W W' by simp
    show "ws_seen w \<subseteq> W'" using W W' by blast
    fix p info i g
    assume "WFile p info \<in> set (e # es')" "IsSupported (se_uni E) p" "view s p = Some (i, g)"
    then show "i \<in> W'" using W(3) W' by auto
  qed
qed

lemma Walk_in_sync:
  assumes inv: "inv s" and sync: "in_sync E es s"
  shows "Walk S Q E es lp s = (s, Ok zero_result)"
proof -
  from refs_view [OF inv] obtain rs where rs: "st_refs S lp s = (s, Ok rs)"
    "\<And>p i g. view s p = Some (i, g) \<longleftrightarrow> \<lparr>rf_id = i, rf_path = p, rf_content_sig = g\<rparr> \<in> set rs" by auto
  from visits_in_sync [OF inv rs(1) sync order.refl, of start_state] obtain W where W:
    "foldl (visit S Q E lp rs) (s, start_state) es = (s, start_state\<lparr>ws_seen := W\<rparr>)"
    "\<And>p info i g. WFile p info \<in> set es \<Longrightarrow> IsSupported (se_uni E) p \<Longrightarrow> view s p = Some (i, g) \<Longrightarrow> i \<in> W"
    by blast
  have seen: "rf_id r \<in> W" if "r \<in> set rs" for r
  proof -
    have v: "view s (rf_path r) = Some (rf_id r, rf_content_sig r)" using that by (simp add: rs(2))
    then have "rf_path r \<in> visited E es" using sync by (auto simp: in_sync_def)
    with v W(2) show ?thesis by (auto simp: visited_def)
  qed
  have "foldl (reconcile S) (s, start_state\<lparr>ws_seen := W\<rparr>) rs' = (s, start_state\<lparr>ws_seen := W\<rparr>)"
    if "set rs' \<subseteq> set rs" for rs'
    using that by (induction rs') (auto simp: reconcile_def seen)
  from this [OF order.refl] W(1) show ?thesis by (simp add: Walk_def rs(1) Let_def start_state_def)
qed

lemma Walk_syncs:
  assumes "inv s" and "distinct (file_paths es)" and "Walk S Q E es lp s = (s', Ok res)"
    and "wr_failed res = 0" and "\<not> has_error es"
  shows "inv s' \<and> in_sync E es s'"
proof (rule Walk_spec [OF assms(1,2), of E])
  fix s1 r1
  assume W: "Walk S Q E es lp s = (s1, Ok r1)" "inv s1"
    "\<And>p i g. view s1 p = Some (i, g) \<Longrightarrow> p \<notin> unseen_rows E es s \<and>
        (view s p = Some (i, g) \<or> ingestible E es p g \<and> (\<forall>i' g'. view s p = Some (i', g') \<longrightarrow> i = i'))"
    "wr_failed r1 = 0 \<Longrightarrow> (\<forall>p g. ingestible E es p g \<longrightarrow> (\<exists>i. view s1 p = Some (i, g)))"
  have eq: "s1 = s'" "r1 = res" using W(1) assms(3) by simp_all
  have "p \<in> visited E es" if "view s' p = Some (i, g)" for p i g
    using W(3) [of p i g] that eq assms(5) ingestible_visited by (fastforce simp: unseen_rows_def)
  then show ?thesis using W(2,4) eq assms(4,5) by (auto simp: in_sync_def)
qed

end

end
