(* ===== verification/ScannerPg.thy ===== *)
theory ScannerPg
  imports Scanner JobQueue
begin

text \<open>
  The scanner on the plugin's own store: the four operations of \<open>scanner.Store\<close> are the statements of
  \<open>internal/store/store.go\<close>, the enrichment queue is \<open>metadata.Queue\<close>
  (\<open>main.go\<close> passes both). The interpretation of \<open>scan_contract\<close> discharges what the
  scanner relies on; the properties are its facts, written out over the tables.
\<close>

definition pg_store :: "db scan_store" where
  "pg_store = \<lparr>st_upsert = UpsertEbook, st_cover = UpsertCover, st_refs = ListEbookRefs,
     st_delete = SoftDelete\<rparr>"

definition pg_queue :: "db enqueuer" where
  "pg_queue = Some Enqueue"

lemma pg_store_simps [simp]:
  "st_upsert pg_store = UpsertEbook" "st_cover pg_store = UpsertCover"
  "st_refs pg_store = ListEbookRefs" "st_delete pg_store = SoftDelete"
  by (simp_all add: pg_store_def)

definition covers_allowed :: "db \<Rightarrow> bool" where
  "covers_allowed d \<longleftrightarrow>
     list_all (\<lambda>c. cover_ok (Some \<lparr>cv_type = cr_type c, cv_bytes = cr_bytes c\<rparr>)) (d_covers d)"

definition scan_inv :: "db \<Rightarrow> bool" where
  "scan_inv d \<longleftrightarrow> db_ok d \<and> covers_allowed d"

text \<open>The live row of a path: its id and content signature.\<close>

definition live_view :: "int \<Rightarrow> db \<Rightarrow> string \<Rightarrow> (string \<times> string) option" where
  "live_view lp d p = (case find_book_key d lp p of
     Some b \<Rightarrow> if eb_deleted b then None else Some (eb_id b, eb_content_sig b)
   | None \<Rightarrow> None)"

lemma live_view_Some:
  assumes "db_ok d"
  shows "live_view lp d p = Some (i, g) \<longleftrightarrow>
    (\<exists>b \<in> set (d_books d). book_key b = (lp, p) \<and> \<not> eb_deleted b \<and> eb_id b = i \<and> eb_content_sig b = g)"
proof (cases "find_book_key d lp p")
  case None
  then have "(lp, p) \<notin> book_key ` set (d_books d)" using find_book_key_None by blast
  then have "book_key b \<noteq> (lp, p)" if "b \<in> set (d_books d)" for b using that by (metis imageI)
  with None show ?thesis by (auto simp: live_view_def)
next
  case (Some b)
  have b: "b \<in> set (d_books d)" "book_key b = (lp, p)" using find_book_key_Some [OF Some] by auto
  have "c = b" if "c \<in> set (d_books d)" "book_key c = (lp, p)" for c
    using that b assms distinct_map_inj [of book_key "d_books d" c b] by (simp add: db_ok_def books_ok_def)
  then have "(\<exists>c \<in> set (d_books d). book_key c = (lp, p) \<and> P c) \<longleftrightarrow> P b" for P
    using b by metis
  then show ?thesis unfolding live_view_def Some by simp
qed

lemma covers_allowed_cong: "d_covers d' = d_covers d \<Longrightarrow> covers_allowed d' = covers_allowed d"
  by (simp add: covers_allowed_def)

lemma live_view_cong: "d_books d' = d_books d \<Longrightarrow> live_view lp d' = live_view lp d"
  by (simp add: live_view_def find_book_key_def fun_eq_iff)

lemma find_book_key_upd:
  assumes "\<And>b. book_key (f b) = book_key b"
  shows "find_book_key (d\<lparr>d_books := upd_where q f (d_books d)\<rparr>) lp p =
    map_option (\<lambda>b. if q b then f b else b) (find_book_key d lp p)"
  unfolding find_book_key_def by (simp add: find_upd_where_key [where k = book_key] assms)

lemma pg_refs_view:
  assumes "scan_inv d"
  shows "\<exists>rs. ListEbookRefs lp d = (d, Ok rs) \<and> distinct (map rf_path rs) \<and>
    (\<forall>p i g. live_view lp d p = Some (i, g) \<longleftrightarrow> \<lparr>rf_id = i, rf_path = p, rf_content_sig = g\<rparr> \<in> set rs)"
proof -
  let ?bs = "filter (\<lambda>b. eb_lib b = lp \<and> \<not> eb_deleted b) (d_books d)"
  have ok: "db_ok d" using assms by (simp add: scan_inv_def)
  have "inj_on eb_path (set ?bs)"
  proof (rule inj_onI)
    fix a b assume ab: "a \<in> set ?bs" "b \<in> set ?bs" "eb_path a = eb_path b"
    then have "book_key a = book_key b" by (auto simp: book_key_def)
    then show "a = b" using ab ok distinct_map_inj [of book_key "d_books d" a b]
      by (simp add: db_ok_def books_ok_def)
  qed
  moreover have "distinct ?bs" using ok by (simp add: db_ok_def books_ok_def distinct_map)
  ultimately have "distinct (map rf_path (map ref_of ?bs))" by (simp add: distinct_map ref_of_def comp_def)
  moreover have "live_view lp d p = Some (i, g) \<longleftrightarrow>
      \<lparr>rf_id = i, rf_path = p, rf_content_sig = g\<rparr> \<in> set (map ref_of ?bs)" for p i g
    unfolding live_view_Some [OF ok] by (auto simp: ref_of_def book_key_def)
  ultimately show ?thesis unfolding ListEbookRefs_def by blast
qed

lemma pg_upsert_ok:
  assumes "scan_inv d" and run: "UpsertEbook lp i p fmt sz mt g x d = (d', Ok (r, known))"
  shows "scan_inv d' \<and> live_view lp d' = (live_view lp d)(p \<mapsto> (r, g)) \<and>
    (\<forall>i' g'. live_view lp d p = Some (i', g') \<longrightarrow> r = i')"
proof (cases rule: UpsertEbook_cases [of lp i p fmt sz mt g x d])
  case (refused e)
  with run show ?thesis by simp
next
  case (known b)
  have "db_ok d'" using keeps_okD [OF UpsertEbook_ok _ run] assms(1) by (simp add: scan_inv_def)
  moreover have "covers_allowed d'" using run known(2) assms(1)
    by (auto simp: scan_inv_def covers_allowed_def)
  moreover have "live_view lp d' q = ((live_view lp d)(p \<mapsto> (r, g))) q" for q
  proof -
    have d': "d' = d\<lparr>d_books := upd_where (\<lambda>b. book_key b = (lp, p)) (merge_row (excluded d lp i p fmt sz mt g x)) (d_books d)\<rparr>"
      and r: "r = eb_id b" using run known(2) by auto
    have f: "find_book_key d' lp q = map_option (\<lambda>b. if book_key b = (lp, p)
        then merge_row (excluded d lp i p fmt sz mt g x) b else b) (find_book_key d lp q)"
      unfolding d' by (rule find_book_key_upd) simp
    show ?thesis
    proof (cases "q = p")
      case True
      have "book_key b = (lp, p)" using find_book_key_Some [OF known(1)] by blast
      then show ?thesis unfolding live_view_def f using True known(1) r by simp
    next
      case False
      show ?thesis
      proof (cases "find_book_key d lp q")
        case None
        then show ?thesis using False by (simp add: live_view_def f)
      next
        case (Some c)
        then have "book_key c = (lp, q)" using find_book_key_Some by blast
        then show ?thesis using False Some by (simp add: live_view_def f)
      qed
    qed
  qed
  moreover have "r = i'" if "live_view lp d p = Some (i', g')" for i' g'
    using that known run by (auto simp: live_view_def split: if_splits)
  ultimately show ?thesis by (auto simp: scan_inv_def)
next
  case fresh
  have "db_ok d'" using keeps_okD [OF UpsertEbook_ok _ run] assms(1) by (simp add: scan_inv_def)
  moreover have "covers_allowed d'" using run fresh(5) assms(1)
    by (auto simp: scan_inv_def covers_allowed_def)
  moreover have "live_view lp d' q = ((live_view lp d)(p \<mapsto> (r, g))) q" for q
  proof -
    have d': "d' = d\<lparr>d_books := d_books d @ [excluded d lp i p fmt sz mt g x]\<rparr>"
      and r: "r = i" using run fresh(5) by auto
    have "find_book_key d' lp q = (case find_book_key d lp q of Some b \<Rightarrow> Some b
        | None \<Rightarrow> if q = p then Some (excluded d lp i p fmt sz mt g x) else None)"
      by (simp add: d' find_book_key_def find_append split: option.split)
    then show ?thesis using fresh(1) r by (simp add: live_view_def split: option.split)
  qed
  moreover have "live_view lp d p = None" using fresh(1) by (simp add: live_view_def)
  ultimately show ?thesis by (auto simp: scan_inv_def)
qed

lemma pg_upsert_err:
  assumes "scan_inv d" and "UpsertEbook lp i p fmt sz mt g x d = (d', Err e)"
  shows "scan_inv d' \<and> live_view lp d' = live_view lp d"
  using assms by (cases rule: UpsertEbook_cases [of lp i p fmt sz mt g x d]) auto

lemma pg_cover_view:
  assumes "scan_inv d" and ok: "cover_ok (Some \<lparr>cv_type = ct, cv_bytes = b\<rparr>)"
  shows "scan_inv (fst (UpsertCover i ct src b d)) \<and> live_view lp (fst (UpsertCover i ct src b d)) = live_view lp d"
proof -
  have "db_ok (fst (UpsertCover i ct src b d))"
    using UpsertCover_ok [of i ct src b] assms(1) by (simp add: keeps_ok_def scan_inv_def)
  moreover have "covers_allowed (fst (UpsertCover i ct src b d))"
    using assms(1) ok
    by (auto simp: UpsertCover_def Let_def scan_inv_def covers_allowed_def list_all_iff set_upd_where)
  moreover have "d_books (fst (UpsertCover i ct src b d)) = d_books d" by (simp add: UpsertCover_def Let_def)
  ultimately show ?thesis unfolding scan_inv_def using live_view_cong by blast
qed

lemma pg_enqueue_view:
  assumes "scan_inv d"
  shows "scan_inv (enqueue pg_queue i d) \<and> live_view lp (enqueue pg_queue i d) = live_view lp d"
proof -
  have "db_ok (fst (Enqueue i d))" using Enqueue_ok [of i] assms by (simp add: keeps_ok_def scan_inv_def)
  moreover have "live_view lp (fst (Enqueue i d)) = live_view lp d"
    by (rule live_view_cong) (simp add: Enqueue_def upd_job_def)
  moreover have "covers_allowed (fst (Enqueue i d)) = covers_allowed d"
    by (rule covers_allowed_cong) (simp add: Enqueue_def upd_job_def)
  ultimately show ?thesis using assms by (simp add: enqueue_def pg_queue_def scan_inv_def)
qed

lemma pg_ids_inj:
  assumes "scan_inv d" and "live_view lp d p = Some (i, g)" and "live_view lp d p' = Some (i, g')"
  shows "p = p'"
proof -
  have ok: "db_ok d" using assms(1) by (simp add: scan_inv_def)
  from assms(2,3) obtain b b' where "b \<in> set (d_books d)" "book_key b = (lp, p)" "eb_id b = i"
    "b' \<in> set (d_books d)" "book_key b' = (lp, p')" "eb_id b' = i"
    by (auto simp: live_view_Some [OF ok])
  moreover from this have "b = b'" using ok distinct_map_inj [of eb_id "d_books d" b b']
    by (simp add: db_ok_def books_ok_def)
  ultimately show ?thesis by simp
qed

lemma SoftDelete_views:
  assumes "scan_inv d" and v: "live_view lp d p = Some (i, g)"
  shows "\<exists>d'. SoftDelete i d = (d', Ok ()) \<and> scan_inv d' \<and>
    (\<forall>k q. live_view k d' q = (if k = lp \<and> q = p then None else live_view k d q))"
proof -
  have ok: "db_ok d" using assms(1) by (simp add: scan_inv_def)
  from v obtain b where b: "b \<in> set (d_books d)" "book_key b = (lp, p)" "eb_id b = i"
    by (auto simp: live_view_Some [OF ok])
  let ?f = "\<lambda>b. b\<lparr>eb_deleted := True, eb_deleted_at := Some (d_now d), eb_updated_at := d_now d\<rparr>"
  let ?d' = "d\<lparr>d_books := upd_where (\<lambda>b. eb_id b = i) ?f (d_books d)\<rparr>"
  have "pg_text i" using ok b by (auto simp: db_ok_def books_ok_def)
  then have run: "SoftDelete i d = (?d', Ok ())" by (simp add: SoftDelete_def)
  have "db_ok ?d'" using keeps_okD [OF SoftDelete_ok ok run] .
  moreover have "covers_allowed ?d'" using assms(1) by (simp add: scan_inv_def covers_allowed_def)
  moreover have "live_view k ?d' q = (if k = lp \<and> q = p then None else live_view k d q)" for k q
  proof -
    have f: "find_book_key ?d' k q = map_option (\<lambda>b. if eb_id b = i then ?f b else b) (find_book_key d k q)"
      by (rule find_book_key_upd) (simp add: book_key_def)
    show ?thesis
    proof (cases "find_book_key d k q")
      case None
      then show ?thesis by (simp add: live_view_def f)
    next
      case (Some c)
      have c: "c \<in> set (d_books d)" "book_key c = (k, q)" using find_book_key_Some [OF Some] by auto
      have "eb_id c = i \<longleftrightarrow> k = lp \<and> q = p"
      proof
        assume "eb_id c = i"
        then have "c = b" using c b ok distinct_map_inj [of eb_id "d_books d" c b]
          by (simp add: db_ok_def books_ok_def)
        then show "k = lp \<and> q = p" using b c by simp
      next
        assume "k = lp \<and> q = p"
        then have "c = b" using c b ok distinct_map_inj [of book_key "d_books d" c b]
          by (simp add: db_ok_def books_ok_def)
        then show "eb_id c = i" using b by simp
      qed
      then show ?thesis using Some by (auto simp: live_view_def f)
    qed
  qed
  ultimately show ?thesis using run by (auto simp: scan_inv_def)
qed

lemma pg_delete_ok:
  assumes "scan_inv d" and "live_view lp d p = Some (i, g)"
  shows "\<exists>d'. SoftDelete i d = (d', Ok ()) \<and> scan_inv d' \<and> live_view lp d' = (live_view lp d)(p := None)"
proof -
  from SoftDelete_views [OF assms] obtain d' where "SoftDelete i d = (d', Ok ())" "scan_inv d'"
    "\<And>q. live_view lp d' q = (if q = p then None else live_view lp d q)" by auto
  then show ?thesis by (auto simp: fun_eq_iff)
qed

text \<open>The other libraries do not notice an upsert.\<close>

lemma UpsertEbook_other_view:
  assumes "k \<noteq> lp"
  shows "live_view k (fst (UpsertEbook lp i p fmt sz mt g x d)) = live_view k d"
proof (cases rule: UpsertEbook_cases [of lp i p fmt sz mt g x d])
  case (known b)
  let ?m = "merge_row (excluded d lp i p fmt sz mt g x)"
  have "find_book_key (d\<lparr>d_books := upd_where (\<lambda>b. book_key b = (lp, p)) ?m (d_books d)\<rparr>) k q = find_book_key d k q" for q
  proof -
    have "book_key c \<noteq> (lp, p)" if "find_book_key d k q = Some c" for c using find_book_key_Some [OF that] assms by auto
    then show ?thesis by (cases "find_book_key d k q") (simp_all add: find_book_key_upd)
  qed
  then show ?thesis unfolding known(2) by (simp add: live_view_def fun_eq_iff)
next
  case fresh
  then show ?thesis unfolding fresh(5) using assms
    by (simp add: live_view_def find_book_key_def find_append fun_eq_iff split: option.split)
qed simp


interpretation pg: scan_contract pg_store pg_queue lp scan_inv "live_view lp" for lp
  unfolding scan_contract_def pg_store_simps
  by (intro conjI allI impI pg_refs_view pg_upsert_err pg_cover_view pg_enqueue_view pg_delete_ok;
      blast intro: pg_ids_inj dest: pg_upsert_ok)


subsection \<open>A scan of the library\<close>

text \<open>A file system for the witnesses: no file can be opened, so every book is stored without metadata;
  the hash prefixes its argument.\<close>

definition sample_env :: scan_env where
  "sample_env = \<lparr>se_uni = \<lparr>u_lower = (\<lambda>s. s), u_fold = (=)\<rparr>,
     se_libs = \<lparr>lib_read = (\<lambda>p. OpenError), lib_zip = (\<lambda>p. None), lib_container = (\<lambda>s. None),
       lib_opf = (\<lambda>s. None), lib_upper = (\<lambda>s. s), lib_fb2 = (\<lambda>s. None), lib_pdf = (\<lambda>p. PdfOpenError)\<rparr>,
     se_hash = (\<lambda>s. s), se_lstat_regular = (\<lambda>p. False)\<rparr>"

definition sample_walk :: "walk_entry list" where
  "sample_walk = [WDir ''/a'', WFile ''/a/x.fb2'' (Some \<lparr>fi_regular = True, fi_size = 10, fi_mtime = 5\<rparr>),
     WFile ''/a/y.pdf'' (Some \<lparr>fi_regular = False, fi_size = 1, fi_mtime = 5\<rparr>)]"

lemma sample_inv: "scan_inv sample_db"
  by (simp add: scan_inv_def sample_db_ok) (simp add: covers_allowed_def cover_ok_def allowedCoverTypes_def
      maxStoredCoverBytes_def sample_defs)

lemma sample_walk_distinct: "distinct (file_paths sample_walk)"
  by (simp add: file_paths_def sample_walk_def entry_path_def)

text \<open>
  A scan never fails once the rows of the library are listed, never counts a negative
  number of failures, and keeps the database constraints and the rule that every stored cover is
  a non-empty image of an allowed type within the size limit.
\<close>

theorem Walk_keeps_inv:
  assumes "scan_inv d" and "distinct (file_paths es)"
  shows "\<exists>res. snd (Walk pg_store pg_queue E es lp d) = Ok res \<and> 0 \<le> wr_failed res \<and>
    scan_inv (fst (Walk pg_store pg_queue E es lp d))"
  by (rule pg.Walk_spec [OF assms, of E lp]) auto

theorem Walk_keeps_inv_witness: "scan_inv (fst (Walk pg_store pg_queue sample_env sample_walk 1 sample_db))"
  using Walk_keeps_inv [OF sample_inv sample_walk_distinct, of sample_env 1] by blast

text \<open>
  C25. A scan that saw the whole tree leaves exactly the visited paths among the live rows of
  the library: a row is removed if and only if its path was not visited, and the reported number
  of deletions is the number of those rows; every surviving row keeps its id, carries its old
  signature or the one of a regular supported file the walk saw, and when no upsert failed every
  such file has a live row with its signature. In particular nothing is ever ingested from a
  link or another irregular file.
\<close>

theorem Walk_effect:
  assumes "scan_inv d" and "distinct (file_paths es)" and "\<not> has_error es"
    and "Walk pg_store pg_queue E es lp d = (d', Ok res)"
  shows "dom (live_view lp d') \<subseteq> visited E es \<and>
    dom (live_view lp d) \<inter> visited E es \<subseteq> dom (live_view lp d') \<and>
    wr_deleted res = int (card (dom (live_view lp d) - visited E es)) \<and>
    (\<forall>p i g. live_view lp d' p = Some (i, g) \<longrightarrow>
       live_view lp d p = Some (i, g) \<or>
       ingestible E es p g \<and> (\<forall>i' g'. live_view lp d p = Some (i', g') \<longrightarrow> i = i')) \<and>
    (wr_failed res = 0 \<longrightarrow> (\<forall>p g. ingestible E es p g \<longrightarrow> (\<exists>i. live_view lp d' p = Some (i, g))))"
proof (rule pg.Walk_spec [OF assms(1,2), of E lp])
  fix s1 r1
  assume W: "Walk pg_store pg_queue E es lp d = (s1, Ok r1)"
    "\<And>p i g. live_view lp s1 p = Some (i, g) \<Longrightarrow> p \<notin> pg.unseen_rows lp E es d \<and>
        (live_view lp d p = Some (i, g) \<or>
         ingestible E es p g \<and> (\<forall>i' g'. live_view lp d p = Some (i', g') \<longrightarrow> i = i'))"
    "\<And>p. p \<in> dom (live_view lp d) - pg.unseen_rows lp E es d \<Longrightarrow> p \<in> dom (live_view lp s1)"
    "wr_failed r1 = 0 \<Longrightarrow> \<forall>p g. ingestible E es p g \<longrightarrow> (\<exists>i. live_view lp s1 p = Some (i, g))"
    "wr_deleted r1 = int (card (pg.unseen_rows lp E es d))"
  have eq: "s1 = d'" "r1 = res" using W(1) assms(4) by simp_all
  have U: "pg.unseen_rows lp E es d = dom (live_view lp d) - visited E es"
    using assms(3) by (simp add: pg.unseen_rows_def)
  have "dom (live_view lp d') \<subseteq> visited E es"
  proof
    fix p assume "p \<in> dom (live_view lp d')"
    then obtain i g where "live_view lp d' p = Some (i, g)" by (cases "live_view lp d' p") auto
    with W(2) [of p i g] show "p \<in> visited E es" using ingestible_visited eq U by blast
  qed
  moreover have "dom (live_view lp d) \<inter> visited E es \<subseteq> dom (live_view lp d')"
    using W(3) unfolding U eq(1) by blast
  moreover have "wr_deleted res = int (card (dom (live_view lp d) - visited E es))"
    using W(5) unfolding U eq(2) .
  ultimately show ?thesis using W(2,4) unfolding eq by simp
qed

theorem Walk_effect_witness:
  "dom (live_view 1 (fst (Walk pg_store pg_queue sample_env sample_walk 1 sample_db)))
     \<subseteq> {''/a/x.fb2'', ''/a/y.pdf''}"
proof -
  obtain d' res where run: "Walk pg_store pg_queue sample_env sample_walk 1 sample_db = (d', Ok res)"
    using pg.Walk_spec [OF sample_inv sample_walk_distinct, of sample_env 1] by metis
  have "\<not> has_error sample_walk" by (simp add: has_error_def sample_walk_def)
  from Walk_effect [OF sample_inv sample_walk_distinct this run]
  have "dom (live_view 1 d') \<subseteq> visited sample_env sample_walk" by blast
  moreover have "visited sample_env sample_walk \<subseteq> {''/a/x.fb2'', ''/a/y.pdf''}"
    by (auto simp: visited_def sample_walk_def)
  ultimately show ?thesis using run by auto
qed

text \<open>
  C27. A walk in which any entry could not be read deletes nothing: no live row of the library
  disappears, and the deletion counter is zero.
\<close>

theorem Walk_incomplete_safe:
  assumes "scan_inv d" and "distinct (file_paths es)" and "has_error es"
  shows "\<exists>res. snd (Walk pg_store pg_queue E es lp d) = Ok res \<and> wr_deleted res = 0 \<and>
    dom (live_view lp d) \<subseteq> dom (live_view lp (fst (Walk pg_store pg_queue E es lp d)))"
proof -
  have U: "pg.unseen_rows lp E es d = {}" using assms(3) by (simp add: pg.unseen_rows_def)
  show ?thesis
  proof (rule pg.Walk_spec [OF assms(1,2), of E lp])
    fix d' res
    assume W: "Walk pg_store pg_queue E es lp d = (d', Ok res)"
      "\<And>p. p \<in> dom (live_view lp d) - pg.unseen_rows lp E es d \<Longrightarrow> p \<in> dom (live_view lp d')"
      "wr_deleted res = int (card (pg.unseen_rows lp E es d))"
    have "dom (live_view lp d) \<subseteq> dom (live_view lp d')" using W(2) unfolding U by blast
    then show ?thesis using W(1,3) unfolding U by simp
  qed
qed

theorem Walk_incomplete_safe_witness:
  "dom (live_view 1 sample_db) \<subseteq>
     dom (live_view 1 (fst (Walk pg_store pg_queue sample_env [WErr ''/a''] 1 sample_db)))"
proof -
  have "distinct (file_paths [WErr ''/a''])" "has_error [WErr ''/a'']"
    by (simp_all add: file_paths_def has_error_def)
  from Walk_incomplete_safe [OF sample_inv this, of sample_env 1] show ?thesis by blast
qed

text \<open>
  C26. Scanning an unchanged tree again, after a complete scan without failures, changes
  nothing: the database (jobs and covers included) is as it was and all four counters are zero.
\<close>

theorem Walk_rescan_noop:
  assumes "scan_inv d" and "distinct (file_paths es)" and "\<not> has_error es"
    and "Walk pg_store pg_queue E es lp d = (d', Ok res)" and "wr_failed res = 0"
  shows "Walk pg_store pg_queue E es lp d' = (d', Ok zero_result)"
proof -
  have "scan_inv d' \<and> pg.in_sync lp E es d'" by (rule pg.Walk_syncs [OF assms(1,2,4,5,3)])
  then show ?thesis by (intro pg.Walk_in_sync) simp_all
qed

lemma sample_supported: "IsSupported (se_uni sample_env) ''/a/x.fb2''" "IsSupported (se_uni sample_env) ''/a/y.pdf''"
  by (simp_all add: IsSupported_def sample_env_def extOf_def ToLower_def is_ascii_def lower_byte_def is_upper_def
      supported_exts_def)

lemma sample_parsed: "parse_or_empty sample_env ''/a/x.fb2'' = empty_parsed\<lparr>p_format := ''fb2''\<rparr>"
  by (simp add: parse_or_empty_def parseRecovered_def Parse_def parseByExt_def lib_parsers_def ParseFB2_def
      sample_env_def extOf_def ToLower_def is_ascii_def lower_byte_def is_upper_def TrimPrefix_def)

lemma sample_sig: "stableID sample_env ''/a/x.fb2'' 10 5 = ''/a/x.fb2|10|5''"
  by (simp add: stableID_def sample_env_def sig_input_def Itoa_def nat_digits.simps digit_def char_of_def bit_0 wrap64_id int64_range_def
      min_int64_def max_int64_def)

lemma sample_upsert:
  "\<exists>d. UpsertEbook 1 ''b1'' ''/a/x.fb2'' ''fb2'' 10 5 ''/a/x.fb2|10|5''
     (empty_parsed\<lparr>p_format := ''fb2''\<rparr>) sample_db = (d, Ok (''b1'', True))"
  by (simp add: UpsertEbook_def Let_def row_texts_def excluded_def empty_parsed_def pg_text_ascii
      yearOf_def zero_time_def int4_ok_def find_book_key_def book_key_def sample_defs)

lemma sample_run:
  "\<exists>d' res. Walk pg_store pg_queue sample_env sample_walk 1 sample_db = (d', Ok res) \<and> wr_failed res = 0"
proof -
  let ?rs = "[\<lparr>rf_id = ''b1'', rf_path = ''/a/x.fb2'', rf_content_sig = ''s1''\<rparr>]"
  have refs: "ListEbookRefs 1 sample_db = (sample_db, Ok ?rs)"
    by (simp add: ListEbookRefs_def sample_defs ref_of_def)
  have no_side: "findSidecarCover sample_env p = None" for p
    by (simp add: findSidecarCover_def sidecar_names_def sample_env_def)
  have pc: "p_cover empty_parsed = None" by (simp add: empty_parsed_def)
  obtain d where up: "UpsertEbook 1 ''b1'' ''/a/x.fb2'' ''fb2'' 10 5 ''/a/x.fb2|10|5''
     (empty_parsed\<lparr>p_format := ''fb2''\<rparr>) sample_db = (d, Ok (''b1'', True))" using sample_upsert by blast
  have "\<exists>w d'. visit pg_store pg_queue sample_env 1 ?rs (sample_db, start_state)
      (WFile ''/a/x.fb2'' (Some \<lparr>fi_regular = True, fi_size = 10, fi_mtime = 5\<rparr>)) = (d', w) \<and>
      wr_failed (ws_result w) = 0 \<and> \<not> ws_errors w \<and> ''b1'' \<in> ws_seen w"
    by (simp add: visit_def sample_supported by_path_def sample_sig ingest_def sample_parsed up store_cover_def no_side
        Let_def start_state_def zero_result_def pc)
  then obtain w d' where v: "visit pg_store pg_queue sample_env 1 ?rs (sample_db, start_state)
      (WFile ''/a/x.fb2'' (Some \<lparr>fi_regular = True, fi_size = 10, fi_mtime = 5\<rparr>)) = (d', w)"
    "wr_failed (ws_result w) = 0" "\<not> ws_errors w" "''b1'' \<in> ws_seen w" by blast
  have "visit pg_store pg_queue sample_env 1 ?rs (d', w)
      (WFile ''/a/y.pdf'' (Some \<lparr>fi_regular = False, fi_size = 1, fi_mtime = 5\<rparr>)) = (d', w)"
    by (simp add: visit_def sample_supported by_path_def)
  with v show ?thesis
    by (simp add: Walk_def refs sample_walk_def visit_def [of _ _ _ _ _ _ "WDir _"] reconcile_def)
qed

theorem Walk_rescan_noop_witness:
  "\<exists>d'. fst (Walk pg_store pg_queue sample_env sample_walk 1 sample_db) = d' \<and>
     Walk pg_store pg_queue sample_env sample_walk 1 d' = (d', Ok zero_result)"
proof -
  have "\<not> has_error sample_walk" by (simp add: has_error_def sample_walk_def)
  with sample_run Walk_rescan_noop [OF sample_inv sample_walk_distinct] show ?thesis by (metis fst_conv)
qed

end
