(* ===== verification/Worker.thy ===== *)
theory Worker
  imports Aggregator JobQueue
begin

text \<open>
  The enrichment worker: \<open>internal/metadata/worker.go\<close> and the registry adapters of
  \<open>cmd/silo-plugin-local-ebooks/adapters.go\<close> through which it reaches the sources. The loop of
  \<open>Drain\<close> reads one \<open>tick\<close> of the environment per round (what the context says, how long things take,
  which database calls fail); running out of ticks is \<open>None\<close>. What the loop needs of queue and job is
  the locale \<open>drain_contract\<close>; it is interpreted on the job queue and \<open>process\<close>.
\<close>

subsection \<open>Adapters\<close>

definition adapt_get :: "(source_error, candidate option) res \<Rightarrow> (source_error, candidate option) res" where
  "adapt_get r = (case r of Inl SourceNotFound \<Rightarrow> Err MetaNotFound | _ \<Rightarrow> r)"

definition sourceAdapter :: "source \<Rightarrow> source" where
  "sourceAdapter s = s\<lparr>s_get := (\<lambda>i g. adapt_get (s_get s i g))\<rparr>"

definition aggregator_All :: "registry \<Rightarrow> source list" where
  "aggregator_All reg = map sourceAdapter (All reg)"

definition worker_ForID :: "registry \<Rightarrow> string \<Rightarrow> source option" where
  "worker_ForID reg i = (case ForID reg i of None \<Rightarrow> None | Some s \<Rightarrow> Some (sourceAdapter s))"

subsection \<open>One job\<close>

definition maxClaimFailures :: int where "maxClaimFailures = 5"

definition claimBackoff :: int where "claimBackoff = 2 * 10 ^ 6"

definition minTextMatchConfidence :: int where "minTextMatchConfidence = 40"

definition row_authors :: "string \<Rightarrow> string list" where
  "row_authors s = filter (\<lambda>x. x \<noteq> []) (map TrimSpace (Split s (CHR '','')))"

definition rowAsCandidate :: "ebook_row \<Rightarrow> candidate" where
  "rowAsCandidate r = empty_candidate\<lparr>c_title := er_title r, c_isbn := er_isbn r, c_asin := er_asin r,
     c_authors := row_authors (er_author r)\<rparr>"

record worker =
  wk_uni :: uni
  wk_coll :: "string \<Rightarrow> string"
  wk_registry :: registry
  wk_source_id :: string
  wk_region :: string
  wk_db_text :: "db_error \<Rightarrow> string"

datatype proc_error = ProcMessage string | ProcSource source_error | ProcStore db_error

definition first_hit :: "(source_error, candidate list) res \<Rightarrow> (source_error, candidate option) res" where
  "first_hit r = (case r of Inl e \<Rightarrow> Err e | Inr cs \<Rightarrow> Ok (case cs of [] \<Rightarrow> None | c # _ \<Rightarrow> Some c))"

definition text_query :: "ebook_row \<Rightarrow> string" where
  "text_query row = TrimSpace (er_title row @ '' '' @ er_author row)"

text \<open>The cascade over ISBN, ASIN and text; the text branch has a confidence floor.\<close>

definition find_candidate :: "worker \<Rightarrow> source \<Rightarrow> ebook_row \<Rightarrow> (proc_error, candidate option) res" where
  "find_candidate w src row =
    (if er_isbn row \<noteq> [] then map_sum ProcSource id (first_hit (s_search src (er_isbn row) (wk_region w)))
     else if er_asin row \<noteq> [] then map_sum ProcSource id (s_get src (er_asin row) (wk_region w))
     else let q = text_query row
          in if q = [] then Err (ProcMessage ''no enrichable identifier on ebook row'')
             else case first_hit (s_search src q (wk_region w)) of
                 Inl e \<Rightarrow> Err (ProcSource e)
               | Inr None \<Rightarrow> Ok None
               | Inr (Some c) \<Rightarrow>
                   if CalculateConfidence (wk_uni w) q c (Some (rowAsCandidate row)) \<ge> minTextMatchConfidence
                   then Ok (Some c) else Ok None)"

definition process :: "worker \<Rightarrow> job \<Rightarrow> db \<Rightarrow> db \<times> (proc_error, unit) res" where
  "process w j d =
    (case worker_ForID (wk_registry w) (wk_source_id w) of
       None \<Rightarrow> (d, Err (ProcMessage (''configured scan source not registered: '' @ wk_source_id w)))
     | Some src \<Rightarrow>
        (case LoadEbookRow (j_ebook j) d of
           (d, Inl e) \<Rightarrow> (d, Err (ProcStore e))
         | (d, Inr row) \<Rightarrow>
            (case find_candidate w src row of
               Inl e \<Rightarrow> if e = ProcSource MetaNotFound then (d, Ok ()) else (d, Err e)
             | Inr None \<Rightarrow> (d, Ok ())
             | Inr (Some c) \<Rightarrow>
                (case UpdateEbookMetadata (ApplyMatch row c) d of
                   (d, Inl e) \<Rightarrow> (d, Err (ProcStore e))
                 | (d, Inr u) \<Rightarrow> (d, Ok ())))))"

text \<open>What \<open>errors.Is\<close> finds below a job's error: a cancelled or timed out context. The timeout of an
  HTTP client counts as an exceeded deadline.\<close>

definition canceled :: "proc_error \<Rightarrow> bool" where
  "canceled e \<longleftrightarrow> e \<in> {ProcSource SourceCanceled, ProcSource SourceDeadline, ProcStore ErrCanceled}"

definition source_text :: "source_error \<Rightarrow> string" where
  "source_text e = (case e of SourceNotFound \<Rightarrow> ''source: not found'' | MetaNotFound \<Rightarrow> ''source: not found''
     | SourceCanceled \<Rightarrow> ''context canceled'' | SourceDeadline \<Rightarrow> ''context deadline exceeded''
     | SourceFailed m \<Rightarrow> m)"

definition error_text :: "worker \<Rightarrow> proc_error \<Rightarrow> string" where
  "error_text w e = (case e of ProcMessage m \<Rightarrow> m | ProcSource s \<Rightarrow> source_text s | ProcStore x \<Rightarrow> wk_db_text w x)"

subsection \<open>The loop\<close>

datatype ctx_error = CtxCanceled | CtxDeadline

record tick =
  tk_before :: "ctx_error option"
  tk_wait :: int
  tk_claim :: "db_error option"
  tk_run :: int
  tk_after :: "ctx_error option"
  tk_mark :: "db_error option"

datatype drain_error = DrainCtx ctx_error | DrainCanceled | DrainAborted int db_error

record 's queue_ops =
  q_claim :: "'s \<Rightarrow> 's \<times> (db_error, job) res"
  q_completed :: "string \<Rightarrow> 's \<Rightarrow> 's \<times> (db_error, unit) res"
  q_failed :: "string \<Rightarrow> int \<Rightarrow> string \<Rightarrow> 's \<Rightarrow> 's \<times> (db_error, unit) res"
  q_process :: "job \<Rightarrow> 's \<Rightarrow> 's \<times> (proc_error, unit) res"
  q_text :: "proc_error \<Rightarrow> string"
  q_elapse :: "int \<Rightarrow> 's \<Rightarrow> 's"

definition claim :: "'s queue_ops \<Rightarrow> tick \<Rightarrow> 's \<Rightarrow> 's \<times> (db_error, job) res" where
  "claim Q t s = (case tk_claim t of Some e \<Rightarrow> (s, Err e) | None \<Rightarrow> q_claim Q s)"

definition mark :: "tick \<Rightarrow> ('s \<Rightarrow> 's \<times> (db_error, unit) res) \<Rightarrow> 's \<Rightarrow> 's" where
  "mark t f s = (case tk_mark t of Some e \<Rightarrow> s | None \<Rightarrow> fst (f s))"

fun Drain :: "'s queue_ops \<Rightarrow> tick list \<Rightarrow> int \<Rightarrow> 's \<Rightarrow> ('s \<times> (drain_error, unit) res) option" where
  "Drain Q [] consecFail s = None"
| "Drain Q (t # ts) consecFail s =
    (case tk_before t of
       Some c \<Rightarrow> Some (s, Err (DrainCtx c))
     | None \<Rightarrow>
        (case claim Q t (q_elapse Q (tk_wait t) s) of
           (s, Inl e) \<Rightarrow>
             if e = ErrQueueEmpty then Some (s, Ok ())
             else if e = ErrCanceled then Some (s, Err DrainCanceled)
             else if consecFail + 1 \<ge> maxClaimFailures then Some (s, Err (DrainAborted (consecFail + 1) e))
             else (case tk_after t of
                 Some c \<Rightarrow> Some (s, Err (DrainCtx c))
               | None \<Rightarrow> Drain Q ts (consecFail + 1) (q_elapse Q claimBackoff s))
         | (s, Inr j) \<Rightarrow>
             (case q_process Q j (q_elapse Q (tk_run t) s) of
                (s, Inl e) \<Rightarrow>
                  if canceled e \<or> tk_after t \<noteq> None
                  then Some (s, case tk_after t of Some c \<Rightarrow> Err (DrainCtx c) | None \<Rightarrow> Ok ())
                  else Drain Q ts 0 (mark t (q_failed Q (j_ebook j) (j_attempts j) (q_text Q e)) s)
              | (s, Inr u) \<Rightarrow> Drain Q ts 0 (mark t (q_completed Q (j_ebook j)) s))))"

text \<open>The worker on the plugin's queue and store. Time only moves forward.\<close>

definition elapse :: "int \<Rightarrow> db \<Rightarrow> db" where
  "elapse t d = d\<lparr>d_now := d_now d + max 0 t\<rparr>"

definition pg_ops :: "worker \<Rightarrow> db queue_ops" where
  "pg_ops w = \<lparr>q_claim = ClaimNext (wk_coll w), q_completed = MarkCompleted, q_failed = MarkFailed,
     q_process = process w, q_text = error_text w, q_elapse = elapse\<rparr>"

subsection \<open>What the loop relies on\<close>

definition mark_faults :: "tick list \<Rightarrow> nat" where
  "mark_faults ts = length (filter (\<lambda>t. tk_mark t \<noteq> None) ts)"

definition quiet :: "tick \<Rightarrow> bool" where
  "quiet t \<longleftrightarrow> tk_before t = None \<and> tk_claim t = None \<and> tk_after t = None"

text \<open>\<open>held n j s\<close>: the job is claimed, and finishing it brings the potential below \<open>n\<close>.\<close>

locale drain_contract =
  fixes Q :: "'s queue_ops" and inv :: "'s \<Rightarrow> bool" and pot :: "'s \<Rightarrow> nat"
    and held :: "nat \<Rightarrow> job \<Rightarrow> 's \<Rightarrow> bool" and idle :: "'s \<Rightarrow> bool"
  assumes elapse_law: "inv s \<Longrightarrow> inv (q_elapse Q t s) \<and> pot (q_elapse Q t s) = pot s"
    and claim_ok: "inv s \<Longrightarrow> q_claim Q s = (s', Ok j) \<Longrightarrow> held (pot s) j s'"
    and claim_err: "inv s \<Longrightarrow> q_claim Q s = (s', Err e) \<Longrightarrow> s' = s \<and> e = ErrQueueEmpty \<and> idle s"
    and held_elapse: "held n j s \<Longrightarrow> held n j (q_elapse Q t s)"
    and held_process: "held n j s \<Longrightarrow> held n j (fst (q_process Q j s))"
    and held_pot: "held n j s \<Longrightarrow> inv s \<and> pot s \<le> n"
    and completed: "held n j s \<Longrightarrow> inv (fst (q_completed Q (j_ebook j) s)) \<and> pot (fst (q_completed Q (j_ebook j) s)) < n"
    and failed: "held n j s \<Longrightarrow> snd (q_process Q j s0) = Err pe \<Longrightarrow>
      inv (fst (q_failed Q (j_ebook j) (j_attempts j) (q_text Q pe) s)) \<and>
      pot (fst (q_failed Q (j_ebook j) (j_attempts j) (q_text Q pe) s)) < n"
begin

lemma mark_pot:
  assumes "held n j s" and "inv (fst (f s)) \<and> pot (fst (f s)) < n"
  shows "inv (mark t f s) \<and> (if tk_mark t = None then pot (mark t f s) < n else pot (mark t f s) \<le> n)"
  using assms held_pot [OF assms(1)] by (cases "tk_mark t") (simp_all add: mark_def)

text \<open>One round: the loop ends, a failed claim is counted, or a job is finished.\<close>

definition patient :: bool where
  "patient \<longleftrightarrow> (\<forall>j s pe. snd (q_process Q j s) = Err pe \<longrightarrow> \<not> canceled pe)"

lemma round_cases [consumes 1, case_names ends retry job]:
  assumes "inv s"
  obtains (ends) r where "\<And>ts. Drain Q (t # ts) f s = Some r" and "inv (fst r)"
      and "quiet t \<Longrightarrow> snd r = Ok ()"
      and "patient \<Longrightarrow> tk_claim t \<noteq> Some ErrQueueEmpty \<Longrightarrow> snd r = Ok () \<Longrightarrow> idle (fst r)"
  | (retry) s' where "\<And>ts. Drain Q (t # ts) f s = Drain Q ts (f + 1) s'" and "inv s'" and "pot s' = pot s"
      and "f + 1 < maxClaimFailures" and "tk_claim t \<noteq> None"
  | (job) s' where "\<And>ts. Drain Q (t # ts) f s = Drain Q ts 0 s'" and "inv s'"
      and "if tk_mark t = None then pot s' < pot s else pot s' \<le> pot s"
proof (cases "tk_before t")
  case (Some c)
  then show ?thesis using assms by (intro ends [of "(s, Err (DrainCtx c))"]) (simp_all add: quiet_def)
next
  case before: None
  let ?s = "q_elapse Q (tk_wait t) s"
  have s: "inv ?s" "pot ?s = pot s" using elapse_law [OF assms] by auto
  show ?thesis
  proof (cases "tk_claim t")
    case (Some e)
    then have c: "claim Q t ?s = (?s, Err e)" by (simp add: claim_def)
    show ?thesis
    proof (cases "e = ErrQueueEmpty \<or> e = ErrCanceled \<or> f + 1 \<ge> maxClaimFailures \<or> tk_after t \<noteq> None")
      case True
      show ?thesis
        by (rule ends [of "(?s, if e = ErrQueueEmpty then Ok () else if e = ErrCanceled then Err DrainCanceled
            else if f + 1 \<ge> maxClaimFailures then Err (DrainAborted (f + 1) e)
            else Err (DrainCtx (the (tk_after t))))"])
          (use True before c s Some in \<open>auto simp: quiet_def split: option.split if_splits\<close>)
    next
      case False
      then show ?thesis using before c s elapse_law [OF s(1)] Some
        by (intro retry [of "q_elapse Q claimBackoff ?s"]) auto
    qed
  next
    case None
    obtain s1 v where q: "q_claim Q ?s = (s1, v)" by (cases "q_claim Q ?s")
    then have c: "claim Q t ?s = (s1, v)" using None by (simp add: claim_def)
    show ?thesis
    proof (cases v)
      case (Inl e)
      with q claim_err [OF s(1)] have "s1 = ?s" "e = ErrQueueEmpty" by auto
      moreover have "idle ?s" using claim_err [OF s(1)] q Inl by blast
      ultimately show ?thesis using before c Inl s by (intro ends [of "(?s, Ok ())"]) simp_all
    next
      case (Inr j)
      with q claim_ok [OF s(1)] have h: "held (pot s) j s1" using s(2) by auto
      let ?s2 = "q_elapse Q (tk_run t) s1"
      obtain s3 r where p: "q_process Q j ?s2 = (s3, r)" by (cases "q_process Q j ?s2")
      have h3: "held (pot s) j s3" using held_process [OF held_elapse [OF h, of "tk_run t"]] p by simp
      show ?thesis
      proof (cases r)
        case (Inl e)
        show ?thesis
        proof (cases "canceled e \<or> tk_after t \<noteq> None")
          case True
          have "\<not> (patient \<and> canceled e)" using p Inl by (metis patient_def snd_conv)
          with True show ?thesis using before c \<open>v = Inr j\<close> p Inl held_pot [OF h3]
            by (intro ends [of "(s3, case tk_after t of Some c \<Rightarrow> Err (DrainCtx c) | None \<Rightarrow> Ok ())"])
              (auto simp: quiet_def split: option.splits)
        next
          case False
          have e: "snd (q_process Q j ?s2) = Err e" using p Inl by simp
          note m = mark_pot [OF h3, of "q_failed Q (j_ebook j) (j_attempts j) (q_text Q e)" t, OF failed [OF h3 e]]
          from False show ?thesis using before c \<open>v = Inr j\<close> p Inl m
            by (intro job [of "mark t (q_failed Q (j_ebook j) (j_attempts j) (q_text Q e)) s3"]) auto
        qed
      next
        case (Inr u)
        note m = mark_pot [OF h3, of "q_completed Q (j_ebook j)" t, OF completed [OF h3]]
        then show ?thesis using before c \<open>v = Inr j\<close> p Inr
          by (intro job [of "mark t (q_completed Q (j_ebook j)) s3"]) auto
      qed
    qed
  qed
qed

declare Drain.simps(2) [simp del]

text \<open>Five claims may fail in a row before the loop gives up, so a finished job is paid for with at most
  five rounds; a failed write of the outcome leaves the job to be claimed again.\<close>

lemma Drain_returns:
  assumes "inv s" and "f < maxClaimFailures"
    and "5 * (pot s + mark_faults ts) + nat (maxClaimFailures - f) \<le> length ts"
  shows "\<exists>s' r. Drain Q ts f s = Some (s', r) \<and> inv s'"
  using assms
proof (induction ts arbitrary: f s)
  case Nil
  then show ?case by simp
next
  case (Cons t ts)
  have mf: "mark_faults (t # ts) = (if tk_mark t = None then 0 else 1) + mark_faults ts"
    by (simp add: mark_faults_def)
  from Cons.prems(1) show ?case
  proof (cases rule: round_cases [of s t f])
    case (ends r)
    then show ?thesis by (cases r) auto
  next
    case (retry s')
    then have n: "nat (maxClaimFailures - f) = Suc (nat (maxClaimFailures - (f + 1)))" by linarith
    show ?thesis unfolding retry(1) by (intro Cons.IH retry) (use Cons.prems(3) mf retry(3) n in simp)
  next
    case (job s')
    have "5 * (pot s' + mark_faults ts) + nat (maxClaimFailures - 0) \<le> length ts"
    proof -
      have "pot s' + mark_faults ts + 1 \<le> pot s + mark_faults (t # ts)"
        using job(3) mf by (auto split: if_splits)
      moreover have "1 \<le> nat (maxClaimFailures - f)" using Cons.prems(2) by simp
      ultimately show ?thesis using Cons.prems(3) by (simp add: maxClaimFailures_def)
    qed
    then show ?thesis unfolding job(1) by (intro Cons.IH job(2)) (simp_all add: maxClaimFailures_def)
  qed
qed

lemma Drain_inv: "inv s \<Longrightarrow> Drain Q ts f s = Some (s', r) \<Longrightarrow> inv s'"
proof (induction ts arbitrary: f s)
  case Nil
  then show ?case by simp
next
  case (Cons t ts)
  from Cons.prems(1) show ?case
  proof (cases rule: round_cases [of s t f])
    case (ends r)
    then show ?thesis using Cons.prems by auto
  next
    case (retry u)
    then show ?thesis using Cons.prems Cons.IH [of u "f + 1"] by simp
  next
    case (job u)
    then show ?thesis using Cons.prems Cons.IH [of u 0] by simp
  qed
qed

lemma Drain_ok_idle:
  assumes "inv s" and "patient" and "list_all (\<lambda>t. tk_claim t \<noteq> Some ErrQueueEmpty) ts"
    and "Drain Q ts f s = Some (s', Ok ())"
  shows "idle s'"
  using assms
proof (induction ts arbitrary: f s)
  case Nil
  then show ?case by simp
next
  case (Cons t ts)
  from Cons.prems(1) show ?case
  proof (cases rule: round_cases [of s t f])
    case (ends r)
    then show ?thesis using Cons.prems by auto
  next
    case (retry u)
    then show ?thesis using Cons.prems Cons.IH [of u "f + 1"] by simp
  next
    case (job u)
    then show ?thesis using Cons.prems Cons.IH [of u 0] by simp
  qed
qed

lemma Drain_quiet_ok:
  assumes "inv s" and "list_all quiet ts" and "Drain Q ts f s = Some (s', r)"
  shows "r = Ok ()"
  using assms
proof (induction ts arbitrary: f s)
  case Nil
  then show ?case by simp
next
  case (Cons t ts)
  from Cons.prems(1) show ?case
  proof (cases rule: round_cases [of s t f])
    case (ends r)
    then show ?thesis using Cons.prems by auto
  next
    case (retry u)
    then show ?thesis using Cons.prems Cons.IH [of u "f + 1"] by simp
  next
    case (job u)
    then show ?thesis using Cons.prems Cons.IH [of u 0] by simp
  qed
qed

end

end
