(* ===== verification/WorkerPg.thy ===== *)
theory WorkerPg
  imports Worker
begin

text \<open>
  The worker on the plugin's own queue: the contract \<open>drain_contract\<close> is discharged for
  \<open>ClaimNext\<close>, \<open>MarkCompleted\<close>, \<open>MarkFailed\<close> and \<open>process\<close>, and the properties of \<open>Drain\<close> follow. The
  potential of a pending job is the number of claims it can still cost; a finished job has none.
\<close>

definition weight :: "job_row \<Rightarrow> nat" where
  "weight j = (if is_pending j then nat (max 1 (MaxAttempts + 1 - jb_attempts j)) else 0)"

definition pot :: "db \<Rightarrow> nat" where
  "pot d = sum_list (map weight (d_jobs d))"

text \<open>Messages that can be stored in \<open>last_error\<close>.\<close>

definition source_texts_ok :: "source \<Rightarrow> bool" where
  "source_texts_ok s \<longleftrightarrow>
     (\<forall>q g m. s_search s q g = Err (SourceFailed m) \<longrightarrow> pg_text m) \<and>
     (\<forall>i g m. s_get s i g = Err (SourceFailed m) \<longrightarrow> pg_text m)"

definition worker_ok :: "worker \<Rightarrow> bool" where
  "worker_ok w \<longleftrightarrow> pg_text (wk_source_id w) \<and> (\<forall>e. pg_text (wk_db_text w e)) \<and>
     (\<forall>s. ForID (wk_registry w) (wk_source_id w) = Some s \<longrightarrow> source_texts_ok s)"

definition drain_inv :: "worker \<Rightarrow> db \<Rightarrow> bool" where
  "drain_inv w d \<longleftrightarrow> worker_ok w \<and> db_ok d"

definition job_held :: "worker \<Rightarrow> nat \<Rightarrow> job \<Rightarrow> db \<Rightarrow> bool" where
  "job_held w n j d \<longleftrightarrow> drain_inv w d \<and> pot d \<le> n \<and> (j_attempts j < MaxAttempts \<longrightarrow> pot d < n) \<and>
     (\<exists>r \<in> set (d_jobs d). jb_id r = j_ebook j \<and> is_pending r \<and> jb_attempts r = j_attempts j)"

definition idle :: "db \<Rightarrow> bool" where
  "idle d \<longleftrightarrow> list_all (\<lambda>r. \<not> claimable d r) (d_jobs d)"

subsection \<open>Potential\<close>

lemma sum_list_upd:
  "distinct (map k rs) \<Longrightarrow> r \<in> set rs \<Longrightarrow> p r \<Longrightarrow>
   sum_list (map w (upd_where (\<lambda>x. k x = k r \<and> p x) f rs)) + w r = sum_list (map w rs) + (w (f r) :: nat)"
proof (induction rs)
  case (Cons a rs)
  show ?case
  proof (cases "a = r")
    case True
    have "upd_where (\<lambda>x. k x = k r \<and> p x) f rs = rs"
      using Cons.prems(1) True by (intro upd_where_none) (auto simp: image_iff)
    then show ?thesis using True Cons.prems by simp
  next
    case False
    then have "r \<in> set rs" using Cons.prems(2) by simp
    moreover from this have "k a \<noteq> k r" using Cons.prems(1) imageI [of r "set rs" k] by auto
    ultimately show ?thesis using Cons by simp
  qed
qed simp

lemma pot_upd:
  assumes "db_ok d" and "r \<in> set (d_jobs d)" and "jb_id r = i" and "p r"
  shows "pot (upd_job i p f d) + weight r = pot d + weight (f r)"
  using sum_list_upd [of jb_id "d_jobs d" r p weight f] assms
  by (simp add: pot_def upd_job_def db_ok_def jobs_ok_def)

lemma job_id_text: "db_ok d \<Longrightarrow> r \<in> set (d_jobs d) \<Longrightarrow> pg_text (jb_id r)"
  by (auto simp: db_ok_def jobs_ok_def books_ok_def)

lemma weight_pos: "is_pending r \<Longrightarrow> 0 < weight r"
  by (simp add: weight_def)

subsection \<open>What processing keeps\<close>

lemma UpdateEbookMetadata_jobs [simp]: "d_jobs (fst (UpdateEbookMetadata r d)) = d_jobs d"
  by (simp add: UpdateEbookMetadata_def)

text \<open>The ways a job can go: the database is left alone, or the row is rewritten.\<close>

lemma process_cases [case_names left written]:
  obtains (left) "fst (process w j d) = d"
  | (written) src row c where "worker_ForID (wk_registry w) (wk_source_id w) = Some src"
      "LoadEbookRow (j_ebook j) d = (d, Ok row)" "find_candidate w src row = Ok (Some c)"
      "process w j d = (fst (UpdateEbookMetadata (ApplyMatch row c) d),
         map_sum ProcStore id (snd (UpdateEbookMetadata (ApplyMatch row c) d)))"
proof (cases "worker_ForID (wk_registry w) (wk_source_id w)")
  case None
  then show ?thesis by (intro left) (simp add: process_def)
next
  case (Some src)
  have "fst (LoadEbookRow (j_ebook j) d) = d" by (simp add: LoadEbookRow_def split: option.split)
  then obtain v where v: "LoadEbookRow (j_ebook j) d = (d, v)" by (metis prod.collapse)
  show ?thesis
  proof (cases v)
    case (Inl e)
    then show ?thesis using Some v by (intro left) (simp add: process_def)
  next
    case (Inr row)
    show ?thesis
    proof (cases "find_candidate w src row")
      case (Inl e)
      then show ?thesis using Some v Inr by (intro left) (simp add: process_def)
    next
      case hit: (Inr h)
      show ?thesis
      proof (cases h)
        case None
        then show ?thesis using Some v Inr hit by (intro left) (simp add: process_def)
      next
        case c: (Some c)
        then show ?thesis using Some v Inr hit
          by (intro written [of src row c])
            (simp_all add: process_def split: prod.split sum.split)
      qed
    qed
  qed
qed

lemma process_jobs [simp]: "d_jobs (fst (process w j d)) = d_jobs d"
  by (cases rule: process_cases [of w j d]) simp_all

lemma process_now: "d_now (fst (process w j d)) = d_now d"
  by (cases rule: process_cases [of w j d]) (simp_all add: UpdateEbookMetadata_def)

lemma process_ok: "db_ok d \<Longrightarrow> db_ok (fst (process w j d))"
  using UpdateEbookMetadata_ok
  by (cases rule: process_cases [of w j d]) (simp_all add: keeps_ok_def)

lemma worker_source_texts:
  assumes "worker_ok w" and "worker_ForID (wk_registry w) (wk_source_id w) = Some src"
  shows "source_texts_ok src"
proof -
  from assms(2) obtain s where s: "ForID (wk_registry w) (wk_source_id w) = Some s" "src = sourceAdapter s"
    by (auto simp: worker_ForID_def split: option.splits)
  then have "source_texts_ok s" using assms(1) by (simp add: worker_ok_def)
  then show ?thesis unfolding s(2) source_texts_ok_def sourceAdapter_def adapt_get_def
    by (auto split: sum.splits source_error.splits)
qed

lemma ascii_texts: "pg_text ''configured scan source not registered: ''"
  "pg_text ''no enrichable identifier on ebook row''" "pg_text ''source: not found''"
  "pg_text ''context canceled''" "pg_text ''context deadline exceeded''"
  by (simp_all add: pg_text_ascii)


lemma pg_text_prefix: "is_ascii a \<Longrightarrow> pg_text a \<Longrightarrow> pg_text b \<Longrightarrow> pg_text (a @ b)"
  by (simp add: pg_text_def utf8_valid_ascii_app)

text \<open>Every message a job can fail with can be stored.\<close>

lemma find_candidate_text:
  assumes "worker_ok w" and "worker_ForID (wk_registry w) (wk_source_id w) = Some src"
    and "find_candidate w src row = Err pe"
  shows "pg_text (error_text w pe)"
proof -
  have ok: "source_texts_ok src" by (rule worker_source_texts [OF assms(1,2)])
  have src: "pg_text (source_text e)" if "s_search src q g = Err e \<or> s_get src i g = Err e" for q i g e
    using ok that ascii_texts by (cases e) (auto simp: source_text_def source_texts_ok_def)
  from assms(3) consider (search) q e where "s_search src q (wk_region w) = Err e" "pe = ProcSource e"
    | (get) e where "s_get src (er_asin row) (wk_region w) = Err e" "pe = ProcSource e"
    | (none) "pe = ProcMessage ''no enrichable identifier on ebook row''"
    by (auto simp: find_candidate_def first_hit_def Let_def map_sum_def split: if_splits sum.splits option.splits)
  then show ?thesis
    by cases (use src ascii_texts in \<open>auto simp: error_text_def\<close>)
qed

lemma process_error_text:
  assumes w: "worker_ok w" and run: "snd (process w j d) = Err pe"
  shows "pg_text (error_text w pe)"
proof (cases "worker_ForID (wk_registry w) (wk_source_id w)")
  case None
  have "is_ascii ''configured scan source not registered: ''" by (simp add: is_ascii_def)
  then have "pg_text (''configured scan source not registered: '' @ wk_source_id w)"
    by (rule pg_text_prefix) (use ascii_texts w in \<open>simp_all only: worker_ok_def\<close>)
  moreover have "pe = ProcMessage (''configured scan source not registered: '' @ wk_source_id w)"
    using run None by (simp add: process_def)
  ultimately show ?thesis by (simp only: error_text_def proc_error.case)
next
  case (Some src)
  have db: "pg_text (error_text w (ProcStore e))" for e using w by (simp add: error_text_def worker_ok_def)
  from run Some db find_candidate_text [OF w Some] show ?thesis
    by (auto simp: process_def split: prod.splits sum.splits option.splits if_splits)
qed

subsection \<open>The contract\<close>

lemma pg_ops_simps [simp]:
  "q_claim (pg_ops w) = ClaimNext (wk_coll w)" "q_completed (pg_ops w) = MarkCompleted"
  "q_failed (pg_ops w) = MarkFailed" "q_process (pg_ops w) = process w" "q_text (pg_ops w) = error_text w"
  "q_elapse (pg_ops w) = elapse"
  by (simp_all add: pg_ops_def)

lemma elapse_facts [simp]: "d_jobs (elapse t d) = d_jobs d" "pot (elapse t d) = pot d"
  by (simp_all add: elapse_def pot_def)

lemma elapse_inv [simp]: "drain_inv w (elapse t d) = drain_inv w d"
  by (simp add: drain_inv_def elapse_def db_ok_defs)

lemma job_heldE:
  assumes "job_held w n j d"
  obtains r where "drain_inv w d" and "db_ok d" and "pot d \<le> n" and "j_attempts j < MaxAttempts \<longrightarrow> pot d < n"
    and "r \<in> set (d_jobs d)" and "jb_id r = j_ebook j" and "is_pending r" and "jb_attempts r = j_attempts j"
    and "pg_text (j_ebook j)"
proof -
  from assms obtain r where r: "r \<in> set (d_jobs d)" "jb_id r = j_ebook j" "is_pending r" "jb_attempts r = j_attempts j"
    by (auto simp: job_held_def)
  moreover have "db_ok d" using assms by (simp add: job_held_def drain_inv_def)
  ultimately have "pg_text (j_ebook j)" using job_id_text by metis
  with r show thesis using assms by (intro that [of r]) (simp_all add: job_held_def drain_inv_def)
qed

lemma ClaimNext_cases:
  assumes "ClaimNext coll d = (d', Ok j)"
  shows "\<exists>r \<in> set (d_jobs d). claimable d r \<and> j = \<lparr>j_ebook = jb_id r, j_attempts = jb_attempts r + 1\<rparr> \<and>
    d' = upd_job (jb_id r) (\<lambda>r. True)
      (\<lambda>r. r\<lparr>jb_attempts := jb_attempts r + 1, jb_run_after := d_now d + lease\<rparr>) d"
proof (cases "sort_key (claim_order coll) (filter (claimable d) (d_jobs d))")
  case Nil
  with assms show ?thesis by (simp add: ClaimNext_def)
next
  case (Cons r rs)
  from sort_key_head [OF this] have "r \<in> set (d_jobs d)" "claimable d r" by auto
  with Cons assms show ?thesis by (intro bexI [of _ r]) (auto simp: ClaimNext_def)
qed

lemma job_held_claim:
  assumes inv: "drain_inv w d" and run: "ClaimNext (wk_coll w) d = (d', Ok j)"
  shows "job_held w (pot d) j d'"
proof -
  have ok: "db_ok d" using inv by (simp add: drain_inv_def)
  from ClaimNext_cases [OF run] obtain r where r: "r \<in> set (d_jobs d)" "claimable d r"
    "j = \<lparr>j_ebook = jb_id r, j_attempts = jb_attempts r + 1\<rparr>"
    "d' = upd_job (jb_id r) (\<lambda>r. True) (\<lambda>r. r\<lparr>jb_attempts := jb_attempts r + 1, jb_run_after := d_now d + lease\<rparr>) d"
    by blast
  let ?f = "\<lambda>r. r\<lparr>jb_attempts := jb_attempts r + 1, jb_run_after := d_now d + lease\<rparr>"
  have pend: "is_pending r" "is_pending (?f r)" using r(2) by (simp_all add: claimable_def is_pending_def)
  have p: "pot d' + weight r = pot d + weight (?f r)"
    unfolding r(4) by (rule pot_upd [OF ok r(1)]) simp_all
  have "db_ok d'" using keeps_okD [OF ClaimNext_ok ok run] .
  moreover have "pot d' \<le> pot d" using p pend by (simp add: weight_def)
  moreover have "jb_attempts r + 1 < MaxAttempts \<Longrightarrow> pot d' < pot d" using p pend by (simp add: weight_def)
  moreover have "?f r \<in> set (d_jobs d')" using r(1) by (force simp: r(4) upd_job_def set_upd_where)
  ultimately show ?thesis using inv pend
    by (auto simp: job_held_def drain_inv_def r(3) intro!: bexI [of _ "?f r"])
qed

lemma job_held_completed:
  assumes "job_held w n j d"
  shows "drain_inv w (fst (MarkCompleted (j_ebook j) d)) \<and> pot (fst (MarkCompleted (j_ebook j) d)) < n"
proof -
  from assms obtain r where r: "drain_inv w d" "db_ok d" "pot d \<le> n" "r \<in> set (d_jobs d)" "jb_id r = j_ebook j"
    "is_pending r" "pg_text (j_ebook j)" by (rule job_heldE)
  let ?f = "\<lambda>j. j\<lparr>jb_status := Completed, jb_finished_at := Some (d_now d), jb_last_error := []\<rparr>"
  have run: "fst (MarkCompleted (j_ebook j) d) = upd_job (j_ebook j) is_pending ?f d"
    using r(7) by (simp add: MarkCompleted_def)
  have "pot (upd_job (j_ebook j) is_pending ?f d) + weight r = pot d + weight (?f r)"
    by (rule pot_upd [where p = is_pending, OF r(2,4,5,6)])
  moreover have "weight (?f r) = 0" by (simp add: weight_def is_pending_def)
  ultimately have "pot (fst (MarkCompleted (j_ebook j) d)) < n"
    using weight_pos [OF r(6)] r(3) run by simp
  moreover have "db_ok (fst (MarkCompleted (j_ebook j) d))"
    using MarkCompleted_ok [of "j_ebook j"] r(2) by (simp add: keeps_ok_def)
  ultimately show ?thesis using r(1) by (simp add: drain_inv_def)
qed

lemma job_held_failed:
  assumes "job_held w n j d" and e: "snd (process w j d0) = Err pe"
  shows "drain_inv w (fst (MarkFailed (j_ebook j) (j_attempts j) (error_text w pe) d)) \<and>
    pot (fst (MarkFailed (j_ebook j) (j_attempts j) (error_text w pe) d)) < n"
proof -
  from assms(1) obtain r where r: "drain_inv w d" "db_ok d" "pot d \<le> n" "r \<in> set (d_jobs d)" "jb_id r = j_ebook j"
    "is_pending r" "pg_text (j_ebook j)" "j_attempts j < MaxAttempts \<longrightarrow> pot d < n" by (rule job_heldE)
  let ?t = "error_text w pe"
  have t: "pg_text ?t" using process_error_text [OF _ e] r(1) by (simp add: drain_inv_def)
  have "pot (fst (MarkFailed (j_ebook j) (j_attempts j) ?t d)) < n"
  proof (cases "j_attempts j < MaxAttempts")
    case True
    let ?f = "\<lambda>x. x\<lparr>jb_run_after := d_now d + backoff (j_attempts j), jb_last_error := ?t\<rparr>"
    have "pot (upd_job (j_ebook j) is_pending ?f d) + weight r = pot d + weight (?f r)"
      by (rule pot_upd [where p = is_pending, OF r(2,4,5,6)])
    moreover have "weight (?f r) = weight r" by (simp add: weight_def is_pending_def)
    ultimately show ?thesis using True r(7,8) t by (simp add: MarkFailed_def)
  next
    case False
    let ?f = "\<lambda>x. x\<lparr>jb_status := Failed, jb_finished_at := Some (d_now d), jb_last_error := ?t\<rparr>"
    have "pot (upd_job (j_ebook j) is_pending ?f d) + weight r = pot d + weight (?f r)"
      by (rule pot_upd [where p = is_pending, OF r(2,4,5,6)])
    moreover have "weight (?f r) = 0" by (simp add: weight_def is_pending_def)
    ultimately show ?thesis using False r(3,7) t weight_pos [OF r(6)] by (simp add: MarkFailed_def)
  qed
  moreover have "db_ok (fst (MarkFailed (j_ebook j) (j_attempts j) ?t d))"
    using MarkFailed_ok r(2) by (simp add: keeps_ok_def)
  ultimately show ?thesis using r(1) by (simp add: drain_inv_def)
qed

lemma ClaimNext_idle:
  assumes "drain_inv w d" and "ClaimNext (wk_coll w) d = (d', Err e)"
  shows "d' = d \<and> e = ErrQueueEmpty \<and> idle d"
proof -
  have "d' = d" "e = ErrQueueEmpty" using assms(2) by (auto simp: ClaimNext_def split: list.splits)
  moreover have "idle d" using ClaimNext_facts [of d "wk_coll w"] assms calculation
    by (auto simp: drain_inv_def idle_def list_all_iff)
  ultimately show ?thesis by simp
qed

interpretation wk: drain_contract "pg_ops w" "drain_inv w" pot "job_held w" idle for w
proof
  fix n j d t
  show "job_held w n j d \<Longrightarrow> job_held w n j (q_elapse (pg_ops w) t d)" by (simp add: job_held_def)
  show "job_held w n j d \<Longrightarrow> job_held w n j (fst (q_process (pg_ops w) j d))"
    using process_ok by (auto simp: job_held_def drain_inv_def pot_def)
  show "job_held w n j d \<Longrightarrow> drain_inv w d \<and> pot d \<le> n" by (simp add: job_held_def)
qed (use job_held_claim ClaimNext_idle job_held_completed job_held_failed in simp_all)


subsection \<open>The drain returns\<close>

lemma pot_bound:
  assumes "db_ok d" shows "pot d \<le> 6 * length (d_jobs d)"
proof -
  have "weight r \<le> 6" if "r \<in> set (d_jobs d)" for r
    using job_okD [OF assms that] by (simp add: weight_def job_row_ok_def MaxAttempts_def nat_le_iff)
  then have "sum_list (map weight (d_jobs d)) \<le> sum_list (map (\<lambda>r. 6) (d_jobs d))"
    by (intro sum_list_mono) simp
  then show ?thesis by (simp add: pot_def sum_list_triv)
qed

lemma drain_returns:
  assumes "worker_ok w" and "db_ok d" and "5 * (6 * length (d_jobs d) + mark_faults ts + 1) \<le> length ts"
  shows "\<exists>d' r. Drain (pg_ops w) ts 0 d = Some (d', r) \<and> db_ok d'"
proof -
  have "5 * (pot d + mark_faults ts) + nat (maxClaimFailures - 0) \<le> length ts"
    using pot_bound [OF assms(2)] assms(3) by (simp add: maxClaimFailures_def)
  from wk.Drain_returns [OF _ _ this, of w] assms(1,2) show ?thesis
    by (auto simp: drain_inv_def maxClaimFailures_def)
qed

lemma mark_faults_prefix:
  assumes "finite {i. tk_mark (T i) \<noteq> None}"
  shows "mark_faults (map T [0..<n]) \<le> card {i. tk_mark (T i) \<noteq> None}"
proof -
  have "mark_faults (map T [0..<n]) = length (filter (\<lambda>i. tk_mark (T i) \<noteq> None) [0..<n])"
    by (simp add: mark_faults_def filter_map comp_def)
  also have "\<dots> = card (set (filter (\<lambda>i. tk_mark (T i) \<noteq> None) [0..<n]))"
    by (intro distinct_card [symmetric] distinct_filter) simp
  also have "\<dots> \<le> card {i. tk_mark (T i) \<noteq> None}" using assms by (intro card_mono) auto
  finally show ?thesis .
qed

text \<open>
  C29. A drain returns, whatever its context, its sources and the claims do, as long as only
  finitely many writes of an outcome are lost and the errors of the sources are texts the
  database can store (C8 proves it of the fifteen adapters): with k writes lost in all and n
  jobs it takes at most 5 (6 n + k + 1) rounds, as every job costs at most six claims, between
  two claims at most four fail, and each lost write costs one more claim. The database
  constraints hold afterwards. The bound on lost writes is needed: when every outcome is lost
  and a round outlasts the lease, a drain never returns (lost_outcomes_loop).
\<close>

theorem Drain_terminates:
  assumes "worker_ok w" and "db_ok d" and "finite {i. tk_mark (T i) \<noteq> None}"
  shows "\<exists>d' r. Drain (pg_ops w) (map T [0..<5 * (6 * length (d_jobs d) + card {i. tk_mark (T i) \<noteq> None} + 1)]) 0 d = Some (d', r) \<and>
    db_ok d'"
  by (rule drain_returns [OF assms(1,2)]) (simp only: length_map length_upt diff_zero, intro mult_le_mono2 add_le_mono
    mark_faults_prefix [OF assms(3)] order.refl)

definition source_patient :: "source \<Rightarrow> bool" where
  "source_patient s \<longleftrightarrow> (\<forall>q g. s_search s q g \<noteq> Err SourceCanceled \<and> s_search s q g \<noteq> Err SourceDeadline \<and>
     s_get s q g \<noteq> Err SourceCanceled \<and> s_get s q g \<noteq> Err SourceDeadline)"

lemma find_candidate_error:
  assumes "find_candidate w src row = Err pe" and "source_patient src"
  shows "pe \<noteq> ProcSource SourceCanceled \<and> pe \<noteq> ProcSource SourceDeadline \<and> pe \<noteq> ProcStore e"
  using assms by (auto simp: find_candidate_def first_hit_def Let_def map_sum_def source_patient_def
      split: if_splits sum.splits option.splits)

lemma worker_patient:
  assumes "\<And>s. ForID (wk_registry w) (wk_source_id w) = Some s \<Longrightarrow> source_patient s"
  shows "wk.patient w"
  unfolding wk.patient_def pg_ops_simps
proof (intro allI impI notI)
  fix j d pe
  assume run: "snd (process w j d) = Err pe" and c: "canceled pe"
  have upd: "snd (UpdateEbookMetadata r x) \<noteq> Err ErrCanceled" "snd (LoadEbookRow i x) \<noteq> Err ErrCanceled" for r x i
    by (simp_all add: UpdateEbookMetadata_def LoadEbookRow_def split: option.split)
  show False
  proof (cases "worker_ForID (wk_registry w) (wk_source_id w)")
    case None
    with run c show ?thesis by (auto simp: process_def canceled_def)
  next
    case (Some src)
    then obtain s where "ForID (wk_registry w) (wk_source_id w) = Some s" "src = sourceAdapter s"
      by (auto simp: worker_ForID_def split: option.splits)
    then have "source_patient src" using assms
      by (auto simp: source_patient_def sourceAdapter_def adapt_get_def split: sum.splits source_error.splits)
    with run Some c upd show ?thesis
      by (auto simp: process_def canceled_def dest!: find_candidate_error
          split: prod.splits sum.splits option.splits if_splits) (metis snd_conv)+
  qed
qed

text \<open>
  C28. With a live context, no failing claim and a source that does not time out, a drain
  returns nil after at most five rounds per possible claim, and when it does no job is pending
  and due.
\<close>

theorem Drain_drains:
  assumes "worker_ok w" and "db_ok d" and "ForID (wk_registry w) (wk_source_id w) = Some s" and "source_patient s"
    and "list_all quiet ts" and "5 * (6 * length (d_jobs d) + mark_faults ts + 1) \<le> length ts"
  shows "\<exists>d'. Drain (pg_ops w) ts 0 d = Some (d', Ok ()) \<and> (\<forall>r \<in> set (d_jobs d'). \<not> claimable d' r)"
proof -
  have inv: "drain_inv w d" using assms(1,2) by (simp add: drain_inv_def)
  have "5 * (pot d + mark_faults ts) + nat (maxClaimFailures - 0) \<le> length ts"
    using pot_bound [OF assms(2)] assms(6) by (simp add: maxClaimFailures_def)
  from wk.Drain_returns [OF inv _ this] obtain d' r where run: "Drain (pg_ops w) ts 0 d = Some (d', r)"
    by (auto simp: maxClaimFailures_def)
  have r: "r = Ok ()" using wk.Drain_quiet_ok [OF inv assms(5) run] .
  have "list_all (\<lambda>t. tk_claim t \<noteq> Some ErrQueueEmpty) ts"
    using assms(5) by (auto simp: list_all_iff quiet_def)
  moreover have "wk.patient w" using assms(3,4) by (intro worker_patient) simp
  ultimately have "idle d'" using wk.Drain_ok_idle [OF inv _ _ run [unfolded r]] by blast
  then show ?thesis using run r by (auto simp: idle_def list_all_iff)
qed

text \<open>
  C32. One upstream timeout ends the whole drain with nil: the job it happened on keeps the
  attempt its claim counted and its lease, and every other due job is left for later although
  the context is alive.
\<close>

theorem Drain_deadline_stops:
  assumes "quiet t" and "ClaimNext (wk_coll w) (elapse (tk_wait t) d) = (d1, Ok j)"
    and "snd (process w j (elapse (tk_run t) d1)) = Err (ProcSource SourceDeadline)"
  shows "Drain (pg_ops w) (t # ts) consecFail d = Some (elapse (tk_run t) d1, Ok ())"
proof -
  have "process w j (elapse (tk_run t) d1) = (elapse (tk_run t) d1, Err (ProcSource SourceDeadline))"
  proof (cases rule: process_cases [of w j "elapse (tk_run t) d1"])
    case left
    then show ?thesis using assms(3) by (metis prod.collapse)
  next
    case (written src row c)
    with assms(3) show ?thesis by (auto simp: map_sum_def split: sum.splits)
  qed
  then show ?thesis using assms(1,2)
    by (simp add: Drain.simps claim_def quiet_def canceled_def)
qed

subsection \<open>What a drain changes\<close>

definition scan_part :: "book_row \<Rightarrow> string \<times> int \<times> string \<times> string \<times> int \<times> int \<times> bool \<times> int option \<times> string \<times> int" where
  "scan_part b = (eb_id b, eb_lib b, eb_path b, eb_format b, eb_file_size b, eb_mtime b, eb_deleted b,
     eb_deleted_at b, eb_content_sig b, eb_scanned_at b)"

definition enriched :: "book_row \<Rightarrow> book_row \<Rightarrow> bool" where
  "enriched b b' \<longleftrightarrow> scan_part b' = scan_part b \<and> list_all (\<lambda>f. f b \<noteq> [] \<longrightarrow> f b' \<noteq> []) kept_fields \<and>
     (eb_page_count b' = eb_page_count b \<or> 0 < eb_page_count b')"

definition drain_frame :: "db \<Rightarrow> db \<Rightarrow> bool" where
  "drain_frame d d' \<longleftrightarrow> d'\<lparr>d_books := d_books d, d_jobs := d_jobs d, d_now := d_now d\<rparr> = d \<and>
     map jb_id (d_jobs d') = map jb_id (d_jobs d) \<and> list_all2 enriched (d_books d) (d_books d')"

lemma enriched_refl: "enriched b b"
  by (simp add: enriched_def list_all_iff)

lemma enriched_trans: "enriched a b \<Longrightarrow> enriched b c \<Longrightarrow> enriched a c"
  by (auto simp: enriched_def list_all_iff)

lemma drain_frame_refl: "drain_frame d d"
  by (simp add: drain_frame_def list.rel_refl enriched_refl)

lemma drain_frame_trans: "drain_frame a b \<Longrightarrow> drain_frame b c \<Longrightarrow> drain_frame a c"
proof -
  assume ab: "drain_frame a b" and bc: "drain_frame b c"
  have "list_all2 enriched (d_books a) (d_books c)"
    using list_all2_trans [of enriched enriched enriched "d_books a" "d_books b" "d_books c"]
      enriched_trans ab bc by (auto simp: drain_frame_def)
  with ab bc show ?thesis by (cases a; cases b; cases c) (simp add: drain_frame_def)
qed

lemma frame_jobs: "drain_frame d (upd_job i p f d)" if "\<And>r. jb_id (f r) = jb_id r"
  by (simp add: drain_frame_def upd_job_def map_upd_where that list.rel_refl enriched_refl)

lemma frame_ClaimNext: "drain_frame d (fst (ClaimNext coll d))"
  by (auto simp: ClaimNext_def drain_frame_refl frame_jobs split: list.split)

lemma frame_MarkCompleted: "drain_frame d (fst (MarkCompleted i d))"
  by (simp add: MarkCompleted_def drain_frame_refl frame_jobs)

lemma frame_MarkFailed: "drain_frame d (fst (MarkFailed i a e d))"
  by (simp add: MarkFailed_def drain_frame_refl frame_jobs)

lemma frame_elapse: "drain_frame d (elapse t d)"
  by (simp add: drain_frame_def elapse_def list.rel_refl enriched_refl)

lemma enriched_merge:
  assumes "er_id r = eb_id b" and "\<forall>f \<in> set text_fields. f (row_of b) \<noteq> [] \<longrightarrow> f r \<noteq> []"
    and "er_page_count r = eb_page_count b \<or> 0 < er_page_count r"
  shows "enriched b (set_metadata d r b)"
  using assms by (simp add: enriched_def scan_part_def set_metadata_def kept_fields_def text_fields_def row_of_def)

lemma frame_process:
  assumes "db_ok d" shows "drain_frame d (fst (process w j d))"
proof (cases rule: process_cases [of w j d])
  case left
  then show ?thesis by (simp add: drain_frame_refl)
next
  case (written src row c)
  from written(2) obtain b where b: "find_book d (j_ebook j) = Some b" "row = row_of b"
    by (auto simp: LoadEbookRow_def split: if_splits option.splits)
  have bb: "b \<in> set (d_books d)" "eb_id b = j_ebook j" using find_book_Some [OF b(1)] by auto
  let ?r = "ApplyMatch row c"
  have keep: "\<forall>f \<in> set text_fields. f row \<noteq> [] \<longrightarrow> f ?r \<noteq> []"
    by (auto simp: ApplyMatch_eq text_fields_def)
  have pages: "er_page_count ?r = er_page_count row \<or> 0 < er_page_count ?r" by (simp add: ApplyMatch_eq)
  have "list_all2 enriched (d_books d) (upd_where (\<lambda>x. eb_id x = er_id ?r) (set_metadata d ?r) (d_books d))"
    unfolding upd_where_def list.rel_map
  proof (rule list.rel_refl_strong)
    fix x assume x: "x \<in> set (d_books d)"
    show "enriched x (if eb_id x = er_id ?r then set_metadata d ?r x else x)"
    proof (cases "eb_id x = er_id ?r")
      case True
      then have "x = b" using x bb b(2) assms distinct_map_inj [of eb_id "d_books d" x b]
        by (simp add: row_of_def db_ok_def books_ok_def)
      then show ?thesis using True keep pages b(2) by (simp add: enriched_merge row_of_def)
    qed (simp add: enriched_refl)
  qed
  then have "drain_frame d (fst (UpdateEbookMetadata ?r d))"
    by (simp add: UpdateEbookMetadata_def drain_frame_def list.rel_refl enriched_refl)
  then show ?thesis using written(4) by simp
qed


lemma frame_mark: "(\<And>d. drain_frame d (fst (f d))) \<Longrightarrow> drain_frame d (mark t f d)"
  by (simp add: mark_def drain_frame_refl split: option.split)

lemma Drain_frame_lemma:
  "drain_inv w d \<Longrightarrow> Drain (pg_ops w) ts f d = Some (d', r) \<Longrightarrow> drain_frame d d'"
proof (induction ts arbitrary: f d)
  case Nil
  then show ?case by simp
next
  case (Cons t ts)
  let ?d = "elapse (tk_wait t) d"
  have d: "drain_frame d ?d" by (rule frame_elapse)
  have ok: "db_ok ?d" "worker_ok w" using Cons.prems(1) elapse_inv [of w "tk_wait t" d] by (simp_all add: drain_inv_def)
  obtain d1 v where c: "claim (pg_ops w) t ?d = (d1, v)" by (cases "claim (pg_ops w) t ?d")
  have d1: "drain_frame d d1" "drain_inv w d1"
  proof -
    have "fst (claim (pg_ops w) t ?d) = ?d \<or> fst (claim (pg_ops w) t ?d) = fst (ClaimNext (wk_coll w) ?d)"
      by (cases "tk_claim t") (simp_all add: claim_def)
    with c have e: "d1 = ?d \<or> d1 = fst (ClaimNext (wk_coll w) ?d)" by simp
    then show "drain_frame d d1" using d frame_ClaimNext drain_frame_trans by metis
    show "drain_inv w d1" using e ok ClaimNext_ok [of "wk_coll w"] by (auto simp: drain_inv_def keeps_ok_def)
  qed
  note step = Cons.prems(2) [unfolded Drain.simps pg_ops_simps c]
  show ?case
  proof (cases "tk_before t")
    case (Some x)
    then show ?thesis using step by (simp add: drain_frame_refl)
  next
    case before: None
    show ?thesis
    proof (cases v)
      case (Inl e)
      have "d' = d1 \<or> Drain (pg_ops w) ts (f + 1) (elapse claimBackoff d1) = Some (d', r)"
        using step before Inl c by (auto split: if_splits option.splits)
      then show ?thesis
      proof
        assume "d' = d1" with d1 show ?thesis by simp
      next
        assume "Drain (pg_ops w) ts (f + 1) (elapse claimBackoff d1) = Some (d', r)"
        from Cons.IH [OF _ this] d1(2) have "drain_frame (elapse claimBackoff d1) d'" by simp
        then show ?thesis using d1(1) frame_elapse drain_frame_trans by metis
      qed
    next
      case (Inr j)
      let ?e = "elapse (tk_run t) d1"
      obtain d2 p where p: "process w j ?e = (d2, p)" by (cases "process w j ?e")
      have inve: "drain_inv w ?e" using d1(2) by simp
      then have "db_ok ?e" by (simp only: drain_inv_def)
      then have "drain_frame ?e d2" "db_ok d2"
        using frame_process [of ?e w j] process_ok [of ?e w j] p by auto
      then have d2: "drain_frame d d2" "drain_inv w d2"
        using d1 frame_elapse drain_frame_trans by (metis, simp add: drain_inv_def)
      show ?thesis
      proof (cases p)
        case (Inl e)
        let ?m = "mark t (MarkFailed (j_ebook j) (j_attempts j) (error_text w e)) d2"
        have m: "drain_frame d2 ?m" "db_ok ?m"
          using frame_mark [of "MarkFailed (j_ebook j) (j_attempts j) (error_text w e)" d2 t]
            frame_MarkFailed MarkFailed_ok d2(2)
          by (auto simp: mark_def keeps_ok_def drain_inv_def split: option.split)
        have "d' = d2 \<or> Drain (pg_ops w) ts 0 ?m = Some (d', r)"
          using step before Inr p Inl by (auto split: if_splits)
        then show ?thesis
        proof
          assume "d' = d2" with d2 show ?thesis by simp
        next
          assume "Drain (pg_ops w) ts 0 ?m = Some (d', r)"
          from Cons.IH [OF _ this] m(2) d2(2) have "drain_frame ?m d'" by (simp add: drain_inv_def)
          then show ?thesis using d2(1) m(1) drain_frame_trans by metis
        qed
      next
        case (Inr u)
        let ?m = "mark t (MarkCompleted (j_ebook j)) d2"
        have m: "drain_frame d2 ?m" "db_ok ?m"
          using frame_mark [of "MarkCompleted (j_ebook j)" d2 t] frame_MarkCompleted MarkCompleted_ok d2(2)
          by (auto simp: mark_def keeps_ok_def drain_inv_def split: option.split)
        have "Drain (pg_ops w) ts 0 ?m = Some (d', r)" using step before \<open>v = Inr j\<close> p Inr by simp
        from Cons.IH [OF _ this] m(2) d2(2) have "drain_frame ?m d'" by (simp add: drain_inv_def)
        then show ?thesis using d2(1) m(1) drain_frame_trans by metis
      qed
    qed
  qed
qed

text \<open>
  C30. A drain of a well-formed database by a worker whose sources fail with storable texts
  keeps the database well-formed and changes nothing but books, jobs and the clock: the same
  books and the same jobs are there afterwards, in the same order, what the scanner wrote of a
  book (id, library, path, format, size, signature, deletion mark) stays, no text field that had
  a value becomes empty, and a page count is the old one or a positive one.
\<close>

theorem Drain_changes:
  assumes "worker_ok w" and "db_ok d" and "Drain (pg_ops w) ts 0 d = Some (d', r)"
  shows "db_ok d' \<and> d'\<lparr>d_books := d_books d, d_jobs := d_jobs d, d_now := d_now d\<rparr> = d \<and>
    map jb_id (d_jobs d') = map jb_id (d_jobs d) \<and>
    list_all2 (\<lambda>b b'. scan_part b' = scan_part b \<and> (\<forall>f \<in> set kept_fields. f b \<noteq> [] \<longrightarrow> f b' \<noteq> []) \<and>
        (eb_page_count b' = eb_page_count b \<or> 0 < eb_page_count b'))
      (d_books d) (d_books d')"
proof -
  have inv: "drain_inv w d" using assms(1,2) by (simp add: drain_inv_def)
  have "enriched = (\<lambda>b b'. scan_part b' = scan_part b \<and> (\<forall>f \<in> set kept_fields. f b \<noteq> [] \<longrightarrow> f b' \<noteq> []) \<and>
      (eb_page_count b' = eb_page_count b \<or> 0 < eb_page_count b'))"
    by (simp add: enriched_def list_all_iff fun_eq_iff)
  with Drain_frame_lemma [OF inv assms(3)] wk.Drain_inv [OF inv assms(3)]
  show ?thesis by (simp add: drain_frame_def drain_inv_def)
qed

text \<open>
  C31. When processing a job changes any book, it is the one of the job, rewritten with the
  merge of the first candidate the one configured scan source returned: for its ISBN when the
  row has one, else for its ASIN when it has one, else for its title and whole author field, and
  in this last case only if the confidence against the row is at least 40. There is no separate
  source for ISBN or ASIN and no cut to the first author, although the documentation says so.
\<close>

theorem process_writes:
  assumes "process w j d = (d', r)" and "d_books d' \<noteq> d_books d"
  shows "\<exists>src b c. worker_ForID (wk_registry w) (wk_source_id w) = Some src \<and>
    b \<in> set (d_books d) \<and> eb_id b = j_ebook j \<and>
    d' = d\<lparr>d_books := upd_where (\<lambda>x. eb_id x = j_ebook j) (set_metadata d (ApplyMatch (row_of b) c)) (d_books d)\<rparr> \<and>
    (if eb_isbn b \<noteq> [] then \<exists>cs. s_search src (eb_isbn b) (wk_region w) = Ok (c # cs)
     else if eb_asin b \<noteq> [] then s_get src (eb_asin b) (wk_region w) = Ok (Some c)
     else (\<exists>cs. s_search src (text_query (row_of b)) (wk_region w) = Ok (c # cs)) \<and>
       CalculateConfidence (wk_uni w) (text_query (row_of b)) c (Some (rowAsCandidate (row_of b))) \<ge> 40)"
proof (cases rule: process_cases [of w j d])
  case left
  with assms show ?thesis by simp
next
  case (written src row c)
  from written(2) obtain b where b: "find_book d (j_ebook j) = Some b" "row = row_of b"
    by (auto simp: LoadEbookRow_def split: if_splits option.splits)
  have bb: "b \<in> set (d_books d)" "eb_id b = j_ebook j" using find_book_Some [OF b(1)] by auto
  have d': "d' = fst (UpdateEbookMetadata (ApplyMatch row c) d)" using written(4) assms(1) by simp
  have rid: "er_id (ApplyMatch row c) = j_ebook j" using b(2) bb(2) by (simp add: row_of_def)
  have "d' = d\<lparr>d_books := upd_where (\<lambda>x. eb_id x = j_ebook j) (set_metadata d (ApplyMatch (row_of b) c)) (d_books d)\<rparr>"
    using d' assms(2) rid b(2) by (auto simp: UpdateEbookMetadata_def split: if_splits)
  moreover have "if eb_isbn b \<noteq> [] then \<exists>cs. s_search src (eb_isbn b) (wk_region w) = Ok (c # cs)
     else if eb_asin b \<noteq> [] then s_get src (eb_asin b) (wk_region w) = Ok (Some c)
     else (\<exists>cs. s_search src (text_query (row_of b)) (wk_region w) = Ok (c # cs)) \<and>
       CalculateConfidence (wk_uni w) (text_query (row_of b)) c (Some (rowAsCandidate (row_of b))) \<ge> 40"
    using written(3) b(2)
    by (auto simp: find_candidate_def first_hit_def Let_def map_sum_def row_of_def minTextMatchConfidence_def
        split: if_splits sum.splits option.splits list.splits)
  ultimately show ?thesis using written(1) bb by blast
qed


subsection \<open>Witnesses\<close>

definition demo_book :: book_row where
  "demo_book = sample_book\<lparr>eb_isbn := ''9780441013593''\<rparr>"

definition demo_db :: db where
  "demo_db = empty_db\<lparr>d_libs := [sample_lib 1 ''/a''], d_next_lib := 2, d_books := [demo_book],
     d_jobs := [\<lparr>jb_id = ''b1'', jb_status = Pending, jb_attempts = 0, jb_run_after = 0,
                 jb_last_error = [], jb_finished_at = None\<rparr>]\<rparr>"

definition demo_hit :: candidate where
  "demo_hit = empty_candidate\<lparr>c_source := ''a'', c_title := ''Dune Messiah''\<rparr>"

definition fixed_source :: "(source_error, candidate list) res \<Rightarrow> source" where
  "fixed_source r = \<lparr>s_id = ''a'', s_enabled = (\<lambda>f. f ''a''), s_search = (\<lambda>q g. r),
     s_get = (\<lambda>i g. Err SourceNotFound)\<rparr>"

definition demo_worker :: "(source_error, candidate list) res \<Rightarrow> worker" where
  "demo_worker r = \<lparr>wk_uni = \<lparr>u_lower = (\<lambda>s. s), u_fold = (=)\<rparr>, wk_coll = (\<lambda>s. s),
     wk_registry = [(''a'', fixed_source r)], wk_source_id = ''a'', wk_region = ''us'',
     wk_db_text = (\<lambda>e. ''database error'')\<rparr>"

definition quiet_tick :: tick where
  "quiet_tick = \<lparr>tk_before = None, tk_wait = 1, tk_claim = None, tk_run = 1, tk_after = None, tk_mark = None\<rparr>"

lemmas demo_defs = demo_db_def demo_book_def sample_book_def sample_lib_def empty_db_def

lemma demo_db_ok: "db_ok demo_db"
  by (simp add: demo_defs db_ok_defs book_key_def job_row_ok_def pg_text_ascii)

lemma demo_ForID: "ForID (wk_registry (demo_worker r)) (wk_source_id (demo_worker r)) = Some (fixed_source r)"
  by (simp add: demo_worker_def ForID_def)

lemma demo_worker_ok: "\<forall>m. r \<noteq> Err (SourceFailed m) \<Longrightarrow> worker_ok (demo_worker r)"
  by (auto simp: worker_ok_def demo_worker_def ForID_def source_texts_ok_def fixed_source_def pg_text_ascii)

lemma quiet_ticks: "list_all quiet (replicate n quiet_tick)" "mark_faults (replicate n quiet_tick) = 0"
  by (simp_all add: list_all_iff quiet_def quiet_tick_def mark_faults_def)

lemma demo_fuel: "5 * (6 * length (d_jobs demo_db) + mark_faults (replicate 35 quiet_tick) + 1) \<le>
    length (replicate 35 quiet_tick)"
  unfolding quiet_ticks(2) by (simp add: demo_db_def)

theorem Drain_terminates_witness:
  "\<exists>d' r. Drain (pg_ops (demo_worker (Err SourceDeadline))) (map (\<lambda>i. quiet_tick) [0..<35]) 0 demo_db = Some (d', r) \<and> db_ok d'"
proof -
  have none: "{i :: nat. tk_mark quiet_tick \<noteq> None} = {}" by (simp add: quiet_tick_def)
  then have "finite {i :: nat. tk_mark quiet_tick \<noteq> None}" by (simp only: finite.emptyI)
  from Drain_terminates [OF demo_worker_ok demo_db_ok this, of "Err SourceDeadline"] show ?thesis
    unfolding none by (simp add: demo_db_def)
qed

text \<open>That only finitely many writes are lost is needed: \<open>ClaimNext\<close> does not look at the number of attempts, so a
  job whose outcome is never written is claimed again in the same drain each time its lease is over.\<close>

definition lossy_tick :: tick where
  "lossy_tick = quiet_tick\<lparr>tk_wait := lease, tk_mark := Some ErrConn\<rparr>"

lemma lossy_round:
  assumes "d_jobs d = [r]" and "is_pending r" and "jb_run_after r \<le> d_now d + lease"
  shows "\<exists>d1 r1. Drain (pg_ops (demo_worker (Ok []))) (lossy_tick # ts) f d = Drain (pg_ops (demo_worker (Ok []))) ts 0 d1 \<and>
    d_jobs d1 = [r1] \<and> is_pending r1 \<and> jb_run_after r1 \<le> d_now d1 + lease"
proof -
  let ?w = "demo_worker (Ok [])" and ?d = "elapse lease d" and ?j = "\<lparr>j_ebook = jb_id r, j_attempts = jb_attempts r + 1\<rparr>"
  let ?r = "r\<lparr>jb_attempts := jb_attempts r + 1, jb_run_after := d_now ?d + lease\<rparr>"
  let ?d1 = "elapse 1 (?d\<lparr>d_jobs := [?r]\<rparr>)"
  have "claimable ?d r" using assms(2,3) by (simp add: claimable_def is_pending_def elapse_def lease_def minute_def)
  then have claim: "ClaimNext (wk_coll ?w) ?d = (?d\<lparr>d_jobs := [?r]\<rparr>, Ok ?j)"
    using assms(1) by (simp add: ClaimNext_def upd_job_def elapse_def)
  obtain d2 p where p: "process ?w ?j ?d1 = (d2, p)" by fastforce
  have "d_jobs d2 = d_jobs ?d1" "d_now d2 = d_now ?d1" using process_jobs [of ?w ?j ?d1] process_now [of ?w ?j ?d1] p by auto
  then have d2: "d_jobs d2 = [?r]" "d_now d2 = d_now ?d + 1" by (simp_all add: elapse_def)
  have "wk.patient ?w" by (rule worker_patient) (simp add: demo_ForID source_patient_def fixed_source_def)
  then have "\<not> canceled e" if "p = Err e" for e
    using that p unfolding wk.patient_def by (metis pg_ops_simps(4) snd_conv)
  then have "Drain (pg_ops ?w) (lossy_tick # ts) f d = Drain (pg_ops ?w) ts 0 d2"
    using claim p by (auto simp: Drain.simps(2) claim_def lossy_tick_def quiet_tick_def mark_def split: sum.split)
  then show ?thesis using d2 assms(2) by (intro exI [of _ d2] exI [of _ ?r]) (simp add: is_pending_def)
qed

lemma lost_outcomes_loop: "Drain (pg_ops (demo_worker (Ok []))) (replicate n lossy_tick) 0 demo_db = None"
proof -
  have "Drain (pg_ops (demo_worker (Ok []))) (replicate n lossy_tick) f d = None"
    if "d_jobs d = [r]" "is_pending r" "jb_run_after r \<le> d_now d + lease" for f d r
    using that
  proof (induction n arbitrary: f d r)
    case (Suc n)
    from lossy_round [OF Suc.prems, of "replicate n lossy_tick" f] Suc.IH show ?case by auto
  qed simp
  then show ?thesis by (simp add: demo_db_def empty_db_def is_pending_def lease_def minute_def)
qed

theorem Drain_drains_witness:
  "\<exists>d'. Drain (pg_ops (demo_worker (Ok [demo_hit]))) (replicate 35 quiet_tick) 0 demo_db = Some (d', Ok ())"
proof -
  have "source_patient (fixed_source (Ok [demo_hit]))" by (simp add: source_patient_def fixed_source_def)
  from Drain_drains [OF demo_worker_ok demo_db_ok demo_ForID this quiet_ticks(1) demo_fuel]
  show ?thesis by blast
qed

lemma demo_claim:
  "ClaimNext (wk_coll (demo_worker r)) (elapse 1 demo_db) =
     (upd_job ''b1'' (\<lambda>r. True) (\<lambda>r. r\<lparr>jb_attempts := jb_attempts r + 1, jb_run_after := 1 + lease\<rparr>) (elapse 1 demo_db),
      Ok \<lparr>j_ebook = ''b1'', j_attempts = 1\<rparr>)"
  by (simp add: ClaimNext_def elapse_def demo_defs claimable_def)

lemma demo_process_error:
  "d_books d = [demo_book] \<Longrightarrow> snd (process (demo_worker (Err SourceDeadline)) \<lparr>j_ebook = ''b1'', j_attempts = 1\<rparr> d) =
     Err (ProcSource SourceDeadline)"
  by (simp add: process_def worker_ForID_def demo_ForID LoadEbookRow_def find_book_def demo_book_def sample_book_def
      pg_text_ascii find_candidate_def row_of_def sourceAdapter_def fixed_source_def first_hit_def)

theorem Drain_deadline_stops_witness:
  "\<exists>d'. Drain (pg_ops (demo_worker (Err SourceDeadline))) [quiet_tick] 0 demo_db = Some (d', Ok ()) \<and>
     map jb_attempts (d_jobs d') = [1] \<and> list_all is_pending (d_jobs d')"
proof -
  let ?w = "demo_worker (Err SourceDeadline)" and ?j = "\<lparr>j_ebook = ''b1'', j_attempts = 1\<rparr>"
  let ?d = "upd_job ''b1'' (\<lambda>r. True) (\<lambda>r. r\<lparr>jb_attempts := jb_attempts r + 1, jb_run_after := 1 + lease\<rparr>) (elapse 1 demo_db)"
  have q: "quiet quiet_tick" by (simp add: quiet_def quiet_tick_def)
  have c: "ClaimNext (wk_coll ?w) (elapse (tk_wait quiet_tick) demo_db) = (?d, Ok ?j)"
    using demo_claim by (simp add: quiet_tick_def)
  have "d_books (elapse (tk_run quiet_tick) ?d) = [demo_book]" by (simp add: elapse_def upd_job_def demo_db_def)
  from Drain_deadline_stops [OF q c demo_process_error [OF this], of "[]" 0]
  have "Drain (pg_ops ?w) [quiet_tick] 0 demo_db = Some (elapse (tk_run quiet_tick) ?d, Ok ())" .
  moreover have "map jb_attempts (d_jobs (elapse (tk_run quiet_tick) ?d)) = [1]"
    "list_all is_pending (d_jobs (elapse (tk_run quiet_tick) ?d))"
    by (simp_all add: upd_job_def demo_db_def elapse_def is_pending_def)
  ultimately show ?thesis by (intro exI [of _ "elapse (tk_run quiet_tick) ?d"] conjI)
qed

theorem Drain_changes_witness:
  "\<exists>d' r. Drain (pg_ops (demo_worker (Err SourceNotFound))) (replicate 35 quiet_tick) 0 demo_db = Some (d', r) \<and>
     map jb_id (d_jobs d') = [''b1'']"
proof -
  have ok: "worker_ok (demo_worker (Err SourceNotFound))" by (rule demo_worker_ok) simp
  have "5 * (pot demo_db + mark_faults (replicate 35 quiet_tick)) + nat (maxClaimFailures - 0) \<le>
      length (replicate 35 quiet_tick)"
    using pot_bound [OF demo_db_ok] demo_fuel by (simp add: maxClaimFailures_def)
  from wk.Drain_returns [OF _ _ this, of "demo_worker (Err SourceNotFound)"] ok demo_db_ok obtain d' r where
    run: "Drain (pg_ops (demo_worker (Err SourceNotFound))) (replicate 35 quiet_tick) 0 demo_db = Some (d', r)"
    by (auto simp: drain_inv_def maxClaimFailures_def)
  from Drain_changes [OF ok demo_db_ok run] have "map jb_id (d_jobs d') = map jb_id (d_jobs demo_db)" by blast
  with run show ?thesis by (auto simp: demo_db_def)
qed

theorem process_writes_witness:
  "\<exists>d'. process (demo_worker (Ok [demo_hit])) \<lparr>j_ebook = ''b1'', j_attempts = 1\<rparr> demo_db = (d', Ok ()) \<and>
     (\<exists>b c. b \<in> set (d_books demo_db) \<and> eb_id b = ''b1'' \<and>
        d' = demo_db\<lparr>d_books := upd_where (\<lambda>x. eb_id x = ''b1'') (set_metadata demo_db (ApplyMatch (row_of b) c)) (d_books demo_db)\<rparr>)"
proof -
  let ?w = "demo_worker (Ok [demo_hit])" and ?j = "\<lparr>j_ebook = ''b1'', j_attempts = 1\<rparr>"
  let ?r = "ApplyMatch (row_of demo_book) demo_hit"
  have t: "list_all pg_text (update_texts ?r)" "int4_ok (er_page_count ?r)"
    by (simp_all add: update_texts_def ApplyMatch_eq row_of_def demo_book_def sample_book_def demo_hit_def
        empty_candidate_def prefer_new_def year_of_def pg_text_ascii int4_ok_def)
  have run: "process ?w ?j demo_db = (fst (UpdateEbookMetadata ?r demo_db), Ok ())"
    using t by (simp add: process_def worker_ForID_def demo_ForID LoadEbookRow_def find_book_def demo_db_def
        demo_book_def sample_book_def pg_text_ascii find_candidate_def row_of_def sourceAdapter_def
        fixed_source_def first_hit_def UpdateEbookMetadata_def)
  have "d_books (fst (UpdateEbookMetadata ?r demo_db)) \<noteq> d_books demo_db"
    using t by (simp add: UpdateEbookMetadata_def demo_db_def set_metadata_def demo_book_def sample_book_def
        ApplyMatch_eq row_of_def demo_hit_def empty_candidate_def prefer_new_def)
  from process_writes [OF run this] run show ?thesis by auto
qed

end
