(* ===== verification/Wiring.thy ===== *)
theory Wiring
  imports HttpRoutes ScannerPg WorkerPg
begin

text \<open>
  How \<open>cmd/silo-plugin-local-ebooks/main.go\<close> puts the parts together: the two scan functions, the
  metadata configuration, and the callback of \<open>Configure\<close>. A pointer that \<open>main\<close> stores once the plugin
  is configured is \<open>None\<close> before. The outside is the record \<open>wiring\<close>: the directory tree below a root, the
  source adapters, the environment of a drain, and the migrations.
\<close>

record wiring =
  wr_scan :: scan_env
  wr_tree :: "string \<Rightarrow> walk_entry list"
  wr_source :: "app_config \<Rightarrow> string \<Rightarrow> source"
  wr_ticks :: "db \<Rightarrow> tick list"
  wr_admin :: admin_env
  wr_host :: host_env
  wr_parse_db :: "string \<Rightarrow> string option"
  wr_migrate :: "db \<Rightarrow> db \<times> string option"

record plugin =
  pl_store :: bool
  pl_app :: app_state
  pl_secret :: string

definition db_text :: "wiring \<Rightarrow> db_error \<Rightarrow> string" where
  "db_text W = an_err (wr_admin W)"

subsection \<open>Metadata\<close>

text \<open>The sources in the order \<open>main\<close> registers them.\<close>

definition registered_sources :: "string list" where
  "registered_sources = [''openlibrary'', ''googlebooks'', ''isbndb'', ''hardcover'', ''goodreads'', ''amazon'',
     ''annasarchive'', ''gutenberg'', ''bookbrainz'', ''fantasticfiction'', ''isfdb'', ''librarything'',
     ''internetarchive'', ''worldcat'', ''douban'']"

definition source_registry :: "wiring \<Rightarrow> app_config \<Rightarrow> registry" where
  "source_registry W cfg = foldl (\<lambda>r i. Register (wr_source W cfg i) r) [] registered_sources"

definition configureMetadata :: "wiring \<Rightarrow> app_config \<Rightarrow> worker" where
  "configureMetadata W cfg = \<lparr>wk_uni = se_uni (wr_scan W), wk_coll = be_coll (an_backend (wr_admin W)),
     wk_registry = source_registry W cfg, wk_source_id = ac_scan_source cfg, wk_region = ac_region cfg,
     wk_db_text = db_text W\<rparr>"

text \<open>A \<open>time.Duration\<close> in nanoseconds, which wraps around.\<close>

definition cache_ttl :: "app_config \<Rightarrow> int" where
  "cache_ttl cfg = wrap64 (wrap64 (ac_ttl_days cfg * 24) * (3600 * 10 ^ 9))"

definition enabledFn :: "app_state \<Rightarrow> string \<Rightarrow> bool" where
  "enabledFn s i = (case as_app_cfg s of Some c \<Rightarrow> i \<in> set (ac_sources c) | None \<Rightarrow> False)"

definition regionFn :: "app_state \<Rightarrow> string" where
  "regionFn s = (case as_app_cfg s of Some c \<Rightarrow> ac_region c | None \<Rightarrow> ''us'')"

definition drainWorker :: "wiring \<Rightarrow> app_state \<Rightarrow> (app_state \<times> (drain_error, unit) res) option" where
  "drainWorker W s = (case as_app_cfg s of
     None \<Rightarrow> Some (s, Ok ())
   | Some cfg \<Rightarrow> map_option (\<lambda>(d, r). (s\<lparr>as_db := d\<rparr>, r))
       (Drain (pg_ops (configureMetadata W cfg)) (wr_ticks W (as_db s)) 0 (as_db s)))"

subsection \<open>Scans\<close>

record totals =
  tot_added :: int
  tot_changed :: int
  tot_deleted :: int
  tot_failed :: int

definition zero_totals :: totals where
  "zero_totals = \<lparr>tot_added = 0, tot_changed = 0, tot_deleted = 0, tot_failed = 0\<rparr>"

definition add_result :: "totals \<Rightarrow> walk_result \<Rightarrow> totals" where
  "add_result t r = \<lparr>tot_added = tot_added t + wr_added r, tot_changed = tot_changed t + wr_changed r,
     tot_deleted = tot_deleted t + wr_deleted r, tot_failed = tot_failed t + wr_failed r\<rparr>"

definition failed_text :: "int \<Rightarrow> string" where
  "failed_text n = (if n > 0 then Itoa n @ '' file(s) failed to ingest'' else [])"

definition walk_library :: "wiring \<Rightarrow> lib_row \<Rightarrow> db \<Rightarrow> db \<times> (db_error, walk_result) res" where
  "walk_library W lp = Walk pg_store pg_queue (wr_scan W) (wr_tree W (lp_path lp)) (lp_id lp)"

fun run_walks :: "wiring \<Rightarrow> lib_row list \<Rightarrow> totals \<Rightarrow> db \<Rightarrow> db \<times> totals \<times> db_error option" where
  "run_walks W [] t d = (d, t, None)"
| "run_walks W (lp # lps) t d =
    (if \<not> lp_enabled lp then run_walks W lps t d
     else (case walk_library W lp d of
         (d, Inl e) \<Rightarrow> (d, t, Some e)
       | (d, Inr res) \<Rightarrow> run_walks W lps (add_result t res) (fst (MarkLibraryScanned (lp_id lp) d))))"

definition finish_event :: "int \<Rightarrow> totals \<Rightarrow> string \<Rightarrow> db \<Rightarrow> db" where
  "finish_event i t text d = fst (FinishScanEvent i (tot_added t) (tot_changed t) (tot_deleted t) text d)"

text \<open>The enrichment and the eviction after the walks; their errors are only logged.\<close>

definition after_scan :: "wiring \<Rightarrow> app_state \<Rightarrow> app_state option" where
  "after_scan W s = (case as_app_cfg s of
     None \<Rightarrow> Some s
   | Some cfg \<Rightarrow> (case (if ac_inline cfg then drainWorker W s else Some (s, Ok ())) of
         None \<Rightarrow> None
       | Some (s, r) \<Rightarrow> Some (s\<lparr>as_db := fst (EvictExpired (cache_ttl cfg) (as_db s))\<rparr>)))"

definition runScan :: "wiring \<Rightarrow> bool \<Rightarrow> app_state \<Rightarrow> (app_state \<times> (string, int) res) option" where
  "runScan W store s =
    (if \<not> store then Some (s, Err ''store not configured'')
     else case ListLibraryPaths (be_coll (an_backend (wr_admin W))) (as_db s) of
       (d, Inl e) \<Rightarrow> Some (s\<lparr>as_db := d\<rparr>, Err (db_text W e))
     | (d, Inr paths) \<Rightarrow> (case InsertScanEvent None d of
         (d, Inl e) \<Rightarrow> Some (s\<lparr>as_db := d\<rparr>, Err (''insert scan_event: '' @ db_text W e))
       | (d, Inr i) \<Rightarrow> (case run_walks W paths zero_totals d of
           (d, t, Some e) \<Rightarrow> Some (s\<lparr>as_db := finish_event i t (db_text W e) d\<rparr>, Err (db_text W e))
         | (d, t, None) \<Rightarrow> map_option (\<lambda>s. (s, Ok i))
             (after_scan W (s\<lparr>as_db := finish_event i t (failed_text (tot_failed t)) d\<rparr>)))))"

text \<open>An explicit scan of one library runs even if the library is disabled.\<close>

definition runScanOne :: "wiring \<Rightarrow> bool \<Rightarrow> int \<Rightarrow> app_state \<Rightarrow> app_state \<times> (string, int) res" where
  "runScanOne W store lpID s =
    (if \<not> store then (s, Err ''store not configured'')
     else case ListLibraryPaths (be_coll (an_backend (wr_admin W))) (as_db s) of
       (d, Inl e) \<Rightarrow> (s\<lparr>as_db := d\<rparr>, Err (db_text W e))
     | (d, Inr paths) \<Rightarrow> (case find (\<lambda>l. lp_id l = lpID) paths of
         None \<Rightarrow> (s\<lparr>as_db := d\<rparr>, Err (''library '' @ Itoa lpID @ '' not found''))
       | Some lp \<Rightarrow> (case InsertScanEvent (Some lpID) d of
           (d, Inl e) \<Rightarrow> (s\<lparr>as_db := d\<rparr>, Err (''insert scan_event: '' @ db_text W e))
         | (d, Inr i) \<Rightarrow> (case walk_library W lp d of
             (d, Inl e) \<Rightarrow> (s\<lparr>as_db := finish_event i zero_totals (db_text W e) d\<rparr>, Err (db_text W e))
           | (d, Inr res) \<Rightarrow> (let d = finish_event i (add_result zero_totals res) (failed_text (wr_failed res)) d
               in (s\<lparr>as_db := fst (MarkLibraryScanned (lp_id lp) d)\<rparr>, Ok i))))))"

subsection \<open>Configuring the plugin\<close>

definition appConfigFromRuntimeConfig :: "config \<Rightarrow> app_config" where
  "appConfigFromRuntimeConfig c = WithDefaults \<lparr>ac_sources = cf_sources c, ac_region = cf_region c,
     ac_ttl_days = cf_ttl_days c, ac_rps = cf_rps c, ac_inline = cf_inline c, ac_scan_source = cf_scan_source c,
     ac_google_key = cf_google_key c, ac_isbndb_key = cf_isbndb_key c, ac_hardcover_key = cf_hardcover_key c\<rparr>"

definition seed_libraries :: "library_config list \<Rightarrow> db \<Rightarrow> db" where
  "seed_libraries libs d = foldl (\<lambda>d l. fst (SeedLibraryPath \<lparr>lc_path = lbc_path l, lc_name = lbc_name l,
     lc_media_type = lbc_media_type l\<rparr> d)) d libs"

definition onConfigure :: "wiring \<Rightarrow> config \<Rightarrow> plugin \<Rightarrow> plugin \<times> string option" where
  "onConfigure W cfg p =
    (let s = pl_app p; put = (\<lambda>d. p\<lparr>pl_app := s\<lparr>as_db := d\<rparr>\<rparr>) in
     case wr_parse_db W (cf_database_url cfg) of
       Some e \<Rightarrow> (p, Some e)
     | None \<Rightarrow> (case wr_migrate W (as_db s) of
         (d, Some e) \<Rightarrow> (put d, Some (''migrate: '' @ e))
       | (d, None) \<Rightarrow> (case ImportLegacyAppConfig (appConfigFromRuntimeConfig cfg) d of
           (d, Inl e) \<Rightarrow> (put d, Some (''import legacy app config: '' @ db_text W e))
         | (d, Inr imported) \<Rightarrow> (case GetAppConfig d of
             (d, Inl e) \<Rightarrow> (put d, Some (''load app config: '' @ db_text W e))
           | (d, Inr app) \<Rightarrow> (p\<lparr>pl_store := True, pl_secret := cf_secret cfg,
                 pl_app := \<lparr>as_db = seed_libraries (cf_libraries cfg) d, as_app_cfg = Some app\<rparr>\<rparr>, None)))))"

subsection \<open>What a walk leaves alone\<close>

definition scan_rest :: "db \<Rightarrow> db" where
  "scan_rest d = d\<lparr>d_books := [], d_covers := [], d_jobs := []\<rparr>"

lemma walk_statements_rest:
  "scan_rest (fst (UpsertEbook lp i path f sz mt sig p d)) = scan_rest d"
  "scan_rest (fst (UpsertCover i ct src bs d)) = scan_rest d"
  "scan_rest (fst (Enqueue i d)) = scan_rest d"
  "scan_rest (fst (SoftDelete i d)) = scan_rest d"
  "scan_rest (fst (ListEbookRefs lp d)) = scan_rest d"
  by (auto simp: scan_rest_def UpsertEbook_def UpsertCover_def Enqueue_def SoftDelete_def ListEbookRefs_def upd_job_def Let_def
      split: option.split)

lemma enqueue_rest: "scan_rest (enqueue pg_queue i d) = scan_rest d"
  by (simp add: enqueue_def pg_queue_def walk_statements_rest)

definition others_as :: "(int \<Rightarrow> string \<Rightarrow> (string \<times> string) option) \<Rightarrow> int \<Rightarrow> db \<Rightarrow> bool" where
  "others_as V lp d \<longleftrightarrow> (\<forall>k. k \<noteq> lp \<longrightarrow> live_view k d = V k)"

lemma walk_statements_others:
  "others_as V lp d \<Longrightarrow> others_as V lp (fst (UpsertEbook lp i path f sz mt sig p d))"
  "others_as V lp d \<Longrightarrow> others_as V lp (fst (UpsertCover i ct src bs d))"
  "others_as V lp d \<Longrightarrow> others_as V lp (enqueue pg_queue i d)"
proof -
  have "live_view k (fst (UpsertCover i ct src bs d)) = live_view k d" for k
    by (rule live_view_cong) (simp add: UpsertCover_def Let_def)
  then show "others_as V lp d \<Longrightarrow> others_as V lp (fst (UpsertCover i ct src bs d))" by (simp add: others_as_def)
  have "live_view k (enqueue pg_queue i d) = live_view k d" for k
    by (rule live_view_cong) (simp add: enqueue_def pg_queue_def Enqueue_def upd_job_def)
  then show "others_as V lp d \<Longrightarrow> others_as V lp (enqueue pg_queue i d)" by (simp add: others_as_def)
qed (simp add: others_as_def UpsertEbook_other_view)

interpretation pgf: scan_contract pg_store pg_queue lp "\<lambda>d. scan_inv d \<and> scan_rest d = R \<and> others_as V lp d" "live_view lp" for lp R V
proof unfold_locales
  fix s
  assume "scan_inv s \<and> scan_rest s = R \<and> others_as V lp s"
  then show "\<exists>rs. st_refs pg_store lp s = (s, Ok rs) \<and> distinct (map rf_path rs) \<and>
      (\<forall>p i g. live_view lp s p = Some (i, g) \<longleftrightarrow> \<lparr>rf_id = i, rf_path = p, rf_content_sig = g\<rparr> \<in> set rs)"
    using pg.refs_view by blast
next
  fix s i p fmt sz mt g x s' r known
  assume h: "scan_inv s \<and> scan_rest s = R \<and> others_as V lp s" "st_upsert pg_store lp i p fmt sz mt g x s = (s', Ok (r, known))"
  from h have "scan_rest s' = R" "others_as V lp s'"
    using walk_statements_rest(1) [of lp i p fmt sz mt g x s] walk_statements_others(1) [of V lp s i p fmt sz mt g x] by simp_all
  with pg.upsert_ok [OF _ h(2)] h(1)
  show "(scan_inv s' \<and> scan_rest s' = R \<and> others_as V lp s') \<and> live_view lp s' = (live_view lp s)(p \<mapsto> (r, g)) \<and>
      (\<forall>i' g'. live_view lp s p = Some (i', g') \<longrightarrow> r = i')"
    by simp
next
  fix s i p fmt sz mt g x s' e
  assume h: "scan_inv s \<and> scan_rest s = R \<and> others_as V lp s" "st_upsert pg_store lp i p fmt sz mt g x s = (s', Err e)"
  from h have "scan_rest s' = R" "others_as V lp s'"
    using walk_statements_rest(1) [of lp i p fmt sz mt g x s] walk_statements_others(1) [of V lp s i p fmt sz mt g x] by simp_all
  with pg.upsert_err [OF _ h(2)] h(1)
  show "(scan_inv s' \<and> scan_rest s' = R \<and> others_as V lp s') \<and> live_view lp s' = live_view lp s" by simp
next
  fix s ct b i src
  assume "scan_inv s \<and> scan_rest s = R \<and> others_as V lp s" "cover_ok (Some \<lparr>cv_type = ct, cv_bytes = b\<rparr>)"
  then show "(scan_inv (fst (st_cover pg_store i ct src b s)) \<and> scan_rest (fst (st_cover pg_store i ct src b s)) = R \<and>
        others_as V lp (fst (st_cover pg_store i ct src b s))) \<and>
      live_view lp (fst (st_cover pg_store i ct src b s)) = live_view lp s"
    using pg.cover_view by (simp add: walk_statements_rest walk_statements_others)
next
  fix s i
  assume "scan_inv s \<and> scan_rest s = R \<and> others_as V lp s"
  then show "(scan_inv (enqueue pg_queue i s) \<and> scan_rest (enqueue pg_queue i s) = R \<and> others_as V lp (enqueue pg_queue i s)) \<and>
      live_view lp (enqueue pg_queue i s) = live_view lp s"
    using pg.enqueue_view by (simp add: enqueue_rest walk_statements_others)
next
  fix s p i g
  assume h: "scan_inv s \<and> scan_rest s = R \<and> others_as V lp s" "live_view lp s p = Some (i, g)"
  then obtain s' where s': "SoftDelete i s = (s', Ok ())" "scan_inv s'"
    "\<And>k q. live_view k s' q = (if k = lp \<and> q = p then None else live_view k s q)"
    using SoftDelete_views by blast
  moreover have "scan_rest s' = R" using walk_statements_rest(4) [of i s] s'(1) h by simp
  moreover have "others_as V lp s'" using h s'(3) by (simp add: others_as_def fun_eq_iff)
  moreover have "live_view lp s' = (live_view lp s)(p := None)" by (simp add: s'(3) fun_eq_iff)
  ultimately show "\<exists>s'. st_delete pg_store i s = (s', Ok ()) \<and> (scan_inv s' \<and> scan_rest s' = R \<and> others_as V lp s') \<and>
      live_view lp s' = (live_view lp s)(p := None)" by auto
next
  fix s p i g p' g'
  assume "scan_inv s \<and> scan_rest s = R \<and> others_as V lp s" "live_view lp s p = Some (i, g)" "live_view lp s p' = Some (i, g')"
  then show "p = p'" using pg.ids_inj by blast
qed

text \<open>A walk counts as failed the files of the library that are not on record afterwards.\<close>

definition missing :: "wiring \<Rightarrow> lib_row \<Rightarrow> db \<Rightarrow> string set" where
  "missing W lp d = unrecorded (wr_scan W) (wr_tree W (lp_path lp)) (live_view (lp_id lp) d)"

lemma walk_library_ok:
  assumes "scan_inv d" and "distinct (file_paths (wr_tree W (lp_path lp)))"
  shows "\<exists>d' res. walk_library W lp d = (d', Ok res) \<and> wr_failed res = int (card (missing W lp d')) \<and>
    scan_inv d' \<and> scan_rest d' = scan_rest d \<and> (\<forall>k. k \<noteq> lp_id lp \<longrightarrow> live_view k d' = live_view k d)"
proof -
  have "scan_inv d \<and> scan_rest d = scan_rest d \<and> others_as (\<lambda>k. live_view k d) (lp_id lp) d"
    using assms(1) by (simp add: others_as_def)
  then show ?thesis
  proof (rule pgf.Walk_spec [OF _ assms(2), where lp = "lp_id lp" and E = "wr_scan W"])
    fix d' res
    assume "Walk pg_store pg_queue (wr_scan W) (wr_tree W (lp_path lp)) (lp_id lp) d = (d', Ok res)"
      "scan_inv d' \<and> scan_rest d' = scan_rest d \<and> others_as (\<lambda>k. live_view k d) (lp_id lp) d'"
      "wr_failed res = int (card (unrecorded (wr_scan W) (wr_tree W (lp_path lp)) (live_view (lp_id lp) d')))"
    then show ?thesis unfolding walk_library_def missing_def others_as_def by blast
  qed
qed

subsection \<open>The wiring holds its parts together\<close>

text \<open>What the outside keeps: a directory tree names every path once, every adapter carries the id it is
  registered under and gives messages the database accepts, the environment of a drain is long
  enough for the loop to end, and migrating keeps the data well-formed.\<close>

definition wiring_ok :: "wiring \<Rightarrow> bool" where
  "wiring_ok W \<longleftrightarrow> (\<forall>e. pg_text (db_text W e)) \<and> (\<forall>p. distinct (file_paths (wr_tree W p))) \<and>
     (\<forall>c i. s_id (wr_source W c i) = i \<and> source_texts_ok (wr_source W c i)) \<and>
     (\<forall>d. 5 * (6 * length (d_jobs d) + mark_faults (wr_ticks W d) + 1) \<le> length (wr_ticks W d)) \<and>
     (\<forall>d. scan_inv d \<longrightarrow> stored_ok d \<longrightarrow> scan_inv (fst (wr_migrate W d)) \<and> stored_ok (fst (wr_migrate W d)))"

definition state_ok :: "app_state \<Rightarrow> bool" where
  "state_ok s \<longleftrightarrow> scan_inv (as_db s) \<and> stored_ok (as_db s) \<and> (\<forall>c. as_app_cfg s = Some c \<longrightarrow> config_ok c)"

lemma registered_all: "registered_sources = metadata_sources"
  by (simp add: registered_sources_def metadata_sources_def)

lemma ForID_registered:
  assumes "\<And>i. s_id (f i) = i"
  shows "ForID (foldl (\<lambda>r i. Register (f i) r) R is) i = (if i \<in> set is then Some (f i) else ForID R i)"
  using assms by (induction "is" arbitrary: R) (auto simp: ForID_Register)

lemma configured_source:
  assumes "wiring_ok W" and "config_ok c"
  shows "ForID (wk_registry (configureMetadata W c)) (wk_source_id (configureMetadata W c)) =
    Some (wr_source W c (ac_scan_source c))"
  using assms ForID_registered [of "wr_source W c" "[]" registered_sources]
  by (simp add: configureMetadata_def source_registry_def wiring_ok_def config_ok_def registered_all)

lemma metadata_source_text: "i \<in> set metadata_sources \<Longrightarrow> pg_text i"
  by (auto simp: metadata_sources_def pg_text_ascii)

lemma configured_worker:
  assumes "wiring_ok W" and "config_ok c"
  shows "worker_ok (configureMetadata W c)"
  using assms configured_source [OF assms] metadata_source_text
  by (auto simp: worker_ok_def wiring_ok_def config_ok_def) (simp_all add: configureMetadata_def)

lemma covers_drain: "drain_frame d d' \<Longrightarrow> covers_allowed d' = covers_allowed d"
  by (cases d; cases d') (simp add: drain_frame_def covers_allowed_def)

lemma stored_drain: "drain_frame d d' \<Longrightarrow> stored_ok d' = stored_ok d"
  by (rule stored_ok_cong) (cases d; cases d'; simp add: drain_frame_def)

lemma views_drain:
  assumes "drain_frame d d'" shows "live_view k d' = live_view k d"
proof -
  have e: "book_key b' = book_key b \<and> eb_id b' = eb_id b \<and> eb_deleted b' = eb_deleted b \<and> eb_content_sig b' = eb_content_sig b"
    if "enriched b b'" for b b' using that by (simp add: enriched_def scan_part_def book_key_def)
  have "rel_option enriched (find (\<lambda>b. book_key b = x) bs) (find (\<lambda>b. book_key b = x) bs')"
    if "list_all2 enriched bs bs'" for x bs bs'
    using that by (induction rule: list_all2_induct) (auto dest: e)
  then have r: "rel_option enriched (find_book_key d k p) (find_book_key d' k p)" for p
    using assms by (simp add: find_book_key_def drain_frame_def)
  have "live_view k d' p = live_view k d p" for p
    using r [of p] by (cases rule: option.rel_cases) (simp_all add: live_view_def e)
  then show ?thesis by (rule ext)
qed

lemma drainWorker_ok:
  assumes W: "wiring_ok W" and s: "state_ok s"
  shows "\<exists>s' r. drainWorker W s = Some (s', r) \<and> state_ok s' \<and> as_app_cfg s' = as_app_cfg s \<and>
    drain_frame (as_db s) (as_db s')"
proof (cases "as_app_cfg s")
  case None
  then show ?thesis using s by (simp add: drainWorker_def drain_frame_refl)
next
  case (Some c)
  let ?w = "configureMetadata W c" and ?ts = "wr_ticks W (as_db s)"
  have c: "config_ok c" and d: "db_ok (as_db s)" using s Some by (simp_all add: state_ok_def scan_inv_def)
  have "5 * (6 * length (d_jobs (as_db s)) + mark_faults ?ts + 1) \<le> length ?ts" using W by (simp add: wiring_ok_def)
  from drain_returns [OF configured_worker [OF W c] d this]
  obtain d' r where run: "Drain (pg_ops ?w) ?ts 0 (as_db s) = Some (d', r)" "db_ok d'" by blast
  have "drain_frame (as_db s) d'" by (rule Drain_frame_lemma [OF _ run(1)]) (simp add: drain_inv_def d configured_worker [OF W c])
  then show ?thesis using s Some run covers_drain stored_drain by (auto simp: drainWorker_def state_ok_def scan_inv_def)
qed

subsection \<open>A scan of all libraries\<close>

definition scanned :: "db \<Rightarrow> lib_row \<Rightarrow> lib_row" where
  "scanned d l = l\<lparr>lp_last_scanned_at := Some (d_now d)\<rparr>"

lemma scanned_fun: "scanned d = lp_last_scanned_at_update (\<lambda>_. Some (d_now d))"
  by (rule ext) (simp add: scanned_def)

lemma MarkLibraryScanned_inv: "scan_inv d \<Longrightarrow> scan_inv (fst (MarkLibraryScanned i d))"
  using MarkLibraryScanned_ok [of i] covers_allowed_cong [of "fst (MarkLibraryScanned i d)" d]
  by (auto simp: scan_inv_def keeps_ok_def MarkLibraryScanned_def)

text \<open>The results of the walks one after the other, and what is missing in all libraries afterwards.\<close>

fun walk_results :: "wiring \<Rightarrow> lib_row list \<Rightarrow> db \<Rightarrow> walk_result list" where
  "walk_results W [] d = []"
| "walk_results W (lp # lps) d = (case walk_library W lp d of
     (d, Inl e) \<Rightarrow> []
   | (d, Inr res) \<Rightarrow> res # walk_results W lps (fst (MarkLibraryScanned (lp_id lp) d)))"

definition all_missing :: "wiring \<Rightarrow> lib_row list \<Rightarrow> db \<Rightarrow> nat" where
  "all_missing W lps d = (\<Sum>l \<leftarrow> filter lp_enabled lps. card (missing W l d))"

definition sums :: "walk_result list \<Rightarrow> int \<Rightarrow> totals" where
  "sums rs n = \<lparr>tot_added = (\<Sum>r \<leftarrow> rs. wr_added r), tot_changed = (\<Sum>r \<leftarrow> rs. wr_changed r),
     tot_deleted = (\<Sum>r \<leftarrow> rs. wr_deleted r), tot_failed = n\<rparr>"

lemma MarkLibraryScanned_views: "live_view k (fst (MarkLibraryScanned i d)) = live_view k d"
  by (rule live_view_cong) (simp add: MarkLibraryScanned_def)

lemma missing_cong: "live_view (lp_id lp) d' = live_view (lp_id lp) d \<Longrightarrow> missing W lp d' = missing W lp d"
  by (simp add: missing_def)

definition walked :: "wiring \<Rightarrow> lib_row list \<Rightarrow> totals \<Rightarrow> db \<Rightarrow> db \<Rightarrow> totals \<Rightarrow> bool" where
  "walked W lps t d d' t' \<longleftrightarrow> scan_inv d' \<and>
     scan_rest d' = (scan_rest d)\<lparr>d_libs := upd_where (\<lambda>l. lp_id l \<in> lp_id ` set (filter lp_enabled lps)) (scanned d) (d_libs d)\<rparr> \<and>
     (\<forall>k. k \<notin> lp_id ` set lps \<longrightarrow> live_view k d' = live_view k d) \<and>
     length (walk_results W (filter lp_enabled lps) d) = length (filter lp_enabled lps) \<and>
     tot_failed t' = tot_failed t + int (all_missing W lps d') \<and>
     tot_added t' = tot_added t + tot_added (sums (walk_results W (filter lp_enabled lps) d) 0) \<and>
     tot_changed t' = tot_changed t + tot_changed (sums (walk_results W (filter lp_enabled lps) d) 0) \<and>
     tot_deleted t' = tot_deleted t + tot_deleted (sums (walk_results W (filter lp_enabled lps) d) 0)"

lemma run_walks_ok:
  assumes "\<And>p. distinct (file_paths (wr_tree W p))"
  shows "scan_inv d \<Longrightarrow> distinct (map lp_id lps) \<Longrightarrow> \<exists>d' t'. run_walks W lps t d = (d', t', None) \<and> walked W lps t d d' t'"
proof (induction lps arbitrary: t d)
  case Nil
  then show ?case by (simp add: walked_def upd_where_none scan_rest_def all_missing_def sums_def)
next
  case (Cons lp lps)
  show ?case
  proof (cases "lp_enabled lp")
    case False
    with Cons.IH [OF Cons.prems(1), of t] Cons.prems(2) obtain d' t' where
      "run_walks W lps t d = (d', t', None)" "walked W lps t d d' t'" by auto
    with False show ?thesis by (intro exI [of _ d'] exI [of _ t']) (simp add: walked_def all_missing_def)
  next
    case True
    from walk_library_ok [OF Cons.prems(1) assms, of lp] obtain d1 res where
      w: "walk_library W lp d = (d1, Ok res)" "wr_failed res = int (card (missing W lp d1))" "scan_inv d1"
        "scan_rest d1 = scan_rest d" "\<And>k. k \<noteq> lp_id lp \<Longrightarrow> live_view k d1 = live_view k d" by blast
    let ?d = "fst (MarkLibraryScanned (lp_id lp) d1)"
    have same: "d_libs d1 = d_libs d" "d_now d1 = d_now d" using w(4) by (cases d; cases d1; simp add: scan_rest_def)+
    have r: "scan_rest ?d = (scan_rest d)\<lparr>d_libs := upd_where (\<lambda>l. lp_id l = lp_id lp) (scanned d) (d_libs d)\<rparr>"
      using w(4) same by (cases d; cases d1) (simp add: MarkLibraryScanned_def scan_rest_def scanned_fun)
    have d: "d_libs ?d = upd_where (\<lambda>l. lp_id l = lp_id lp) (scanned d) (d_libs d)" "scanned ?d = scanned d"
      using same by (simp_all add: MarkLibraryScanned_def scanned_fun)
    have "distinct (map lp_id lps)" using Cons.prems(2) by simp
    from Cons.IH [OF MarkLibraryScanned_inv [OF w(3)] this] obtain d' t' where
      IH: "run_walks W lps (add_result t res) ?d = (d', t', None)" "walked W lps (add_result t res) ?d d' t'" by blast
    have "upd_where (\<lambda>l. lp_id l \<in> lp_id ` set (filter lp_enabled lps)) (scanned d)
        (upd_where (\<lambda>l. lp_id l = lp_id lp) (scanned d) (d_libs d)) =
      upd_where (\<lambda>l. lp_id l \<in> lp_id ` set (filter lp_enabled (lp # lps))) (scanned d) (d_libs d)"
      using True by (simp add: upd_where_def scanned_def)
    moreover have "missing W lp d' = missing W lp d1"
      using IH(2) Cons.prems(2) by (intro missing_cong) (simp add: walked_def MarkLibraryScanned_views)
    ultimately have "walked W (lp # lps) t d d' t'" using IH(2) True w(1,2,5)
      by (simp add: walked_def all_missing_def sums_def add_result_def d r MarkLibraryScanned_views)
    with IH(1) True w(1) show ?thesis by (intro exI [of _ d'] exI [of _ t']) simp
  qed
qed

lemma listed_enabled:
  assumes "distinct (map lp_id (d_libs d))" and "ListLibraryPaths coll d = (d', Ok ls)"
  shows "upd_where (\<lambda>l. lp_id l \<in> lp_id ` set (filter lp_enabled ls)) f (d_libs d) = upd_where lp_enabled f (d_libs d)"
proof -
  have "set ls = set (d_libs d)" using assms(2) by (auto simp: ListLibraryPaths_def)
  then have "lp_id l \<in> lp_id ` set (filter lp_enabled ls) \<longleftrightarrow> lp_enabled l" if "l \<in> set (d_libs d)" for l
    using distinct_map_inj [OF assms(1)] that by (auto simp: image_iff)
  then show ?thesis by (simp add: upd_where_def)
qed

text \<open>The event of a scan: when its counters fit the columns it is finished with them, else it stays as it was begun.\<close>

definition started_event :: "int option \<Rightarrow> db \<Rightarrow> event_row" where
  "started_event lib d = \<lparr>ev_id = d_next_event d, ev_lib = lib, ev_started_at = d_now d, ev_finished_at = None,
     ev_added = 0, ev_changed = 0, ev_deleted = 0, ev_error_text = None\<rparr>"

definition finished_event :: "int option \<Rightarrow> db \<Rightarrow> totals \<Rightarrow> event_row" where
  "finished_event lib d t = \<lparr>ev_id = d_next_event d, ev_lib = lib, ev_started_at = d_now d,
     ev_finished_at = Some (d_now d), ev_added = tot_added t, ev_changed = tot_changed t, ev_deleted = tot_deleted t,
     ev_error_text = (if tot_failed t > 0 then Some (failed_text (tot_failed t)) else None)\<rparr>"

definition counts_fit :: "totals \<Rightarrow> bool" where
  "counts_fit t \<longleftrightarrow> list_all int4_ok [tot_added t, tot_changed t, tot_deleted t]"

lemma failed_text_ok: "pg_text (failed_text n)"
proof -
  have "0 < (code c :: nat) \<and> code c < (128 :: nat)" if "c \<in> set (nat_digits m)" for c m
    using nat_digits_digits [OF that] by (auto simp: is_digit_def)
  then show ?thesis by (auto simp: failed_text_def Itoa_def list_all_iff intro!: pg_text_ascii)
qed

lemma finish_event_last:
  assumes "scan_inv d" and "d_events d' = d_events d @ [started_event lib d]"
    and "d_now d' = d_now d"
  shows "d_events (finish_event (d_next_event d) t (failed_text (tot_failed t)) d') = d_events d @
    [if counts_fit t then finished_event lib d t else started_event lib d]"
proof -
  have "ev_id e \<noteq> d_next_event d" if "e \<in> set (d_events d)" for e
    using assms(1) that by (auto simp: scan_inv_def db_ok_def events_ok_def)
  then have "upd_where (\<lambda>e. ev_id e = d_next_event d) f (d_events d) = d_events d" for f by (simp add: upd_where_none)
  then show ?thesis using assms(2,3) failed_text_ok
    by (auto simp: started_event_def finish_event_def FinishScanEvent_def counts_fit_def finished_event_def upd_where_def failed_text_def)
qed

lemma finish_event_frame:
  "scan_inv d \<Longrightarrow> scan_inv (finish_event i t x d)" "d_libs (finish_event i t x d) = d_libs d"
  "d_app_config (finish_event i t x d) = d_app_config d"
proof -
  have "d_covers (finish_event i t x d) = d_covers d" by (simp add: finish_event_def FinishScanEvent_def)
  moreover have "db_ok d \<Longrightarrow> db_ok (finish_event i t x d)"
    unfolding finish_event_def using FinishScanEvent_ok unfolding keeps_ok_def by blast
  ultimately show "scan_inv d \<Longrightarrow> scan_inv (finish_event i t x d)"
    using covers_allowed_cong [of "finish_event i t x d" d] by (simp add: scan_inv_def)
  show "d_libs (finish_event i t x d) = d_libs d" "d_app_config (finish_event i t x d) = d_app_config d"
    by (simp_all add: finish_event_def FinishScanEvent_def)
qed

lemma insert_event_frame:
  "scan_inv d \<Longrightarrow> scan_inv (fst (InsertScanEvent lib d))" "d_libs (fst (InsertScanEvent lib d)) = d_libs d"
  "scanned (fst (InsertScanEvent lib d)) = scanned d" "d_now (fst (InsertScanEvent lib d)) = d_now d"
  "d_app_config (fst (InsertScanEvent lib d)) = d_app_config d"
proof -
  have "d_covers (fst (InsertScanEvent lib d)) = d_covers d" by (simp add: InsertScanEvent_def split: option.split)
  then show "scan_inv d \<Longrightarrow> scan_inv (fst (InsertScanEvent lib d))"
    using InsertScanEvent_ok [of lib] covers_allowed_cong [of "fst (InsertScanEvent lib d)" d]
    by (simp add: scan_inv_def keeps_ok_def)
qed (simp_all add: InsertScanEvent_def scanned_def fun_eq_iff split: option.split)

lemma after_scan_ok:
  assumes "wiring_ok W" and "state_ok s"
  shows "\<exists>s'. after_scan W s = Some s' \<and> state_ok s' \<and> as_app_cfg s' = as_app_cfg s \<and>
    d_events (as_db s') = d_events (as_db s) \<and> d_libs (as_db s') = d_libs (as_db s) \<and>
    (\<forall>k. live_view k (as_db s') = live_view k (as_db s))"
proof (cases "as_app_cfg s")
  case None
  then show ?thesis using assms by (simp add: after_scan_def)
next
  case (Some c)
  obtain s1 r where d: "(if ac_inline c then drainWorker W s else Some (s, Ok ())) = Some (s1, r)" "state_ok s1"
    "as_app_cfg s1 = as_app_cfg s" "drain_frame (as_db s) (as_db s1)"
    using drainWorker_ok [OF assms] assms(2) by (cases "ac_inline c") (auto simp: drain_frame_refl)
  have "scan_inv (fst (EvictExpired (cache_ttl c) (as_db s1)))"
    using d(2) EvictExpired_ok [of "cache_ttl c"]
    by (auto simp: state_ok_def scan_inv_def keeps_ok_def covers_allowed_def EvictExpired_def)
  moreover have "stored_ok (fst (EvictExpired (cache_ttl c) (as_db s1)))"
    using d(2) stored_ok_cong [of "fst (EvictExpired (cache_ttl c) (as_db s1))" "as_db s1"]
    by (simp add: state_ok_def EvictExpired_def)
  moreover have "d_events (as_db s1) = d_events (as_db s)" "d_libs (as_db s1) = d_libs (as_db s)"
    using d(4) by (cases "as_db s"; cases "as_db s1"; simp add: drain_frame_def)+
  moreover have "live_view k (fst (EvictExpired (cache_ttl c) (as_db s1))) = live_view k (as_db s)" for k
    using views_drain [OF d(4)] live_view_cong [of "fst (EvictExpired (cache_ttl c) (as_db s1))" "as_db s1" k]
    by (simp add: EvictExpired_def)
  ultimately show ?thesis using Some d by (auto simp: after_scan_def state_ok_def EvictExpired_def)
qed

definition scan_results :: "wiring \<Rightarrow> db \<Rightarrow> walk_result list" where
  "scan_results W d = (case snd (ListLibraryPaths (be_coll (an_backend (wr_admin W))) d) of
     Inl e \<Rightarrow> []
   | Inr ls \<Rightarrow> walk_results W (filter lp_enabled ls) (fst (InsertScanEvent None d)))"

lemma sum_list_perm:
  assumes "mset xs = mset ys" shows "(\<Sum>x \<leftarrow> filter P xs. f x) = (\<Sum>y \<leftarrow> filter P ys. f y :: nat)"
proof -
  have "mset (map f (filter P xs)) = mset (map f (filter P ys))" using assms by simp
  from arg_cong [OF this, of sum_mset] show ?thesis by (simp only: sum_mset_sum_list)
qed

lemma runScan_ok:
  assumes W: "wiring_ok W" and s: "state_ok s"
  shows "\<exists>s' t. runScan W True s = Some (s', Ok (d_next_event (as_db s))) \<and> state_ok s' \<and>
    as_app_cfg s' = as_app_cfg s \<and>
    d_libs (as_db s') = upd_where lp_enabled (scanned (as_db s)) (d_libs (as_db s)) \<and>
    length (scan_results W (as_db s)) = length (filter lp_enabled (d_libs (as_db s))) \<and>
    t = sums (scan_results W (as_db s)) (int (all_missing W (d_libs (as_db s)) (as_db s'))) \<and>
    d_events (as_db s') = d_events (as_db s) @
      [if counts_fit t then finished_event None (as_db s) t else started_event None (as_db s)]"
proof -
  let ?d = "as_db s" and ?coll = "be_coll (an_backend (wr_admin W))"
  have inv: "scan_inv ?d" using s by (simp add: state_ok_def)
  obtain ls where ls: "ListLibraryPaths ?coll ?d = (?d, Ok ls)" by (simp add: ListLibraryPaths_def)
  define d1 where "d1 = fst (InsertScanEvent None ?d)"
  have ins: "InsertScanEvent None ?d = (d1, Ok (d_next_event ?d))" by (simp add: d1_def InsertScanEvent_def)
  have d1: "scan_inv d1" "d_libs d1 = d_libs ?d" "scanned d1 = scanned ?d" "d_now d1 = d_now ?d" "d_app_config d1 = d_app_config ?d"
    unfolding d1_def by (rule insert_event_frame(1) [OF inv] insert_event_frame(2-))+
  have dist: "distinct (file_paths (wr_tree W p))" for p using W by (simp add: wiring_ok_def)
  have ids: "distinct (map lp_id (d_libs ?d))" using inv by (simp add: scan_inv_def db_ok_def libs_ok_def)
  have perm: "mset ls = mset (d_libs ?d)" using ls by (auto simp: ListLibraryPaths_def)
  then have "distinct (map lp_id ls)" using ids by (metis mset_eq_imp_distinct_iff mset_map)
  from run_walks_ok [OF dist d1(1) this, of zero_totals] obtain d2 t where
    run: "run_walks W ls zero_totals d1 = (d2, t, None)" and w: "walked W ls zero_totals d1 d2 t" by blast
  have d2: "scan_inv d2" "scan_rest d2 = (scan_rest d1)\<lparr>d_libs :=
      upd_where (\<lambda>l. lp_id l \<in> lp_id ` set (filter lp_enabled ls)) (scanned d1) (d_libs d1)\<rparr>"
    using w by (simp_all add: walked_def)
  from listed_enabled [OF ids ls] have libs: "d_libs d2 = upd_where lp_enabled (scanned ?d) (d_libs ?d)"
    using d2(2) d1(2,3) by (cases d2; cases d1) (simp add: scan_rest_def)
  have rest: "d_events d2 = d_events d1" "d_now d2 = d_now ?d"
    using d2(2) d1(4) by (cases d2; cases d1; simp add: scan_rest_def)+
  let ?d3 = "finish_event (d_next_event ?d) t (failed_text (tot_failed t)) d2"
  have ev: "d_events ?d3 = d_events ?d @ [if counts_fit t then finished_event None ?d t else started_event None ?d]"
    by (rule finish_event_last [OF inv _ rest(2)]) (simp add: rest d1_def InsertScanEvent_def started_event_def)
  have "d_app_config ?d3 = d_app_config ?d"
    using d2(2) d1(5) by (cases d2; cases d1) (simp add: scan_rest_def finish_event_frame(3))
  then have "stored_ok ?d3" using s stored_ok_cong [of ?d3 ?d] by (simp add: state_ok_def)
  then have "state_ok (s\<lparr>as_db := ?d3\<rparr>)" using s finish_event_frame(1) [OF d2(1)] by (simp add: state_ok_def)
  from after_scan_ok [OF W this] obtain s' where
    s': "after_scan W (s\<lparr>as_db := ?d3\<rparr>) = Some s'" "state_ok s'" "as_app_cfg s' = as_app_cfg s"
    "d_events (as_db s') = d_events ?d3" "d_libs (as_db s') = d_libs ?d3" "\<And>k. live_view k (as_db s') = live_view k ?d3" by auto
  have "d_books ?d3 = d_books d2" by (simp add: finish_event_def FinishScanEvent_def)
  then have "live_view k (as_db s') = live_view k d2" for k using s'(6) live_view_cong by metis
  then have miss: "missing W l (as_db s') = missing W l d2" for l by (rule missing_cong)
  have "all_missing W ls d2 = all_missing W (d_libs ?d) (as_db s')"
    unfolding all_missing_def miss by (rule sum_list_perm [OF perm])
  then have t: "t = sums (scan_results W ?d) (int (all_missing W (d_libs ?d) (as_db s')))"
    and len: "length (scan_results W ?d) = length (filter lp_enabled ls)"
    using w ls by (simp_all add: walked_def zero_totals_def scan_results_def d1_def sums_def)
  have "length (filter lp_enabled ls) = length (filter lp_enabled (d_libs ?d))" using perm by (metis mset_filter size_mset)
  then show ?thesis using run ls ins libs ev s' t len
    by (intro exI [of _ s'] exI [of _ t]) (simp add: runScan_def finish_event_frame(2))
qed

subsection \<open>A scan of one library\<close>

lemma runScanOne_state: "wiring_ok W \<Longrightarrow> state_ok s \<Longrightarrow> state_ok (fst (runScanOne W b i s)) \<and>
    as_app_cfg (fst (runScanOne W b i s)) = as_app_cfg s"
proof -
  assume W: "wiring_ok W" and s: "state_ok s"
  let ?d = "as_db s" and ?coll = "be_coll (an_backend (wr_admin W))"
  obtain ls where ls: "ListLibraryPaths ?coll ?d = (?d, Ok ls)" by (simp add: ListLibraryPaths_def)
  have inv: "scan_inv ?d" using s by (simp add: state_ok_def)
  have put: "state_ok (s\<lparr>as_db := d\<rparr>)" if "scan_inv d" "d_app_config d = d_app_config ?d" for d
    using s that stored_ok_cong [of d ?d] by (simp add: state_ok_def)
  show ?thesis
  proof (cases "b \<and> find (\<lambda>l. lp_id l = i) ls \<noteq> None")
    case False
    then show ?thesis using s ls put [OF inv refl] by (auto simp: runScanOne_def)
  next
    case True
    then obtain lp where lp: "find (\<lambda>l. lp_id l = i) ls = Some lp" by auto
    obtain d1 r where ins: "InsertScanEvent (Some i) ?d = (d1, r)" by (cases "InsertScanEvent (Some i) ?d")
    have d1: "scan_inv d1" "d_app_config d1 = d_app_config ?d"
      using insert_event_frame(1) [OF inv, of "Some i"] insert_event_frame(5) [of "Some i" ?d] ins by simp_all
    have dist: "distinct (file_paths (wr_tree W p))" for p using W by (simp add: wiring_ok_def)
    from walk_library_ok [OF d1(1) dist, of lp] obtain d2 res where
      w: "walk_library W lp d1 = (d2, Ok res)" "scan_inv d2" "scan_rest d2 = scan_rest d1" by blast
    have "scan_inv (fst (MarkLibraryScanned j (finish_event n t x d2)))" for j n t x
      by (intro MarkLibraryScanned_inv finish_event_frame(1) w(2))
    moreover have "d_app_config (fst (MarkLibraryScanned j (finish_event n t x d2))) = d_app_config ?d" for j n t x
      using w(3) d1(2) by (cases d2; cases d1) (simp add: scan_rest_def MarkLibraryScanned_def finish_event_frame(3))
    ultimately show ?thesis using True ls lp ins w(1) put d1
      by (cases r) (simp_all add: runScanOne_def Let_def)
  qed
qed

subsection \<open>Configuring\<close>

lemma SeedLibraryPath_inv: "scan_inv d \<Longrightarrow> scan_inv (fst (SeedLibraryPath c d))"
proof -
  have "d_covers (fst (SeedLibraryPath c d)) = d_covers d"
    by (simp add: SeedLibraryPath_def insert_lib_def Let_def split: option.split)
  then show "scan_inv d \<Longrightarrow> scan_inv (fst (SeedLibraryPath c d))"
    using SeedLibraryPath_ok [of c] covers_allowed_cong [of "fst (SeedLibraryPath c d)" d]
    by (simp add: scan_inv_def keeps_ok_def)
qed

lemma seed_libraries_inv: "scan_inv d \<Longrightarrow> scan_inv (seed_libraries ls d)"
  unfolding seed_libraries_def by (induction ls arbitrary: d) (simp_all add: SeedLibraryPath_inv)

lemma PutAppConfig_inv: "scan_inv d \<Longrightarrow> scan_inv (fst (PutAppConfig c d))"
proof -
  have "d_covers (fst (PutAppConfig c d)) = d_covers d"
    by (simp add: PutAppConfig_def Let_def split: option.split)
  then show "scan_inv d \<Longrightarrow> scan_inv (fst (PutAppConfig c d))"
    using PutAppConfig_ok [of c] covers_allowed_cong [of "fst (PutAppConfig c d)" d]
    by (simp add: scan_inv_def keeps_ok_def)
qed

lemma ImportLegacy_inv: "scan_inv d \<Longrightarrow> scan_inv (fst (ImportLegacyAppConfig c d))"
  using PutAppConfig_inv [of d "WithDefaults c"]
  by (auto simp: ImportLegacyAppConfig_def Let_def split: prod.splits sum.splits) 
    (metis fst_conv reading_statements(3))+

lemma ImportLegacy_stored: "stored_ok d \<Longrightarrow> stored_ok (fst (ImportLegacyAppConfig c d))"
  using PutAppConfig_stored [of d "WithDefaults c"]
  by (auto simp: ImportLegacyAppConfig_def Let_def split: prod.splits sum.splits)
    (metis fst_conv reading_statements(3))+

lemma seed_libraries_config: "d_app_config (seed_libraries ls d) = d_app_config d"
proof -
  have "d_app_config (fst (SeedLibraryPath c d)) = d_app_config d" for c d
    by (simp add: SeedLibraryPath_def insert_lib_def Let_def split: option.split)
  then show ?thesis unfolding seed_libraries_def by (induction ls arbitrary: d) simp_all
qed

text \<open>Whatever step of the callback fails, the state stays well-formed; when none fails, the
  configuration in memory is valid.\<close>

lemma onConfigure_state:
  assumes W: "wiring_ok W" and s: "state_ok (pl_app p)" and run: "onConfigure W cfg p = (p', e)"
  shows "state_ok (pl_app p') \<and> (e = None \<longrightarrow> pl_store p' \<and> as_app_cfg (pl_app p') \<noteq> None) \<and>
    (e \<noteq> None \<longrightarrow> pl_store p' = pl_store p \<and> as_app_cfg (pl_app p') = as_app_cfg (pl_app p))"
proof -
  let ?s = "pl_app p"
  obtain d1 e1 where m: "wr_migrate W (as_db ?s) = (d1, e1)" by fastforce
  obtain d2 r2 where i: "ImportLegacyAppConfig (appConfigFromRuntimeConfig cfg) d1 = (d2, r2)" by fastforce
  obtain r3 where g: "GetAppConfig d2 = (d2, r3)" using reading_statements(3) [of d2] by (metis prod.collapse)
  have d1: "scan_inv d1" "stored_ok d1"
    using W s m by (auto simp: wiring_ok_def state_ok_def dest!: spec [of _ "as_db ?s"])
  then have d2: "scan_inv d2" "stored_ok d2"
    using ImportLegacy_inv [of d1 "appConfigFromRuntimeConfig cfg"] ImportLegacy_stored [of d1 "appConfigFromRuntimeConfig cfg"] i
    by simp_all
  have put: "state_ok (?s\<lparr>as_db := d\<rparr>)" if "scan_inv d" "stored_ok d" for d using s that by (simp add: state_ok_def)
  have c: "config_ok c" if "r3 = Ok c" for c using d2(2) g that by (simp add: stored_ok_def)
  have "stored_ok (seed_libraries ls d2)" for ls
    using d2(2) stored_ok_cong [OF seed_libraries_config] by blast
  then have new: "state_ok \<lparr>as_db = seed_libraries ls d2, as_app_cfg = Some c\<rparr>" if "r3 = Ok c" for ls c
    using seed_libraries_inv [OF d2(1)] c [OF that] by (simp add: state_ok_def)
  show ?thesis using run m i g put [OF d1] put [OF d2] new s
    by (auto simp: onConfigure_def Let_def split: option.splits sum.splits)
qed

end
