(* ===== verification/Plugin.thy ===== *)
theory Plugin
  imports Wiring
begin

text \<open>
  The plugin as a whole: what a request, a scheduled task, a configuration call and the passing of
  time do to it, as a step relation, and the invariant of every reachable state. The scheduled task
  RPC is \<open>internal/scheduler/tasks.go\<close>; how concurrent triggers meet is the theory \<open>Triggers\<close>.
\<close>

subsection \<open>The scan functions as the handlers see them\<close>

definition scan_fn :: "wiring \<Rightarrow> bool \<Rightarrow> scan_fun" where
  "scan_fn W store s = (case runScan W store s of Some x \<Rightarrow> x | None \<Rightarrow> (s, Err ''the environment of the drain ended''))"

definition admin_of :: "wiring \<Rightarrow> plugin \<Rightarrow> admin_env" where
  "admin_of W p = (wr_admin W)\<lparr>an_backend := (an_backend (wr_admin W))\<lparr>be_secret := pl_secret p\<rparr>,
     an_scan := scan_fn W (pl_store p), an_scan_one := runScanOne W (pl_store p)\<rparr>"

text \<open>What \<open>SetHandler\<close> was given, if it was, and a request of the host.\<close>

definition handler_of :: "wiring \<Rightarrow> plugin \<Rightarrow> app_state handler option" where
  "handler_of W p = (if pl_store p then Some (\<lambda>r s. map_prod id Some (serve (admin_of W p) r s)) else None)"

definition host_call :: "wiring \<Rightarrow> host_request \<Rightarrow> plugin \<Rightarrow> plugin \<times> host_answer" where
  "host_call W q p = (case Handle (wr_host W) (handler_of W p) q (pl_app p) of (s, a) \<Rightarrow> (p\<lparr>pl_app := s\<rparr>, a))"

subsection \<open>Scheduled tasks\<close>

definition taskID :: "string \<Rightarrow> string" where
  "taskID key = rev (takeWhile (\<lambda>c. c \<noteq> CHR '':'') (rev key))"

datatype task_reply = TaskDone | TaskError string

definition drain_text :: "wiring \<Rightarrow> drain_error \<Rightarrow> string" where
  "drain_text W e = (case e of DrainCtx CtxCanceled \<Rightarrow> ''context canceled'' | DrainCtx CtxDeadline \<Rightarrow> ''context deadline exceeded''
     | DrainCanceled \<Rightarrow> ''context canceled'' | DrainAborted n x \<Rightarrow>
       ''drain aborted after '' @ Itoa n @ '' consecutive claim failures: '' @ db_text W x)"

text \<open>One call of the RPC that meets no other scheduled scan.\<close>

definition Run :: "wiring \<Rightarrow> string \<Rightarrow> plugin \<Rightarrow> plugin \<times> task_reply" where
  "Run W key p =
    (if taskID key = ''library_scan'' then
       (case scan_fn W (pl_store p) (pl_app p) of
          (s, Inl e) \<Rightarrow> (p\<lparr>pl_app := s\<rparr>, TaskError e)
        | (s, Inr i) \<Rightarrow> (p\<lparr>pl_app := s\<rparr>, TaskDone))
     else if taskID key = ''metadata_enrichment_worker'' then
       (case drainWorker W (pl_app p) of
          None \<Rightarrow> (p, TaskDone)
        | Some (s, Inl e) \<Rightarrow> (p\<lparr>pl_app := s\<rparr>, TaskError (drain_text W e))
        | Some (s, Inr u) \<Rightarrow> (p\<lparr>pl_app := s\<rparr>, TaskDone))
     else (p, TaskError ''unknown task key''))"

subsection \<open>Steps\<close>

type_synonym system = "plugin runtime_server"

definition configure :: "wiring \<Rightarrow> (string \<times> (string \<times> any) list option) list \<Rightarrow> system \<Rightarrow> system" where
  "configure W entries S = fst (Configure (onConfigure W) entries S)"

definition pass_time :: "int \<Rightarrow> plugin \<Rightarrow> plugin" where
  "pass_time t p = p\<lparr>pl_app := (pl_app p)\<lparr>as_db := elapse t (as_db (pl_app p))\<rparr>\<rparr>"

inductive system_step :: "wiring \<Rightarrow> system \<Rightarrow> system \<Rightarrow> bool" for W where
  configured: "system_step W S (configure W entries S)"
| request: "system_step W S (S\<lparr>rs_wiring := fst (host_call W q (rs_wiring S))\<rparr>)"
| task: "system_step W S (S\<lparr>rs_wiring := fst (Run W key (rs_wiring S))\<rparr>)"
| time: "system_step W S (S\<lparr>rs_wiring := pass_time t (rs_wiring S)\<rparr>)"

text \<open>A fresh process finds a database another one may have filled.\<close>

definition fresh_system :: "db \<Rightarrow> system" where
  "fresh_system d = \<lparr>rs_config = zero_cfg,
     rs_wiring = \<lparr>pl_store = False, pl_app = \<lparr>as_db = d, as_app_cfg = None\<rparr>, pl_secret = []\<rparr>\<rparr>"

inductive reachable :: "wiring \<Rightarrow> system \<Rightarrow> bool" for W where
  start: "scan_inv d \<Longrightarrow> stored_ok d \<Longrightarrow> reachable W (fresh_system d)"
| step: "reachable W S \<Longrightarrow> system_step W S S' \<Longrightarrow> reachable W S'"

inductive_cases system_stepE: "system_step W S S'"

subsection \<open>Requests keep the state well-formed\<close>

lemma state_ok_db: "state_ok s \<Longrightarrow> scan_inv d \<Longrightarrow> d_app_config d = d_app_config (as_db s) \<Longrightarrow> state_ok (s\<lparr>as_db := d\<rparr>)"
  using stored_ok_cong [of d "as_db s"] by (simp add: state_ok_def)

lemma covers_allowed_sub: "set (d_covers d') \<subseteq> set (d_covers d) \<Longrightarrow> covers_allowed d \<Longrightarrow> covers_allowed d'"
  by (auto simp: covers_allowed_def list_all_iff)

lemma state_ok_stmt:
  assumes "state_ok s" and "keeps_ok st" and "set (d_covers (fst (st (as_db s)))) \<subseteq> set (d_covers (as_db s))"
    and "d_app_config (fst (st (as_db s))) = d_app_config (as_db s)"
  shows "state_ok (s\<lparr>as_db := fst (st (as_db s))\<rparr>)"
  using assms by (intro state_ok_db) (auto simp: state_ok_def scan_inv_def keeps_ok_def intro: covers_allowed_sub)

lemma backfill_frame:
  "d_covers (fst (BulkEnqueueBackfill d)) = d_covers d" "d_app_config (fst (BulkEnqueueBackfill d)) = d_app_config d"
proof -
  have "d_covers (fst (foldl backfill_one x is)) = d_covers (fst x) \<and>
      d_app_config (fst (foldl backfill_one x is)) = d_app_config (fst x)" for x "is"
    by (induction "is" arbitrary: x) (auto simp: backfill_one_def upd_job_def split: prod.splits option.splits)
  then show "d_covers (fst (BulkEnqueueBackfill d)) = d_covers d" "d_app_config (fst (BulkEnqueueBackfill d)) = d_app_config d"
    by (simp_all add: BulkEnqueueBackfill_def Let_def)
qed

lemma library_frame:
  "d_covers (fst (CreateLibrary inp d)) = d_covers d" "d_app_config (fst (CreateLibrary inp d)) = d_app_config d"
  "d_covers (fst (UpdateLibrary i u d)) = d_covers d" "d_app_config (fst (UpdateLibrary i u d)) = d_app_config d"
  "set (d_covers (fst (DeleteLibrary i d))) \<subseteq> set (d_covers d)" "d_app_config (fst (DeleteLibrary i d)) = d_app_config d"
  by (auto simp: CreateLibrary_def UpdateLibrary_def DeleteLibrary_def insert_lib_def Let_def split: option.split)

lemma scan_fn_ok:
  assumes "wiring_ok W" and "state_ok s"
  shows "state_ok (fst (scan_fn W b s)) \<and> as_app_cfg (fst (scan_fn W b s)) = as_app_cfg s"
proof (cases b)
  case True
  from runScan_ok [OF assms] obtain s' r where "runScan W True s = Some (s', r)" "state_ok s'" "as_app_cfg s' = as_app_cfg s"
    by blast
  with True show ?thesis by (simp add: scan_fn_def)
qed (use assms in \<open>simp add: scan_fn_def runScan_def\<close>)

lemma put_config_state:
  assumes "state_ok s"
  shows "state_ok (fst (handle_put_config E r s))"
proof (cases "Option.bind (rq_body r) (\<lambda>v. dec_struct app_fields v zero_config)")
  case None
  then show ?thesis using assms by (simp add: handle_put_config_def)
next
  case (Some c)
  let ?c = "WithDefaults c" and ?d = "as_db s"
  have d: "scan_inv (fst (PutAppConfig ?c ?d))" "stored_ok (fst (PutAppConfig ?c ?d))"
    using assms by (simp_all add: state_ok_def PutAppConfig_inv PutAppConfig_stored)
  then show ?thesis using assms Some
    by (simp add: handle_put_config_def Let_def on_db_eq state_ok_def Validate_None split: option.split sum.split)
qed

lemma endpoint_state:
  assumes "wiring_ok W" and "state_ok s" and "E = admin_of W p"
  shows "state_ok (fst (run_endpoint E h r pv s))"
proof (cases "reading h")
  case True
  then show ?thesis using assms by (simp add: reading_endpoint)
next
  case False
  have one: "state_ok (fst (an_scan_one E i s))" for i
    using runScanOne_state [OF assms(1,2)] by (simp add: assms(3) admin_of_def)
  have all: "state_ok (fst (an_scan E s))" using scan_fn_ok [OF assms(1,2)] by (simp add: assms(3) admin_of_def)
  note frames = backfill_frame library_frame
  have fill: "state_ok (s\<lparr>as_db := fst (BulkEnqueueBackfill (as_db s))\<rparr>)"
    by (rule state_ok_stmt [OF assms(2) BulkEnqueueBackfill_ok]) (simp_all add: frames)
  have upd: "state_ok (s\<lparr>as_db := fst (UpdateLibrary i u (as_db s))\<rparr>)" for i u
    by (rule state_ok_stmt [OF assms(2) UpdateLibrary_ok]) (simp_all add: frames)
  have del: "state_ok (s\<lparr>as_db := fst (DeleteLibrary i (as_db s))\<rparr>)" for i
    by (rule state_ok_stmt [OF assms(2) DeleteLibrary_ok]) (simp_all add: frames)
  have new: "state_ok (s\<lparr>as_db := fst (CreateLibrary inp (as_db s))\<rparr>)" for inp
    by (rule state_ok_stmt [OF assms(2) CreateLibrary_ok]) (simp_all add: frames)
  from False consider "h = Backfill" | "h = PutConfig" | "h = ScanAll" | "h = CreateLib" | "h = UpdateLib"
    | "h = DeleteLib" | "h = ScanLib" by (auto simp: reading_def)
  then show ?thesis
  proof cases
    case 4
    show ?thesis
    proof (cases rule: handle_create_cases [of E r s])
      case (1 msg)
      then show ?thesis using assms(2) 4 by (simp add: run_endpoint_def)
    next
      case (2 path b)
      then show ?thesis using 4 new
        by (auto simp: run_endpoint_def split: prod.split sum.split) (metis fst_conv)+
    qed
  qed (use assms(2) one all fill upd del put_config_state in \<open>auto simp: run_endpoint_def handle_backfill_def
      handle_update_library_def handle_delete_library_def handle_scan_library_def split: option.split\<close>)
qed

lemma serve_state:
  assumes "wiring_ok W" and "state_ok s"
  shows "state_ok (fst (serve (admin_of W p) r s))"
  using assms(2) endpoint_state [OF assms refl] by (simp add: serve_def split: routing.split)

subsection \<open>Every reachable state\<close>

definition system_ok :: "system \<Rightarrow> bool" where
  "system_ok S \<longleftrightarrow> state_ok (pl_app (rs_wiring S)) \<and>
     (pl_store (rs_wiring S) \<longrightarrow> as_app_cfg (pl_app (rs_wiring S)) \<noteq> None \<and> cf_database_url (Snapshot S) \<noteq> [])"


lemma Run_state:
  assumes "wiring_ok W" and "state_ok (pl_app p)"
  shows "state_ok (pl_app (fst (Run W key p))) \<and> pl_store (fst (Run W key p)) = pl_store p \<and>
    as_app_cfg (pl_app (fst (Run W key p))) = as_app_cfg (pl_app p)"
proof -
  obtain s r where "scan_fn W (pl_store p) (pl_app p) = (s, r)" by fastforce
  moreover obtain s' r' where "drainWorker W (pl_app p) = Some (s', r')" "state_ok s'" "as_app_cfg s' = as_app_cfg (pl_app p)"
    using drainWorker_ok [OF assms] by blast
  ultimately show ?thesis using scan_fn_ok [OF assms, of "pl_store p"] assms(2)
    by (auto simp: Run_def split: sum.split)
qed

lemma elapse_state: "state_ok s \<Longrightarrow> state_ok (s\<lparr>as_db := elapse t (as_db s)\<rparr>)"
  by (rule state_ok_db) (auto simp: state_ok_def scan_inv_def elapse_def covers_allowed_def db_ok_defs)

text \<open>No request unloads the configuration.\<close>

definition cfg_kept :: "app_state \<Rightarrow> app_state \<Rightarrow> bool" where
  "cfg_kept s s' \<longleftrightarrow> (as_app_cfg s \<noteq> None \<longrightarrow> as_app_cfg s' \<noteq> None)"

lemma endpoint_config:
  assumes "wiring_ok W" and "state_ok s" and "E = admin_of W p"
  shows "cfg_kept s (fst (run_endpoint E h r pv s))"
proof (cases "reading h")
  case True
  then show ?thesis by (simp add: reading_endpoint cfg_kept_def)
next
  case False
  have one: "cfg_kept s (fst (an_scan_one E i s))" for i
    using runScanOne_state [OF assms(1,2)] by (simp add: assms(3) admin_of_def cfg_kept_def)
  have all: "cfg_kept s (fst (an_scan E s))"
    using scan_fn_ok [OF assms(1,2)] by (simp add: assms(3) admin_of_def cfg_kept_def)
  have put: "cfg_kept s (fst (handle_put_config E r s))"
    by (simp add: cfg_kept_def handle_put_config_def Let_def on_db_eq split: option.split sum.split)
  from False consider "h = Backfill" | "h = PutConfig" | "h = ScanAll" | "h = CreateLib" | "h = UpdateLib"
    | "h = DeleteLib" | "h = ScanLib" by (auto simp: reading_def)
  then show ?thesis
  proof cases
    case 4
    then show ?thesis by (cases rule: handle_create_cases [of E r s])
        (auto simp: cfg_kept_def run_endpoint_def split: prod.split sum.split)
  next
    case 5
    then show ?thesis by (auto simp: cfg_kept_def run_endpoint_def handle_update_library_def on_db_eq Let_def
        split: prod.split sum.split option.split)
  next
    case 6
    then show ?thesis by (auto simp: cfg_kept_def run_endpoint_def handle_delete_library_def on_db_eq Let_def
        split: prod.split sum.split option.split)
  next
    case 7
    have "fst (scan_answer (an_scan_one E i) s) = fst (an_scan_one E i s)" for i
      by (simp add: scan_answer_def split: prod.split sum.split)
    with 7 one show ?thesis by (simp add: run_endpoint_def handle_scan_library_def cfg_kept_def split: option.split)
  qed (use all put in \<open>auto simp: run_endpoint_def scan_answer_def handle_backfill_def
      on_db_eq cfg_kept_def answer_def split: prod.split sum.split option.split\<close>)
qed

lemma serve_cfg_kept: "wiring_ok W \<Longrightarrow> state_ok s \<Longrightarrow> cfg_kept s (fst (serve (admin_of W p) r s))"
  using endpoint_config by (simp add: serve_def cfg_kept_def split: routing.split)

lemma host_call_state:
  assumes "wiring_ok W" and "state_ok (pl_app p)" and "host_call W q p = (p', a)"
  shows "state_ok (pl_app p') \<and> pl_store p' = pl_store p \<and> cfg_kept (pl_app p) (pl_app p')"
proof -
  obtain s where s: "Handle (wr_host W) (handler_of W p) q (pl_app p) = (s, a)" "p' = p\<lparr>pl_app := s\<rparr>"
    using assms(3) by (auto simp: host_call_def split: prod.splits)
  have "s = pl_app p \<or> (\<exists>r. s = fst (serve (admin_of W p) r (pl_app p)))"
  proof (cases "pl_store p")
    case True
    with s(1) Handle_state [of "wr_host W" "\<lambda>r s. map_prod id Some (serve (admin_of W p) r s)" q "pl_app p"]
    show ?thesis by (simp add: handler_of_def)
  next
    case False
    with s(1) show ?thesis by (simp add: handler_of_def Handle_def)
  qed
  then show ?thesis using s(2) assms(2) serve_state [OF assms(1,2)] serve_cfg_kept [OF assms(1,2)]
    by (auto simp: cfg_kept_def)
qed

lemma configure_state:
  assumes "wiring_ok W" and "system_ok S"
  shows "system_ok (configure W es S)"
proof -
  let ?c = "config_defaults (foldl config_entry zero_cfg es)"
  obtain p e where run: "onConfigure W ?c (rs_wiring S) = (p, e)" by fastforce
  from assms(2) have s: "state_ok (pl_app (rs_wiring S))" by (simp add: system_ok_def)
  have url: "cf_database_url ?c = cf_database_url (foldl config_entry zero_cfg es)" by (simp add: config_defaults_def)
  show ?thesis using assms(2) run onConfigure_state [OF assms(1) s run] url
    by (cases e) (auto simp: configure_def Configure_def Let_def library_fallback_dead system_ok_def Snapshot_def)
qed

lemma reachable_system_ok:
  assumes "wiring_ok W"
  shows "reachable W S \<Longrightarrow> system_ok S"
proof (induction rule: reachable.induct)
  case (start d)
  then show ?case by (simp add: system_ok_def fresh_system_def state_ok_def)
next
  case (step S S')
  then have s: "state_ok (pl_app (rs_wiring S))" by (simp add: system_ok_def)
  from step.hyps(2) show ?case
  proof (cases rule: system_step.cases)
    case (configured es)
    then show ?thesis using configure_state [OF assms step.IH] by simp
  next
    case (request q)
    obtain p a where h: "host_call W q (rs_wiring S) = (p, a)" by fastforce
    with request show ?thesis using step.IH host_call_state [OF assms s h]
      by (simp add: system_ok_def Snapshot_def cfg_kept_def)
  next
    case (task key)
    then show ?thesis using step.IH Run_state [OF assms s, of key] by (simp add: system_ok_def Snapshot_def)
  next
    case (time t)
    then show ?thesis using step.IH elapse_state [OF s] by (simp add: system_ok_def Snapshot_def pass_time_def)
  qed
qed

text \<open>
  C14. Whatever sequence of configuration calls, HTTP requests, scheduled tasks and pauses the
  plugin goes through from a fresh start, its state is well-formed: the database keeps every
  constraint and stores only allowed covers, a readable stored configuration is valid, the
  configuration in memory is valid, and once the store is in use there is a configuration and a
  database URL.
\<close>

theorem reachable_ok:
  assumes "wiring_ok W" and "reachable W S"
  shows "system_ok S"
  using assms by (rule reachable_system_ok)

text \<open>
  C15. In every reachable configured state, with a database that answers and a world outside as
  wiring_ok states, a library_scan task under any host prefix runs to its end and answers
  without error. Every enabled library and no other gets the time of the scan, and exactly one
  scan event is appended, without library, started at that time. When the three counters fit
  their 32-bit columns the event is finished, its counters are the sums over the results of the
  enabled libraries, and it has an error text exactly when n > 0 files failed to ingest, namely
  n followed by the fixed words, where n counts the ingestible files the walks saw that are not
  on record with their current signature in the final database; when a counter does not fit, the
  event stays unfinished.
\<close>

theorem scheduled_scan_completes:
  assumes "wiring_ok W" and "reachable W S" and "rs_wiring S = p" and "pl_store p" and "taskID key = ''library_scan''"
    and "d = as_db (pl_app p)"
  shows "\<exists>s' e. Run W key p = (p\<lparr>pl_app := s'\<rparr>, TaskDone) \<and>
    d_libs (as_db s') = upd_where lp_enabled (\<lambda>l. l\<lparr>lp_last_scanned_at := Some (d_now d)\<rparr>) (d_libs d) \<and>
    d_events (as_db s') = d_events d @ [e] \<and> ev_id e = d_next_event d \<and> ev_lib e = None \<and> ev_started_at e = d_now d \<and>
    length (scan_results W d) = length (filter lp_enabled (d_libs d)) \<and>
    (let n = (\<Sum>l \<leftarrow> filter lp_enabled (d_libs d). card (missing W l (as_db s')));
         added = (\<Sum>r \<leftarrow> scan_results W d. wr_added r); changed = (\<Sum>r \<leftarrow> scan_results W d. wr_changed r);
         deleted = (\<Sum>r \<leftarrow> scan_results W d. wr_deleted r)
     in if int4_ok added \<and> int4_ok changed \<and> int4_ok deleted
        then ev_finished_at e = Some (d_now d) \<and> ev_added e = added \<and> ev_changed e = changed \<and> ev_deleted e = deleted \<and>
          ev_error_text e = (if n = 0 then None else Some (Itoa (int n) @ '' file(s) failed to ingest''))
        else ev_finished_at e = None \<and> ev_error_text e = None)"
proof -
  have "state_ok (pl_app p)" using reachable_system_ok [OF assms(1,2)] assms(3) by (simp add: system_ok_def)
  from runScan_ok [OF assms(1) this] obtain s' t where
    run: "runScan W True (pl_app p) = Some (s', Ok (d_next_event d))" and
    libs: "d_libs (as_db s') = upd_where lp_enabled (scanned d) (d_libs d)" and
    len: "length (scan_results W d) = length (filter lp_enabled (d_libs d))" and
    t: "t = sums (scan_results W d) (int (all_missing W (d_libs d) (as_db s')))" and
    ev: "d_events (as_db s') = d_events d @ [if counts_fit t then finished_event None d t else started_event None d]"
    unfolding assms(6) by blast
  have "Run W key p = (p\<lparr>pl_app := s'\<rparr>, TaskDone)" using run assms(4,5) by (simp add: Run_def scan_fn_def)
  then show ?thesis using libs len ev unfolding t
    by (intro exI [of _ s'] exI [of _ "if counts_fit t then finished_event None d t else started_event None d"])
      (simp add: t Let_def sums_def counts_fit_def finished_event_def started_event_def failed_text_def all_missing_def [symmetric]
        scanned_def [abs_def])
qed

subsection \<open>Witnesses\<close>

text \<open>An installation with one book file below every library root, a source that finds nothing, and
  a database that needs no migration.\<close>

definition demo_wiring :: wiring where
  "demo_wiring = \<lparr>wr_scan = sample_env, wr_tree = (\<lambda>p. sample_walk),
     wr_source = (\<lambda>c i. \<lparr>s_id = i, s_enabled = (\<lambda>f. f i), s_search = (\<lambda>q g. Ok []), s_get = (\<lambda>i g. Ok None)\<rparr>),
     wr_ticks = (\<lambda>d. replicate (5 * (6 * length (d_jobs d) + 1)) quiet_tick), wr_admin = demo_admin, wr_host = sample_host,
     wr_parse_db = (\<lambda>u. None), wr_migrate = (\<lambda>d. (d, None))\<rparr>"

lemma demo_wiring_ok: "wiring_ok demo_wiring"
  using sample_walk_distinct quiet_ticks(2) unfolding wiring_ok_def
  by (simp add: demo_wiring_def db_text_def demo_admin_def pg_text_ascii source_texts_ok_def)

lemma sample_stored: "stored_ok sample_db"
  by (simp add: stored_ok_def GetAppConfig_def sample_defs config_ok_def DefaultAppConfig_def) (simp add: metadata_sources_def)

definition demo_entries :: "(string \<times> (string \<times> any) list option) list" where
  "demo_entries = [(''database_url'', Some [(''value'', AStr ''postgres://x'')])]"

definition demo_system :: system where
  "demo_system = configure demo_wiring demo_entries (fresh_system sample_db)"

lemma demo_reachable: "reachable demo_wiring demo_system"
  unfolding demo_system_def
  by (rule reachable.step [OF reachable.start [OF sample_inv sample_stored] system_step.configured])

theorem reachable_ok_witness: "system_ok demo_system"
  by (rule reachable_ok [OF demo_wiring_ok demo_reachable])

lemma demo_configured: "pl_store (rs_wiring demo_system)"
proof -
  let ?c = "config_defaults (foldl config_entry zero_cfg demo_entries)"
  have "appConfigFromRuntimeConfig ?c = DefaultAppConfig"
    by (simp add: appConfigFromRuntimeConfig_def demo_entries_def config_entry_def zero_cfg_def member_def
        stringFrom_def config_defaults_def WithDefaults_def DefaultAppConfig_def)
  then have "pl_store (fst (onConfigure demo_wiring ?c p)) \<and> snd (onConfigure demo_wiring ?c p) = None"
    if "as_db (pl_app p) = sample_db" for p :: plugin
    using that by (simp add: onConfigure_def demo_wiring_def ImportLegacyAppConfig_def GetAppConfig_def sample_defs)
  from this [of "rs_wiring (fresh_system sample_db)"]
  have "pl_store (fst (onConfigure demo_wiring ?c (rs_wiring (fresh_system sample_db)))) \<and>
      snd (onConfigure demo_wiring ?c (rs_wiring (fresh_system sample_db))) = None" by (simp add: fresh_system_def)
  moreover have "cf_database_url (foldl config_entry zero_cfg demo_entries) \<noteq> []" "cf_scan_source ?c = ''openlibrary''"
    by (simp_all add: demo_entries_def config_entry_def zero_cfg_def member_def stringFrom_def config_defaults_def)
  ultimately show ?thesis
    by (auto simp: demo_system_def configure_def Configure_def Let_def library_fallback_dead metadata_sources_def
        split: prod.split option.split)
qed

lemma demo_key: "taskID ''plugin:7:library_scan'' = ''library_scan''"
  by (simp add: taskID_def)

theorem scheduled_scan_completes_witness:
  "\<exists>s' e. Run demo_wiring ''plugin:7:library_scan'' (rs_wiring demo_system) = ((rs_wiring demo_system)\<lparr>pl_app := s'\<rparr>, TaskDone) \<and>
     d_events (as_db s') = d_events (as_db (pl_app (rs_wiring demo_system))) @ [e]"
  using scheduled_scan_completes [OF demo_wiring_ok demo_reachable refl demo_configured demo_key refl] by blast

end
