(* ===== verification/Sources.thy ===== *)
theory Sources
  imports HtmlLookup SourcesKeyed Plugin
begin

text \<open>
  All fifteen adapters behind the interface the worker, the aggregator and the wiring rely on: the contract
  \<open>wiring_ok\<close> asks of a source is proved of each of them, so that what is proved of the plugin holds with the
  adapters of the program in place of arbitrary sources.
\<close>

subsection \<open>Texts Postgres accepts\<close>

lemma utf8_valid_append: "utf8_valid a \<Longrightarrow> utf8_valid b \<Longrightarrow> utf8_valid (a @ b)"
proof (induction a rule: utf8_valid.induct)
  case (1 a)
  show ?case
  proof (cases "a = []")
    case False
    let ?n = "utf8_front a"
    from 1(2) False have n: "?n \<noteq> 0" "utf8_valid (drop ?n a)" by (auto simp: utf8_valid.simps [of a] split: if_splits)
    have "utf8_front (a @ b) = ?n" using utf8_front_take [OF n(1), of "drop ?n a @ b"] by (metis append.assoc append_take_drop_id)
    moreover have "drop ?n (a @ b) = drop ?n a @ b" using utf8_front_le [of a] by simp
    moreover have "utf8_valid (drop ?n a @ b)" using 1(1) [OF False n(1) n(2) 1(3)] .
    ultimately show ?thesis using n(1) False by (simp add: utf8_valid.simps [of "a @ b"])
  qed (use 1(3) in simp)
qed

lemma pg_text_append: "pg_text a \<Longrightarrow> pg_text b \<Longrightarrow> pg_text (a @ b)"
  by (simp add: pg_text_def utf8_valid_append)

definition clean :: "string \<Rightarrow> bool" where
  "clean s \<longleftrightarrow> list_all (\<lambda>c. 0 < (code c :: nat) \<and> code c < (128 :: nat)) s"

lemma clean_text: "clean s \<Longrightarrow> pg_text s"
  unfolding clean_def by (rule pg_text_ascii)

lemma clean_simps [simp]:
  "clean []" "clean (c # s) \<longleftrightarrow> 0 < (code c :: nat) \<and> code c < (128 :: nat) \<and> clean s" "clean (s @ t) \<longleftrightarrow> clean s \<and> clean t"
  by (simp_all add: clean_def)

lemma clean_take: "clean s \<Longrightarrow> clean (take n s)"
  unfolding clean_def list_all_iff by (auto dest: in_set_takeD)

lemma clean_redact: "clean s \<Longrightarrow> clean (redactURL s)"
  by (auto simp: redactURL_def clean_take split: option.split)

lemma redact_query: "clean s \<Longrightarrow> clean (redactURL (s @ CHR ''?'' # t))"
proof -
  assume s: "clean s"
  obtain i where i: "IndexByte (s @ CHR ''?'' # t) (CHR ''?'') = Some i" using IndexByte_None by fastforce
  have "i \<le> length s"
  proof (rule ccontr)
    assume "\<not> i \<le> length s"
    then have "CHR ''?'' \<in> set (take i (s @ CHR ''?'' # t))" by (simp add: take_Cons')
    with IndexByte_Some [OF i] show False by blast
  qed
  then have "take i (s @ CHR ''?'' # t) = take i s" by simp
  with i s show ?thesis by (simp add: redactURL_def clean_take)
qed

lemma clean_alnum: "list_all alnum s \<Longrightarrow> clean s"
  by (auto simp: clean_def list_all_iff alnum_def is_digit_def is_upper_def is_lower_def)

lemma clean_Itoa: "clean (Itoa n)"
proof -
  have "list_all alnum (nat_digits m)" for m
    using nat_digits_digits by (auto simp: list_all_iff alnum_def)
  then show ?thesis by (simp add: Itoa_def clean_alnum)
qed

lemma clean_hex: "hex_val c \<noteq> None \<Longrightarrow> clean [c]"
  by (auto simp: hex_val_def is_digit_def split: if_splits)

lemma clean_escape: "(\<And>c. P c \<Longrightarrow> clean [c]) \<Longrightarrow> clean (escape P s)"
proof -
  assume k: "\<And>c. P c \<Longrightarrow> clean [c]"
  have "clean [c]" if "c \<in> set (escape P s)" for c
    using escape_chars [OF that] k clean_hex by auto
  then show ?thesis by (auto simp: clean_def list_all_iff)
qed

lemma clean_PathEscape [simp]: "clean (PathEscape s)"
  unfolding PathEscape_def
  by (rule clean_escape) (auto simp: unreserved_def alnum_def is_digit_def is_upper_def is_lower_def)

subsection \<open>What an adapter can fail with\<close>

text \<open>The messages of the network, of the JSON package and of \<open>%q\<close> are texts.\<close>

definition env_texts :: "source_env \<Rightarrow> bool" where
  "env_texts E \<longleftrightarrow> (\<forall>c m. sv_http E c = NoReply (SourceFailed m) \<or> sv_http E c = BrokenBody (SourceFailed m) \<longrightarrow> pg_text m) \<and>
     (\<forall>s. pg_text (sv_json_error E s)) \<and> (\<forall>s. pg_text (sv_quote E s))"

definition fails_text :: "(source_error, 'a) res \<Rightarrow> bool" where
  "fails_text r \<longleftrightarrow> (\<forall>m. r = Err (SourceFailed m) \<longrightarrow> pg_text m)"

lemma source_texts_iff: "source_texts_ok s \<longleftrightarrow> (\<forall>q g. fails_text (s_search s q g) \<and> fails_text (s_get s q g))"
  by (auto simp: source_texts_ok_def fails_text_def)

lemma fails_text_simps [simp]: "fails_text (Ok x)" "fails_text (Err SourceNotFound)"
  by (simp_all add: fails_text_def)

lemma fails_text_bind: "fails_text r \<Longrightarrow> (\<And>x. r = Ok x \<Longrightarrow> fails_text (f x)) \<Longrightarrow> fails_text (bind_res r f)"
  by (auto simp: fails_text_def bind_res_def split: sum.splits)

lemma fails_text_empty: "fails_text r \<Longrightarrow> fails_text (not_found_empty r)"
  by (auto simp: fails_text_def not_found_empty_def split: sum.splits)

lemma answer_text:
  assumes "env_texts E" and "clean verb" and "clean Verb" and "clean (f (hc_url c))"
  shows "fails_text (answer_body E verb Verb f c)"
proof -
  have "pg_text (''source: '' @ verb @ '' '' @ f (hc_url c) @ '' status '' @ Itoa n)" for n
    using assms(2,4) clean_Itoa by (intro clean_text) simp
  moreover have "pg_text m" if t: "transport_error E Verb (hc_url c) e = SourceFailed m" and h: "sv_http E c = NoReply e" for e m
  proof -
    obtain n where n: "e = SourceFailed n" "m = Verb @ '' '' @ sv_quote E (hc_url c) @ '': '' @ n"
      using t by (cases e) (auto simp: transport_error_def)
    have "pg_text n" "pg_text (sv_quote E (hc_url c))" using assms(1) h n(1) by (auto simp: env_texts_def)
    then show ?thesis unfolding n(2)
      using assms(3) clean_text [of "'': ''"] clean_text [of "'' ''"] clean_text [of Verb] by (simp add: pg_text_append del: append_Cons append_Nil)
  qed
  ultimately show ?thesis using assms(1)
    by (auto simp: answer_body_def fails_text_def env_texts_def split: http_reply.splits if_splits)
qed

lemma GetJSON_text:
  assumes "env_texts E" and "clean (redactURL url)"
  shows "fails_text (GetJSONWithHeaders E hs url)" and "fails_text (GetJSON E url)"
  using assms by (simp_all add: GetJSON_def GetJSONWithHeaders_def answer_text)

lemma Unmarshal_text: "env_texts E \<Longrightarrow> fails_text (UnmarshalInto E dec body)"
  using pg_text_append [of "''source: json decode: ''"] clean_text [of "''source: json decode: ''"]
  by (auto simp: UnmarshalInto_def fails_text_def env_texts_def split: option.splits simp del: append_Cons)

lemma page_get_text: "env_texts E \<Longrightarrow> clean (redactURL url) \<Longrightarrow> fails_text (page_get E url parse)"
  unfolding page_get_def by (intro fails_text_bind GetJSON_text) (auto split: option.split)

lemma page_search_text: "env_texts E \<Longrightarrow> (\<And>q. clean (redactURL (url q))) \<Longrightarrow> fails_text (page_search E url parse query)"
  unfolding page_search_def Let_def by (auto intro!: fails_text_empty fails_text_bind GetJSON_text)

subsection \<open>The adapters of the JSON APIs\<close>

lemmas reply_texts = fails_text_bind fails_text_empty GetJSON_text Unmarshal_text

lemma ol_text:
  assumes "env_texts E"
  shows "fails_text (ol_Get E ''https://openlibrary.org'' cov i g)" and "fails_text (ol_Search E ''https://openlibrary.org'' cov i g)"
proof -
  have p: "clean (redactURL (''https://openlibrary.org'' @ u))" if "ol_path i = Some u" for i u
    using that by (intro clean_redact) (auto simp: ol_path_def split: if_splits)
  have "fails_text (ol_Get E ''https://openlibrary.org'' cov i g)" for i
    using assms p by (auto simp: ol_Get_def Let_def split: option.split simp del: append_Cons intro!: reply_texts)
  moreover have "clean (redactURL (''https://openlibrary.org'' @ ''/search.json?q='' @ QueryEscape q @ ''&limit=20''))" for q
    by (simp add: redactURL_def)
  ultimately show "fails_text (ol_Get E ''https://openlibrary.org'' cov i g)" "fails_text (ol_Search E ''https://openlibrary.org'' cov i g)"
    using assms by (auto simp: ol_Search_def Let_def simp del: append_Cons intro!: reply_texts)
qed

lemma gut_text:
  assumes "env_texts E"
  shows "fails_text (gut_Get E ''https://gutendex.com'' i g)" and "fails_text (gut_Search E ''https://gutendex.com'' i g)"
proof -
  have "clean (redactURL (''https://gutendex.com'' @ ''/books/'' @ PathEscape u))" for u by (rule clean_redact) simp
  moreover have "clean (redactURL (''https://gutendex.com'' @ ''/books?search='' @ QueryEscape u))" for u by (simp add: redactURL_def)
  ultimately show "fails_text (gut_Get E ''https://gutendex.com'' i g)" "fails_text (gut_Search E ''https://gutendex.com'' i g)"
    using assms by (auto simp: gut_Get_def gut_Search_def Let_def simp del: append_Cons intro!: reply_texts)
qed

lemma bb_text:
  assumes "env_texts E"
  shows "fails_text (bb_Get E ''https://api.bookbrainz.org/1'' i g)" and "fails_text (bb_Search E ''https://api.bookbrainz.org/1'' i g)"
proof -
  have "clean (redactURL (''https://api.bookbrainz.org/1'' @ ''/edition/'' @ PathEscape u))" for u by (rule clean_redact) simp
  moreover have "clean (redactURL (''https://api.bookbrainz.org/1'' @ ''/search?q='' @ QueryEscape u @ ''&type=edition&limit=10''))" for u
    by (simp add: redactURL_def)
  ultimately show "fails_text (bb_Get E ''https://api.bookbrainz.org/1'' i g)" "fails_text (bb_Search E ''https://api.bookbrainz.org/1'' i g)"
    using assms by (auto simp: bb_Get_def bb_Search_def Let_def simp del: append_Cons intro!: reply_texts)
qed

lemma ia_text:
  assumes "env_texts E"
  shows "fails_text (ia_Get E ''https://archive.org'' i g)" and "fails_text (ia_Search E ''https://archive.org'' i g)"
proof -
  have "clean (redactURL (''https://archive.org'' @ ''/metadata/'' @ PathEscape u))" for u by (rule clean_redact) simp
  moreover have "clean (redactURL (''https://archive.org'' @ ''/advancedsearch.php?'' @ ia_query u))" for u by (simp add: redactURL_def)
  moreover have "fails_text (ia_answer E b g i body v)" for b i body v
    using assms pg_text_append [OF clean_text [of "''source: json decode: ''"]]
    by (auto simp: ia_answer_def fails_text_def env_texts_def split: option.split simp del: append_Cons)
  ultimately show "fails_text (ia_Get E ''https://archive.org'' i g)" "fails_text (ia_Search E ''https://archive.org'' i g)"
    using assms by (auto simp: ia_Get_def ia_Search_def Let_def simp del: append_Cons intro!: reply_texts split: option.split)
qed

lemma gbooks_text:
  assumes "env_texts E"
  shows "fails_text (gbooks_Get E ''https://www.googleapis.com/books/v1'' key i g)"
    and "fails_text (gbooks_Search E ''https://www.googleapis.com/books/v1'' key i g)"
proof -
  have "clean (redactURL (volume_url ''https://www.googleapis.com/books/v1'' key u))" for u
    using redact_query [of "''https://www.googleapis.com/books/v1/volumes/'' @ PathEscape u" "''key='' @ QueryEscape key"]
    by (simp add: volume_url_def)
  moreover have "clean (redactURL (volumes_url ''https://www.googleapis.com/books/v1'' key u))" for u
    by (simp add: volumes_url_def redactURL_def)
  ultimately show "fails_text (gbooks_Get E ''https://www.googleapis.com/books/v1'' key i g)"
    "fails_text (gbooks_Search E ''https://www.googleapis.com/books/v1'' key i g)"
    using assms by (auto simp: gbooks_Get_def gbooks_Search_def Let_def intro!: reply_texts)
qed

lemma isbndb_text:
  assumes "env_texts E"
  shows "fails_text (isbndb_Get E ''https://api2.isbndb.com'' key i g)" and "fails_text (isbndb_Search E ''https://api2.isbndb.com'' key i g)"
proof -
  have "clean (redactURL (''https://api2.isbndb.com'' @ ''/book/'' @ PathEscape u))" for u by (rule clean_redact) simp
  moreover have "clean (redactURL (''https://api2.isbndb.com'' @ ''/books/'' @ PathEscape u @ ''?pageSize=20''))" for u
    using redact_query [of "''https://api2.isbndb.com/books/'' @ PathEscape u" "''pageSize=20''"] by simp
  ultimately show "fails_text (isbndb_Get E ''https://api2.isbndb.com'' key i g)" "fails_text (isbndb_Search E ''https://api2.isbndb.com'' key i g)"
    using assms by (auto simp: isbndb_Get_def isbndb_Search_def Let_def simp del: append_Cons intro!: reply_texts split: option.split)
qed

lemma hc_text:
  assumes "env_texts E"
  shows "fails_text (hc_Get E ''https://api.hardcover.app/v1/graphql'' key i g)" and "fails_text (hc_Search E ''https://api.hardcover.app/v1/graphql'' key i g)"
proof -
  have "fails_text (gqlQuery E ''https://api.hardcover.app/v1/graphql'' key q vs)" for q vs
    using assms by (simp add: gqlQuery_def answer_text)
  then show "fails_text (hc_Get E ''https://api.hardcover.app/v1/graphql'' key i g)" "fails_text (hc_Search E ''https://api.hardcover.app/v1/graphql'' key i g)"
    using assms by (auto simp: hc_Get_def hc_Search_def Let_def intro!: reply_texts split: option.split prod.split)
qed

lemma json_source_texts: "json_source E cfg i = Some s \<Longrightarrow> env_texts E \<Longrightarrow> source_texts_ok s"
  by (auto simp: json_source_def source_texts_iff adapters ol_text gut_text bb_text ia_text gbooks_text isbndb_text hc_text
      simp del: append_Cons split: if_splits)

subsection \<open>The adapters of the HTML pages\<close>

lemma pages_clean: "(h, t) \<in> set (html_pages i) \<Longrightarrow> clean h \<and> clean t"
proof -
  have "list_all (\<lambda>p. clean (fst p) \<and> clean (snd p)) (html_pages i)" by (simp add: html_pages_def amazon_hosts_def)
  then show "(h, t) \<in> set (html_pages i) \<Longrightarrow> clean h \<and> clean t" by (auto simp: list_all_iff)
qed

lemma asks_page_text:
  assumes "env_texts E" and "list_all alnum m" and "asks_page E i m r"
  shows "fails_text r"
proof -
  obtain h t where p: "(h, t) \<in> set (html_pages i)" "asks E (h @ m @ t) r" using assms(3) by (auto simp: asks_page_def)
  have "clean (redactURL (h @ m @ t))" using pages_clean [OF p(1)] clean_alnum [OF assms(2)] by (intro clean_redact) simp
  from GetJSON_text(2) [OF assms(1) this] p(2) show ?thesis
    by (auto simp: asks_def fails_text_def split: sum.splits)
qed

lemma html_get_text: "env_texts E \<Longrightarrow> html_source E ord fl i = Some s \<Longrightarrow> fails_text (s_get s n g)"
  using html_get_page [of E ord fl i s n g] asks_page_text by (cases "s_get s n g = Ok None") auto

lemma html_search_text:
  assumes E: "env_texts E" and s: "html_source E ord fl i = Some s"
  shows "fails_text (s_search s q g)"
  using s
proof (cases rule: html_cases)
  case am
  have "fails_text (am_Get E amazonBaseURL n g)" for n using html_get_text [OF E s, of n g] am by (simp add: Amazon_def)
  then show ?thesis using am by (auto simp: Amazon_def am_Search_def Let_def intro!: fails_text_empty fails_text_bind split: option.split)
qed (use E in \<open>auto simp: Goodreads_def gr_Search_def AnnasArchive_def aa_Search_def FantasticFiction_def ff_Search_def
    ISFDB_def is_Search_def LibraryThing_def lt_Search_def WorldCat_def wc_Search_def Douban_def db_Search_def redactURL_def
    intro!: page_search_text\<close>)

lemma html_source_texts: "html_source E ord fl i = Some s \<Longrightarrow> env_texts E \<Longrightarrow> source_texts_ok s"
  by (simp add: source_texts_iff html_get_text html_search_text)

subsection \<open>The registry\<close>

text \<open>An id nothing is registered under has a source that is never enabled.\<close>

definition no_source :: "string \<Rightarrow> source" where
  "no_source i = \<lparr>s_id = i, s_enabled = (\<lambda>f. False), s_search = (\<lambda>q g. Ok []), s_get = (\<lambda>n g. Ok None)\<rparr>"

definition adapter ::
  "source_env \<Rightarrow> (json_map \<Rightarrow> json_map) \<Rightarrow> (json \<Rightarrow> (int \<times> int) option) \<Rightarrow> app_config \<Rightarrow> string \<Rightarrow> source" where
  "adapter E ord fl cfg i = (case json_source E cfg i of Some s \<Rightarrow> s
     | None \<Rightarrow> (case html_source E ord fl i of Some s \<Rightarrow> s | None \<Rightarrow> no_source i))"

definition with_adapters ::
  "source_env \<Rightarrow> (json_map \<Rightarrow> json_map) \<Rightarrow> (json \<Rightarrow> (int \<times> int) option) \<Rightarrow> wiring \<Rightarrow> wiring" where
  "with_adapters E ord fl W = W\<lparr>wr_source := adapter E ord fl\<rparr>"

lemma registered_adapters: "i \<in> set registered_sources \<Longrightarrow> json_source E cfg i \<noteq> None \<or> html_source E ord fl i \<noteq> None"
  by (auto simp: registered_sources_def json_source_def html_source_def source_ids html_ids)

lemma json_id: "json_source E cfg i = Some s \<Longrightarrow> s_id s = i \<and> (s_enabled s f \<longrightarrow> f i)"
  by (erule adapter_cases) (simp_all add: adapters)

lemma html_id: "html_source E ord fl i = Some s \<Longrightarrow> s_id s = i \<and> (s_enabled s f \<longrightarrow> f i)"
  by (erule html_cases) (simp_all add: html_adapters)

lemma adapter_id: "s_id (adapter E ord fl cfg i) = i"
  by (auto simp: adapter_def no_source_def json_id html_id split: option.split)

lemma adapter_enabled: "s_enabled (adapter E ord fl cfg i) f \<Longrightarrow> f i"
  by (auto simp: adapter_def no_source_def json_id html_id split: option.splits)

lemma adapter_texts: "env_texts E \<Longrightarrow> source_texts_ok (adapter E ord fl cfg i)"
  by (auto simp: adapter_def json_source_texts html_source_texts source_texts_iff [of "no_source i"] split: option.split)
    (simp_all add: no_source_def)

lemma adapter_hits:
  assumes "i \<in> set registered_sources" and "s_search (adapter E ord fl cfg i) q g = Ok cs" and "c \<in> set cs"
  shows "c_source c = i \<and> c_region c = g"
proof (cases "json_source E cfg i")
  case (Some s)
  with assms(2) have "s_search s q g = Ok cs" by (simp add: adapter_def)
  from adapter_tagged(1) [OF Some this assms(3)] show ?thesis by (simp add: tagged_def)
next
  case None
  with registered_adapters [OF assms(1)] obtain s where s: "html_source E ord fl i = Some s" by blast
  with None assms(2) have "s_search s q g = Ok cs" by (simp add: adapter_def)
  from html_search_hits [OF s this] assms(3) show ?thesis by (auto simp: list_all_iff html_hit_def html_tagged_def)
qed

subsection \<open>The interface\<close>

text \<open>
  \<open>sources.Source\<close> as its clients use it: a source per id, registered under this id, enabled by nothing else, with
  hits of its own; \<open>texts\<close> says that the messages of the outside can be stored.
\<close>

locale source_family =
  fixes src :: "app_config \<Rightarrow> string \<Rightarrow> source" and ids :: "string list" and texts :: bool
  assumes name: "s_id (src c i) = i"
    and gate: "s_enabled (src c i) f \<Longrightarrow> f i"
    and failures: "texts \<Longrightarrow> source_texts_ok (src c i)"
    and hits: "i \<in> set ids \<Longrightarrow> s_search (src c i) q g = Ok cs \<Longrightarrow> x \<in> set cs \<Longrightarrow> c_source x = i \<and> c_region x = g"
begin

lemma registry_finds: "i \<in> set ids \<Longrightarrow> ForID (foldl (\<lambda>r i. Register (src c i) r) [] ids) i = Some (src c i)"
  using ForID_registered [of "src c" "[]" ids i] by (simp add: name)

lemma registry_only: "i \<notin> set ids \<Longrightarrow> ForID (foldl (\<lambda>r i. Register (src c i) r) [] ids) i = None"
  using ForID_registered [of "src c" "[]" ids i] by (simp add: name) (simp add: ForID_def)

lemma registry_keeps: "registry_ok (foldl (\<lambda>r i. Register (src c i) r) [] ids)"
proof -
  have keeps: "registry_ok R \<Longrightarrow> registry_ok (foldl (\<lambda>r i. Register (src c i) r) R js)" for R js
    by (induction js arbitrary: R) (simp_all add: Register_ok)
  show ?thesis by (rule keeps) (simp add: registry_ok_def)
qed

end

interpretation adapters: source_family "adapter E ord fl" registered_sources "env_texts E" for E ord fl
  by unfold_locales (auto simp: adapter_id adapter_enabled adapter_texts dest: adapter_hits)

text \<open>
  C8. The registry that the plugin builds holds under each of its fifteen ids the adapter of
  that source, and each of them keeps the contract the worker, the aggregator and the wiring
  rely on: it is enabled only under its own id, whatever it fails with is a text the database
  can store (given that the messages of the network are), and all its hits carry its id and the
  region asked for.
\<close>

theorem registered_contract:
  assumes "env_texts E" and "i \<in> set registered_sources"
  shows "\<exists>s. ForID (source_registry (with_adapters E ord fl W) cfg) i = Some s \<and>
    (json_source E cfg i = Some s \<or> html_source E ord fl i = Some s) \<and>
    s_id s = i \<and> (s_enabled s f \<longrightarrow> f i) \<and> source_texts_ok s \<and>
    (\<forall>q g cs. s_search s q g = Ok cs \<longrightarrow> (\<forall>c \<in> set cs. c_source c = i \<and> c_region c = g))"
proof (intro exI conjI)
  show "ForID (source_registry (with_adapters E ord fl W) cfg) i = Some (adapter E ord fl cfg i)"
    using adapters.registry_finds [OF assms(2)] by (simp add: source_registry_def with_adapters_def)
  show "json_source E cfg i = Some (adapter E ord fl cfg i) \<or> html_source E ord fl i = Some (adapter E ord fl cfg i)"
    using registered_adapters [OF assms(2), of E cfg ord fl] by (auto simp: adapter_def split: option.split)
  show "s_id (adapter E ord fl cfg i) = i" by (rule adapters.name)
  show "s_enabled (adapter E ord fl cfg i) f \<longrightarrow> f i" using adapters.gate by blast
  show "source_texts_ok (adapter E ord fl cfg i)" by (rule adapters.failures [OF assms(1)])
  show "\<forall>q g cs. s_search (adapter E ord fl cfg i) q g = Ok cs \<longrightarrow> (\<forall>c \<in> set cs. c_source c = i \<and> c_region c = g)"
    using adapters.hits [OF assms(2)] by blast
qed

definition quiet_web :: source_env where
  "quiet_web = demo_web\<lparr>sv_quote := (\<lambda>s. [])\<rparr>"

lemma registered_contract_witness:
  "\<exists>s. ForID (source_registry (with_adapters quiet_web rev (\<lambda>v. None) demo_wiring) DefaultAppConfig) ''douban'' = Some s \<and>
     s_id s = ''douban'' \<and> source_texts_ok s"
proof -
  have "env_texts quiet_web" by (simp add: env_texts_def quiet_web_def demo_web_def clean_text)
  moreover have "''douban'' \<in> set registered_sources" by (simp add: registered_sources_def)
  ultimately show ?thesis
    using registered_contract [of quiet_web "''douban''" rev "\<lambda>v. None" demo_wiring DefaultAppConfig "\<lambda>i. True"] by metis
qed

subsection \<open>The plugin with its adapters\<close>

lemma with_adapters_ok: "wiring_ok W \<Longrightarrow> env_texts E \<Longrightarrow> wiring_ok (with_adapters E ord fl W)"
  by (simp add: wiring_ok_def with_adapters_def db_text_def adapters.name adapters.failures)

lemma reachable_with_adapters:
  "wiring_ok W \<Longrightarrow> env_texts E \<Longrightarrow> reachable (with_adapters E ord fl W) S \<Longrightarrow> system_ok S"
  by (rule reachable_system_ok [OF with_adapters_ok])

end
