(* ===== verification/Startup.thy ===== *)
theory Startup
  imports Sources
begin

text \<open>
  What \<open>main\<close> does before the host configures the plugin: \<open>loadManifest\<close> completes the embedded manifest with
  the checksum of the executable and the platform; its version names the plugin to the metadata sources. The
  SDK's reading of the embedded file, the file system and SHA-256 (in hex) are parameters.
\<close>

record manifest =
  mf_version :: string
  mf_checksum :: string
  mf_platforms :: "(string \<times> string) list"

record start_env =
  sn_manifest :: "(string, manifest) res"
  sn_executable :: "(string, string) res"
  sn_read :: "string \<Rightarrow> (string, string) res"
  sn_sha256 :: "string \<Rightarrow> string"
  sn_quote :: "string \<Rightarrow> string"
  sn_platform :: "string \<times> string"

definition wrap_error :: "string \<Rightarrow> (string, 'a) res \<Rightarrow> (string, 'a) res" where
  "wrap_error what r = (case r of Inl e \<Rightarrow> Err (what @ '': '' @ e) | Inr x \<Rightarrow> Ok x)"

definition loadManifest :: "start_env \<Rightarrow> (string, manifest) res" where
  "loadManifest S =
    bind_res (wrap_error ''load embedded manifest'' (sn_manifest S)) (\<lambda>m.
    bind_res (wrap_error ''resolve executable path'' (sn_executable S)) (\<lambda>path.
    bind_res (wrap_error (''read executable '' @ sn_quote S path) (sn_read S path)) (\<lambda>bin.
      let m = m\<lparr>mf_checksum := sn_sha256 S bin\<rparr> in
      Ok (if mf_platforms m = [] then m\<lparr>mf_platforms := [sn_platform S]\<rparr> else m))))"

text \<open>The plugin exits with status 1 and a line on standard error, or goes on to serve.\<close>

definition main_start :: "start_env \<Rightarrow> (int \<times> string, manifest) res" where
  "main_start S = (case loadManifest S of Inl e \<Rightarrow> Err (1, ''load manifest: '' @ e @ [CHR 10]) | Inr m \<Rightarrow> Ok m)"

definition user_agent :: "manifest \<Rightarrow> string" where
  "user_agent m = ''silo-local-ebooks/'' @ mf_version m"

lemma wrap_error_Ok [simp]: "wrap_error p r = Ok x \<longleftrightarrow> r = Ok x"
  by (auto simp: wrap_error_def split: sum.split)

text \<open>A manifest that is served carries the checksum of the running executable and names a platform.\<close>

lemma loadManifest_served:
  "loadManifest S = Ok m \<longleftrightarrow> (\<exists>m\<^sub>0 path bin. sn_manifest S = Ok m\<^sub>0 \<and> sn_executable S = Ok path \<and> sn_read S path = Ok bin \<and>
     m = m\<^sub>0\<lparr>mf_checksum := sn_sha256 S bin, mf_platforms := (if mf_platforms m\<^sub>0 = [] then [sn_platform S] else mf_platforms m\<^sub>0)\<rparr>)"
  by (auto simp: loadManifest_def bind_res_Ok Let_def)

lemma loadManifest_complete: "loadManifest S = Ok m \<Longrightarrow> mf_platforms m \<noteq> []"
  by (auto simp: loadManifest_served split: if_splits)

end
