(* ===== verification/MetadataProvider.thy ===== *)
theory MetadataProvider
  imports Plugin SourceHttp
begin

text \<open>
  The metadata provider RPCs (\<open>internal/grpc/metadataprovider/server.go\<close>) over the aggregator and the
  registry that the wiring installs. \<open>structpb.NewStruct\<close>, which refuses some values, and the HTML
  entities of \<open>html.UnescapeString\<close> are parameters.
\<close>

record provider_env =
  pe_struct :: "(string \<times> any) list \<Rightarrow> (string \<times> any) list option"
  pe_unescape :: "string \<Rightarrow> string"

text \<open>The interface \<open>MetadataAggregator\<close>, and the four pointers of the server.\<close>

type_synonym 's aggregator_fun = "string \<Rightarrow> string \<Rightarrow> (string \<Rightarrow> bool) \<Rightarrow> candidate option \<Rightarrow> 's \<Rightarrow> 's \<times> (source_error, match_rec list) res"

record 's provider =
  pv_agg :: "'s aggregator_fun option"
  pv_reg :: "registry option"
  pv_enabled :: "(string \<Rightarrow> bool) option"
  pv_region :: "string option"

definition provider_enabled :: "'s provider \<Rightarrow> string \<Rightarrow> bool" where
  "provider_enabled P = (case pv_enabled P of None \<Rightarrow> (\<lambda>i. False) | Some f \<Rightarrow> f)"

definition provider_region :: "'s provider \<Rightarrow> string" where
  "provider_region P = (case pv_region P of None \<Rightarrow> ''us'' | Some g \<Rightarrow> g)"

text \<open>The gRPC codes, without their texts, and the errors passed on.\<close>

datatype rpc_error = RpcUnavailable | RpcInvalid | RpcNotFound | RpcSource source_error | RpcStruct

subsection \<open>Candidates on the wire\<close>

definition stripHTML :: "provider_env \<Rightarrow> string \<Rightarrow> string" where
  "stripHTML E s = pe_unescape E (strip_tags s)"

definition yearAsInt32 :: "string \<Rightarrow> int" where
  "yearAsInt32 s = (if length s < 4 \<or> \<not> list_all is_digit (take 4 s) then 0
     else foldl (\<lambda>y c. y * 10 + int (digit_val c)) 0 (take 4 s))"

definition candidateProviderIDs :: "provider_env \<Rightarrow> candidate \<Rightarrow> (string \<times> any) list option" where
  "candidateProviderIDs E c =
    (let m = [(c_source c, AStr (c_external_id c))];
         m = (if c_asin c \<noteq> [] then AList.update ''asin'' (AStr (c_asin c)) m else m);
         m = (if c_isbn c \<noteq> [] then AList.update ''isbn'' (AStr (c_isbn c)) m else m)
     in pe_struct E m)"

record search_result =
  sr_provider_id :: string
  sr_item_type :: string
  sr_title :: string
  sr_year :: int
  sr_overview :: string
  sr_provider_ids :: "(string \<times> any) list"
  sr_image_url :: string

record metadata_item =
  mi_provider_id :: string
  mi_item_type :: string
  mi_title :: string
  mi_year :: int
  mi_overview :: string
  mi_genres :: "string list"
  mi_provider_ids :: "(string \<times> any) list"
  mi_poster_path :: string
  mi_release_date :: string
  mi_people :: "(string \<times> string) list"
  mi_metadata :: "(string \<times> any) list option"

definition extra_fields :: "candidate \<Rightarrow> (string \<times> any) list" where
  "extra_fields c =
    (let str = (\<lambda>k s. if s \<noteq> [] then [(k, AStr s)] else []) in
     str ''source'' (c_source c) @ str ''language'' (c_language c) @ str ''asin'' (c_asin c) @ str ''isbn'' (c_isbn c) @
     str ''region'' (c_region c) @ str ''publisher'' (c_publisher c) @
     (if c_page_count c > 0 then [(''page_count'', ANum (c_page_count c) 1)] else []) @
     str ''series_name'' (c_series c) @ str ''series_position'' (c_series_pos c))"

definition candidateToMetadataItem :: "provider_env \<Rightarrow> candidate \<Rightarrow> string \<Rightarrow> metadata_item option" where
  "candidateToMetadataItem E c providerID =
    (case candidateProviderIDs E c of
       None \<Rightarrow> None
     | Some pids \<Rightarrow>
         (case (if extra_fields c = [] then Some None else map_option Some (pe_struct E (extra_fields c))) of
            None \<Rightarrow> None
          | Some meta \<Rightarrow> Some \<lparr>mi_provider_id = providerID, mi_item_type = ''book'', mi_title = c_title c,
              mi_year = yearAsInt32 (c_published_at c), mi_overview = stripHTML E (c_description c), mi_genres = c_genres c,
              mi_provider_ids = pids, mi_poster_path = c_cover_url c, mi_release_date = c_published_at c,
              mi_people = map (\<lambda>a. (a, ''Author'')) (c_authors c), mi_metadata = meta\<rparr>))"

subsection \<open>Search\<close>

record search_request =
  sq_item_type :: string
  sq_query :: string
  sq_provider_ids :: "(string \<times> any) list option"

definition original_of :: "(string \<times> any) list \<Rightarrow> candidate option" where
  "original_of pm =
    (let c = empty_candidate;
         c = (case nonempty_string (member pm ''asin'') of Some v \<Rightarrow> c\<lparr>c_asin := v\<rparr> | None \<Rightarrow> c);
         c = (case nonempty_string (member pm ''isbn'') of Some v \<Rightarrow> c\<lparr>c_isbn := v\<rparr> | None \<Rightarrow> c);
         c = (case nonempty_string (member pm ''author'') of Some v \<Rightarrow> c\<lparr>c_authors := [v]\<rparr> | None \<Rightarrow> c)
     in if c_asin c \<noteq> [] \<or> c_isbn c \<noteq> [] \<or> c_authors c \<noteq> [] then Some c else None)"

definition search_result_of :: "provider_env \<Rightarrow> match_rec \<Rightarrow> search_result option" where
  "search_result_of E m =
    (let c = m_candidate m in
     map_option (\<lambda>pids. \<lparr>sr_provider_id = FormatExternalID (c_source c) (c_external_id c), sr_item_type = ''book'',
         sr_title = c_title c, sr_year = yearAsInt32 (c_published_at c), sr_overview = c_description c,
         sr_provider_ids = pids, sr_image_url = c_cover_url c\<rparr>)
       (candidateProviderIDs E c))"

fun search_results :: "provider_env \<Rightarrow> match_rec list \<Rightarrow> search_result list option" where
  "search_results E [] = Some []"
| "search_results E (m # ms) = (case search_result_of E m of
     None \<Rightarrow> None | Some r \<Rightarrow> map_option (Cons r) (search_results E ms))"

definition SearchMetadata :: "provider_env \<Rightarrow> 's provider \<Rightarrow> search_request \<Rightarrow> 's \<Rightarrow> 's \<times> (rpc_error, search_result list) res" where
  "SearchMetadata E P q s = (case pv_agg P of
     None \<Rightarrow> (s, Err RpcUnavailable)
   | Some search \<Rightarrow>
       if sq_item_type q \<noteq> [] \<and> sq_item_type q \<noteq> ''book'' then (s, Ok [])
       else if sq_query q = [] then (s, Err RpcInvalid)
       else (case search (sq_query q) (provider_region P) (provider_enabled P)
               (Option.bind (sq_provider_ids q) original_of) s of
           (s, Inl e) \<Rightarrow> (s, Err (RpcSource e))
         | (s, Inr ms) \<Rightarrow> (case search_results E ms of None \<Rightarrow> (s, Err RpcStruct) | Some rs \<Rightarrow> (s, Ok rs))))"

subsection \<open>One book\<close>

definition parseAndLookup :: "registry \<Rightarrow> string \<Rightarrow> (rpc_error, source \<times> string) res" where
  "parseAndLookup reg i = (case ParseExternalID i of
     Inl e \<Rightarrow> Err RpcInvalid
   | Inr (srcID, nativeID) \<Rightarrow> (case ForID reg srcID of
       None \<Rightarrow> Err RpcNotFound
     | Some src \<Rightarrow> Ok (src, nativeID)))"

text \<open>What both calls do up to the candidate; no candidate is an empty answer.\<close>

definition fetch :: "'s provider \<Rightarrow> string \<Rightarrow> (rpc_error, candidate option) res" where
  "fetch P i = (case pv_reg P of
     None \<Rightarrow> Err RpcUnavailable
   | Some reg \<Rightarrow>
       if i = [] then Err RpcInvalid
       else (case parseAndLookup reg i of
           Inl e \<Rightarrow> Err e
         | Inr (src, nativeID) \<Rightarrow> (case s_get src nativeID (provider_region P) of
             Inl e \<Rightarrow> if e = SourceNotFound then Ok None else Err (RpcSource e)
           | Inr c \<Rightarrow> Ok c)))"

definition GetMetadata :: "provider_env \<Rightarrow> 's provider \<Rightarrow> string \<Rightarrow> (rpc_error, metadata_item option) res" where
  "GetMetadata E P i = (case fetch P i of
     Inl e \<Rightarrow> Err e
   | Inr None \<Rightarrow> Ok None
   | Inr (Some c) \<Rightarrow> (case candidateToMetadataItem E c i of None \<Rightarrow> Err RpcStruct | Some it \<Rightarrow> Ok (Some it)))"

definition GetImages :: "'s provider \<Rightarrow> string \<Rightarrow> (rpc_error, (string \<times> string) list) res" where
  "GetImages P i = (case fetch P i of
     Inl e \<Rightarrow> Err e
   | Inr None \<Rightarrow> Ok []
   | Inr (Some c) \<Rightarrow> Ok (if c_cover_url c = [] then [] else [(''poster'', c_cover_url c)]))"

definition ResolveImageURL :: "string \<Rightarrow> string" where
  "ResolveImageURL path = path"

text \<open>What the wiring installs; the functions read the configuration of the moment.\<close>

definition configured_provider :: "wiring \<Rightarrow> db agg \<Rightarrow> ((string \<Rightarrow> bool) \<Rightarrow> source list) \<Rightarrow> app_state \<Rightarrow> db provider" where
  "configured_provider W A sched s = (case as_app_cfg s of
     None \<Rightarrow> \<lparr>pv_agg = None, pv_reg = None, pv_enabled = None, pv_region = None\<rparr>
   | Some c \<Rightarrow> \<lparr>pv_agg = Some (\<lambda>q g en orig d. map_prod id Inr (Search A (sched en) q g orig d)),
       pv_reg = Some (source_registry W c), pv_enabled = Some (enabledFn s), pv_region = Some (regionFn s)\<rparr>)"

subsection \<open>Years\<close>

lemma four_cases: obtains "length s < 4" | a b c d t where "s = a # b # c # d # t"
  by (cases s; cases "tl s"; cases "tl (tl s)"; cases "tl (tl (tl s))") auto

lemma yearAsInt32_bounds: "0 \<le> yearAsInt32 s \<and> yearAsInt32 s \<le> 9999"
proof (cases "length s < 4 \<or> \<not> list_all is_digit (take 4 s)")
  case True
  then show ?thesis by (auto simp: yearAsInt32_def)
next
  case False
  then obtain a b c d t where s: "s = a # b # c # d # t"
    by (cases s rule: four_cases) auto
  have "int (digit_val x) \<le> 9" if "is_digit x" for x using that by (auto simp: is_digit_def digit_val_def)
  with False s have "int (digit_val a) \<le> 9" "int (digit_val b) \<le> 9" "int (digit_val c) \<le> 9" "int (digit_val d) \<le> 9"
    by (auto simp: list_all_iff numeral_eq_Suc)
  with False show ?thesis by (simp add: yearAsInt32_def s)
qed

subsection \<open>What Search promises\<close>

lemma search_results_iff: "search_results E ms = Some rs \<longleftrightarrow> list_all2 (\<lambda>m r. search_result_of E m = Some r) ms rs"
  by (induction ms arbitrary: rs) (auto simp: list_all2_Cons1 split: option.splits)

lemma list_all2_source: "list_all2 R xs ys \<Longrightarrow> y \<in> set ys \<Longrightarrow> \<exists>x \<in> set xs. R x y"
  by (induction rule: list_all2_induct) auto

lemma search_results_None: "search_results E ms = None \<longleftrightarrow> (\<exists>m \<in> set ms. search_result_of E m = None)"
  by (induction ms) (auto split: option.splits)

lemma collected_matches: "set (snd (Search A sched q g orig d)) \<subseteq> set (snd (collect A sched q g orig d))"
  by (auto simp: Search_def Let_def top_matches_def dest: in_set_takeD)

lemma configured_registry:
  "wiring_ok W \<Longrightarrow> i \<in> set metadata_sources \<Longrightarrow> ForID (source_registry W c) i = Some (wr_source W c i)"
  using ForID_registered [of "wr_source W c" "[]" registered_sources i]
  by (simp add: source_registry_def wiring_ok_def registered_all)

lemma source_ids_plain: "i \<in> set metadata_sources \<Longrightarrow> i \<noteq> [] \<and> CHR '':'' \<notin> set i"
  by (auto simp: metadata_sources_def)

lemma configured_fetch:
  assumes "wiring_ok W" and "as_app_cfg s = Some c" and "i \<in> set metadata_sources"
  shows "fetch (configured_provider W A sched s) (FormatExternalID i n) =
    (if n = [] then Err RpcInvalid
     else case s_get (wr_source W c i) n (ac_region c) of
       Inl e \<Rightarrow> if e = SourceNotFound then Ok None else Err (RpcSource e) | Inr x \<Rightarrow> Ok x)"
proof -
  have "ParseExternalID (FormatExternalID i n) = (if n = [] then Err ErrBadExternalID else Ok (i, n))"
    using source_ids_plain [OF assms(3)] by (simp add: ParseExternalID_def FormatExternalID_def IndexByte_append)
  moreover have "FormatExternalID i n \<noteq> []" by (simp add: FormatExternalID_def)
  ultimately show ?thesis using assms(2) configured_registry [OF assms(1,3)]
    by (simp add: fetch_def configured_provider_def parseAndLookup_def provider_region_def regionFn_def)
qed

text \<open>A source delivers a candidate for a query in its own answer, or its cache entry for the query holds it.\<close>

definition delivers :: "'s agg \<Rightarrow> source \<Rightarrow> string \<Rightarrow> string \<Rightarrow> 's \<Rightarrow> candidate \<Rightarrow> bool" where
  "delivers A src query region d c \<longleftrightarrow>
    (case s_search src query region of Inl e \<Rightarrow> False | Inr cs \<Rightarrow> c \<in> set cs) \<or>
    (case cop_get (ag_cache A) (Key (ag_sha1 A) (s_id src) (classify query) region query) d of
       None \<Rightarrow> False
     | Some e \<Rightarrow> \<not> en_not_found e \<and> (case unmarshal_candidates (en_response e) of None \<Rightarrow> False | Some cs \<Rightarrow> c \<in> set cs))"

lemma searchOne_delivers: "m \<in> set (snd (searchOne A src query region orig d)) \<Longrightarrow> delivers A src query region d (m_candidate m)"
  by (auto simp: searchOne_def live_fetch_def delivers_def rank_def Let_def split: option.splits sum.splits if_splits)

lemma delivers_adapter: "delivers A (sourceAdapter src) = delivers A src"
  by (intro ext) (simp add: delivers_def sourceAdapter_def)

lemma sourceAdapter_id: "s_id (sourceAdapter src) = s_id src"
  by (simp add: sourceAdapter_def)

lemma configured_All:
  assumes "wiring_ok W" and "src \<in> set (All (source_registry W c))"
  shows "\<exists>i \<in> set metadata_sources. src = wr_source W c i"
proof -
  have ok: "registry_ok (foldl (\<lambda>r i. Register (wr_source W c i) r) R is)" if "registry_ok R" for R "is"
    using that by (induction "is" arbitrary: R) (simp_all add: Register_ok)
  have reg: "registry_ok (source_registry W c)"
    unfolding source_registry_def by (rule ok) (simp add: registry_ok_def)
  obtain i where "(i, src) \<in> set (source_registry W c)" using assms(2) by (auto simp: All_def)
  then have "ForID (source_registry W c) i = Some src" using reg by (simp add: ForID_def registry_ok_def)
  moreover have "ForID (source_registry W c) i = (if i \<in> set metadata_sources then Some (wr_source W c i) else None)"
    using ForID_registered [of "wr_source W c" "[]" registered_sources i] assms(1)
    by (simp add: source_registry_def wiring_ok_def registered_all) (simp add: ForID_def)
  ultimately show ?thesis by (auto split: if_splits)
qed

lemma collected_delivered:
  assumes "wiring_ok W" and "ag_cache A = pg_cache ttl now" and "schedule (source_registry W c) en ss"
    and "m \<in> set (snd (collect A (map sourceAdapter ss) query region orig d))"
  shows "\<exists>i \<in> set metadata_sources. s_enabled (wr_source W c i) en \<and> delivers A (wr_source W c i) query region d (m_candidate m)"
proof -
  have all: "\<exists>i \<in> set metadata_sources. src = wr_source W c i \<and> s_enabled src en" if "src \<in> set ss" for src
    using assms(3) that configured_All [OF assms(1), of src c] by (auto simp: schedule_def)
  have "plain_id (sourceAdapter src)" if "src \<in> set ss" for src
    using all [OF that] source_ids_plain assms(1) by (auto simp: plain_id_def sourceAdapter_id wiring_ok_def)
  then have "snd (collect A (map sourceAdapter ss) query region orig d) =
      concat (map (\<lambda>src. snd (searchOne A src query region orig d)) (map sourceAdapter ss))"
    using assms(3) by (intro pg_cache.collect_independent [OF assms(2)])
      (auto simp: schedule_def list_all_iff comp_def sourceAdapter_id)
  with assms(4) obtain src where "src \<in> set ss" "m \<in> set (snd (searchOne A (sourceAdapter src) query region orig d))" by auto
  then show ?thesis using all [of src] searchOne_delivers [of m A "sourceAdapter src"] by (auto simp: delivers_adapter)
qed

text \<open>
  C3. On a configured plugin whose aggregator caches in the database and whose sources answer in
  any order the registry and the enabled list allow, a search gives at most MaxResults results,
  and each stands for a candidate that an enabled registered source delivered for this query and
  region, in its answer or in its cache entry: it has the title of the candidate, a year from 0
  to 9999, and as provider id the source and native id the candidate carries. When the candidate
  carries the id of a registered source (C8: all live hits do), looking the provider id up asks
  exactly this source for exactly this native id in the configured region, a not-found being an
  empty answer; but a candidate without native id (Fantastic Fiction, LibraryThing, WorldCat
  rows, C10) gives a provider id that every lookup refuses as invalid.
\<close>

theorem search_then_get:
  assumes "wiring_ok W" and "as_app_cfg s = Some c"
    and "P = configured_provider W A (\<lambda>en. map sourceAdapter (sched en)) s"
    and "ag_cache A = pg_cache ttl now" and "\<And>en. schedule (source_registry W c) en (sched en)"
    and "SearchMetadata E P q d = (d', Ok rs)" and "r \<in> set rs"
  shows "length rs \<le> MaxResults \<and> (\<exists>i \<in> set metadata_sources. \<exists>x.
    s_enabled (wr_source W c i) (\<lambda>j. j \<in> set (ac_sources c)) \<and>
    delivers A (wr_source W c i) (sq_query q) (ac_region c) d x \<and>
    sr_provider_id r = FormatExternalID (c_source x) (c_external_id x) \<and>
    sr_title r = c_title x \<and> 0 \<le> sr_year r \<and> sr_year r \<le> 9999 \<and>
    (c_source x \<in> set metadata_sources \<longrightarrow>
       fetch P (sr_provider_id r) =
         (if c_external_id x = [] then Err RpcInvalid
          else case s_get (wr_source W c (c_source x)) (c_external_id x) (ac_region c) of
            Inl e \<Rightarrow> if e = SourceNotFound then Ok None else Err (RpcSource e) | Inr y \<Rightarrow> Ok y)))"
proof -
  let ?en = "\<lambda>i. i \<in> set (ac_sources c)" and ?orig = "Option.bind (sq_provider_ids q) original_of"
  let ?S = "Search A (map sourceAdapter (sched ?en)) (sq_query q) (ac_region c) ?orig d"
  have en: "enabledFn s = ?en" using assms(2) by (simp add: enabledFn_def [abs_def])
  have "rs \<noteq> []" using assms(7) by auto
  moreover obtain d1 ms where S: "?S = (d1, ms)" by fastforce
  moreover have "SearchMetadata E P q d = (if sq_item_type q \<noteq> [] \<and> sq_item_type q \<noteq> ''book'' then (d, Ok [])
      else if sq_query q = [] then (d, Err RpcInvalid)
      else case search_results E ms of None \<Rightarrow> (d1, Err RpcStruct) | Some rs \<Rightarrow> (d1, Ok rs))"
    using S assms(2) by (simp add: SearchMetadata_def assms(3) configured_provider_def provider_enabled_def
        provider_region_def regionFn_def en)
  ultimately have "search_results E (snd ?S) = Some rs" using assms(6) by (simp split: if_splits option.splits)
  then have l: "list_all2 (\<lambda>m r. search_result_of E m = Some r) (snd ?S) rs" by (simp add: search_results_iff)
  have n: "length rs \<le> MaxResults" using list_all2_lengthD [OF l] by (simp add: Search_def Let_def top_matches_def)
  obtain m where m: "m \<in> set (snd ?S)" "search_result_of E m = Some r"
    using list_all2_source [OF l assms(7)] by blast
  obtain i where i: "i \<in> set metadata_sources" "s_enabled (wr_source W c i) ?en"
      "delivers A (wr_source W c i) (sq_query q) (ac_region c) d (m_candidate m)"
    using collected_delivered [OF assms(1,4,5) subsetD [OF collected_matches m(1)]] by blast
  have "sr_provider_id r = FormatExternalID (c_source (m_candidate m)) (c_external_id (m_candidate m))"
    "sr_title r = c_title (m_candidate m)" "0 \<le> sr_year r \<and> sr_year r \<le> 9999"
    using m(2) yearAsInt32_bounds by (auto simp: search_result_of_def Let_def)
  with n i configured_fetch [OF assms(1,2)] assms(3) show ?thesis by (intro conjI bexI [of _ i] exI [of _ "m_candidate m"]) auto
qed

text \<open>What \<open>structpb\<close> documents: strings must be valid UTF-8.\<close>

definition struct_ok :: "(string \<times> any) list \<Rightarrow> bool" where
  "struct_ok ms \<longleftrightarrow> list_all (\<lambda>x. utf8_valid (fst x) \<and> (case snd x of AStr t \<Rightarrow> utf8_valid t | _ \<Rightarrow> True)) ms"

definition ids_valid :: "candidate \<Rightarrow> bool" where
  "ids_valid c \<longleftrightarrow> utf8_valid (c_source c) \<and> utf8_valid (c_external_id c) \<and> utf8_valid (c_asin c) \<and> utf8_valid (c_isbn c)"

lemma provider_ids_valid:
  assumes "pe_struct E = (\<lambda>ms. if struct_ok ms then Some ms else None)" and "c_source c \<notin> {''asin'', ''isbn''}"
  shows "candidateProviderIDs E c = None \<longleftrightarrow> \<not> ids_valid c"
proof -
  have a: "utf8_valid ''asin''" "utf8_valid ''isbn''" "utf8_valid []"
    by (simp_all add: utf8_valid_ascii is_ascii_def)
  show ?thesis using assms a by (auto simp: candidateProviderIDs_def ids_valid_def struct_ok_def Let_def)
qed

text \<open>
  C4. A search succeeds, with one result per match, exactly when the ids of all matches are
  valid UTF-8; one match with an invalid id loses the results of all sources.
\<close>

theorem one_bad_match_fails_search:
  assumes "pe_struct E = (\<lambda>ms. if struct_ok ms then Some ms else None)"
    and "pv_agg P = Some search" and "search (sq_query q) (provider_region P) (provider_enabled P)
        (Option.bind (sq_provider_ids q) original_of) d = (d', Ok ms)"
    and "sq_item_type q = ''book''" and "sq_query q \<noteq> []"
    and "\<forall>m \<in> set ms. c_source (m_candidate m) \<notin> {''asin'', ''isbn''}"
  shows "if list_all (\<lambda>m. ids_valid (m_candidate m)) ms
    then \<exists>rs. SearchMetadata E P q d = (d', Ok rs) \<and> length rs = length ms
    else SearchMetadata E P q d = (d', Err RpcStruct)"
proof -
  have bad: "search_result_of E m = None \<longleftrightarrow> \<not> ids_valid (m_candidate m)" if "m \<in> set ms" for m
    using provider_ids_valid [OF assms(1)] assms(6) that by (simp add: search_result_of_def Let_def)
  show ?thesis
  proof (cases "search_results E ms")
    case None
    then have "\<not> list_all (\<lambda>m. ids_valid (m_candidate m)) ms"
      using bad by (auto simp: search_results_None list_all_iff)
    with None show ?thesis using assms(2-5) by (simp add: SearchMetadata_def)
  next
    case (Some rs)
    then have "list_all (\<lambda>m. ids_valid (m_candidate m)) ms"
      using bad search_results_None [of E ms] by (auto simp: list_all_iff)
    moreover have "length rs = length ms" using Some search_results_iff list_all2_lengthD by metis
    ultimately show ?thesis using assms(2-5) Some by (simp add: SearchMetadata_def)
  qed
qed

subsection \<open>Witnesses\<close>

definition demo_provider_env :: provider_env where
  "demo_provider_env = \<lparr>pe_struct = (\<lambda>ms. if struct_ok ms then Some ms else None), pe_unescape = (\<lambda>s. s)\<rparr>"

text \<open>The installation of the demonstration, with sources that find a book.\<close>

definition finding_wiring :: wiring where
  "finding_wiring = demo_wiring\<lparr>wr_source := (\<lambda>c i. \<lparr>s_id = i, s_enabled = (\<lambda>f. f i),
     s_search = (\<lambda>q g. Ok [empty_candidate\<lparr>c_source := i, c_external_id := ''84''\<rparr>]), s_get = (\<lambda>j g. Ok None)\<rparr>)\<rparr>"

definition gutenberg_first :: "(string \<Rightarrow> bool) \<Rightarrow> source list" where
  "gutenberg_first en = (if en ''gutenberg'' then [wr_source finding_wiring DefaultAppConfig ''gutenberg''] else [])"

definition demo_search :: search_request where
  "demo_search = \<lparr>sq_item_type = ''book'', sq_query = ''q'', sq_provider_ids = None\<rparr>"

lemma finding_wiring_ok: "wiring_ok finding_wiring"
  using demo_wiring_ok by (simp add: wiring_ok_def finding_wiring_def db_text_def source_texts_ok_def)

lemma gutenberg_schedule: "schedule (source_registry finding_wiring DefaultAppConfig) en (gutenberg_first en)"
proof -
  let ?s = "wr_source finding_wiring DefaultAppConfig ''gutenberg''"
  have "ForID (source_registry finding_wiring DefaultAppConfig) ''gutenberg'' = Some ?s"
    by (rule configured_registry [OF finding_wiring_ok]) (simp add: metadata_sources_def)
  then have "?s \<in> set (All (source_registry finding_wiring DefaultAppConfig))"
    by (force simp: ForID_def All_def dest: map_of_SomeD)
  then show ?thesis by (simp add: schedule_def gutenberg_first_def) (simp add: finding_wiring_def)
qed

lemma demo_empty_cache: "cop_get (ag_cache demo_agg) k sample_db = None"
  by (simp add: demo_agg_def pg_cache_def ok_part_def CacheGet_def find_cache_def sample_defs)

lemma found: "snd (Search demo_agg (map sourceAdapter (gutenberg_first (\<lambda>i. i \<in> set metadata_sources))) q g orig sample_db) =
    [\<lparr>m_source = ''gutenberg'', m_confidence = CalculateConfidence (ag_uni demo_agg) q
        (empty_candidate\<lparr>c_source := ''gutenberg'', c_external_id := ''84''\<rparr>) orig,
      m_candidate = empty_candidate\<lparr>c_source := ''gutenberg'', c_external_id := ''84''\<rparr>\<rparr>]"
proof -
  have l: "ag_limited demo_agg i" for i by (simp add: demo_agg_def)
  have g: "gutenberg_first (\<lambda>i. i \<in> set metadata_sources) = [wr_source finding_wiring DefaultAppConfig ''gutenberg'']"
    by (simp add: gutenberg_first_def metadata_sources_def)
  show ?thesis unfolding g
    by (simp add: Search_def collect_def search_step_def searchOne_def live_fetch_def finding_wiring_def sourceAdapter_def Let_def
      rank_def top_matches_def MaxResults_def demo_empty_cache l)
qed

lemma demo_ids: "candidateProviderIDs demo_provider_env (empty_candidate\<lparr>c_source := ''gutenberg'', c_external_id := ''84''\<rparr>) =
    Some [(''gutenberg'', AStr ''84'')]"
  by (simp add: candidateProviderIDs_def demo_provider_env_def empty_candidate_def struct_ok_def utf8_valid_ascii is_ascii_def)

theorem search_then_get_witness:
  "fetch (configured_provider finding_wiring demo_agg (\<lambda>en. map sourceAdapter (gutenberg_first en)) demo_state) ''gutenberg:84'' = Ok None"
proof -
  let ?P = "configured_provider finding_wiring demo_agg (\<lambda>en. map sourceAdapter (gutenberg_first en)) demo_state"
  let ?S = "Search demo_agg (map sourceAdapter (gutenberg_first (\<lambda>i. i \<in> set metadata_sources))) ''q'' ''us'' None sample_db"
  have c: "as_app_cfg demo_state = Some DefaultAppConfig" by (simp add: demo_state_def)
  have en: "enabledFn demo_state = (\<lambda>i. i \<in> set metadata_sources)"
    by (intro ext) (simp add: enabledFn_def c DefaultAppConfig_def)
  have g: "regionFn demo_state = ''us''" by (simp add: regionFn_def c DefaultAppConfig_def)
  obtain d' where "?S = (d', snd ?S)" by (cases ?S) auto
  note S = this [unfolded found]
  obtain r where found: "SearchMetadata demo_provider_env ?P demo_search sample_db = (d', Ok [r])"
      and r: "sr_provider_id r = ''gutenberg:84''"
    using c by (simp add: SearchMetadata_def demo_search_def configured_provider_def provider_enabled_def provider_region_def
        en g S search_result_of_def demo_ids FormatExternalID_def)
  have cache: "ag_cache demo_agg = pg_cache 1000 0" by (simp add: demo_agg_def)
  from search_then_get [OF finding_wiring_ok c refl cache gutenberg_schedule found, of r] obtain i x where
      i: "i \<in> set metadata_sources"
    and x: "delivers demo_agg (wr_source finding_wiring DefaultAppConfig i) (sq_query demo_search) (ac_region DefaultAppConfig) sample_db x"
    and f: "c_source x \<in> set metadata_sources \<longrightarrow> fetch ?P (sr_provider_id r) =
         (if c_external_id x = [] then Err RpcInvalid
          else case s_get (wr_source finding_wiring DefaultAppConfig (c_source x)) (c_external_id x) (ac_region DefaultAppConfig) of
            Inl e \<Rightarrow> if e = SourceNotFound then Ok None else Err (RpcSource e) | Inr y \<Rightarrow> Ok y)" by auto
  have "x = empty_candidate\<lparr>c_source := i, c_external_id := ''84''\<rparr>"
    using x by (simp add: delivers_def demo_empty_cache) (simp add: finding_wiring_def)
  with f i r show ?thesis by simp (simp add: finding_wiring_def)
qed

definition bad_match :: match_rec where
  "bad_match = \<lparr>m_source = ''gutenberg'', m_confidence = 50,
     m_candidate = empty_candidate\<lparr>c_source := ''gutenberg'', c_external_id := [CHR 0xFF]\<rparr>\<rparr>"

definition bad_provider :: "nat provider" where
  "bad_provider = \<lparr>pv_agg = Some (\<lambda>q g en orig d. (d, Ok [bad_match])), pv_reg = None, pv_enabled = None, pv_region = None\<rparr>"

theorem one_bad_match_fails_search_witness:
  "SearchMetadata demo_provider_env bad_provider demo_search 0 = (0, Err RpcStruct)"
proof -
  have "\<not> utf8_valid [CHR 0xFF]" by (simp add: utf8_valid.simps utf8_front_def byte_in_def)
  then have bad: "\<not> ids_valid (m_candidate bad_match)" by (simp add: ids_valid_def bad_match_def)
  have "pe_struct demo_provider_env = (\<lambda>ms. if struct_ok ms then Some ms else None)" by (simp add: demo_provider_env_def)
  moreover have "pv_agg bad_provider = Some (\<lambda>q g en orig d. (d, Ok [bad_match]))" by (simp add: bad_provider_def)
  moreover have "\<forall>m \<in> set [bad_match]. c_source (m_candidate m) \<notin> {''asin'', ''isbn''}" by (simp add: bad_match_def)
  moreover have "sq_item_type demo_search = ''book''" "sq_query demo_search \<noteq> []" by (simp_all add: demo_search_def)
  ultimately show ?thesis using one_bad_match_fails_search [where q = demo_search and d = 0] bad by fastforce
qed

end
