(* ===== verification/Migrate.thy ===== *)
theory Migrate
  imports GoStrings
begin

text \<open>
  The migration runner (\<open>internal/migrate/migrate.go\<close>). The effect of a migration script on the
  database is the parameter \<open>exec\<close>, which fails or not; what else can fail, the connection and every
  other statement, is the record \<open>faults\<close>. A script and the row that records it share a transaction,
  so a failure of either leaves the state of before; a commit that fails is taken to have been undone.
\<close>

record faults =
  ft_connect :: "string option"
  ft_bookkeeping :: "string option"
  ft_check :: "string \<Rightarrow> string option"
  ft_begin :: "string \<Rightarrow> string option"
  ft_record :: "string \<Rightarrow> string option"
  ft_commit :: "string \<Rightarrow> string option"

record 's migrated =
  mg_applied :: "string list"
  mg_data :: 's

definition up_suffix :: string where
  "up_suffix = ''.up.sql''"

definition up_files :: "string list \<Rightarrow> string list" where
  "up_files names = sort (filter (\<lambda>n. HasSuffix n up_suffix) names)"

definition version_of :: "string \<Rightarrow> string" where
  "version_of name = TrimSuffix name up_suffix"

definition apply_tx :: "(string \<Rightarrow> 's \<Rightarrow> (string, 's) res) \<Rightarrow> faults \<Rightarrow> string \<Rightarrow> 's migrated \<Rightarrow> (string, 's migrated) res" where
  "apply_tx exec F name s = (let version = version_of name in
     case ft_begin F version of
       Some e \<Rightarrow> Err e
     | None \<Rightarrow> (case exec name (mg_data s) of
         Inl e \<Rightarrow> Err (''apply '' @ name @ '': '' @ e)
       | Inr data \<Rightarrow> (case ft_record F version of
           Some e \<Rightarrow> Err (''record '' @ name @ '': '' @ e)
         | None \<Rightarrow> (case ft_commit F version of
             Some e \<Rightarrow> Err (''commit '' @ name @ '': '' @ e)
           | None \<Rightarrow> Ok \<lparr>mg_applied = mg_applied s @ [version], mg_data = data\<rparr>))))"

fun run_files :: "(string \<Rightarrow> 's \<Rightarrow> (string, 's) res) \<Rightarrow> faults \<Rightarrow> string list \<Rightarrow> 's migrated \<Rightarrow> 's migrated \<times> string option" where
  "run_files exec F [] s = (s, None)"
| "run_files exec F (name # ns) s = (let version = version_of name in
     case ft_check F version of
       Some e \<Rightarrow> (s, Some (''check applied '' @ version @ '': '' @ e))
     | None \<Rightarrow> if version \<in> set (mg_applied s) then run_files exec F ns s
         else (case apply_tx exec F name s of
             Inl e \<Rightarrow> (s, Some e)
           | Inr s \<Rightarrow> run_files exec F ns s))"

definition RunMigrations :: "(string \<Rightarrow> 's \<Rightarrow> (string, 's) res) \<Rightarrow> faults \<Rightarrow> string list \<Rightarrow> 's migrated \<Rightarrow> 's migrated \<times> string option" where
  "RunMigrations exec F names s = (case ft_connect F of
     Some e \<Rightarrow> (s, Some (''connect: '' @ e))
   | None \<Rightarrow> (case ft_bookkeeping F of
       Some e \<Rightarrow> (s, Some (''bookkeeping: '' @ e))
     | None \<Rightarrow> run_files exec F (up_files names) s))"

subsection \<open>What a run leaves behind\<close>

definition no_faults :: faults where
  "no_faults = \<lparr>ft_connect = None, ft_bookkeeping = None, ft_check = (\<lambda>v. None), ft_begin = (\<lambda>v. None),
     ft_record = (\<lambda>v. None), ft_commit = (\<lambda>v. None)\<rparr>"

fun exec_all :: "(string \<Rightarrow> 's \<Rightarrow> (string, 's) res) \<Rightarrow> string list \<Rightarrow> 's \<Rightarrow> 's option" where
  "exec_all exec [] d = Some d"
| "exec_all exec (n # ns) d = (case exec n d of Inl e \<Rightarrow> None | Inr d \<Rightarrow> exec_all exec ns d)"

lemma apply_tx_Ok: "apply_tx exec F name s = Ok s' \<Longrightarrow>
    mg_applied s' = mg_applied s @ [version_of name] \<and> exec name (mg_data s) = Ok (mg_data s')"
  by (auto simp: apply_tx_def Let_def split: option.splits sum.splits)

lemma apply_tx_set: "apply_tx exec F name s = Ok s' \<Longrightarrow> set (mg_applied s') = insert (version_of name) (set (mg_applied s))"
  using apply_tx_Ok by fastforce

lemma apply_tx_faultless: "apply_tx exec F name s = Ok s' \<Longrightarrow> apply_tx exec no_faults name s = Ok s'"
  by (auto simp: apply_tx_def Let_def no_faults_def split: option.splits sum.splits)

text \<open>What is new, in order: a prefix of the missing files, whose scripts ran one after the other.\<close>

lemma run_files_prefix:
  "\<exists>ran. prefix ran (filter (\<lambda>n. version_of n \<notin> set (mg_applied s)) ns) \<and>
      mg_applied (fst (run_files exec F ns s)) = mg_applied s @ map version_of ran \<and>
      exec_all exec ran (mg_data s) = Some (mg_data (fst (run_files exec F ns s)))"
  if "distinct (map version_of ns)"
  using that
proof (induction ns arbitrary: s)
  case (Cons n ns)
  let ?v = "version_of n"
  have stop: ?case if "fst (run_files exec F (n # ns) s) = s" using that by (intro exI [of _ "[]"]) simp
  show ?case
  proof (cases "ft_check F ?v")
    case (Some e)
    then show ?thesis by (intro stop) simp
  next
    case None
    show ?thesis
    proof (cases "?v \<in> set (mg_applied s)")
      case True
      then show ?thesis using None Cons by simp
    next
      case False
      show ?thesis
      proof (cases "apply_tx exec F n s")
        case (Inl e)
        with None False show ?thesis by (intro stop) simp
      next
        case (Inr s1)
        then have s1: "mg_applied s1 = mg_applied s @ [?v]" "exec n (mg_data s) = Ok (mg_data s1)"
          using apply_tx_Ok by blast+
        have "filter (\<lambda>m. version_of m \<notin> set (mg_applied s1)) ns = filter (\<lambda>m. version_of m \<notin> set (mg_applied s)) ns"
          using Cons.prems s1(1) by (intro filter_cong) (auto simp: image_iff)
        with Cons.IH [of s1] Cons.prems obtain ran where
          "prefix ran (filter (\<lambda>m. version_of m \<notin> set (mg_applied s)) ns)"
          "mg_applied (fst (run_files exec F ns s1)) = mg_applied s1 @ map version_of ran"
          "exec_all exec ran (mg_data s1) = Some (mg_data (fst (run_files exec F ns s1)))" by auto
        then show ?thesis using None False Inr s1 by (intro exI [of _ "n # ran"]) simp
      qed
    qed
  qed
qed simp

text \<open>A run that reports no error has executed every missing script.\<close>

lemma run_files_mono: "set (mg_applied s) \<subseteq> set (mg_applied (fst (run_files exec F ns s)))"
proof (induction ns arbitrary: s)
  case (Cons n ns)
  show ?case using Cons.IH apply_tx_set [of exec F n s]
    by (auto simp: Let_def split: option.split sum.split)
qed simp

lemma run_files_all: "run_files exec F ns s = (s', None) \<Longrightarrow> version_of ` set ns \<subseteq> set (mg_applied s')"
proof (induction ns arbitrary: s)
  case (Cons n ns)
  have mono: "set (mg_applied t) \<subseteq> set (mg_applied s')" if "run_files exec F ns t = (s', None)" for t
    using run_files_mono [of t exec F ns] that by simp
  from Cons.prems consider "version_of n \<in> set (mg_applied s)" "run_files exec F ns s = (s', None)"
    | s1 where "apply_tx exec F n s = Ok s1" "run_files exec F ns s1 = (s', None)"
    by (auto simp: Let_def split: option.splits if_splits sum.splits)
  then show ?case
  proof cases
    case 1
    then show ?thesis using Cons.IH [OF 1(2)] mono [OF 1(2)] by auto
  next
    case (2 s1)
    have "version_of n \<in> set (mg_applied s1)" by (simp add: apply_tx_set [OF 2(1)])
    then show ?thesis using Cons.IH [OF 2(2)] mono [OF 2(2)] by auto
  qed
qed simp

lemma run_files_resume:
  "run_files exec no_faults ns (fst (run_files exec F ns s)) = run_files exec no_faults ns s"
proof (induction ns arbitrary: s)
  case (Cons n ns)
  let ?v = "version_of n"
  have check: "ft_check no_faults v = None" for v by (simp add: no_faults_def)
  show ?case
  proof (cases "ft_check F ?v")
    case None
    show ?thesis
    proof (cases "?v \<in> set (mg_applied s)")
      case True
      then have "?v \<in> set (mg_applied (fst (run_files exec F ns s)))" using run_files_mono by blast
      then show ?thesis using True None Cons by (simp add: check)
    next
      case False
      show ?thesis
      proof (cases "apply_tx exec F n s")
        case (Inr s1)
        then have "?v \<in> set (mg_applied (fst (run_files exec F ns s1)))"
          using run_files_mono [of s1 exec F ns] apply_tx_Ok [OF Inr] by auto
        then show ?thesis using False None Cons Inr apply_tx_faultless [OF Inr] by (simp add: check)
      qed (use None False in simp)
    qed
  qed simp
qed simp

lemma version_inj: "HasSuffix m up_suffix \<Longrightarrow> HasSuffix n up_suffix \<Longrightarrow> version_of m = version_of n \<Longrightarrow> m = n"
  by (auto simp: version_of_def TrimSuffix_def suffix_def)

lemma up_files_distinct: "distinct names \<Longrightarrow> distinct (map version_of (up_files names))"
  using version_inj by (auto simp: up_files_def distinct_map intro!: inj_onI)

text \<open>
  C5. A migration run executes, in lexical order, a prefix of the scripts that were missing,
  each once, and records exactly those; when it reports no error all are recorded and another
  run changes nothing; and after a run that failed anywhere, a run without faults ends as if the
  first had never been cut short.
\<close>

theorem RunMigrations_spec:
  assumes "distinct names" and "RunMigrations exec F names s = (s', e)"
  shows "(\<exists>ran. prefix ran (filter (\<lambda>n. version_of n \<notin> set (mg_applied s)) (up_files names)) \<and>
      mg_applied s' = mg_applied s @ map version_of ran \<and> exec_all exec ran (mg_data s) = Some (mg_data s')) \<and>
    (e = None \<longrightarrow> version_of ` set (up_files names) \<subseteq> set (mg_applied s') \<and>
       RunMigrations exec no_faults names s' = (s', None)) \<and>
    RunMigrations exec no_faults names s' = RunMigrations exec no_faults names s"
proof -
  let ?ns = "up_files names"
  have free: "RunMigrations exec no_faults names t = run_files exec no_faults ?ns t" for t
    by (simp add: RunMigrations_def no_faults_def)
  have idle: "run_files exec no_faults ns t = (t, None)" if "version_of ` set ns \<subseteq> set (mg_applied t)" for ns t
    using that by (induction ns) (auto simp: no_faults_def)
  show ?thesis
  proof (cases "ft_connect F = None \<and> ft_bookkeeping F = None")
    case True
    then have run: "run_files exec F ?ns s = (s', e)" using assms(2) by (simp add: RunMigrations_def)
    have "version_of ` set ?ns \<subseteq> set (mg_applied s')" if "e = None"
      using run_files_all [of exec F ?ns s s'] run that by simp
    then show ?thesis
      using run_files_prefix [OF up_files_distinct [OF assms(1)], of s exec F] run_files_resume [of exec ?ns F s] run idle
      unfolding free by auto
  next
    case False
    with assms(2) have "s' = s" "e \<noteq> None" by (auto simp: RunMigrations_def split: option.splits)
    then show ?thesis by (auto intro: exI [of _ "[]"])
  qed
qed

text \<open>The embedded files; their order is the order of their numbers.\<close>

definition embedded_files :: "string list" where
  "embedded_files = [''0001_init.down.sql'', ''0001_init.up.sql'', ''0002_library_identity.down.sql'',
     ''0002_library_identity.up.sql'', ''0003_library_path_timestamps.down.sql'', ''0003_library_path_timestamps.up.sql'',
     ''0004_ebook_content_sig.down.sql'', ''0004_ebook_content_sig.up.sql'', ''0005_app_config.down.sql'', ''0005_app_config.up.sql'']"

lemma embedded_ups: "map version_of (up_files embedded_files) =
    [''0001_init'', ''0002_library_identity'', ''0003_library_path_timestamps'', ''0004_ebook_content_sig'', ''0005_app_config'']"
  by (simp add: up_files_def embedded_files_def up_suffix_def suffix_def version_of_def TrimSuffix_def less_char_def)

subsection \<open>Witness\<close>

text \<open>Scripts that append their name, and a database whose third migration cannot be committed.\<close>

definition log_script :: "string \<Rightarrow> string list \<Rightarrow> (string, string list) res" where
  "log_script n d = Ok (d @ [n])"

definition late_fault :: faults where
  "late_fault = no_faults\<lparr>ft_commit := (\<lambda>v. if v = ''0003_library_path_timestamps'' then Some ''lost'' else None)\<rparr>"

theorem RunMigrations_spec_witness:
  "RunMigrations log_script no_faults embedded_files
      (fst (RunMigrations log_script late_fault embedded_files \<lparr>mg_applied = [], mg_data = []\<rparr>)) =
    RunMigrations log_script no_faults embedded_files \<lparr>mg_applied = [], mg_data = []\<rparr>"
proof -
  have d: "distinct embedded_files" by (simp add: embedded_files_def)
  show ?thesis using RunMigrations_spec [where exec = log_script and F = late_fault, OF d prod.collapse [symmetric]] by blast
qed

end
