(* ===== verification/Triggers.thy ===== *)
theory Triggers
  imports Prelude
begin

text \<open>
  Concurrent scans. A scheduled task passes the \<open>running\<close> flag of \<open>internal/scheduler/tasks.go\<close> by a
  compare-and-swap and then calls the scan function; an admin request calls it directly; the scan
  function of \<open>main.go\<close> holds the mutex \<open>scanMu\<close> while it runs. Every call is a thread with a program
  counter, and a step of the system is a step of one thread.
\<close>

datatype trigger = Scheduled | Admin

datatype pc = Called | Waiting | Scanning | Leaving | Finished | Dropped

datatype scan_log = Began nat | Ended nat

record triggers =
  tr_running :: bool
  tr_holder :: "nat option"
  tr_pc :: "nat \<Rightarrow> pc"
  tr_log :: "scan_log list"

definition goto :: "nat \<Rightarrow> pc \<Rightarrow> triggers \<Rightarrow> triggers" where
  "goto i p s = s\<lparr>tr_pc := (tr_pc s)(i := p)\<rparr>"

text \<open>\<open>n\<close> calls, of the given kinds.\<close>

inductive trigger_step :: "nat \<Rightarrow> (nat \<Rightarrow> trigger) \<Rightarrow> triggers \<Rightarrow> triggers \<Rightarrow> bool" for n kind where
  swapped: "i < n \<Longrightarrow> kind i = Scheduled \<Longrightarrow> tr_pc s i = Called \<Longrightarrow> \<not> tr_running s \<Longrightarrow>
    trigger_step n kind s (goto i Waiting (s\<lparr>tr_running := True\<rparr>))"
| dropped: "i < n \<Longrightarrow> kind i = Scheduled \<Longrightarrow> tr_pc s i = Called \<Longrightarrow> tr_running s \<Longrightarrow>
    trigger_step n kind s (goto i Dropped s)"
| direct: "i < n \<Longrightarrow> kind i = Admin \<Longrightarrow> tr_pc s i = Called \<Longrightarrow> trigger_step n kind s (goto i Waiting s)"
| lock: "i < n \<Longrightarrow> tr_pc s i = Waiting \<Longrightarrow> tr_holder s = None \<Longrightarrow>
    trigger_step n kind s (goto i Scanning (s\<lparr>tr_holder := Some i, tr_log := tr_log s @ [Began i]\<rparr>))"
| unlock: "i < n \<Longrightarrow> tr_pc s i = Scanning \<Longrightarrow>
    trigger_step n kind s (goto i Leaving (s\<lparr>tr_holder := None, tr_log := tr_log s @ [Ended i]\<rparr>))"
| cleared: "i < n \<Longrightarrow> kind i = Scheduled \<Longrightarrow> tr_pc s i = Leaving \<Longrightarrow>
    trigger_step n kind s (goto i Finished (s\<lparr>tr_running := False\<rparr>))"
| answered: "i < n \<Longrightarrow> kind i = Admin \<Longrightarrow> tr_pc s i = Leaving \<Longrightarrow> trigger_step n kind s (goto i Finished s)"

definition idle :: triggers where
  "idle = \<lparr>tr_running = False, tr_holder = None, tr_pc = (\<lambda>i. Called), tr_log = []\<rparr>"

inductive trigger_reach :: "nat \<Rightarrow> (nat \<Rightarrow> trigger) \<Rightarrow> triggers \<Rightarrow> bool" for n kind where
  start: "trigger_reach n kind idle"
| step: "trigger_reach n kind s \<Longrightarrow> trigger_step n kind s s' \<Longrightarrow> trigger_reach n kind s'"

inductive_cases trigger_stepE: "trigger_step n kind s s'"

subsection \<open>Invariant\<close>

definition in_flight :: "nat \<Rightarrow> (nat \<Rightarrow> trigger) \<Rightarrow> triggers \<Rightarrow> nat \<Rightarrow> bool" where
  "in_flight n kind s i \<longleftrightarrow> i < n \<and> kind i = Scheduled \<and> tr_pc s i \<in> {Waiting, Scanning, Leaving}"

text \<open>One scan after the other, the last one perhaps not ended.\<close>

fun serial :: "scan_log list \<Rightarrow> nat option option" where
  "serial [] = Some None"
| "serial (Began i # l) = (case l of [] \<Rightarrow> Some (Some i) | Ended j # l' \<Rightarrow> if i = j then serial l' else None | _ \<Rightarrow> None)"
| "serial (Ended i # l) = None"

definition triggers_ok :: "nat \<Rightarrow> (nat \<Rightarrow> trigger) \<Rightarrow> triggers \<Rightarrow> bool" where
  "triggers_ok n kind s \<longleftrightarrow>
     (\<forall>i. tr_pc s i = Scanning \<longleftrightarrow> tr_holder s = Some i) \<and>
     (\<forall>i. tr_pc s i \<noteq> Called \<longrightarrow> i < n) \<and>
     (\<forall>i j. in_flight n kind s i \<longrightarrow> in_flight n kind s j \<longrightarrow> i = j) \<and>
     (tr_running s \<longleftrightarrow> (\<exists>i. in_flight n kind s i)) \<and>
     serial (tr_log s) = Some (tr_holder s)"

lemma serial_began: "serial l = Some None \<Longrightarrow> serial (l @ [Began i]) = Some (Some i)"
  by (induction l rule: serial.induct) (auto split: list.splits scan_log.splits if_splits)

lemma serial_ended: "serial l = Some (Some i) \<Longrightarrow> serial (l @ [Ended i]) = Some None"
  by (induction l rule: serial.induct) (auto split: list.splits scan_log.splits if_splits)

lemma flight_goto:
  "in_flight n kind (goto i p s') j \<longleftrightarrow> (if j = i then i < n \<and> kind i = Scheduled \<and> p \<in> {Waiting, Scanning, Leaving}
     else in_flight n kind s' j)"
  by (auto simp: in_flight_def goto_def)

lemma flight_cong: "tr_pc s' = tr_pc s \<Longrightarrow> in_flight n kind s' = in_flight n kind s"
  by (simp add: in_flight_def fun_eq_iff)

lemma triggers_okD:
  assumes "triggers_ok n kind s"
  shows "tr_pc s i = Scanning \<longleftrightarrow> tr_holder s = Some i" "tr_pc s i \<noteq> Called \<Longrightarrow> i < n"
    "in_flight n kind s i \<Longrightarrow> in_flight n kind s j \<Longrightarrow> i = j" "tr_running s \<longleftrightarrow> (\<exists>i. in_flight n kind s i)"
    "serial (tr_log s) = Some (tr_holder s)"
  using assms by (simp_all add: triggers_ok_def)

lemma triggers_okI:
  assumes "\<And>i. tr_pc s i = Scanning \<longleftrightarrow> tr_holder s = Some i" and "\<And>i. tr_pc s i \<noteq> Called \<Longrightarrow> i < n"
    and "\<And>i j. in_flight n kind s i \<Longrightarrow> in_flight n kind s j \<Longrightarrow> i = j" and "tr_running s \<longleftrightarrow> (\<exists>i. in_flight n kind s i)"
    and "serial (tr_log s) = Some (tr_holder s)"
  shows "triggers_ok n kind s"
  using assms unfolding triggers_ok_def by blast

text \<open>A step that leaves flag and flights alone.\<close>

lemma quiet_step_ok:
  assumes "triggers_ok n kind s" and "i < n" and "s' = goto i p t" and "tr_pc t = tr_pc s" and "tr_running t = tr_running s"
    and "in_flight n kind s' i \<longleftrightarrow> in_flight n kind s i" and "serial (tr_log s') = Some (tr_holder s')"
    and "\<And>j. tr_pc s' j = Scanning \<longleftrightarrow> tr_holder s' = Some j"
  shows "triggers_ok n kind s'"
proof -
  have fl: "in_flight n kind s' j \<longleftrightarrow> in_flight n kind s j" for j
    using assms(3,4,6) flight_goto [of n kind i p t j] flight_cong [OF assms(4), of n kind] by (cases "j = i") auto
  note ok = triggers_okD [OF assms(1)]
  show ?thesis
  proof (rule triggers_okI)
    show "tr_pc s' j \<noteq> Called \<Longrightarrow> j < n" for j
      using ok(2) [of j] assms(2-4) by (cases "j = i") (auto simp: goto_def)
    show "in_flight n kind s' j \<Longrightarrow> in_flight n kind s' k \<Longrightarrow> j = k" for j k using ok(3) fl by blast
    have "tr_running s' = tr_running s" using assms(3,5) by (simp add: goto_def)
    then show "tr_running s' \<longleftrightarrow> (\<exists>j. in_flight n kind s' j)" using ok(4) fl by simp
  qed (use assms in simp_all)
qed

lemma triggers_step_ok:
  assumes "trigger_step n kind s s'" and "triggers_ok n kind s"
  shows "triggers_ok n kind s'"
  using assms(1)
proof (cases rule: trigger_step.cases)
  case (swapped i)
  note ok = triggers_okD [OF assms(2)]
  have none: "\<not> in_flight n kind s j" for j using ok(4) swapped by blast
  have fl: "in_flight n kind s' j \<longleftrightarrow> j = i" for j
    using none swapped flight_cong [of "s\<lparr>tr_running := True\<rparr>" s n kind] by (simp add: flight_goto)
  show ?thesis
  proof (rule triggers_okI)
    show "tr_pc s' j = Scanning \<longleftrightarrow> tr_holder s' = Some j" for j
      using swapped ok(1) [of j] ok(1) [of i] by (auto simp: goto_def)
    show "tr_pc s' j \<noteq> Called \<Longrightarrow> j < n" for j using ok(2) [of j] swapped by (auto simp: goto_def split: if_splits)
    show "in_flight n kind s' j \<Longrightarrow> in_flight n kind s' k \<Longrightarrow> j = k" for j k by (simp add: fl)
    have "tr_running s'" using swapped(1) by (simp add: goto_def)
    then show "tr_running s' \<longleftrightarrow> (\<exists>j. in_flight n kind s' j)" by (simp add: fl)
    show "serial (tr_log s') = Some (tr_holder s')" using swapped(1) ok(5) by (simp add: goto_def)
  qed
next
  case (cleared i)
  note ok = triggers_okD [OF assms(2)]
  have "in_flight n kind s i" using cleared by (simp add: in_flight_def)
  then have others: "j \<noteq> i \<Longrightarrow> \<not> in_flight n kind s j" for j using ok(3) by blast
  have "in_flight n kind (s\<lparr>tr_running := False\<rparr>) = in_flight n kind s" by (rule flight_cong) simp
  then have fl: "\<not> in_flight n kind s' j" for j unfolding cleared(1) using others [of j] by (simp add: flight_goto)
  show ?thesis
  proof (rule triggers_okI)
    have "tr_holder s \<noteq> Some i" using ok(1) [of i] cleared(4) by simp
    then show "tr_pc s' j = Scanning \<longleftrightarrow> tr_holder s' = Some j" for j
      unfolding cleared(1) using ok(1) [of j] by (cases "j = i") (simp_all add: goto_def)
    show "tr_pc s' j \<noteq> Called \<Longrightarrow> j < n" for j using ok(2) [of j] cleared by (auto simp: goto_def split: if_splits)
    show "in_flight n kind s' j \<Longrightarrow> in_flight n kind s' k \<Longrightarrow> j = k" for j k by (simp add: fl)
    have "\<not> tr_running s'" using cleared(1) by (simp add: goto_def)
    then show "tr_running s' \<longleftrightarrow> (\<exists>j. in_flight n kind s' j)" by (simp add: fl)
    show "serial (tr_log s') = Some (tr_holder s')" using cleared(1) ok(5) by (simp add: goto_def)
  qed
next
  case (lock i)
  note ok = triggers_okD [OF assms(2)]
  have "serial (tr_log s') = Some (tr_holder s')" using serial_began ok(5) lock by (simp add: goto_def)
  moreover have "tr_pc s' j = Scanning \<longleftrightarrow> tr_holder s' = Some j" for j using lock ok(1) [of j] by (auto simp: goto_def)
  ultimately show ?thesis using lock
    by (intro quiet_step_ok [OF assms(2) lock(2,1)]) (simp_all add: in_flight_def goto_def)
next
  case (unlock i)
  note ok = triggers_okD [OF assms(2)]
  have h: "tr_holder s = Some i" using ok(1) unlock by blast
  then have "serial (tr_log s') = Some (tr_holder s')" using serial_ended ok(5) unlock by (simp add: goto_def)
  moreover have "tr_pc s' j = Scanning \<longleftrightarrow> tr_holder s' = Some j" for j using unlock h ok(1) [of j] by (auto simp: goto_def)
  ultimately show ?thesis using unlock
    by (intro quiet_step_ok [OF assms(2) unlock(2,1)]) (simp_all add: in_flight_def goto_def)
next
  case (dropped i)
  note ok = triggers_okD [OF assms(2)]
  have "tr_pc s' j = Scanning \<longleftrightarrow> tr_holder s' = Some j" for j using dropped ok(1) [of j] ok(1) [of i] by (auto simp: goto_def)
  then show ?thesis using dropped ok(5)
    by (intro quiet_step_ok [OF assms(2) dropped(2,1)]) (simp_all add: in_flight_def goto_def)
next
  case (direct i)
  note ok = triggers_okD [OF assms(2)]
  have "tr_pc s' j = Scanning \<longleftrightarrow> tr_holder s' = Some j" for j using direct ok(1) [of j] ok(1) [of i] by (auto simp: goto_def)
  then show ?thesis using direct ok(5)
    by (intro quiet_step_ok [OF assms(2) direct(2,1)]) (simp_all add: in_flight_def goto_def)
next
  case (answered i)
  note ok = triggers_okD [OF assms(2)]
  have "tr_pc s' j = Scanning \<longleftrightarrow> tr_holder s' = Some j" for j using answered ok(1) [of j] ok(1) [of i] by (auto simp: goto_def)
  then show ?thesis using answered ok(5)
    by (intro quiet_step_ok [OF assms(2) answered(2,1)]) (simp_all add: in_flight_def goto_def)
qed

lemma trigger_reach_ok: "trigger_reach n kind s \<Longrightarrow> triggers_ok n kind s"
proof (induction rule: trigger_reach.induct)
  case start
  then show ?case by (simp add: triggers_ok_def in_flight_def idle_def)
qed (rule triggers_step_ok)

subsection \<open>Nobody waits for ever\<close>

fun distance :: "pc \<Rightarrow> nat" where
  "distance Called = 4" | "distance Waiting = 3" | "distance Scanning = 2" | "distance Leaving = 1"
| "distance Finished = 0" | "distance Dropped = 0"

definition remaining :: "nat \<Rightarrow> triggers \<Rightarrow> nat" where
  "remaining n s = (\<Sum>i<n. distance (tr_pc s i))"

lemma remaining_goto:
  assumes "i < n" and "distance p < distance (tr_pc s i)" and "tr_pc s' = tr_pc s"
  shows "remaining n (goto i p s') < remaining n s"
  unfolding remaining_def
proof (rule sum_strict_mono_ex1)
  show "\<forall>j \<in> {..<n}. distance (tr_pc (goto i p s') j) \<le> distance (tr_pc s j)"
    using assms(2,3) by (simp add: goto_def)
  show "\<exists>j \<in> {..<n}. distance (tr_pc (goto i p s') j) < distance (tr_pc s j)"
    using assms by (intro bexI [of _ i]) (simp_all add: goto_def)
qed simp

lemma trigger_step_less: "trigger_step n kind s s' \<Longrightarrow> remaining n s' < remaining n s"
  by (induction rule: trigger_step.induct) (simp_all add: remaining_goto)

definition settled :: "nat \<Rightarrow> triggers \<Rightarrow> bool" where
  "settled n s \<longleftrightarrow> (\<forall>i<n. tr_pc s i \<in> {Finished, Dropped}) \<and> \<not> tr_running s \<and> tr_holder s = None"

lemma trigger_progress:
  assumes "triggers_ok n kind s" and "\<not> settled n s"
  shows "\<exists>s'. trigger_step n kind s s'"
proof -
  have "\<exists>i<n. tr_pc s i \<notin> {Finished, Dropped}"
  proof (rule ccontr)
    assume "\<not> ?thesis"
    then have all: "tr_pc s i \<in> {Finished, Dropped}" if "i < n" for i using that by blast
    have "\<not> in_flight n kind s i" for i using all [of i] by (auto simp: in_flight_def)
    then have "\<not> tr_running s" using triggers_okD(4) [OF assms(1)] by blast
    moreover have "tr_holder s = None"
    proof (cases "tr_holder s")
      case (Some i)
      then have "tr_pc s i = Scanning" using triggers_okD(1) [OF assms(1)] by blast
      moreover from this have "i < n" using triggers_okD(2) [OF assms(1), of i] by simp
      ultimately show ?thesis using all [of i] by simp
    qed
    ultimately show False using assms(2) all by (auto simp: settled_def)
  qed
  then obtain i where i: "i < n" "tr_pc s i \<notin> {Finished, Dropped}" by blast
  show ?thesis
  proof (cases "tr_holder s")
    case (Some j)
    then have "tr_pc s j = Scanning" using triggers_okD(1) [OF assms(1)] by blast
    moreover from this have "j < n" using triggers_okD(2) [OF assms(1), of j] by simp
    ultimately have "tr_pc s j = Scanning" "j < n" by blast+
    then show ?thesis by (blast intro: trigger_step.unlock)
  next
    case None
    then have "tr_pc s i \<noteq> Scanning" using triggers_okD(1) [OF assms(1), of i] by simp
    then show ?thesis using i None
      by (cases "tr_pc s i"; cases "kind i"; cases "tr_running s") (blast intro: trigger_step.intros)+
  qed
qed

text \<open>
  C16. However scheduled ticks and admin requests interleave, at most one scan runs at a time,
  the scans follow one another without overlap, the running flag is set exactly while one
  scheduled tick is under way, and a tick is dropped only while another one is.
\<close>

theorem scans_exclusive:
  assumes "trigger_reach n kind s"
  shows "serial (tr_log s) = Some (tr_holder s) \<and>
    (\<forall>i j. tr_pc s i = Scanning \<longrightarrow> tr_pc s j = Scanning \<longrightarrow> i = j) \<and>
    (tr_running s \<longleftrightarrow> (\<exists>!i. in_flight n kind s i)) \<and>
    (\<forall>s' i. trigger_step n kind s s' \<and> tr_pc s i = Called \<and> tr_pc s' i = Dropped \<longrightarrow> (\<exists>j. j \<noteq> i \<and> in_flight n kind s j))"
proof -
  have ok: "triggers_ok n kind s" by (rule trigger_reach_ok [OF assms])
  have "\<exists>j. j \<noteq> i \<and> in_flight n kind s j" if "trigger_step n kind s s'" "tr_pc s i = Called" "tr_pc s' i = Dropped" for s' i
  proof -
    from that have "tr_running s"
      by (cases rule: trigger_step.cases) (auto simp: goto_def split: if_splits)
    then obtain j where j: "in_flight n kind s j" using triggers_okD(4) [OF ok] by blast
    with that(2) have "j \<noteq> i" by (auto simp: in_flight_def)
    with j show ?thesis by blast
  qed
  then have drop: "\<forall>s' i. trigger_step n kind s s' \<and> tr_pc s i = Called \<and> tr_pc s' i = Dropped \<longrightarrow>
      (\<exists>j. j \<noteq> i \<and> in_flight n kind s j)" by blast
  have one: "\<forall>i j. tr_pc s i = Scanning \<longrightarrow> tr_pc s j = Scanning \<longrightarrow> i = j"
    using triggers_okD(1) [OF ok] by simp
  have "tr_running s \<longleftrightarrow> (\<exists>!i. in_flight n kind s i)"
    unfolding triggers_okD(4) [OF ok] using triggers_okD(3) [OF ok] by blast
  with one drop show ?thesis using triggers_okD(5) [OF ok] by blast
qed

text \<open>The first tick is scanning, the second one arrives and is dropped.\<close>

definition two_ticks :: triggers where
  "two_ticks = goto 1 Dropped (goto 0 Scanning ((goto 0 Waiting (idle\<lparr>tr_running := True\<rparr>))
     \<lparr>tr_holder := Some 0, tr_log := [Began 0]\<rparr>))"

lemma two_ticks_reached: "trigger_reach 2 (\<lambda>_. Scheduled) two_ticks"
proof -
  let ?k = "\<lambda>_. Scheduled" and ?s = "goto 0 Waiting (idle\<lparr>tr_running := True\<rparr>)"
  let ?t = "goto 0 Scanning (?s\<lparr>tr_holder := Some 0, tr_log := tr_log ?s @ [Began 0]\<rparr>)"
  have "trigger_step 2 ?k idle ?s" by (rule trigger_step.swapped) (simp_all add: idle_def)
  moreover have "trigger_step 2 ?k ?s ?t" by (rule trigger_step.lock) (simp_all add: idle_def goto_def)
  moreover have "trigger_step 2 ?k ?t (goto 1 Dropped ?t)" by (rule trigger_step.dropped) (simp_all add: idle_def goto_def)
  ultimately have "trigger_reach 2 ?k (goto 1 Dropped ?t)" by (meson trigger_reach.intros)
  then show ?thesis by (simp add: two_ticks_def goto_def idle_def)
qed

theorem scans_exclusive_witness:
  "serial (tr_log two_ticks) = Some (tr_holder two_ticks) \<and> tr_pc two_ticks 0 = Scanning \<and>
   tr_running two_ticks = (\<exists>!i. in_flight 2 (\<lambda>_. Scheduled) two_ticks i)"
  using scans_exclusive [OF two_ticks_reached] by (simp add: two_ticks_def goto_def)

text \<open>
  C17. No call of a scan waits for ever: until all have returned, the flag is clear and the
  mutex free, some thread can go on, and every step of any thread uses up part of a finite
  number.
\<close>

theorem scans_finish:
  assumes "trigger_reach n kind s" and "\<not> settled n s"
  shows "(\<exists>s'. trigger_step n kind s s') \<and> (\<forall>s'. trigger_step n kind s s' \<longrightarrow> remaining n s' < remaining n s)"
  using trigger_progress [OF trigger_reach_ok [OF assms(1)] assms(2)] trigger_step_less by blast

theorem scans_finish_witness:
  "(\<exists>s'. trigger_step 2 (\<lambda>_. Scheduled) two_ticks s') \<and> remaining 2 two_ticks = 2"
proof -
  have "\<not> settled 2 two_ticks" by (simp add: settled_def two_ticks_def goto_def)
  from scans_finish [OF two_ticks_reached this] show ?thesis
    by (simp add: remaining_def two_ticks_def goto_def numeral_2_eq_2)
qed

end
