(* ===== verification/Spec2Isabelle.thy ===== *)
theory Spec2Isabelle
  imports Startup MetadataProvider Migrate Triggers WorkerPg ScannerPg StoreCatalog AppConfig DocFormats LibCfg Confidence
    GoBase64
begin

text \<open>
  Local Ebooks for Silo: a plugin that scans directories for ebooks, keeps them in Postgres, enriches them
  with metadata of fifteen web sources, and serves catalog, covers and files to a portal. This development
  models its Go code (below \<open>src/\<close>: \<open>cmd/silo-plugin-local-ebooks\<close> and \<open>internal/\<close>) as functions over
  explicit state and proves what makes the parts and their composition correct. Definitions carry the names of
  the Go functions they translate; where several Go methods share a name, a prefix tells them apart
  (\<open>gr_Get\<close> is \<open>Goodreads.Get\<close>).

  \<^bold>\<open>The parts and how they meet.\<close> A scan (\<open>runScan\<close>, \<open>runScanOne\<close> in \<open>main.go\<close>) walks the library roots
  (\<open>scanner.Walk\<close>), parses new files (\<open>ebookparse\<close>), stores them (\<open>store\<close>) and enqueues each for enrichment.
  The worker (\<open>EnrichmentWorker.Drain\<close>) leases one job after the other, asks the one configured source for the
  ISBN of the row, else for its ASIN, else for its title and author, merges the match (\<open>ApplyMatch\<close>) and closes the job. A metadata search of the host goes
  through the aggregator, which asks the cache and then all enabled sources, scores the hits and ranks them.
  The host reaches the plugin through the Runtime, HttpRoutes, ScheduledTask and MetadataProvider RPCs; the
  portal and the operator come in over HTTP. \<open>Configure\<close> opens the database, migrates it, seeds the libraries,
  loads the stored configuration and builds the routes.

  \<^bold>\<open>State.\<close> The database is the record \<open>db\<close> (\<open>StoreDb\<close>): tables as lists of rows, with the constraints of the
  schema as \<open>db_ok\<close> and a failing statement as a value of \<open>db_error\<close>. The configured plugin is \<open>plugin\<close> (\<open>Wiring\<close>),
  its environment \<open>wiring\<close>; \<open>Plugin\<close> has the step relation \<open>system_step\<close> over both and \<open>reachable\<close>. The running
  flag and the scan lock of concurrent triggers are the state of \<open>trigger_step\<close> (\<open>Triggers\<close>). Go's \<open>error\<close> is the
  left part of a sum (\<open>res\<close>), a panic is \<open>None\<close>, \<open>int\<close> is \<open>int\<close> with \<open>wrap64\<close> where an operation can overflow, a
  string is a list of bytes.

  \<^bold>\<open>Theories.\<close>
  \<^item> Ground: \<open>Prelude\<close>; the Go library as far as it is used in \<open>GoStrings\<close>, \<open>GoJson\<close>, \<open>GoBase64\<close>, \<open>GoFloat\<close>
    (doubles), \<open>GoTime\<close>, \<open>GoPath\<close>, \<open>GoUrl\<close>, \<open>GoRegexp\<close> (a matcher for patterns as data, sound and complete for the
    relation \<open>eats\<close>), \<open>HttpCore\<close>, \<open>ServeMux\<close>.
  \<^item> Ingestion: \<open>EbookParse\<close>, \<open>Mobi\<close>, \<open>DocFormats\<close> (\<open>ebookparse/\<close>); \<open>LibCfg\<close>; \<open>Scanner\<close> over the locale
    \<open>scan_contract\<close>, \<open>ScannerPg\<close> with its interpretation on the store.
  \<^item> Store: \<open>StoreDb\<close>, \<open>StoreEbook\<close>, \<open>StoreCatalog\<close>, \<open>AppConfig\<close>, \<open>Migrate\<close> (\<open>store/\<close>, \<open>migrate/\<close>).
  \<^item> Enrichment: \<open>MetaTypes\<close>, \<open>Confidence\<close>, \<open>JobQueue\<close>, \<open>CandidateJson\<close>, \<open>CacheStore\<close> (locale \<open>lookup_cache\<close>),
    \<open>Aggregator\<close>, \<open>Worker\<close> over the locale \<open>drain_contract\<close>, \<open>WorkerPg\<close> with its interpretation (\<open>metadata/\<close>).
  \<^item> Sources (\<open>metadata/sources/\<close>): \<open>SourceHttp\<close>, \<open>SourcesOpen\<close>, \<open>SourcesKeyed\<close> for the JSON APIs; \<open>HtmlText\<close> and one
    theory per scraper, \<open>SourcesHtml\<close> and \<open>HtmlLookup\<close> on all eight; \<open>Sources\<close> puts the fifteen behind the locale
    \<open>source_family\<close> and into the registry of the plugin.
  \<^item> Serving: \<open>Tokens\<close>, \<open>EbookBackend\<close> (locale \<open>paged_listing\<close>), \<open>AdminHttp\<close>, \<open>HttpRoutes\<close>, \<open>RuntimeConfig\<close>,
    \<open>MetadataProvider\<close>; \<open>Wiring\<close>, \<open>Plugin\<close>, \<open>Triggers\<close> and \<open>Startup\<close> for \<open>main.go\<close> and \<open>scheduler/\<close>.

  \<^bold>\<open>What the theorems show.\<close>
  \<^item> The plugin: every reachable state is well-formed, with arbitrary sources of the contract (\<open>reachable_ok\<close>) and so with
    the adapters of the code (\<open>reachable_with_adapters\<close>, by \<open>registered_contract\<close>); a scheduled scan completes; two scans never
    run at once and all triggers finish.
  \<^item> Scanning: which rows a walk leaves, that a second scan changes nothing, that nothing is deleted when the view was
    incomplete; what \<open>UpsertEbook\<close> and \<open>DeleteLibrary\<close> do to every table.
  \<^item> Enrichment: a drain terminates when only finitely many outcomes are lost, empties the queue, changes only what it may, writes the merged match, stops on a
    deadline; a leased job is leased once, and the queue refines a life cycle per job. Ranking is sorted, bounded and
    independent of the order of arrival; a cached search gives what the live one gave.
  \<^item> Sources: hits carry source, region and bounds; a lookup depends on one page of its own source
    at most; which hits can be looked up again and which results can be cached; the API key in error texts.
  \<^item> Serving: covers and files need a token of the right kind; listings are complete and scoped to their library; the
    Silo headers of a client are removed; a forwarded request is answered like a direct one; settings are read back as written.

  \<^bold>\<open>Bounds and fuel.\<close> \<open>Drain\<close> takes a list of ticks, one per turn of the Go loop, with the outside events of that turn.
  \<open>Drain_terminates\<close> takes the outside as an infinite stream of ticks: when \<open>f\<close> writes of an outcome are lost in all of it, the
  first \<open>5 * (6 * n + f + 1)\<close> ticks are enough for \<open>n\<close> jobs (a job costs at most six claims, at most four claims fail between two
  jobs, a lost write costs one more claim). Without that bound a drain need not end: \<open>lost_outcomes_loop\<close> is one that never does.
  \<open>wiring_ok\<close> asks for as many ticks, so \<open>None\<close> (ticks used up) is excluded, not assumed away. Every other loop is a
  terminating recursion: the matcher by the rest of the text and the size of the pattern, the MOBI record loop by the bytes
  left, the walk through \<open>__NEXT_DATA__\<close> by its depth limit.

  \<^bold>\<open>Parameters.\<close> The network, the file system, the clock, SHA-1, SHA-256, BLAKE2b and HMAC, \<open>jwt.Parse\<close>, the zip, XML and PDF
  readers, the text form of errors, the byte-level reading of JSON, case folding outside ASCII, and the collation of
  Postgres are arguments of the definitions; what is relied on is a named hypothesis (such as \<open>env_texts\<close>, \<open>wiring_ok\<close>), and each
  has a witness.

  \<^bold>\<open>Not modelled.\<close> The gRPC server and the manifest reader of the SDK, the connection pool and logging (I/O of
  libraries the code calls); the markup and script of the admin page, which is constant up to its theme; the token bucket of
  \<open>golang.org/x/time/rate\<close> (the aggregator sees whether a source was let through in time); goroutines within one search,
  whose results the theorems take in any order.

  \<^bold>\<open>Limits of the model.\<close> A JSONB column keeps the value it is given: that Postgres reorders and deduplicates the members of a raw
  document, and refuses the escape of a lone surrogate, is not represented. There is one database: \<open>onConfigure\<close> keeps
  it when the URL changes, and whether a URL parses is a parameter. The callback of \<open>Configure\<close> is an argument, an absent one being
  the callback that accepts everything; NaN and the infinities are no numbers of the configuration. A source is a function
  of query and region, so its answer does not change between the attempts of a job. In \<open>trigger_step\<close> the body of a scan that
  has begun can end; \<open>scheduled_scan_completes\<close> shows that a single one does.
\<close>

end
